(* ===== verification/Prelude.thy ===== *)
theory Prelude
  imports Complex_Main "HOL-Library.Word" "HOL-Library.Multiset" "HOL-Library.Sublist"
begin

text \<open>
  The prelude of the development: what the components share and the Go language gives them.
  Machine integers are \<open>int\<close> with the signed 64-bit wrap-around written out where a product can
  overflow; outcomes that a collaborator decides (a disk write, a statement, a rename) are read
  from a list of faults; Go's insertion of an element into the sorted tail of a slice is one
  function with its sorting lemmas.
\<close>

named_theorems go_defs "definitions of the Go operations the models use"
named_theorems go_range "range facts of the machine integers"

section \<open>Machine integers\<close>

definition int64_min :: int where
  "int64_min = - (2 ^ 63)"

definition int64_max :: int where
  "int64_max = 2 ^ 63 - 1"

text \<open>Two's complement wrap-around of a 64-bit signed result.\<close>

definition wrap64 :: "int \<Rightarrow> int" where
  "wrap64 n = (n + 2 ^ 63) mod 2 ^ 64 - 2 ^ 63"

definition in_int64 :: "int \<Rightarrow> bool" where
  "in_int64 n \<longleftrightarrow> int64_min \<le> n \<and> n \<le> int64_max"

lemmas int64_defs = int64_min_def int64_max_def in_int64_def wrap64_def

lemma wrap64_id [go_range]: "in_int64 n \<Longrightarrow> wrap64 n = n"
  by (simp add: int64_defs)

lemma wrap64_range [go_range]: "in_int64 (wrap64 n)"
proof -
  have "0 \<le> (n + 2 ^ 63) mod 2 ^ 64" and "(n + 2 ^ 63) mod 2 ^ 64 < (2::int) ^ 64"
    by (rule pos_mod_sign pos_mod_bound, simp)+
  then show ?thesis by (simp add: int64_defs)
qed

text \<open>Go's integer division truncates towards zero.\<close>

definition trunc_div :: "int \<Rightarrow> int \<Rightarrow> int" where
  "trunc_div a b = sgn a * sgn b * (\<bar>a\<bar> div \<bar>b\<bar>)"

definition trunc_mod :: "int \<Rightarrow> int \<Rightarrow> int" where
  "trunc_mod a b = a - b * trunc_div a b"

lemma trunc_div_nonneg [simp]: "0 \<le> a \<Longrightarrow> 0 < b \<Longrightarrow> trunc_div a b = a div b"
  by (cases "a = 0") (auto simp: trunc_div_def)

lemma trunc_div_neg: "a < 0 \<Longrightarrow> 0 < b \<Longrightarrow> trunc_div a b = - ((- a) div b)"
  by (simp add: trunc_div_def)

lemma trunc_div_nonpos: "a \<le> 0 \<Longrightarrow> 0 < b \<Longrightarrow> trunc_div a b \<le> 0"
  by (cases "a = 0") (simp_all add: trunc_div_def pos_imp_zdiv_nonneg_iff)

section \<open>Faults\<close>

text \<open>
  Which of the operations on a disk or a database fail is not the program's to decide. A model
  reads it from a list: \<open>True\<close> at the head is a failure of the next operation, and an exhausted
  list is a collaborator that works from then on. A theorem for every list is a theorem for every
  pattern of failures.
\<close>

type_synonym faults = "bool list"

definition fails_next :: "faults \<Rightarrow> bool" where
  "fails_next fs = (case fs of [] \<Rightarrow> False | f # _ \<Rightarrow> f)"

lemma fails_next_simps [simp]:
  "fails_next [] = False" "fails_next (f # fs) = f"
  by (simp_all add: fails_next_def)

section \<open>Insertion into a sorted slice\<close>

text \<open>
  The inner loop of an insertion sort walks back from the end of the sorted part while the element
  is smaller than the one before it. On the reversed prefix that is one structural recursion.
\<close>

fun sift_back :: "int \<Rightarrow> int list \<Rightarrow> int list" where
  "sift_back x [] = [x]"
| "sift_back x (y # ys) = (if x < y then y # sift_back x ys else x # y # ys)"

definition insertion_sort :: "int list \<Rightarrow> int list" where
  "insertion_sort xs = rev (foldl (\<lambda>acc x. sift_back x acc) [] xs)"

lemma mset_sift_back [simp]: "mset (sift_back x ys) = add_mset x (mset ys)"
  by (induction ys) auto

lemma set_sift_back [simp]: "set (sift_back x ys) = insert x (set ys)"
  by (induction ys) auto

lemma sorted_sift_back: "sorted (rev ys) \<Longrightarrow> sorted (rev (sift_back x ys))"
  by (induction ys) (auto simp: sorted_append)

lemma mset_foldl_sift: "mset (foldl (\<lambda>acc x. sift_back x acc) acc xs) = mset acc + mset xs"
  by (induction xs arbitrary: acc) auto

lemma sorted_foldl_sift:
  "sorted (rev acc) \<Longrightarrow> sorted (rev (foldl (\<lambda>acc x. sift_back x acc) acc xs))"
  by (induction xs arbitrary: acc) (auto intro: sorted_sift_back)

lemma mset_insertion_sort [simp]: "mset (insertion_sort xs) = mset xs"
  by (simp add: insertion_sort_def mset_foldl_sift)

lemma set_insertion_sort [simp]: "set (insertion_sort xs) = set xs"
  using mset_insertion_sort mset_eq_setD by blast

lemma sorted_insertion_sort [simp]: "sorted (insertion_sort xs)"
  by (simp add: insertion_sort_def sorted_foldl_sift)

section \<open>Searching a list\<close>

text \<open>The first element that satisfies a test: a Go loop that returns from its body.\<close>

fun first_such :: "('a \<Rightarrow> bool) \<Rightarrow> 'a list \<Rightarrow> 'a option" where
  "first_such P [] = None"
| "first_such P (x # xs) = (if P x then Some x else first_such P xs)"

lemma first_such_None: "first_such P xs = None \<longleftrightarrow> (\<forall>x\<in>set xs. \<not> P x)"
  by (induction xs) auto

lemma first_such_SomeD: "first_such P xs = Some x \<Longrightarrow> x \<in> set xs \<and> P x"
  by (induction xs) (auto split: if_splits)

lemma first_such_sorted:
  fixes xs :: "'a::linorder list"
  assumes "sorted xs" and "first_such P xs = Some x" and "y \<in> set xs" and "P y"
  shows "x \<le> y"
  using assms by (induction xs) (auto split: if_splits)

lemma first_such_rev_sorted:
  fixes xs :: "'a::linorder list"
  assumes "sorted xs" and "first_such P (rev xs) = Some x" and "y \<in> set xs" and "P y"
  shows "y \<le> x"
  using assms
proof (induction xs rule: rev_induct)
  case Nil
  then show ?case by simp
next
  case (snoc z zs)
  then show ?case by (auto simp: sorted_append split: if_splits dest: first_such_SomeD)
qed

end
