(* ===== verification/GoText.thy ===== *)
theory GoText
  imports Prelude
begin

text \<open>
  Go strings and the parts of \<open>strings\<close>, \<open>strconv\<close> and \<open>fmt\<close> the program uses. A Go string is a
  sequence of bytes, which is what \<open>string\<close> is: one \<open>char\<close> per byte, so a letter outside ASCII is
  the bytes of its UTF-8 encoding, and \<open>length\<close> is Go's \<open>len\<close>.
\<close>

section \<open>Substrings\<close>

fun contains_str :: "string \<Rightarrow> string \<Rightarrow> bool" where
  "contains_str n [] = (n = [])"
| "contains_str n (c # cs) = (prefix n (c # cs) \<or> contains_str n cs)"

lemma contains_str_iff: "contains_str n s \<longleftrightarrow> (\<exists>a b. s = a @ n @ b)"
proof (induction s)
  case Nil
  then show ?case by simp
next
  case (Cons c cs)
  show ?case
  proof
    assume "contains_str n (c # cs)"
    then show "\<exists>a b. c # cs = a @ n @ b"
      using Cons.IH by (auto simp: prefix_def) (metis append_Cons append_Nil)+
  next
    assume "\<exists>a b. c # cs = a @ n @ b"
    then obtain a b where ab: "c # cs = a @ n @ b" by blast
    show "contains_str n (c # cs)"
    proof (cases a)
      case Nil
      with ab show ?thesis by (metis append_Nil contains_str.simps(2) prefixI)
    next
      case (Cons x xs)
      with ab have "cs = xs @ n @ b" by simp
      then show ?thesis using \<open>contains_str n cs \<longleftrightarrow> (\<exists>a b. cs = a @ n @ b)\<close> by auto
    qed
  qed
qed

lemma contains_str_self [simp]: "contains_str n n"
  unfolding contains_str_iff by (metis append_Nil append_Nil2)

lemma contains_str_append: "contains_str n s \<Longrightarrow> contains_str n (a @ s @ b)"
  unfolding contains_str_iff by (metis append.assoc)

text \<open>\<open>strings.Index\<close> and \<open>strings.LastIndex\<close>; \<open>None\<close> is Go's -1.\<close>

fun index_str :: "string \<Rightarrow> string \<Rightarrow> nat option" where
  "index_str n [] = (if n = [] then Some 0 else None)"
| "index_str n (c # cs) = (if prefix n (c # cs) then Some 0 else map_option Suc (index_str n cs))"

fun last_index_str :: "string \<Rightarrow> string \<Rightarrow> nat option" where
  "last_index_str n [] = (if n = [] then Some 0 else None)"
| "last_index_str n (c # cs) =
     (case last_index_str n cs of Some i \<Rightarrow> Some (Suc i)
      | None \<Rightarrow> if prefix n (c # cs) then Some 0 else None)"

lemma last_index_str_None: "last_index_str n s = None \<longleftrightarrow> \<not> contains_str n s"
  by (induction s) (auto split: option.splits)

lemma last_index_str_SomeD: "last_index_str n s = Some i \<Longrightarrow> prefix n (drop i s)"
  by (induction s arbitrary: i) (auto split: option.splits if_splits)

text \<open>\<open>strings.Cut\<close> at a one-byte separator.\<close>

fun cut :: "char \<Rightarrow> string \<Rightarrow> (string \<times> string) option" where
  "cut c [] = None"
| "cut c (x # xs) = (if x = c then Some ([], xs) else map_option (\<lambda>(a, b). (x # a, b)) (cut c xs))"

lemma cut_append: "c \<notin> set a \<Longrightarrow> cut c (a @ c # b) = Some (a, b)"
  by (induction a) auto

lemma cut_SomeD: "cut c s = Some (a, b) \<Longrightarrow> s = a @ c # b \<and> c \<notin> set a"
  by (induction s arbitrary: a) (auto split: if_splits)

fun split_on :: "char \<Rightarrow> string \<Rightarrow> string list" where
  "split_on c [] = [[]]"
| "split_on c (x # xs) =
     (if x = c then [] # split_on c xs
      else (case split_on c xs of [] \<Rightarrow> [[x]] | p # ps \<Rightarrow> (x # p) # ps))"

lemma split_on_nonempty [simp]: "split_on c s \<noteq> []"
  by (induction s) (auto split: list.splits)

lemma split_on_no_sep: "c \<notin> set s \<Longrightarrow> split_on c s = [s]"
  by (induction s) auto

lemma split_on_append: "c \<notin> set a \<Longrightarrow> split_on c (a @ c # b) = a # split_on c b"
  by (induction a) auto

fun join_with :: "string \<Rightarrow> string list \<Rightarrow> string" where
  "join_with sep [] = []"
| "join_with sep [x] = x"
| "join_with sep (x # xs) = x @ sep @ join_with sep xs"

lemma split_on_join:
  "xs \<noteq> [] \<Longrightarrow> \<forall>x\<in>set xs. c \<notin> set x \<Longrightarrow> split_on c (join_with [c] xs) = xs"
proof (induction xs)
  case Nil
  then show ?case by simp
next
  case (Cons x xs)
  show ?case
  proof (cases xs)
    case Nil
    with Cons.prems show ?thesis by (simp add: split_on_no_sep)
  next
    case (Cons y ys)
    with Cons.IH Cons.prems show ?thesis by (simp add: split_on_append)
  qed
qed

definition trim_prefix :: "string \<Rightarrow> string \<Rightarrow> string" where
  "trim_prefix p s = (if prefix p s then drop (length p) s else s)"

definition trim_suffix :: "string \<Rightarrow> string \<Rightarrow> string" where
  "trim_suffix p s = (if suffix p s then take (length s - length p) s else s)"

definition trim_right_set :: "char set \<Rightarrow> string \<Rightarrow> string" where
  "trim_right_set cs s = rev (dropWhile (\<lambda>c. c \<in> cs) (rev s))"

definition trim_left_set :: "char set \<Rightarrow> string \<Rightarrow> string" where
  "trim_left_set cs s = dropWhile (\<lambda>c. c \<in> cs) s"

fun replace_char :: "char \<Rightarrow> char \<Rightarrow> string \<Rightarrow> string" where
  "replace_char a b [] = []"
| "replace_char a b (c # cs) = (if c = a then b else c) # replace_char a b cs"

lemma replace_char_notin: "a \<notin> set s \<Longrightarrow> replace_char a b s = s"
  by (induction s) auto

lemma set_replace_char: "a \<noteq> b \<Longrightarrow> a \<notin> set (replace_char a b s)"
  by (induction s) auto

text \<open>The lines a \<open>bufio.Scanner\<close> delivers: it stops at one of 64 KiB, and the rest is not read.\<close>

definition newline_char :: char where
  "newline_char = CHR 0x0A"

definition scanned_lines :: "string \<Rightarrow> string list" where
  "scanned_lines s =
     (let ls = split_on newline_char s; ls' = (if last ls = [] then butlast ls else ls) in
      takeWhile (\<lambda>l. int (length l) < 65536) ls')"

definition scan_gives_up :: "string \<Rightarrow> bool" where
  "scan_gives_up s \<longleftrightarrow> list_ex (\<lambda>l. 65536 \<le> int (length l)) (split_on newline_char s)"

section \<open>Space\<close>

text \<open>
  \<open>unicode.IsSpace\<close>: six ASCII bytes and the UTF-8 encodings of the other spaces. \<open>TrimSpace\<close>
  removes them from both ends.
\<close>

definition space_seqs :: "string list" where
  "space_seqs =
     [[CHR 0x09], [CHR 0x0A], [CHR 0x0B], [CHR 0x0C], [CHR 0x0D], [CHR 0x20],
      [CHR 0xC2, CHR 0x85], [CHR 0xC2, CHR 0xA0], [CHR 0xE1, CHR 0x9A, CHR 0x80],
      [CHR 0xE2, CHR 0x80, CHR 0x80], [CHR 0xE2, CHR 0x80, CHR 0x81],
      [CHR 0xE2, CHR 0x80, CHR 0x82], [CHR 0xE2, CHR 0x80, CHR 0x83],
      [CHR 0xE2, CHR 0x80, CHR 0x84], [CHR 0xE2, CHR 0x80, CHR 0x85],
      [CHR 0xE2, CHR 0x80, CHR 0x86], [CHR 0xE2, CHR 0x80, CHR 0x87],
      [CHR 0xE2, CHR 0x80, CHR 0x88], [CHR 0xE2, CHR 0x80, CHR 0x89],
      [CHR 0xE2, CHR 0x80, CHR 0x8A], [CHR 0xE2, CHR 0x80, CHR 0xA8],
      [CHR 0xE2, CHR 0x80, CHR 0xA9], [CHR 0xE2, CHR 0x80, CHR 0xAF],
      [CHR 0xE2, CHR 0x81, CHR 0x9F], [CHR 0xE3, CHR 0x80, CHR 0x80]]"

definition leading_space :: "string list \<Rightarrow> string \<Rightarrow> nat" where
  "leading_space seqs s =
     (case first_such (\<lambda>q. prefix q s) seqs of None \<Rightarrow> 0 | Some q \<Rightarrow> length q)"

function drop_spaces :: "string list \<Rightarrow> string \<Rightarrow> string" where
  "drop_spaces seqs s =
     (let n = leading_space seqs s in
      if n = 0 \<or> s = [] then s else drop_spaces seqs (drop n s))"
  by pat_completeness auto
termination
  by (relation "measure (\<lambda>(seqs, s). length s)") auto

declare drop_spaces.simps [simp del]

definition trim_space :: "string \<Rightarrow> string" where
  "trim_space s =
     rev (drop_spaces (map rev space_seqs) (rev (drop_spaces space_seqs s)))"

text \<open>\<open>strings.Fields\<close>: the stretches between spaces.\<close>

function words_from :: "string \<Rightarrow> string \<Rightarrow> string list" where
  "words_from acc s =
     (let out = (if acc = [] then [] else [acc]) in
      case s of
        [] \<Rightarrow> out
      | c # cs \<Rightarrow>
          let n = leading_space space_seqs s in
          if n = 0 then words_from (acc @ [c]) cs else out @ words_from [] (drop n s))"
  by pat_completeness auto
termination
  by (relation "measure (\<lambda>(acc, s). length s)") auto

declare words_from.simps [simp del]

definition words :: "string \<Rightarrow> string list" where
  "words s = words_from [] s"

definition ascii_graph :: "char \<Rightarrow> bool" where
  "ascii_graph c \<longleftrightarrow> 32 < (of_char c :: nat) \<and> (of_char c :: nat) < 127"

lemma space_seqs_not_graph:
  "list_all (\<lambda>q. q \<noteq> [] \<and> \<not> ascii_graph (hd q) \<and> \<not> ascii_graph (last q)) space_seqs"
  by code_simp

lemma leading_space_none:
  assumes "list_all (\<lambda>q. q \<noteq> [] \<and> \<not> ascii_graph (hd q)) seqs" and "s \<noteq> []" and "ascii_graph (hd s)"
  shows "leading_space seqs s = 0"
proof -
  have "\<not> prefix q s" if "q \<in> set seqs" for q
    using that assms by (auto simp: list_all_iff prefix_def)
  then have "first_such (\<lambda>q. prefix q s) seqs = None"
    by (simp add: first_such_None)
  then show ?thesis by (simp add: leading_space_def)
qed

lemma leading_space_graph:
  "s \<noteq> [] \<Longrightarrow> ascii_graph (hd s) \<Longrightarrow> leading_space space_seqs s = 0"
  using space_seqs_not_graph by (intro leading_space_none) (auto simp: list_all_iff)

lemma trailing_space_graph:
  "s \<noteq> [] \<Longrightarrow> ascii_graph (hd s) \<Longrightarrow> leading_space (map rev space_seqs) s = 0"
  using space_seqs_not_graph by (intro leading_space_none) (auto simp: list_all_iff hd_rev)

text \<open>A text that starts and ends with a visible ASCII character is its own trimming.\<close>

lemma trim_space_graph:
  assumes "s = [] \<or> (ascii_graph (hd s) \<and> ascii_graph (last s))"
  shows "trim_space s = s"
proof -
  have 1: "drop_spaces space_seqs s = s"
    using assms leading_space_graph [of s] by (subst drop_spaces.simps) (auto simp: Let_def)
  have 2: "drop_spaces (map rev space_seqs) (rev s) = rev s"
    using assms trailing_space_graph [of "rev s"]
    by (subst drop_spaces.simps) (auto simp: Let_def hd_rev)
  show ?thesis by (simp add: trim_space_def 1 2)
qed

section \<open>Case\<close>

text \<open>
  \<open>strings.ToLower\<close> as far as an ASCII needle can tell: the ASCII capitals, and the two other
  letters whose lower case is an ASCII letter (the Kelvin sign and the dotted capital I).
\<close>

definition lower_char :: "char \<Rightarrow> char" where
  "lower_char c =
     (let n = (of_char c :: nat) in if 65 \<le> n \<and> n \<le> 90 then char_of (n + 32) else c)"

fun to_lower :: "string \<Rightarrow> string" where
  "to_lower (a # b # c # cs) =
     (if a = CHR 0xE2 \<and> b = CHR 0x84 \<and> c = CHR 0xAA then CHR ''k'' # to_lower cs
      else if a = CHR 0xC4 \<and> b = CHR 0xB0 then CHR ''i'' # to_lower (c # cs)
      else lower_char a # to_lower (b # c # cs))"
| "to_lower [a, b] =
     (if a = CHR 0xC4 \<and> b = CHR 0xB0 then [CHR ''i''] else [lower_char a, lower_char b])"
| "to_lower [a] = [lower_char a]"
| "to_lower [] = []"

section \<open>Numbers\<close>

definition digit_char :: "nat \<Rightarrow> char" where
  "digit_char d = char_of (48 + d)"

definition digit_val :: "char \<Rightarrow> nat option" where
  "digit_val c =
     (let n = (of_char c :: nat) in if 48 \<le> n \<and> n \<le> 57 then Some (n - 48) else None)"

lemma digit_val_char [simp]: "d < 10 \<Longrightarrow> digit_val (digit_char d) = Some d"
  by (simp add: digit_val_def digit_char_def)

lemma digit_char_graph: "d < 10 \<Longrightarrow> ascii_graph (digit_char d)"
  by (simp add: digit_char_def ascii_graph_def)

fun nat_text :: "nat \<Rightarrow> string" where
  "nat_text n = (if n < 10 then [digit_char n] else nat_text (n div 10) @ [digit_char (n mod 10)])"

declare nat_text.simps [simp del]

text \<open>\<open>strconv.Itoa\<close> and \<open>FormatInt\<close> in base ten.\<close>

definition itoa :: "int \<Rightarrow> string" where
  "itoa n = (if n < 0 then CHR ''-'' # nat_text (nat (- n)) else nat_text (nat n))"

fun read_digits :: "nat \<Rightarrow> string \<Rightarrow> nat option" where
  "read_digits acc [] = Some acc"
| "read_digits acc (c # cs) =
     (case digit_val c of None \<Rightarrow> None | Some d \<Rightarrow> read_digits (10 * acc + d) cs)"

text \<open>
  \<open>strconv.Atoi\<close>: one optional sign, at least one digit, digits only, and an error outside the
  64-bit range.
\<close>

definition atoi :: "string \<Rightarrow> int option" where
  "atoi s =
     (let neg = (case s of [] \<Rightarrow> False | c # _ \<Rightarrow> c = CHR ''-'');
          ds = (case s of [] \<Rightarrow> [] | c # cs \<Rightarrow> if c = CHR ''-'' \<or> c = CHR ''+'' then cs else s)
      in if ds = [] then None
         else (case read_digits 0 ds of
                 None \<Rightarrow> None
               | Some n \<Rightarrow>
                   let v = (if neg then - int n else int n)
                   in if in_int64 v then Some v else None))"

lemma read_digits_append:
  "read_digits acc (a @ b) = Option.bind (read_digits acc a) (\<lambda>n. read_digits n b)"
  by (induction a arbitrary: acc) (auto split: option.splits)

lemma read_digits_nat_text: "read_digits 0 (nat_text n) = Some n"
proof (induction n rule: nat_text.induct)
  case (1 n)
  show ?case
  proof (cases "n < 10")
    case True
    then show ?thesis by (subst nat_text.simps) simp
  next
    case False
    with "1.IH" show ?thesis
      by (subst nat_text.simps) (simp add: read_digits_append mult.commute)
  qed
qed

lemma nat_text_nonempty [simp]: "nat_text n \<noteq> []"
  by (subst nat_text.simps) simp

lemma nat_text_digits: "c \<in> set (nat_text n) \<Longrightarrow> \<exists>d<10. c = digit_char d"
proof (induction n rule: nat_text.induct)
  case (1 n)
  show ?case
  proof (cases "n < 10")
    case True
    with "1.prems" show ?thesis by (subst (asm) nat_text.simps) auto
  next
    case False
    have "n mod 10 < 10" by simp
    moreover have "c \<in> set (nat_text (n div 10)) \<or> c = digit_char (n mod 10)"
      using False "1.prems" by (auto simp: nat_text.simps [of n])
    ultimately show ?thesis using False "1.IH" by blast
  qed
qed

lemma nat_text_hd: "\<exists>d<10. \<exists>cs. nat_text n = digit_char d # cs"
  using nat_text_digits [of "hd (nat_text n)" n] nat_text_nonempty [of n]
  by (cases "nat_text n") auto

lemma digit_char_not_sign [simp]:
  "d < 10 \<Longrightarrow> digit_char d \<noteq> CHR ''-''" "d < 10 \<Longrightarrow> digit_char d \<noteq> CHR ''+''"
  "d < 10 \<Longrightarrow> digit_char d \<noteq> CHR '':''" "d < 10 \<Longrightarrow> digit_char d \<noteq> CHR ''.''"
  by (auto simp: digit_char_def dest!: arg_cong [of _ _ "of_char :: char \<Rightarrow> nat"])

theorem atoi_itoa: "in_int64 n \<Longrightarrow> atoi (itoa n) = Some n"
proof (cases "n < 0")
  case True
  assume "in_int64 n"
  with True show ?thesis by (simp add: atoi_def itoa_def read_digits_nat_text)
next
  case False
  assume r: "in_int64 n"
  obtain d cs where d: "d < 10" "nat_text (nat n) = digit_char d # cs"
    using nat_text_hd by blast
  have "read_digits 0 (digit_char d # cs) = Some (nat n)"
    using read_digits_nat_text [of "nat n"] d by simp
  with d r False show ?thesis by (simp add: atoi_def itoa_def del: read_digits.simps)
qed

text \<open>\<open>%02d\<close> and \<open>%04d\<close> of a number that is not negative.\<close>

definition pad_zero :: "nat \<Rightarrow> nat \<Rightarrow> string" where
  "pad_zero w n = (let t = nat_text n in replicate (w - length t) CHR ''0'' @ t)"

section \<open>Quoting\<close>

text \<open>
  \<open>%q\<close>: a Go string literal. Bytes outside ASCII are kept, which is what \<open>strconv.Quote\<close> does with
  the letters of a valid UTF-8 text.
\<close>

definition hex_digit :: "nat \<Rightarrow> char" where
  "hex_digit d = (if d < 10 then digit_char d else char_of (87 + d))"

text \<open>\<open>hex.EncodeToString\<close>.\<close>

fun hex_text :: "string \<Rightarrow> string" where
  "hex_text [] = []"
| "hex_text (c # cs) =
     (let n = (of_char c :: nat) in hex_digit (n div 16) # hex_digit (n mod 16) # hex_text cs)"

definition quote_char :: "char \<Rightarrow> string" where
  "quote_char c =
     (let n = (of_char c :: nat) in
      if n = 34 then [CHR 0x5C, CHR 0x22]
      else if n = 92 then [CHR 0x5C, CHR 0x5C]
      else if n = 7 then [CHR 0x5C, CHR ''a'']
      else if n = 8 then [CHR 0x5C, CHR ''b'']
      else if n = 9 then [CHR 0x5C, CHR ''t'']
      else if n = 10 then [CHR 0x5C, CHR ''n'']
      else if n = 11 then [CHR 0x5C, CHR ''v'']
      else if n = 12 then [CHR 0x5C, CHR ''f'']
      else if n = 13 then [CHR 0x5C, CHR ''r'']
      else if n < 32 \<or> n = 127 then
        [CHR 0x5C, CHR ''x'', hex_digit (n div 16), hex_digit (n mod 16)]
      else [c])"

definition quote :: "string \<Rightarrow> string" where
  "quote s = [CHR 0x22] @ concat (map quote_char s) @ [CHR 0x22]"

section \<open>Paths\<close>

definition backslash :: char where
  "backslash = CHR 0x5C"

definition separator :: "string \<Rightarrow> char" where
  "separator goos = (if goos = ''windows'' then backslash else CHR ''/'')"

text \<open>\<open>filepath.Join\<close> of a directory and a path under it, both already clean.\<close>

definition join_path :: "string \<Rightarrow> string \<Rightarrow> string \<Rightarrow> string" where
  "join_path goos dir p = dir @ [separator goos] @ dropWhile (\<lambda>c. c = separator goos) p"

definition under :: "string \<Rightarrow> string \<Rightarrow> string \<Rightarrow> bool" where
  "under goos dir p \<longleftrightarrow> p = dir \<or> prefix (dir @ [separator goos]) p"

end
