(* ===== verification/GoTime.thy ===== *)
theory GoTime
  imports GoText
begin

text \<open>
  Instants, durations and local time, as the program uses the package \<open>time\<close>. An instant is the
  number of nanoseconds since 0001-01-01T00:00:00Z, so Go's zero time is 0; a duration is a number
  of nanoseconds in the 64-bit range. A location is its base offset and the list of its
  transitions, earliest first (a rule that repeats every year is the transitions it makes over the
  years in question), and \<open>localize\<close> is the two-step search of \<open>time.Date\<close>. A calendar day is its
  number; year, month and day of the month appear only where a time is formatted.
\<close>

section \<open>Instants and durations\<close>

type_synonym instant = int
type_synonym duration = int

abbreviation (input) second :: int where "second \<equiv> 1000000000"
abbreviation (input) minute :: int where "minute \<equiv> 60000000000"
abbreviation (input) hour :: int where "hour \<equiv> 3600000000000"

abbreviation (input) zero_time :: instant where "zero_time \<equiv> 0"

definition is_zero :: "instant \<Rightarrow> bool" where
  "is_zero t \<longleftrightarrow> t = 0"

text \<open>\<open>Time.Sub\<close> saturates at the ends of the duration range.\<close>

definition time_sub :: "instant \<Rightarrow> instant \<Rightarrow> duration" where
  "time_sub a b = max int64_min (min int64_max (a - b))"

lemma is_zero_simps [simp]: "is_zero 0" "is_zero t \<longleftrightarrow> t = 0"
  by (simp_all add: is_zero_def)

lemma time_sub_ge [go_range]: "in_int64 d \<Longrightarrow> d \<le> time_sub a b \<longleftrightarrow> d \<le> a - b \<or> d = int64_min"
  by (auto simp: time_sub_def int64_defs)

lemma time_sub_less [go_range]: "in_int64 d \<Longrightarrow> time_sub a b < d \<longleftrightarrow> a - b < d \<and> d \<noteq> int64_min"
  by (auto simp: time_sub_def int64_defs)

lemma time_sub_range [go_range]: "in_int64 (time_sub a b)"
  by (simp add: time_sub_def int64_defs)

lemma time_sub_mono: "a \<le> a' \<Longrightarrow> time_sub a b \<le> time_sub a' b"
  by (simp add: time_sub_def)

lemma time_sub_antimono: "b \<le> b' \<Longrightarrow> time_sub a b' \<le> time_sub a b"
  by (simp add: time_sub_def)

text \<open>
  \<open>Format(time.RFC3339)\<close> followed by \<open>Parse\<close> keeps the instant to the whole second.
\<close>

definition whole_second :: "instant \<Rightarrow> instant" where
  "whole_second t = t - t mod second"

lemma whole_second_le [simp]: "whole_second t \<le> t"
  by (simp add: whole_second_def)

lemma whole_second_close: "t - whole_second t < second"
  by (simp add: whole_second_def)

lemma whole_second_idem [simp]: "whole_second (whole_second t) = whole_second t"
  by (simp add: whole_second_def minus_mod_eq_mult_div)

lemma whole_second_mono: "s \<le> t \<Longrightarrow> whole_second s \<le> whole_second t"
  by (simp add: whole_second_def minus_mod_eq_mult_div zdiv_mono1)

lemma whole_second_0 [simp]: "whole_second 0 = 0"
  by (simp add: whole_second_def)

section \<open>Locations\<close>

record zone =
  base_offset :: int
  transitions :: "(int \<times> int) list"

text \<open>The offset in force at a second, and the span it is in force for.\<close>

fun zone_span ::
  "int \<Rightarrow> int option \<Rightarrow> (int \<times> int) list \<Rightarrow> int \<Rightarrow> int \<times> int option \<times> int option" where
  "zone_span off start [] s = (off, start, None)"
| "zone_span off start ((w, off') # ts) s =
     (if s < w then (off, start, Some w) else zone_span off' (Some w) ts s)"

definition lookup :: "zone \<Rightarrow> int \<Rightarrow> int \<times> int option \<times> int option" where
  "lookup z s = zone_span (base_offset z) None (transitions z) s"

definition offset_at :: "zone \<Rightarrow> int \<Rightarrow> int" where
  "offset_at z s = fst (lookup z s)"

definition outside_span :: "int option \<Rightarrow> int option \<Rightarrow> int \<Rightarrow> bool" where
  "outside_span start fin s \<longleftrightarrow>
     (case start of None \<Rightarrow> False | Some a \<Rightarrow> s < a) \<or> (case fin of None \<Rightarrow> False | Some b \<Rightarrow> b \<le> s)"

text \<open>From seconds on the local wall clock to seconds on the common scale, as \<open>time.Date\<close> does it.\<close>

definition localize :: "zone \<Rightarrow> int \<Rightarrow> int" where
  "localize z u =
     (case lookup z u of (off, start, fin) \<Rightarrow>
        if off = 0 then u
        else if outside_span start fin (u - off) then u - offset_at z (u - off)
        else u - off)"

definition wall_second :: "zone \<Rightarrow> instant \<Rightarrow> int" where
  "wall_second z t = t div second + offset_at z (t div second)"

definition local_day :: "zone \<Rightarrow> instant \<Rightarrow> int" where
  "local_day z t = wall_second z t div 86400"

text \<open>\<open>time.Date\<close> on a day number, an hour and a minute.\<close>

definition go_date :: "zone \<Rightarrow> int \<Rightarrow> int \<Rightarrow> int \<Rightarrow> instant" where
  "go_date z day h m = localize z (day * 86400 + h * 3600 + m * 60) * second"

text \<open>\<open>Time.AddDate(0, 0, n)\<close> keeps the wall clock and the nanoseconds.\<close>

definition add_days :: "zone \<Rightarrow> instant \<Rightarrow> int \<Rightarrow> instant" where
  "add_days z t n = localize z (wall_second z t + n * 86400) * second + t mod second"

text \<open>A location without transitions: UTC, or an offset that never changes.\<close>

definition fixed_zone :: "zone \<Rightarrow> bool" where
  "fixed_zone z \<longleftrightarrow> transitions z = []"

lemma offset_fixed [simp]: "fixed_zone z \<Longrightarrow> offset_at z s = base_offset z"
  by (simp add: fixed_zone_def offset_at_def lookup_def)

lemma localize_fixed [simp]: "fixed_zone z \<Longrightarrow> localize z u = u - base_offset z"
  by (simp add: fixed_zone_def localize_def offset_at_def lookup_def outside_span_def)

lemma wall_second_add_days:
  "fixed_zone z \<Longrightarrow> wall_second z (add_days z t n) = wall_second z t + n * 86400"
  by (simp add: add_days_def wall_second_def)

lemma local_day_add_days [simp]:
  "fixed_zone z \<Longrightarrow> local_day z (add_days z t n) = local_day z t + n"
  by (simp add: local_day_def wall_second_add_days)

lemma go_date_fixed:
  "fixed_zone z \<Longrightarrow> go_date z day h m = (day * 86400 + h * 3600 + m * 60 - base_offset z) * second"
  by (simp add: go_date_def)

text \<open>In such a location an instant lies inside its own local day.\<close>

lemma local_day_bounds:
  assumes "fixed_zone z"
  shows "go_date z (local_day z t) 0 0 \<le> t" and "t < go_date z (local_day z t + 1) 0 0"
proof -
  have q: "t = t div second * second + t mod second" by simp
  have w: "wall_second z t div 86400 * 86400 \<le> wall_second z t"
    "wall_second z t < (wall_second z t div 86400 + 1) * 86400" by simp_all
  have r: "0 \<le> t mod second" "t mod second < second" by simp_all
  show "go_date z (local_day z t) 0 0 \<le> t"
    using q w(1) r by (simp add: go_date_fixed [OF assms] local_day_def wall_second_def assms)
  show "t < go_date z (local_day z t + 1) 0 0"
    using q w(2) r by (simp add: go_date_fixed [OF assms] local_day_def wall_second_def assms)
qed

section \<open>Formatting a minute\<close>

text \<open>
  The civil date of a day number (day 0 is 0001-01-01), counting years from March so that the leap
  day comes last.
\<close>

definition civil_of_day :: "int \<Rightarrow> int \<times> int \<times> int" where
  "civil_of_day n =
     (let z = n + 306; era = z div 146097; doe = z mod 146097;
          yoe = (doe - doe div 1460 + doe div 36524 - doe div 146096) div 365;
          doy = doe - (365 * yoe + yoe div 4 - yoe div 100);
          mp = (5 * doy + 2) div 153;
          d = doy - (153 * mp + 2) div 5 + 1;
          m = (if mp < 10 then mp + 3 else mp - 9)
      in (yoe + era * 400 + (if m \<le> 2 then 1 else 0), m, d))"

text \<open>\<open>Format("2006-01-02T15:04")\<close> of an instant in a location, for the years 0 to 9999.\<close>

definition format_minute :: "zone \<Rightarrow> instant \<Rightarrow> string" where
  "format_minute z t =
     (let w = wall_second z t; s = w mod 86400
      in case civil_of_day (w div 86400) of (y, m, d) \<Rightarrow>
           pad_zero 4 (nat y) @ ''-'' @ pad_zero 2 (nat m) @ ''-'' @ pad_zero 2 (nat d) @ ''T''
           @ pad_zero 2 (nat (s div 3600)) @ '':'' @ pad_zero 2 (nat (s mod 3600 div 60)))"

section \<open>Times as text\<close>

text \<open>
  A column or field of text that is empty, the RFC 3339 form of an instant to the second, or something
  that does not parse.
\<close>

datatype time_text = NoTime | TimeText instant | BadTime

text \<open>\<open>Format\<close> with \<open>time.RFC3339\<close> in UTC.\<close>

definition rfc3339_utc :: "instant \<Rightarrow> string" where
  "rfc3339_utc t =
     (let s = t div second; d = s div 86400; q = s mod 86400; (y, m, dd) = civil_of_day d
      in pad_zero 4 (nat y) @ ''-'' @ pad_zero 2 (nat m) @ ''-'' @ pad_zero 2 (nat dd) @ ''T'' @
         pad_zero 2 (nat (q div 3600)) @ '':'' @ pad_zero 2 (nat (q div 60 mod 60)) @ '':'' @
         pad_zero 2 (nat (q mod 60)) @ ''Z'')"

end
