(* ===== verification/GoFloat.thy ===== *)
theory GoFloat
  imports GoTime
begin

text \<open>
  Double-precision arithmetic as far as the program uses it. A finite \<open>float64\<close> is the rational it
  stands for; each operation is the exact one followed by \<open>round_double\<close>, which keeps 53 significant
  bits and breaks a tie towards the even neighbour. Every value the program computes this way is
  zero or between 1e-19 and 1e22, far inside the range of normal doubles, so there is no overflow
  and no subnormal to consider.
\<close>

section \<open>Rounding\<close>

fun bit_length :: "nat \<Rightarrow> nat" where
  "bit_length n = (if n = 0 then 0 else Suc (bit_length (n div 2)))"

declare bit_length.simps [simp del]

definition round_half_even :: "rat \<Rightarrow> int" where
  "round_half_even q =
     (let f = \<lfloor>q\<rfloor>; r = q - of_int f
      in if r < 1 / 2 then f else if 1 / 2 < r then f + 1 else if even f then f else f + 1)"

text \<open>The exponent \<open>e\<close> with \<open>2^e \<le> q < 2^(e+1)\<close>, for a positive \<open>q\<close>.\<close>

definition exponent :: "rat \<Rightarrow> int" where
  "exponent q =
     (if 1 \<le> q then int (bit_length (nat \<lfloor>q\<rfloor>)) - 1
      else - int (bit_length (nat (\<lceil>1 / q\<rceil> - 1))))"

definition pow2 :: "int \<Rightarrow> rat" where
  "pow2 k = (if 0 \<le> k then 2 ^ nat k else 1 / 2 ^ nat (- k))"

definition round_pos :: "rat \<Rightarrow> rat" where
  "round_pos q = (let u = pow2 (exponent q - 52) in of_int (round_half_even (q / u)) * u)"

definition round_double :: "rat \<Rightarrow> rat" where
  "round_double q = (if q = 0 then 0 else if q < 0 then - round_pos (- q) else round_pos q)"

definition float_of_int :: "int \<Rightarrow> rat" where
  "float_of_int n = round_double (of_int n)"

definition float_div :: "rat \<Rightarrow> rat \<Rightarrow> rat" where
  "float_div a b = round_double (a / b)"

definition float_mul :: "rat \<Rightarrow> rat \<Rightarrow> rat" where
  "float_mul a b = round_double (a * b)"

definition float_add :: "rat \<Rightarrow> rat \<Rightarrow> rat" where
  "float_add a b = round_double (a + b)"

text \<open>\<open>int(f)\<close> truncates.\<close>

definition int_of_float :: "rat \<Rightarrow> int" where
  "int_of_float q = (if q < 0 then - \<lfloor>- q\<rfloor> else \<lfloor>q\<rfloor>)"

text \<open>\<open>%.0f\<close> and \<open>%.1f\<close> of a number that is not negative.\<close>

definition fixed0 :: "rat \<Rightarrow> string" where
  "fixed0 q = itoa (round_half_even q)"

definition fixed1 :: "rat \<Rightarrow> string" where
  "fixed1 q = (let n = round_half_even (q * 10) in itoa (n div 10) @ ''.'' @ itoa (n mod 10))"

section \<open>Rounding is monotone\<close>

lemma round_half_even_bounds:
  "of_int (round_half_even q) \<le> q + 1 / 2" "q - 1 / 2 \<le> of_int (round_half_even q)"
proof -
  have b: "of_int \<lfloor>q\<rfloor> \<le> q" "q < of_int \<lfloor>q\<rfloor> + 1" by linarith+
  have "round_half_even q = \<lfloor>q\<rfloor> \<and> q - of_int \<lfloor>q\<rfloor> \<le> 1 / 2 \<or>
    round_half_even q = \<lfloor>q\<rfloor> + 1 \<and> 1 / 2 \<le> q - of_int \<lfloor>q\<rfloor>"
    by (auto simp: round_half_even_def Let_def not_less)
  with b have "of_int (round_half_even q) \<le> q + 1 / 2 \<and> q - 1 / 2 \<le> of_int (round_half_even q)"
    by (elim disjE conjE; simp; linarith)
  then show "of_int (round_half_even q) \<le> q + 1 / 2" "q - 1 / 2 \<le> of_int (round_half_even q)"
    by auto
qed

lemma round_half_even_int [simp]: "round_half_even (of_int n) = n"
  by (simp add: round_half_even_def)

lemma round_half_even_mono:
  assumes "p \<le> q" shows "round_half_even p \<le> round_half_even q"
proof (cases "\<lfloor>p\<rfloor> = \<lfloor>q\<rfloor>")
  case True
  with assms show ?thesis by (auto simp: round_half_even_def Let_def)
next
  case False
  with assms have f: "\<lfloor>p\<rfloor> + 1 \<le> \<lfloor>q\<rfloor>" by (meson floor_mono int_one_le_iff_zero_less le_less zless_imp_add1_zle)
  have "round_half_even p \<le> \<lfloor>p\<rfloor> + 1" "\<lfloor>q\<rfloor> \<le> round_half_even q"
    by (auto simp: round_half_even_def Let_def)
  with f show ?thesis by linarith
qed

lemma pow2_pos [simp]: "0 < pow2 k"
  by (simp add: pow2_def)

lemma pow2_powi: "pow2 k = 2 powi k"
  by (auto simp: pow2_def power_int_def inverse_eq_divide power_one_over)

lemma pow2_add: "pow2 (a + b) = pow2 a * pow2 b"
  by (simp add: pow2_powi power_int_add)

lemma pow2_mono: "a \<le> b \<Longrightarrow> pow2 a \<le> pow2 b"
  by (simp add: pow2_powi power_int_increasing)

lemma pow2_nat [simp]: "pow2 (int n) = 2 ^ n"
  by (simp add: pow2_def)

lemma bit_length_bounds: "0 < n \<Longrightarrow> 2 ^ (bit_length n - 1) \<le> n \<and> n < 2 ^ bit_length n \<and> 0 < bit_length n"
proof (induction n rule: bit_length.induct)
  case (1 n)
  show ?case
  proof (cases "n = 1")
    case True
    then show ?thesis by (simp add: bit_length.simps)
  next
    case False
    with "1.prems" have p: "0 < n div 2" by simp
    with "1.prems" "1.IH" have h: "2 ^ (bit_length (n div 2) - 1) \<le> n div 2"
      "n div 2 < 2 ^ bit_length (n div 2)" "0 < bit_length (n div 2)" by auto
    have e: "bit_length n = Suc (bit_length (n div 2))" using "1.prems" by (subst bit_length.simps) simp
    have "2 ^ bit_length (n div 2) = 2 * (2 ^ (bit_length (n div 2) - 1) :: nat)"
      using h(3) by (cases "bit_length (n div 2)") auto
    moreover have "2 * (n div 2) \<le> n" "n < 2 * (n div 2) + 2" by simp_all
    ultimately show ?thesis using h unfolding e power_Suc diff_Suc_1 by linarith
  qed
qed

lemma exponent_bounds:
  assumes q: "0 < q"
  shows "pow2 (exponent q) \<le> q" and "q < pow2 (exponent q + 1)"
proof -
  have "pow2 (exponent q) \<le> q \<and> q < pow2 (exponent q + 1)"
  proof (cases "1 \<le> q")
    case True
    define n where "n = nat \<lfloor>q\<rfloor>"
    have n: "0 < n" using True by (simp add: n_def)
    note b = bit_length_bounds [OF n]
    have i: "of_nat n \<le> q" "q < of_nat n + 1"
      using True by (simp_all add: n_def of_nat_nat) linarith+
    have e: "exponent q = int (bit_length n - 1)" "exponent q + 1 = int (bit_length n)"
      using True b by (simp_all add: exponent_def of_nat_diff n_def)
    have "(2::rat) ^ (bit_length n - 1) \<le> of_nat n" using b of_nat_mono by fastforce
    moreover have "of_nat n + 1 \<le> (2::rat) ^ bit_length n"
      using b by (metis Suc_leI of_nat_Suc of_nat_mono of_nat_numeral of_nat_power add.commute)
    ultimately have "2 ^ (bit_length n - 1) \<le> q" "q < 2 ^ bit_length n" using i by linarith+
    then show ?thesis unfolding e(2) unfolding e(1) pow2_nat by blast
  next
    case False
    let ?m = "nat (\<lceil>1 / q\<rceil> - 1)"
    have r: "1 < 1 / q" using False q by simp
    have "1 \<le> \<lceil>1 / q\<rceil>" using less_imp_le [OF r] by linarith
    then have "(of_nat ?m :: rat) = of_int \<lceil>1 / q\<rceil> - 1" by (simp add: of_nat_nat)
    then have c: "of_nat ?m < 1 / q" "1 / q \<le> of_nat ?m + 1" by linarith+
    have m: "0 < ?m" using r by (simp add: less_ceiling_iff)
    note b = bit_length_bounds [OF m]
    have e: "exponent q = - int (bit_length ?m)" using False by (simp add: exponent_def)
    have "of_nat ?m + 1 \<le> (2::rat) ^ bit_length ?m"
      using b by (metis Suc_leI of_nat_Suc of_nat_mono of_nat_numeral of_nat_power add.commute)
    then have "1 / q \<le> 2 ^ bit_length ?m" using c by linarith
    then have 1: "1 / 2 ^ bit_length ?m \<le> q" using q by (simp add: field_simps)
    have "(2::rat) ^ (bit_length ?m - 1) \<le> of_nat ?m" using b of_nat_mono by fastforce
    then have "2 ^ (bit_length ?m - 1) < 1 / q" using c by linarith
    then have 2: "q < 1 / 2 ^ (bit_length ?m - 1)" using q by (simp add: field_simps)
    have "pow2 (exponent q) = 1 / 2 ^ bit_length ?m" using b by (simp add: e pow2_def)
    moreover have "pow2 (exponent q + 1) = 1 / 2 ^ (bit_length ?m - 1)"
      using b by (auto simp: e pow2_def nat_diff_distrib Suc_diff_le)
    ultimately show ?thesis using 1 2 by simp
  qed
  then show "pow2 (exponent q) \<le> q" and "q < pow2 (exponent q + 1)" by auto
qed

lemma round_half_even_le: "q \<le> of_int n \<Longrightarrow> round_half_even q \<le> n"
  using round_half_even_mono [of q "of_int n"] by simp

lemma round_half_even_ge: "of_int n \<le> q \<Longrightarrow> n \<le> round_half_even q"
  using round_half_even_mono [of "of_int n" q] by simp

lemma round_pos_bounds:
  assumes q: "0 < q"
  shows "pow2 (exponent q) \<le> round_pos q" and "round_pos q \<le> pow2 (exponent q + 1)"
proof -
  let ?u = "pow2 (exponent q - 52)"
  have u: "pow2 (exponent q) = 2 ^ 52 * ?u" "pow2 (exponent q + 1) = 2 ^ 53 * ?u"
    using pow2_add [of 52 "exponent q - 52"] pow2_add [of 53 "exponent q - 52"]
      pow2_nat [of 52] pow2_nat [of 53] by (simp_all add: add.commute [of 1])
  have "2 ^ 52 \<le> q / ?u" "q / ?u \<le> 2 ^ 53"
    using exponent_bounds [OF q] by (simp_all add: u pos_le_divide_eq pos_divide_le_eq)
  then have "2 ^ 52 \<le> round_half_even (q / ?u)" "round_half_even (q / ?u) \<le> 2 ^ 53"
    using round_half_even_ge [of "2 ^ 52"] round_half_even_le [of _ "2 ^ 53"] by simp_all
  then have "(2 ^ 52 :: rat) \<le> of_int (round_half_even (q / ?u))"
    "of_int (round_half_even (q / ?u)) \<le> (2 ^ 53 :: rat)"
    by (metis of_int_le_iff of_int_numeral of_int_power)+
  then show "pow2 (exponent q) \<le> round_pos q" and "round_pos q \<le> pow2 (exponent q + 1)"
    unfolding u round_pos_def Let_def using pow2_pos [of "exponent q - 52"] by simp_all
qed

lemma round_pos_mono:
  assumes p: "0 < p" and pq: "p \<le> q"
  shows "round_pos p \<le> round_pos q"
proof (cases "exponent p = exponent q")
  case True
  have "p / pow2 (exponent q - 52) \<le> q / pow2 (exponent q - 52)"
    using pq by (simp add: divide_right_mono less_imp_le)
  then have "round_half_even (p / pow2 (exponent q - 52)) \<le> round_half_even (q / pow2 (exponent q - 52))"
    by (rule round_half_even_mono)
  then show ?thesis using True by (simp add: round_pos_def Let_def)
next
  case False
  have q: "0 < q" using p pq by simp
  have "exponent p + 1 \<le> exponent q"
  proof (rule ccontr)
    assume "\<not> exponent p + 1 \<le> exponent q"
    with False have "exponent q + 1 \<le> exponent p" by simp
    then have "pow2 (exponent q + 1) \<le> pow2 (exponent p)" by (rule pow2_mono)
    with exponent_bounds [OF p] exponent_bounds [OF q] pq show False by linarith
  qed
  then have "pow2 (exponent p + 1) \<le> pow2 (exponent q)" by (rule pow2_mono)
  with round_pos_bounds(2) [OF p] round_pos_bounds(1) [OF q] show ?thesis by linarith
qed

lemma round_pos_pos: "0 < q \<Longrightarrow> 0 < round_pos q"
  using round_pos_bounds(1) [of q] pow2_pos [of "exponent q"] by linarith

lemma round_double_0 [simp]: "round_double 0 = 0"
  by (simp add: round_double_def)

lemma round_double_1 [simp]: "round_double 1 = 1"
  by code_simp

lemma round_double_nonneg: "0 \<le> q \<Longrightarrow> 0 \<le> round_double q"
  using round_pos_pos [of q] by (auto simp: round_double_def)

lemma round_double_pos: "0 < q \<Longrightarrow> 0 < round_double q"
  using round_pos_pos [of q] by (auto simp: round_double_def)

lemma round_double_mono: "0 \<le> p \<Longrightarrow> p \<le> q \<Longrightarrow> round_double p \<le> round_double q"
  using round_pos_mono [of p q] round_pos_pos [of q] by (auto simp: round_double_def)

text \<open>A quotient of whole numbers, the smaller over the larger, is a double between 0 and 1.\<close>

lemma float_ratio_bounds:
  assumes "0 \<le> a" and "a \<le> b" and "0 < b"
  shows "0 \<le> float_div (float_of_int a) (float_of_int b)"
    and "float_div (float_of_int a) (float_of_int b) \<le> 1"
proof -
  have b: "0 < float_of_int b" using assms by (simp add: float_of_int_def round_double_pos)
  have a: "0 \<le> float_of_int a" using assms by (simp add: float_of_int_def round_double_nonneg)
  have "float_of_int a \<le> float_of_int b"
    using assms by (simp add: float_of_int_def round_double_mono)
  with a b have q: "0 \<le> float_of_int a / float_of_int b" "float_of_int a / float_of_int b \<le> 1"
    by simp_all
  show "0 \<le> float_div (float_of_int a) (float_of_int b)"
    using q(1) by (simp add: float_div_def round_double_nonneg)
  show "float_div (float_of_int a) (float_of_int b) \<le> 1"
    using round_double_mono [OF q] by (simp add: float_div_def)
qed

end
