(* ===== verification/Errors.thy ===== *)
theory Errors
  imports GoText
begin

text \<open>
  Error values. A Go error is a sentinel or a message, a message wrapped around one or two other
  errors with \<open>%w\<close>, or the one structured error the program takes apart, \<open>restic.Error\<close>. The text
  of an error, \<open>errors.Is\<close> and \<open>errors.As\<close> are recursions over the chain.
\<close>

section \<open>What a restic exit code means\<close>

definition ExitOK :: int where "ExitOK = 0"
definition ExitFailed :: int where "ExitFailed = 1"
definition ExitGoPanic :: int where "ExitGoPanic = 2"
definition ExitIncomplete :: int where "ExitIncomplete = 3"
definition ExitNoRepository :: int where "ExitNoRepository = 10"
definition ExitLocked :: int where "ExitLocked = 11"
definition ExitWrongPassword :: int where "ExitWrongPassword = 12"

lemmas exit_defs = ExitOK_def ExitFailed_def ExitGoPanic_def ExitIncomplete_def
  ExitNoRepository_def ExitLocked_def ExitWrongPassword_def

definition describe_exit :: "int \<Rightarrow> string" where
  "describe_exit code =
     (if code = ExitOK then ''success''
      else if code = ExitFailed then ''the command failed''
      else if code = ExitGoPanic then ''restic itself crashed''
      else if code = ExitIncomplete then
        ''the snapshot was written but some files could not be read''
      else if code = ExitNoRepository then ''there is no repository at that URL''
      else if code = ExitLocked then ''the repository is locked by another restic''
      else if code = ExitWrongPassword then ''the repository password is wrong''
      else ''unrecognised exit status'')"

section \<open>Error values\<close>

text \<open>\<open>BadRequest\<close> is \<open>eumaeusapi.BadRequest\<close>: a refusal with the server's own explanation.\<close>

datatype err =
    Sentinel string
  | BadRequest (br_status: int) (br_method: string) (br_path: string) (br_message: string)
      (br_field: string) (br_body: string)
  | ResticError (restic_args: "string list") (restic_code: int) (restic_stderr: string)
  | Wrap string err string
  | Wrap2 string err string err string

type_synonym 'a res = "err + 'a"

definition restic_error_text :: "string list \<Rightarrow> int \<Rightarrow> string \<Rightarrow> string" where
  "restic_error_text args code stderr =
     ''restic '' @ join_with '' '' args @ '': exit '' @ itoa code @ '' ('' @ describe_exit code @ '')''
     @ (if stderr = [] then [] else '': '' @ stderr)"

definition ErrBadRequest :: err where
  "ErrBadRequest = Sentinel ''eumaeusapi: the request was rejected as malformed''"

definition ErrUnprocessable :: err where
  "ErrUnprocessable = Sentinel ''eumaeusapi: the server will not act on this yet''"

definition refusal_class :: "int \<Rightarrow> err" where
  "refusal_class status = (if status = 422 then ErrUnprocessable else ErrBadRequest)"

fun sentinel_text :: "err \<Rightarrow> string" where
  "sentinel_text (Sentinel m) = m"
| "sentinel_text _ = []"

fun err_text :: "err \<Rightarrow> string" where
  "err_text (Sentinel m) = m"
| "err_text (BadRequest st m p msg f b) =
     (if msg \<noteq> [] \<and> f \<noteq> [] then msg @ '' ('' @ f @ '')''
      else if msg \<noteq> [] then msg
      else sentinel_text (refusal_class st) @ '': '' @ m @ '' '' @ p @ '': '' @ b)"
| "err_text (ResticError a c s) = restic_error_text a c s"
| "err_text (Wrap p e q) = p @ err_text e @ q"
| "err_text (Wrap2 p e q f r) = p @ err_text e @ q @ err_text f @ r"

fun err_is :: "err \<Rightarrow> err \<Rightarrow> bool" where
  "err_is t (Sentinel m) = (Sentinel m = t)"
| "err_is t (BadRequest st m p msg f b) =
     (BadRequest st m p msg f b = t \<or> refusal_class st = t)"
| "err_is t (ResticError a c s) = (ResticError a c s = t)"
| "err_is t (Wrap p e q) = (Wrap p e q = t \<or> err_is t e)"
| "err_is t (Wrap2 p e q f r) = (Wrap2 p e q f r = t \<or> err_is t e \<or> err_is t f)"

text \<open>\<open>errors.As\<close> to a \<open>*restic.Error\<close>: the first one of the chain, depth first.\<close>

fun as_restic :: "err \<Rightarrow> err option" where
  "as_restic (Sentinel m) = None"
| "as_restic (BadRequest st m p msg f b) = None"
| "as_restic (ResticError a c s) = Some (ResticError a c s)"
| "as_restic (Wrap p e q) = as_restic e"
| "as_restic (Wrap2 p e q f r) = (case as_restic e of None \<Rightarrow> as_restic f | Some x \<Rightarrow> Some x)"

definition incomplete :: "err \<Rightarrow> bool" where
  "incomplete e \<longleftrightarrow> restic_code e = ExitIncomplete"

definition retryable :: "err \<Rightarrow> bool" where
  "retryable e \<longleftrightarrow> restic_code e = ExitLocked"

lemma as_restic_is_restic: "as_restic e = Some r \<Longrightarrow> \<exists>a c s. r = ResticError a c s"
  by (induction e) (auto split: option.splits)

lemma err_is_self [simp]: "err_is e e"
  by (cases e) auto

section \<open>Results\<close>

definition is_ok :: "'a res \<Rightarrow> bool" where
  "is_ok r \<longleftrightarrow> (case r of Inl _ \<Rightarrow> False | Inr _ \<Rightarrow> True)"

lemma is_ok_simps [simp]: "\<not> is_ok (Inl e)" "is_ok (Inr x)"
  by (simp_all add: is_ok_def)

lemma is_ok_iff: "is_ok r \<longleftrightarrow> (\<exists>x. r = Inr x)"
  by (cases r) auto

definition on_ok :: "'a res \<Rightarrow> ('a \<Rightarrow> 'b res) \<Rightarrow> 'b res" where
  "on_ok r f = (case r of Inl e \<Rightarrow> Inl e | Inr x \<Rightarrow> f x)"

lemma on_ok_simps [simp]: "on_ok (Inl e) f = Inl e" "on_ok (Inr x) f = f x"
  by (simp_all add: on_ok_def)

lemma on_ok_Inr_iff: "on_ok r f = Inr y \<longleftrightarrow> (\<exists>x. r = Inr x \<and> f x = Inr y)"
  by (cases r) auto

end
