(* ===== verification/Measure.thy ===== *)
theory Measure
  imports GoFloat Errors
begin

text \<open>
  What is known about the repository itself: the last integrity check
  (\<open>business/domain/plan/planbus/integrity.go\<close>) and the last size measurement
  (\<open>business/domain/plan/planbus/measurement.go\<close>).
\<close>

section \<open>Integrity checks\<close>

record integrity =
  i_repository_url :: string
  checked_at :: instant
  subset_read :: string
  check_ok :: bool
  detail :: string
  skipped_reason :: string

definition zero_integrity :: integrity where
  "zero_integrity =
     \<lparr>i_repository_url = [], checked_at = zero_time, subset_read = [], check_ok = False,
      detail = [], skipped_reason = []\<rparr>"

definition check_every :: duration where
  "check_every = 7 * 24 * hour"

definition check_slice_per_week :: int where "check_slice_per_week = 52"
definition min_check_bytes :: int where "min_check_bytes = 64 * 2 ^ 20"
definition max_check_bytes :: int where "max_check_bytes = 2 ^ 30"

lemmas check_consts = check_slice_per_week_def min_check_bytes_def max_check_bytes_def

definition clamp_slice :: "int \<Rightarrow> int" where
  "clamp_slice want =
     (if want < min_check_bytes then min_check_bytes
      else if max_check_bytes < want then max_check_bytes
      else want)"

definition check_subset :: "int \<Rightarrow> string" where
  "check_subset repository_bytes =
     (let want = clamp_slice (trunc_div repository_bytes check_slice_per_week)
      in itoa (want div 2 ^ 20) @ ''M'')"

definition integrity_due :: "integrity \<Rightarrow> string \<Rightarrow> instant \<Rightarrow> bool" where
  "integrity_due i repository now \<longleftrightarrow>
     (if i_repository_url i \<noteq> repository then True
      else check_every \<le> time_sub now (checked_at i))"

definition integrity_failed :: "integrity \<Rightarrow> bool" where
  "integrity_failed i \<longleftrightarrow> \<not> is_zero (checked_at i) \<and> skipped_reason i = [] \<and> \<not> check_ok i"

text \<open>\<open>Duration.Round\<close>: half of the unit rounds away from zero, and an overflow saturates.\<close>

definition duration_round :: "duration \<Rightarrow> duration \<Rightarrow> duration" where
  "duration_round d m =
     (if m \<le> 0 then d
      else let r = trunc_mod d m in
        if d < 0 then
          (let q = - r in
             if 2 * q < m then d + q
             else if int64_min \<le> d - m + q then d - m + q else int64_min)
        else if 2 * r < m then d - r
        else if d + m - r \<le> int64_max then d + m - r else int64_max)"

text \<open>
  \<open>Duration.String\<close> for a duration of zero or of at least a second, which a duration rounded to
  the minute always is.
\<close>

definition frac_text :: "nat \<Rightarrow> string" where
  "frac_text n =
     (if n = 0 then []
      else ''.'' @ rev (dropWhile (\<lambda>c. c = CHR ''0'') (rev (pad_zero 9 n))))"

definition duration_text :: "duration \<Rightarrow> string" where
  "duration_text d =
     (if d = 0 then ''0s''
      else let u = nat \<bar>d\<bar>; s = u div 1000000000; n = u mod 1000000000;
               secs = nat_text (s mod 60) @ frac_text n @ ''s'';
               mins = nat_text (s div 60 mod 60) @ ''m'' @ secs;
               text = (if s < 60 then secs else if s < 3600 then mins
                       else nat_text (s div 3600) @ ''h'' @ mins)
           in if d < 0 then CHR ''-'' # text else text)"

definition integrity_describe :: "integrity \<Rightarrow> instant \<Rightarrow> string" where
  "integrity_describe i now =
     (if is_zero (checked_at i) then ''never''
      else let ago = duration_text (duration_round (time_sub now (checked_at i)) minute) in
        if skipped_reason i \<noteq> [] then ''skipped '' @ ago @ '' ago: '' @ skipped_reason i
        else if \<not> check_ok i then ''FAILED '' @ ago @ '' ago: '' @ detail i
        else if subset_read i = [] then ''metadata only, '' @ ago @ '' ago''
        else ''sound '' @ ago @ '' ago, having re-read '' @ subset_read i @ '' of the data'')"

section \<open>Measurements\<close>

record measurement =
  m_repository_url :: string
  since :: instant
  measured_at :: instant
  size_now :: int
  size_fresh :: int
  snapshots :: int

definition zero_measurement :: measurement where
  "zero_measurement =
     \<lparr>m_repository_url = [], since = zero_time, measured_at = zero_time, size_now = 0,
      size_fresh = 0, snapshots = 0\<rparr>"

definition reclaimable :: "measurement \<Rightarrow> int" where
  "reclaimable m = (if size_now m \<le> size_fresh m then 0 else wrap64 (size_now m - size_fresh m))"

definition fraction :: "measurement \<Rightarrow> rat" where
  "fraction m =
     (if size_now m \<le> 0 then 0
      else float_div (float_of_int (reclaimable m)) (float_of_int (size_now m)))"

definition measurement_stale :: "measurement \<Rightarrow> instant \<Rightarrow> duration \<Rightarrow> bool" where
  "measurement_stale m now every \<longleftrightarrow>
     is_zero (measured_at m) \<or> every \<le> time_sub now (measured_at m)"

section \<open>Lemmas\<close>

lemma clamp_slice_range: "min_check_bytes \<le> clamp_slice w" "clamp_slice w \<le> max_check_bytes"
  by (simp_all add: clamp_slice_def check_consts)

lemma clamp_slice_mono: "v \<le> w \<Longrightarrow> clamp_slice v \<le> clamp_slice w"
  by (auto simp: clamp_slice_def check_consts)

lemma reclaimable_eq:
  assumes "0 \<le> size_fresh m" and "in_int64 (size_now m)"
  shows "reclaimable m = max 0 (size_now m - size_fresh m)"
proof (cases "size_now m \<le> size_fresh m")
  case True
  then show ?thesis by (simp add: reclaimable_def)
next
  case False
  with assms have "in_int64 (size_now m - size_fresh m)" by (simp add: int64_defs)
  with False show ?thesis by (simp add: reclaimable_def wrap64_id)
qed

section \<open>Properties\<close>



text \<open>the gate of an urgent rotation and the line a person reads agree. A check counts as a failure
  exactly when its description starts with FAILED: a check that never ran, one that was skipped and
  one that found the repository sound are all described as something else.\<close>

theorem integrity_failed_iff_described:
  "integrity_failed i \<longleftrightarrow> prefix ''FAILED '' (integrity_describe i now)"
  by (auto simp: integrity_failed_def integrity_describe_def Let_def)

text \<open>for sizes restic can report, the reclaimable space is what the repository holds beyond its
  newest snapshot and never negative, and the fraction is a double between 0 and 1.\<close>

theorem measurement_bounds:
  assumes "0 \<le> size_fresh m" and "in_int64 (size_now m)"
  shows "reclaimable m = max 0 (size_now m - size_fresh m) \<and> 0 \<le> fraction m \<and> fraction m \<le> 1"
proof -
  have r: "reclaimable m = max 0 (size_now m - size_fresh m)" by (rule reclaimable_eq [OF assms])
  have "0 \<le> fraction m \<and> fraction m \<le> 1"
  proof (cases "size_now m \<le> 0")
    case True
    then show ?thesis by (simp add: fraction_def)
  next
    case False
    then show ?thesis
      using float_ratio_bounds [of "reclaimable m" "size_now m"] assms(1) by (simp add: fraction_def r)
  qed
  with r show ?thesis by simp
qed

theorem measurement_bounds_witness:
  "let m = \<lparr>m_repository_url = ''s3:x'', since = 1, measured_at = 2, size_now = 100,
            size_fresh = 30, snapshots = 4\<rparr>
   in reclaimable m = 70 \<and> fraction m \<le> 1"
  using measurement_bounds [of "\<lparr>m_repository_url = ''s3:x'', since = 1, measured_at = 2,
      size_now = 100, size_fresh = 30, snapshots = 4\<rparr>"]
  by (simp add: int64_defs)

end
