(* ===== verification/Rotation.thy ===== *)
theory Rotation
  imports Measure
begin

text \<open>
  When this machine should move to a fresh bucket, and how hard to say so:
  \<open>business/domain/plan/planbus/rotation.go\<close>. The policy is a function of what the server says
  about the bucket, the last measurement and the last integrity check.
\<close>

section \<open>What the server says\<close>

definition rotate_after :: duration where "rotate_after = 365 * 24 * hour"
definition insist_after :: duration where "insist_after = 2 * 365 * 24 * hour"

text \<open>The levels, in their order.\<close>

datatype urgency = RotationNone | RotationWorthRaising | RotationOverdue | RotationUrgent

fun urgency_rank :: "urgency \<Rightarrow> nat" where
  "urgency_rank RotationNone = 0"
| "urgency_rank RotationWorthRaising = 1"
| "urgency_rank RotationOverdue = 2"
| "urgency_rank RotationUrgent = 3"

instantiation urgency :: linorder
begin

definition less_eq_urgency :: "urgency \<Rightarrow> urgency \<Rightarrow> bool" where
  "less_eq_urgency u v \<longleftrightarrow> urgency_rank u \<le> urgency_rank v"

definition less_urgency :: "urgency \<Rightarrow> urgency \<Rightarrow> bool" where
  "less_urgency u v \<longleftrightarrow> urgency_rank u < urgency_rank v"

instance
proof
  fix u v w :: urgency
  show "u < v \<longleftrightarrow> u \<le> v \<and> \<not> v \<le> u"
    by (auto simp: less_urgency_def less_eq_urgency_def)
  show "u \<le> u" by (simp add: less_eq_urgency_def)
  show "u \<le> v \<Longrightarrow> v \<le> w \<Longrightarrow> u \<le> w" by (simp add: less_eq_urgency_def)
  show "u \<le> v \<Longrightarrow> v \<le> u \<Longrightarrow> u = v"
    by (cases u; cases v; simp add: less_eq_urgency_def)
  show "u \<le> v \<or> v \<le> u" by (simp add: less_eq_urgency_def linear)
qed

end

fun urgency_text :: "urgency \<Rightarrow> string" where
  "urgency_text RotationWorthRaising = ''worth raising''"
| "urgency_text RotationOverdue = ''overdue''"
| "urgency_text RotationUrgent = ''urgent''"
| "urgency_text RotationNone = ''not yet''"

definition StateActive :: string where "StateActive = ''active''"
definition StateCuttingOver :: string where "StateCuttingOver = ''cutting-over''"

record bucket =
  bucket_url :: string
  bucket_created_at :: instant
  bucket_state :: string
  bucket_adopted :: bool

definition cutting_over :: "bucket \<Rightarrow> bool" where
  "cutting_over b \<longleftrightarrow> bucket_state b = StateCuttingOver"

definition bucket_age :: "bucket \<Rightarrow> instant \<Rightarrow> duration" where
  "bucket_age b now =
     (if is_zero (bucket_created_at b) \<or> now < bucket_created_at b then 0
      else time_sub now (bucket_created_at b))"

record offered =
  offered_url :: string
  offered_provider :: string
  offered_region :: string
  offered_bucket :: string
  offered_at :: instant
  offered_adopted :: bool

definition CardNever :: string where "CardNever = ''never''"
definition CardIssued :: string where "CardIssued = ''issued''"
definition CardSuperseded :: string where "CardSuperseded = ''superseded''"

lemmas card_consts = CardNever_def CardIssued_def CardSuperseded_def

record card =
  card_state :: string
  issued_at :: instant

definition card_owed :: "card \<Rightarrow> bool" where
  "card_owed c \<longleftrightarrow> card_state c = CardNever \<or> card_state c = CardSuperseded"

definition destroy_the_old :: "card \<Rightarrow> bool" where
  "destroy_the_old c \<longleftrightarrow> card_state c = CardSuperseded"

record machine_state =
  asked_at :: instant
  ms_node_id :: string
  owner_name :: string
  owner_email :: string
  ms_bucket :: bucket
  ms_offer :: "offered option"
  ms_card :: card
  ms_error :: string

definition zero_machine_state :: machine_state where
  "zero_machine_state =
     \<lparr>asked_at = zero_time, ms_node_id = [], owner_name = [], owner_email = [],
      ms_bucket = \<lparr>bucket_url = [], bucket_created_at = zero_time, bucket_state = [],
                   bucket_adopted = False\<rparr>,
      ms_offer = None, ms_card = \<lparr>card_state = [], issued_at = zero_time\<rparr>, ms_error = []\<rparr>"

definition state_known :: "machine_state \<Rightarrow> bool" where
  "state_known s \<longleftrightarrow> \<not> is_zero (asked_at s)"

definition describes :: "machine_state \<Rightarrow> string \<Rightarrow> bool" where
  "describes s url \<longleftrightarrow> state_known s \<and> bucket_url (ms_bucket s) = url"

section \<open>The suggestion\<close>

definition min_age_for_rotation :: duration where "min_age_for_rotation = 90 * 24 * hour"
definition min_fraction_for_rotation :: rat where "min_fraction_for_rotation = round_double (3 / 10)"
definition min_bytes_for_rotation :: int where "min_bytes_for_rotation = 5 * 2 ^ 30"

record offer =
  show_offer :: bool
  offer_urgency :: urgency
  reasons :: "string list"
  offer_age :: duration
  offer_reclaimable :: int
  offer_fraction :: rat
  discards :: duration
  upload :: int

definition percent :: "rat \<Rightarrow> string" where
  "percent f = fixed0 (float_mul f 100) @ ''%''"

text \<open>\<open>Duration.Hours\<close>: the whole hours and the rest are rounded separately and added.\<close>

definition duration_hours :: "duration \<Rightarrow> rat" where
  "duration_hours d =
     float_add (float_of_int (trunc_div d hour))
       (float_div (float_of_int (trunc_mod d hour)) (of_int hour))"

definition span :: "duration \<Rightarrow> string" where
  "span d =
     (let days = int_of_float (float_div (duration_hours d) 24) in
      if 730 \<le> days then ''more than '' @ itoa (trunc_div days 365) @ '' years''
      else if 365 \<le> days then ''more than a year''
      else if 60 \<le> days then itoa (trunc_div days 30) @ '' months''
      else itoa days @ '' days'')"

definition raise_offer :: "urgency \<Rightarrow> string \<Rightarrow> offer \<Rightarrow> offer" where
  "raise_offer level reason ofr =
     (ofr\<lparr>offer_urgency := (if offer_urgency ofr < level then level else offer_urgency ofr),
          reasons := reasons ofr @ [reason]\<rparr>)"

definition space_reason :: "offer \<Rightarrow> string" where
  "space_reason ofr =
     percent (offer_fraction ofr) @ '' of what this backup stores is old versions of files that have since ''
     @ ''changed or been deleted. A fresh start would free it.''"

definition overdue_reason :: "offer \<Rightarrow> string" where
  "overdue_reason ofr =
     ''This backup has been going to the same place for '' @ span (offer_age ofr) @ ''. Its password and its ''
     @ ''access keys are that old too, and replacing the bucket is the only way '' @ ''to replace them.''"

definition age_reason :: "offer \<Rightarrow> string" where
  "age_reason ofr =
     ''This backup has been going to the same place for '' @ span (offer_age ofr) @ ''. A fresh bucket every ''
     @ ''year or so is how its password and access keys get replaced.''"

definition damage_reason :: string where
  "damage_reason =
     ''The last check could not read this backup back in one piece. What is on ''
     @ ''this computer is still fine; what is in the bucket may not be. A fresh ''
     @ ''bucket, filled from the files themselves, is the repair.''"

definition base_offer :: "instant \<Rightarrow> bucket \<Rightarrow> measurement \<Rightarrow> offer" where
  "base_offer now b m =
     (let age = bucket_age b now in
      \<lparr>show_offer = False, offer_urgency = RotationNone, reasons = [], offer_age = age,
       offer_reclaimable = reclaimable m, offer_fraction = fraction m,
       discards = (if 0 < age then age
                   else if \<not> is_zero (since m) then time_sub now (since m) else 0),
       upload = size_fresh m\<rparr>)"

definition space_argument :: "measurement \<Rightarrow> offer \<Rightarrow> bool" where
  "space_argument m ofr \<longleftrightarrow>
     (\<not> is_zero (measured_at m) \<and> 0 < size_now m) \<and>
     min_age_for_rotation \<le> discards ofr \<and>
     min_fraction_for_rotation \<le> offer_fraction ofr \<and>
     min_bytes_for_rotation \<le> offer_reclaimable ofr"

definition consider_rotation :: "instant \<Rightarrow> bucket \<Rightarrow> measurement \<Rightarrow> integrity \<Rightarrow> offer" where
  "consider_rotation now b m i =
     (let o0 = base_offer now b m;
          o1 = (if space_argument m o0
                then raise_offer RotationWorthRaising (space_reason o0) o0 else o0);
          o2 = (if insist_after \<le> offer_age o1
                then raise_offer RotationOverdue (overdue_reason o1) o1
                else if rotate_after \<le> offer_age o1
                then raise_offer RotationWorthRaising (age_reason o1) o1
                else o1);
          o3 = (if integrity_failed i then raise_offer RotationUrgent damage_reason o2 else o2)
      in o3\<lparr>show_offer := RotationNone < offer_urgency o3\<rparr>)"

definition insisting :: "offer \<Rightarrow> bool" where
  "insisting ofr \<longleftrightarrow> RotationOverdue \<le> offer_urgency ofr"

definition urgent :: "offer \<Rightarrow> bool" where
  "urgent ofr \<longleftrightarrow> RotationUrgent \<le> offer_urgency ofr"

definition estimate :: "offer \<Rightarrow> rat \<Rightarrow> duration" where
  "estimate ofr bytes_per_second =
     (if bytes_per_second \<le> 0 \<or> upload ofr \<le> 0 then 0
      else wrap64 (int_of_float (float_div (float_of_int (upload ofr)) bytes_per_second) * second))"

definition monthly_saving :: "offer \<Rightarrow> rat \<Rightarrow> string" where
  "monthly_saving ofr price_per_tib_month =
     (if price_per_tib_month \<le> 0 \<or> offer_reclaimable ofr \<le> 0 then []
      else let per_month =
             float_mul (float_div (float_of_int (offer_reclaimable ofr)) (2 ^ 40)) price_per_tib_month
        in if per_month < 1 / 2 then ''under $1 a month''
           else ''about $'' @ fixed0 per_month @ '' a month, $''
                @ fixed0 (float_mul per_month 12) @ '' a year'')"

lemmas consider_defs = consider_rotation_def base_offer_def raise_offer_def Let_def

section \<open>Lemmas\<close>

lemmas urgency_order = less_urgency_def less_eq_urgency_def

lemma raise_offer_simps [simp]:
  "offer_age (raise_offer l r ofr) = offer_age ofr"
  "reasons (raise_offer l r ofr) = reasons ofr @ [r]"
  "discards (raise_offer l r ofr) = discards ofr"
  "upload (raise_offer l r ofr) = upload ofr"
  "show_offer (raise_offer l r ofr) = show_offer ofr"
  "offer_urgency (raise_offer l r ofr) = max (offer_urgency ofr) l"
  by (auto simp: raise_offer_def max_def)

lemma urgency_none_least [simp]: "RotationNone \<le> u"
  by (simp add: urgency_order)

lemma urgency_none_max [simp]: "max RotationNone u = u"
  by (simp add: max_def)

lemma urgency_cases_order [simp]:
  "RotationNone < RotationWorthRaising" "RotationNone < RotationOverdue"
  "RotationNone < RotationUrgent" "RotationWorthRaising < RotationOverdue"
  "RotationWorthRaising < RotationUrgent" "RotationOverdue < RotationUrgent"
  "RotationWorthRaising \<le> RotationOverdue" "RotationWorthRaising \<le> RotationUrgent"
  "RotationOverdue \<le> RotationUrgent"
  by (simp_all add: urgency_order)

lemma urgency_max_urgent [simp]: "max u RotationUrgent = RotationUrgent"
  by (cases u) (simp_all add: max_def urgency_order)

lemma insist_implies_rotate: "insist_after \<le> d \<Longrightarrow> rotate_after \<le> d"
  by (simp add: insist_after_def rotate_after_def)

lemma base_offer_simps [simp]:
  "offer_age (base_offer now b m) = bucket_age b now"
  "offer_urgency (base_offer now b m) = RotationNone"
  "reasons (base_offer now b m) = []"
  by (simp_all add: base_offer_def Let_def)

section \<open>Properties\<close>

text \<open>the policy as a table. The suggestion is urgent exactly when the last check that ran failed;
  otherwise it insists exactly when the bucket is two years old, is raised politely exactly when the
  bucket is a year old or the space argument holds, and is absent in every other case. It is shown
  exactly when it has a level, and then it gives a reason.\<close>

theorem consider_spec:
  "offer_urgency (consider_rotation now b m i) =
     (if integrity_failed i then RotationUrgent
      else if insist_after \<le> bucket_age b now then RotationOverdue
      else if rotate_after \<le> bucket_age b now \<or> space_argument m (base_offer now b m)
      then RotationWorthRaising
      else RotationNone) \<and>
   show_offer (consider_rotation now b m i) = (offer_urgency (consider_rotation now b m i) \<noteq> RotationNone) \<and>
   (reasons (consider_rotation now b m i) = [] \<longleftrightarrow> \<not> show_offer (consider_rotation now b m i))"
  by (auto simp: consider_rotation_def Let_def insist_implies_rotate max_def urgency_order)

text \<open>neither a server that has never answered nor a check that was skipped can raise the
  subject: with no creation date and no failed check, only a measurement that meets all three space
  thresholds does, and the bucket of a machine whose clock runs behind is not old.\<close>

theorem consider_silent:
  assumes "bucket_created_at b = 0 \<or> now < bucket_created_at b"
    and "skipped_reason i \<noteq> [] \<or> checked_at i = 0 \<or> check_ok i"
    and "measured_at m = 0 \<or> size_now m \<le> 0 \<or> reclaimable m < min_bytes_for_rotation \<or>
      fraction m < min_fraction_for_rotation"
  shows "\<not> show_offer (consider_rotation now b m i) \<and> reasons (consider_rotation now b m i) = []"
proof -
  have "bucket_age b now = 0" using assms(1) by (auto simp: bucket_age_def)
  moreover have "\<not> integrity_failed i" using assms(2) by (auto simp: integrity_failed_def)
  moreover have "\<not> space_argument m (base_offer now b m)"
    using assms(3) by (auto simp: space_argument_def base_offer_def Let_def)
  ultimately show ?thesis
    by (simp add: consider_rotation_def Let_def insist_after_def rotate_after_def)
qed

theorem consider_silent_witness:
  "\<not> show_offer (consider_rotation (10 ^ 18)
      \<lparr>bucket_url = ''s3:x'', bucket_created_at = 0, bucket_state = [], bucket_adopted = False\<rparr>
      zero_measurement zero_integrity)"
  using consider_silent [of
      "\<lparr>bucket_url = ''s3:x'', bucket_created_at = 0, bucket_state = [], bucket_adopted = False\<rparr>"
      "10 ^ 18" zero_integrity zero_measurement]
  by (simp add: zero_integrity_def zero_measurement_def)

text \<open>The paper card. A reprint is owed in two states, and only one of them says that the old
  paper may be destroyed; a machine in the middle of a cutover, whose card state reads never, is
  told to print but never to destroy the card that still opens its history.\<close>

lemma card_advice:
  "(destroy_the_old c \<longrightarrow> card_owed c) \<and>
   (card_state c = CardNever \<longrightarrow> card_owed c \<and> \<not> destroy_the_old c) \<and>
   (card_state c = CardIssued \<or> card_state c = [] \<longrightarrow> \<not> card_owed c \<and> \<not> destroy_the_old c)"
  by (auto simp: card_owed_def destroy_the_old_def card_consts)

lemma card_advice_witness:
  "card_owed \<lparr>card_state = ''superseded'', issued_at = 0\<rparr> \<and>
   destroy_the_old \<lparr>card_state = ''superseded'', issued_at = 0\<rparr>"
proof -
  have d: "destroy_the_old \<lparr>card_state = ''superseded'', issued_at = 0\<rparr>"
    by (simp add: destroy_the_old_def CardSuperseded_def)
  with card_advice [of "\<lparr>card_state = ''superseded'', issued_at = 0\<rparr>"] show ?thesis by simp
qed

end
