(* ===== verification/Schedule.thy ===== *)
theory Schedule
  imports GoTime Errors
begin

text \<open>
  When a machine backs up: \<open>business/domain/plan/planbus/schedule.go\<close>. A schedule is a list of
  times of day, a jitter and a floor between runs; a run is due when a scheduled instant has passed
  that the machine has not backed up for. The location the Go code takes from the time it is given
  is the argument \<open>z\<close>.
\<close>

unbundle bit_operations_syntax

section \<open>The schedule and its slots\<close>

record schedule =
  times :: "string list"
  jitter_minutes :: int
  min_interval :: duration

definition default_schedule :: schedule where
  "default_schedule = \<lparr>times = [''13:00''], jitter_minutes = 30, min_interval = 6 * hour\<rparr>"

definition parse_time_of_day :: "string \<Rightarrow> (int \<times> int) res" where
  "parse_time_of_day s =
     (case cut CHR '':'' (trim_space s) of
        None \<Rightarrow> Inl (Sentinel (''planbus: '' @ quote s @ '' is not a time of day; write it as HH:MM''))
      | Some (h, m) \<Rightarrow>
          (case atoi h of
             None \<Rightarrow> Inl (Sentinel (''planbus: '' @ quote s @ '' has no valid hour''))
           | Some hr \<Rightarrow>
               if hr < 0 \<or> 23 < hr then Inl (Sentinel (''planbus: '' @ quote s @ '' has no valid hour''))
               else (case atoi m of
                       None \<Rightarrow> Inl (Sentinel (''planbus: '' @ quote s @ '' has no valid minute''))
                     | Some mi \<Rightarrow>
                         if mi < 0 \<or> 59 < mi
                         then Inl (Sentinel (''planbus: '' @ quote s @ '' has no valid minute''))
                         else Inr (hr, mi))))"

text \<open>\<open>Validate\<close>: \<open>None\<close> is Go's nil error. The loop returns the first time it cannot read.\<close>

fun first_bad_time :: "string list \<Rightarrow> err option" where
  "first_bad_time [] = None"
| "first_bad_time (t # ts) =
     (case parse_time_of_day t of Inl e \<Rightarrow> Some e | Inr _ \<Rightarrow> first_bad_time ts)"

definition validate_schedule :: "schedule \<Rightarrow> err option" where
  "validate_schedule s =
     (if times s = []
      then Some (Sentinel ''planbus: the schedule has no times, so nothing would ever run'')
      else (case first_bad_time (times s) of
              Some e \<Rightarrow> Some e
            | None \<Rightarrow>
                if jitter_minutes s < 0 then Some (Sentinel ''planbus: jitter cannot be negative'')
                else if min_interval s < 0
                then Some (Sentinel ''planbus: the minimum interval cannot be negative'')
                else None))"

text \<open>FNV-1a over the bytes of a text, in 64 bits.\<close>

definition fnv1a :: "string \<Rightarrow> 64 word" where
  "fnv1a s =
     foldl (\<lambda>h c. (h XOR of_nat (of_char c)) * 1099511628211) 14695981039346656037 s"

definition jitter :: "zone \<Rightarrow> schedule \<Rightarrow> string \<Rightarrow> instant \<Rightarrow> duration" where
  "jitter z s node slot =
     (if jitter_minutes s \<le> 0 then 0
      else wrap64
             (wrap64 (uint (fnv1a (node @ ''|'' @ format_minute z slot)) mod (jitter_minutes s + 1))
              * minute))"

definition slot_of :: "zone \<Rightarrow> schedule \<Rightarrow> string \<Rightarrow> int \<Rightarrow> string \<Rightarrow> instant option" where
  "slot_of z s node day t =
     (case parse_time_of_day t of
        Inl _ \<Rightarrow> None
      | Inr (h, m) \<Rightarrow> let slot = go_date z day h m in Some (slot + jitter z s node slot))"

definition slots_on :: "zone \<Rightarrow> schedule \<Rightarrow> string \<Rightarrow> instant \<Rightarrow> instant list" where
  "slots_on z s node day =
     insertion_sort (List.map_filter (slot_of z s node (local_day z day)) (times s))"

definition look_back_days :: nat where
  "look_back_days = 3"

fun search_back :: "zone \<Rightarrow> schedule \<Rightarrow> string \<Rightarrow> instant \<Rightarrow> nat list \<Rightarrow> instant" where
  "search_back z s node now [] = zero_time"
| "search_back z s node now (back # rest) =
     (case first_such (\<lambda>t. t \<le> now) (rev (slots_on z s node (add_days z now (- int back)))) of
        Some t \<Rightarrow> t
      | None \<Rightarrow> search_back z s node now rest)"

definition last_slot_at_or_before :: "zone \<Rightarrow> schedule \<Rightarrow> string \<Rightarrow> instant \<Rightarrow> instant" where
  "last_slot_at_or_before z s node now = search_back z s node now [0..<look_back_days + 1]"

definition due :: "zone \<Rightarrow> schedule \<Rightarrow> string \<Rightarrow> instant \<Rightarrow> instant \<Rightarrow> bool" where
  "due z s node now last_run =
     (if is_zero last_run then True
      else if 0 < min_interval s \<and> time_sub now last_run < min_interval s then False
      else (let slot = last_slot_at_or_before z s node now
            in if is_zero slot then False else last_run < slot))"

fun search_ahead :: "zone \<Rightarrow> schedule \<Rightarrow> string \<Rightarrow> instant \<Rightarrow> nat list \<Rightarrow> instant" where
  "search_ahead z s node after [] = zero_time"
| "search_ahead z s node after (ahead # rest) =
     (case first_such (\<lambda>t. after < t) (slots_on z s node (add_days z after (int ahead))) of
        Some t \<Rightarrow> t
      | None \<Rightarrow> search_ahead z s node after rest)"

definition next_slot :: "zone \<Rightarrow> schedule \<Rightarrow> string \<Rightarrow> instant \<Rightarrow> instant" where
  "next_slot z s node after = search_ahead z s node after [0..<2]"

section \<open>Presets\<close>

datatype preset = PresetHourly | PresetThriceDaily | PresetDaily | PresetCustom

definition hourly :: schedule where
  "hourly =
     \<lparr>times = map (\<lambda>h. pad_zero 2 h @ '':00'') [0..<24], jitter_minutes = 10,
      min_interval = 30 * minute\<rparr>"

definition thrice_daily :: schedule where
  "thrice_daily =
     \<lparr>times = [''09:00'', ''13:00'', ''21:00''], jitter_minutes = 20, min_interval = 2 * hour\<rparr>"

definition daily_at :: "string \<Rightarrow> schedule" where
  "daily_at hhmm = default_schedule\<lparr>times := [trim_space hhmm]\<rparr>"

definition count_times :: "string list \<Rightarrow> string \<Rightarrow> nat" where
  "count_times ts = foldl (\<lambda>seen t. seen(trim_space t := seen (trim_space t) + 1)) (\<lambda>_. 0) ts"

fun use_up :: "(string \<Rightarrow> nat) \<Rightarrow> string list \<Rightarrow> bool" where
  "use_up seen [] = True"
| "use_up seen (t # ts) =
     (let key = trim_space t
      in if seen key = 0 then False else use_up (seen(key := seen key - 1)) ts)"

definition same_times :: "string list \<Rightarrow> string list \<Rightarrow> bool" where
  "same_times a b \<longleftrightarrow> (if length a \<noteq> length b then False else use_up (count_times b) a)"

definition preset_of :: "schedule \<Rightarrow> preset" where
  "preset_of s =
     (let n = length (times s) in
      if n = 1 then PresetDaily
      else if n = 3 \<and> same_times (times s) (times thrice_daily) then PresetThriceDaily
      else if n = 24 \<and> same_times (times s) (times hourly) then PresetHourly
      else PresetCustom)"

definition daily_time :: "schedule \<Rightarrow> string" where
  "daily_time s = (case times s of [t] \<Rightarrow> t | _ \<Rightarrow> [])"

lemmas schedule_defs = default_schedule_def hourly_def thrice_daily_def daily_at_def

section \<open>Lemmas\<close>

lemma parse_time_range:
  "parse_time_of_day t = Inr (h, m) \<Longrightarrow> 0 \<le> h \<and> h \<le> 23 \<and> 0 \<le> m \<and> m \<le> 59"
  by (auto simp: parse_time_of_day_def split: option.splits if_splits)

lemma first_bad_time_None: "first_bad_time ts = None \<longleftrightarrow> (\<forall>t\<in>set ts. is_ok (parse_time_of_day t))"
  by (induction ts) (auto split: sum.splits simp: is_ok_def)

lemma validate_scheduleD:
  assumes "validate_schedule s = None"
  shows "times s \<noteq> []" "0 \<le> jitter_minutes s" "0 \<le> min_interval s"
    "t \<in> set (times s) \<Longrightarrow> \<exists>h m. parse_time_of_day t = Inr (h, m)"
  using assms
  by (auto simp: validate_schedule_def first_bad_time_None is_ok_iff split: if_splits option.splits)

text \<open>The jitter of a schedule whose jitter does not overflow a duration.\<close>

definition jitter_fits :: "schedule \<Rightarrow> bool" where
  "jitter_fits s \<longleftrightarrow> jitter_minutes s \<le> 150000000"

lemma jitter_no_wrap:
  assumes "0 < J" and "J \<le> 150000000"
  shows "wrap64 (wrap64 (h mod (J + 1)) * minute) = h mod (J + 1) * minute"
proof -
  have "0 \<le> h mod (J + 1)" "h mod (J + 1) < J + 1"
    using assms by (intro pos_mod_sign pos_mod_bound; simp)+
  moreover obtain r where "h mod (J + 1) = r" by blast
  ultimately have a: "in_int64 (h mod (J + 1))" and b: "in_int64 (h mod (J + 1) * minute)"
    using assms by (simp_all add: int64_defs)
  show ?thesis by (simp only: wrap64_id [OF a] wrap64_id [OF b])
qed

lemma jitter_eq:
  assumes "jitter_fits s" and "0 < jitter_minutes s"
  shows "jitter z s node slot =
    uint (fnv1a (node @ ''|'' @ format_minute z slot)) mod (jitter_minutes s + 1) * minute"
  using assms jitter_no_wrap [of "jitter_minutes s"]
  unfolding jitter_def jitter_fits_def by simp

lemma jitter_bounds:
  assumes "jitter_fits s" and "0 \<le> jitter_minutes s"
  shows "0 \<le> jitter z s node slot" and "jitter z s node slot \<le> jitter_minutes s * minute"
proof -
  have "0 \<le> jitter z s node slot \<and> jitter z s node slot \<le> jitter_minutes s * minute"
  proof (cases "0 < jitter_minutes s")
    case True
    then show ?thesis
      using jitter_eq [OF assms(1) True, of z node slot]
        pos_mod_bound [of "jitter_minutes s + 1"
          "uint (fnv1a (node @ ''|'' @ format_minute z slot))"]
      by simp
  next
    case False
    with assms(2) show ?thesis by (simp add: jitter_def)
  qed
  then show "0 \<le> jitter z s node slot" and "jitter z s node slot \<le> jitter_minutes s * minute"
    by auto
qed

lemma set_slots_on:
  "x \<in> set (slots_on z s node day) \<longleftrightarrow>
    (\<exists>t\<in>set (times s). slot_of z s node (local_day z day) t = Some x)"
  by (auto simp: slots_on_def List.map_filter_def image_iff)

lemma search_back_cases:
  assumes "search_back z s node now bs \<noteq> 0"
  shows "\<exists>b\<in>set bs. search_back z s node now bs \<in> set (slots_on z s node (add_days z now (- int b)))
    \<and> search_back z s node now bs \<le> now"
  using assms
  by (induction bs) (fastforce dest: first_such_SomeD split: option.splits)+

lemma search_ahead_cases:
  assumes "search_ahead z s node after bs \<noteq> 0"
  shows "\<exists>b\<in>set bs. search_ahead z s node after bs \<in> set (slots_on z s node (add_days z after (int b)))
    \<and> after < search_ahead z s node after bs"
  using assms
  by (induction bs) (fastforce dest: first_such_SomeD split: option.splits)+

text \<open>A slot of the schedule on some calendar day.\<close>

definition scheduled :: "zone \<Rightarrow> schedule \<Rightarrow> string \<Rightarrow> instant \<Rightarrow> bool" where
  "scheduled z s node x \<longleftrightarrow> (\<exists>d. \<exists>t\<in>set (times s). slot_of z s node d t = Some x)"

lemma scheduled_slots_on: "x \<in> set (slots_on z s node day) \<Longrightarrow> scheduled z s node x"
  by (auto simp: set_slots_on scheduled_def)

lemma last_slot_scheduled:
  "last_slot_at_or_before z s node now \<noteq> 0 \<Longrightarrow>
    scheduled z s node (last_slot_at_or_before z s node now) \<and>
    last_slot_at_or_before z s node now \<le> now"
  unfolding last_slot_at_or_before_def
  using search_back_cases scheduled_slots_on by blast

section \<open>Days\<close>

text \<open>No slot is pushed over midnight by its jitter.\<close>

definition within_day :: "schedule \<Rightarrow> bool" where
  "within_day s \<longleftrightarrow> 0 \<le> jitter_minutes s \<and> jitter_minutes s < 1440 \<and>
     (\<forall>t\<in>set (times s). case parse_time_of_day t of
        Inl _ \<Rightarrow> True | Inr (h, m) \<Rightarrow> h * 60 + m + jitter_minutes s < 1440)"

lemma slot_of_in_day:
  assumes "fixed_zone z" and "within_day s" and "t \<in> set (times s)" and "slot_of z s node d t = Some x"
  shows "go_date z d 0 0 \<le> x" and "x < go_date z (d + 1) 0 0"
proof -
  from assms(4) obtain h m where p: "parse_time_of_day t = Inr (h, m)"
    and x: "x = go_date z d h m + jitter z s node (go_date z d h m)"
    by (auto simp: slot_of_def Let_def split: sum.splits)
  have w: "h * 60 + m + jitter_minutes s < 1440" and j: "0 \<le> jitter_minutes s" "jitter_fits s"
    using assms(2,3) p by (auto simp: within_day_def jitter_fits_def dest!: bspec split: sum.splits)
  note b = jitter_bounds [OF j(2,1), of z node "go_date z d h m"]
  have r: "0 \<le> h" "0 \<le> m" using parse_time_range [OF p] by auto
  show "go_date z d 0 0 \<le> x" using x b r by (simp add: go_date_fixed [OF assms(1)])
  show "x < go_date z (d + 1) 0 0" using x b r w by (simp add: go_date_fixed [OF assms(1)])
qed

lemma go_date_mono: "fixed_zone z \<Longrightarrow> d \<le> e \<Longrightarrow> go_date z d 0 0 \<le> go_date z e 0 0"
  by (simp add: go_date_fixed)

lemma slots_on_day:
  assumes "fixed_zone z" and "within_day s" and "x \<in> set (slots_on z s node day)"
  shows "go_date z (local_day z day) 0 0 \<le> x" and "x < go_date z (local_day z day + 1) 0 0"
  using assms(3) slot_of_in_day [OF assms(1,2)] by (auto simp: set_slots_on)

lemma sorted_slots_on [simp]: "sorted (slots_on z s node day)"
  by (simp add: slots_on_def)

lemma slots_on_nonempty:
  assumes "validate_schedule s = None"
  shows "slots_on z s node day \<noteq> []"
proof -
  obtain t where t: "t \<in> set (times s)" using validate_scheduleD(1) [OF assms] by (cases "times s") auto
  with validate_scheduleD(4) [OF assms this] obtain h m where "parse_time_of_day t = Inr (h, m)" by blast
  then have "slot_of z s node (local_day z day) t =
    Some (go_date z (local_day z day) h m + jitter z s node (go_date z (local_day z day) h m))"
    by (simp add: slot_of_def Let_def)
  with t have "\<exists>x. x \<in> set (slots_on z s node day)" unfolding set_slots_on by blast
  then show ?thesis by auto
qed


section \<open>The latest slot and the next one\<close>

lemma last_slot_unfold:
  "last_slot_at_or_before z s node now = search_back z s node now [0, 1, 2, 3]"
proof -
  have "[0..<look_back_days + 1] = [0, 1, 2, 3]"
    unfolding look_back_days_def by code_simp
  then show ?thesis by (simp only: last_slot_at_or_before_def)
qed

lemma next_slot_unfold: "next_slot z s node after = search_ahead z s node after [0, 1]"
proof -
  have "[0..<2] = [0, 1::nat]" by code_simp
  then show ?thesis by (simp only: next_slot_def)
qed

lemma last_slot_found:
  assumes z: "fixed_zone z" and v: "validate_schedule s = None" and w: "within_day s"
  shows "\<exists>b\<in>{0, 1}. (\<forall>b'<b. \<forall>y\<in>set (slots_on z s node (add_days z now (- int b'))). now < y) \<and>
    first_such (\<lambda>t. t \<le> now) (rev (slots_on z s node (add_days z now (- int b))))
      = Some (last_slot_at_or_before z s node now)"
proof -
  let ?L = "\<lambda>b::nat. slots_on z s node (add_days z now (- int b))"
  have y: "\<exists>t. first_such (\<lambda>t. t \<le> now) (rev (?L 1)) = Some t"
  proof -
    have "\<forall>t\<in>set (?L 1). t \<le> now"
      using slots_on_day(2) [OF z w] local_day_bounds(1) [OF z, of now]
      by (force simp: z)
    moreover obtain t where "t \<in> set (?L 1)"
      using slots_on_nonempty [OF v] by (metis list.set_intros(1) neq_Nil_conv)
    ultimately show ?thesis using first_such_None [of "\<lambda>t. t \<le> now" "rev (?L 1)"] by auto
  qed
  show ?thesis
  proof (cases "first_such (\<lambda>t. t \<le> now) (rev (?L 0))")
    case None
    then have "\<forall>y\<in>set (?L 0). now < y" by (auto simp: first_such_None)
    with y None show ?thesis
      by (intro bexI [of _ 1]) (auto simp: last_slot_unfold)
  next
    case (Some t)
    then show ?thesis
      by (intro bexI [of _ 0]) (auto simp: last_slot_unfold)
  qed
qed

lemma last_slot_greatest:
  assumes z: "fixed_zone z" and v: "validate_schedule s = None" and w: "within_day s"
    and x: "scheduled z s node x" "x \<le> now"
  shows "x \<le> last_slot_at_or_before z s node now"
proof -
  let ?L = "\<lambda>b::nat. slots_on z s node (add_days z now (- int b))"
  let ?D = "local_day z now"
  let ?l = "last_slot_at_or_before z s node now"
  obtain b where b: "b \<in> {0, 1}" and none: "\<forall>b'<b. \<forall>y\<in>set (?L b'). now < y"
    and some: "first_such (\<lambda>t. t \<le> now) (rev (?L b)) = Some ?l"
    using last_slot_found [OF z v w] by blast
  obtain d t where d: "t \<in> set (times s)" "slot_of z s node d t = Some x"
    using x(1) by (auto simp: scheduled_def)
  note xd = slot_of_in_day [OF z w d]
  have ls: "?l \<in> set (?L b)" using first_such_SomeD [OF some] by simp
  have dD: "d \<le> ?D"
  proof (rule ccontr)
    assume "\<not> d \<le> ?D"
    then have "go_date z (?D + 1) 0 0 \<le> go_date z d 0 0" using go_date_mono [OF z] by simp
    with xd(1) x(2) local_day_bounds(2) [OF z, of now] show False by simp
  qed
  show ?thesis
  proof (cases "d = ?D - int b")
    case True
    then have "x \<in> set (?L b)" using d by (auto simp: set_slots_on z)
    with some x(2) show ?thesis using first_such_rev_sorted sorted_slots_on by blast
  next
    case False
    have "d < ?D - int b"
    proof (rule ccontr)
      assume "\<not> d < ?D - int b"
      with False dD b have "d = ?D" "b = 1" by auto
      then have "x \<in> set (?L 0)" using d by (auto simp: set_slots_on z)
      with none \<open>b = 1\<close> x(2) show False by force
    qed
    then have "go_date z (d + 1) 0 0 \<le> go_date z (?D - int b) 0 0" using go_date_mono [OF z] by simp
    with xd(2) slots_on_day(1) [OF z w ls] show ?thesis by (simp add: z)
  qed
qed

lemma next_slot_found:
  assumes z: "fixed_zone z" and v: "validate_schedule s = None" and w: "within_day s"
  shows "\<exists>b\<in>{0, 1}. (\<forall>b'<b. \<forall>y\<in>set (slots_on z s node (add_days z after (int b'))). y \<le> after) \<and>
    first_such (\<lambda>t. after < t) (slots_on z s node (add_days z after (int b)))
      = Some (next_slot z s node after)"
proof -
  let ?L = "\<lambda>b::nat. slots_on z s node (add_days z after (int b))"
  have y: "\<exists>t. first_such (\<lambda>t. after < t) (?L 1) = Some t"
  proof -
    have "\<forall>t\<in>set (?L 1). after < t"
      using slots_on_day(1) [OF z w] local_day_bounds(2) [OF z, of after] by (force simp: z)
    moreover obtain t where "t \<in> set (?L 1)"
      using slots_on_nonempty [OF v] by (metis list.set_intros(1) neq_Nil_conv)
    ultimately show ?thesis using first_such_None [of "\<lambda>t. after < t" "?L 1"] by auto
  qed
  show ?thesis
  proof (cases "first_such (\<lambda>t. after < t) (?L 0)")
    case None
    then have "\<forall>y\<in>set (?L 0). y \<le> after" by (auto simp: first_such_None)
    with y None show ?thesis by (intro bexI [of _ 1]) (auto simp: next_slot_unfold)
  next
    case (Some t)
    then show ?thesis by (intro bexI [of _ 0]) (auto simp: next_slot_unfold)
  qed
qed

lemma next_slot_least:
  assumes z: "fixed_zone z" and v: "validate_schedule s = None" and w: "within_day s"
    and x: "scheduled z s node x" "after < x"
  shows "next_slot z s node after \<le> x"
proof -
  let ?L = "\<lambda>b::nat. slots_on z s node (add_days z after (int b))"
  let ?D = "local_day z after"
  let ?n = "next_slot z s node after"
  obtain b where b: "b \<in> {0, 1}" and none: "\<forall>b'<b. \<forall>y\<in>set (?L b'). y \<le> after"
    and some: "first_such (\<lambda>t. after < t) (?L b) = Some ?n"
    using next_slot_found [OF z v w] by blast
  obtain d t where d: "t \<in> set (times s)" "slot_of z s node d t = Some x"
    using x(1) by (auto simp: scheduled_def)
  note xd = slot_of_in_day [OF z w d]
  have ns: "?n \<in> set (?L b)" using first_such_SomeD [OF some] by simp
  have dD: "?D \<le> d"
  proof (rule ccontr)
    assume "\<not> ?D \<le> d"
    then have "go_date z (d + 1) 0 0 \<le> go_date z ?D 0 0" using go_date_mono [OF z] by simp
    with xd(2) x(2) local_day_bounds(1) [OF z, of after] show False by simp
  qed
  show ?thesis
  proof (cases "d = ?D + int b")
    case True
    then have "x \<in> set (?L b)" using d by (auto simp: set_slots_on z)
    with some x(2) show ?thesis using first_such_sorted sorted_slots_on by blast
  next
    case False
    have "?D + int b < d"
    proof (rule ccontr)
      assume "\<not> ?D + int b < d"
      with False dD b have "d = ?D" "b = 1" by auto
      then have "x \<in> set (?L 0)" using d by (auto simp: set_slots_on z)
      with none \<open>b = 1\<close> x(2) show False by force
    qed
    then have "go_date z (?D + int b + 1) 0 0 \<le> go_date z d 0 0" using go_date_mono [OF z] by simp
    with xd(1) slots_on_day(2) [OF z w ns] show ?thesis by (simp add: z)
  qed
qed


section \<open>Properties of the scheduler\<close>

definition utc :: zone where
  "utc = \<lparr>base_offset = 0, transitions = []\<rparr>"

definition day_time :: "int \<Rightarrow> int \<Rightarrow> int \<Rightarrow> instant" where
  "day_time day h m = (day * 86400 + h * 3600 + m * 60) * second"

lemma fixed_utc [simp]: "fixed_zone utc"
  by (simp add: fixed_zone_def utc_def)


text \<open>A schedule the witnesses evaluate: 13:00 every day, without jitter.\<close>

definition plain_daily :: schedule where
  "plain_daily = default_schedule\<lparr>jitter_minutes := 0\<rparr>"

lemma plain_daily_ok:
  "validate_schedule plain_daily = None" "within_day plain_daily" "jitter_fits plain_daily"
  "0 \<le> jitter_minutes plain_daily" "min_interval plain_daily = 6 * hour"
  by code_simp+

lemma plain_daily_due:
  "due utc plain_daily ''laptop'' (day_time 739805 14 0) (day_time 739804 13 35)"
  "0 < day_time 739804 13 35" "day_time 739804 13 35 \<noteq> 0"
  by code_simp+


text \<open>a slot is never served twice. Once a run has started at \<open>now\<close>, another one is due at a
  later time only if a further slot was scheduled in between and the floor has passed. This holds
  in every location, daylight saving changes included, and for every stored schedule.\<close>

theorem slot_served_once:
  assumes "due z s node later now" and "now \<noteq> 0"
  shows "(\<exists>x. scheduled z s node x \<and> now < x \<and> x \<le> later) \<and>
    (min_interval s \<le> 0 \<or> min_interval s \<le> time_sub later now)"
  using assms last_slot_scheduled [of z s node later]
  by (auto simp: due_def Let_def not_less split: if_splits)

theorem slot_served_once_witness:
  "due utc plain_daily ''laptop'' (day_time 739805 14 0) (day_time 739804 13 35) \<and>
   (\<exists>x. scheduled utc plain_daily ''laptop'' x \<and>
      day_time 739804 13 35 < x \<and> x \<le> day_time 739805 14 0)"
  using slot_served_once [OF plain_daily_due(1,3)] plain_daily_due(1) by blast

text \<open>the instant shown as the next run is scheduled, lies in the future, and no scheduled instant
  in the future is earlier.\<close>

theorem next_slot_spec:
  assumes z: "fixed_zone z" and v: "validate_schedule s = None" and w: "within_day s"
  shows "scheduled z s node (next_slot z s node after) \<and> after < next_slot z s node after \<and>
    (\<forall>x. scheduled z s node x \<and> after < x \<longrightarrow> next_slot z s node after \<le> x)"
proof -
  obtain b :: nat where "first_such (\<lambda>t. after < t) (slots_on z s node (add_days z after (int b)))
      = Some (next_slot z s node after)"
    using next_slot_found [OF z v w] by blast
  then have "next_slot z s node after \<in> set (slots_on z s node (add_days z after (int b))) \<and>
      after < next_slot z s node after"
    by (rule first_such_SomeD)
  then have "scheduled z s node (next_slot z s node after)" and "after < next_slot z s node after"
    using scheduled_slots_on by auto
  then show ?thesis using next_slot_least [OF z v w] by auto
qed

theorem next_slot_spec_witness:
  "day_time 739805 14 0 < next_slot utc plain_daily ''laptop'' (day_time 739805 14 0)"
  using next_slot_spec [OF fixed_utc plain_daily_ok(1,2)] by blast

text \<open>the slots of a day come out in order, one for each time of the schedule that can be read,
  each between its nominal time and its nominal time plus the jitter.\<close>

theorem slots_on_spec:
  assumes "jitter_fits s" and "0 \<le> jitter_minutes s"
  shows "sorted (slots_on z s node day) \<and>
    mset (slots_on z s node day) = mset (List.map_filter (slot_of z s node (local_day z day)) (times s)) \<and>
    (\<forall>x\<in>set (slots_on z s node day). \<exists>t\<in>set (times s). \<exists>h m.
       parse_time_of_day t = Inr (h, m) \<and> go_date z (local_day z day) h m \<le> x \<and>
       x \<le> go_date z (local_day z day) h m + jitter_minutes s * minute)"
proof (intro conjI ballI)
  fix x assume "x \<in> set (slots_on z s node day)"
  then obtain t where "t \<in> set (times s)" "slot_of z s node (local_day z day) t = Some x"
    by (auto simp: set_slots_on)
  then obtain h m where "t \<in> set (times s)" "parse_time_of_day t = Inr (h, m)"
    "x = go_date z (local_day z day) h m + jitter z s node (go_date z (local_day z day) h m)"
    by (auto simp: slot_of_def Let_def split: sum.splits)
  then show "\<exists>t\<in>set (times s). \<exists>h m.
       parse_time_of_day t = Inr (h, m) \<and> go_date z (local_day z day) h m \<le> x \<and>
       x \<le> go_date z (local_day z day) h m + jitter_minutes s * minute"
    using jitter_bounds [OF assms] by fastforce
qed (simp_all add: slots_on_def)

theorem slots_on_spec_witness:
  "sorted (slots_on utc plain_daily ''laptop'' (day_time 739805 14 0)) \<and>
   slots_on utc plain_daily ''laptop'' (day_time 739805 14 0) = [day_time 739805 13 0]"
proof -
  have "slots_on utc plain_daily ''laptop'' (day_time 739805 14 0) = [day_time 739805 13 0]"
    by code_simp
  with slots_on_spec [OF plain_daily_ok(3,4)] show ?thesis by metis
qed

lemma late_daily:
  "validate_schedule (daily_at ''23:50'') = None" "times (daily_at ''23:50'') = [''23:50'']"
  "min_interval (daily_at ''23:50'') = 6 * hour"
  "parse_time_of_day ''23:50'' = Inr (23, 50)"
  by code_simp+

lemma late_daily_jitter:
  "jitter utc (daily_at ''23:50'') ''laptop'' (day_time 739804 23 50) = 30 * minute"
  "jitter utc (daily_at ''23:50'') ''laptop'' (day_time 739805 23 50) = 19 * minute"
  by code_simp+

lemma late_daily_slots:
  "slot_of utc (daily_at ''23:50'') ''laptop'' 739804 ''23:50'' = Some (day_time 739805 0 20)"
  "local_day utc day = 739804 \<Longrightarrow>
     slots_on utc (daily_at ''23:50'') ''laptop'' day = [day_time 739805 0 20]"
  "local_day utc day = 739805 \<Longrightarrow>
     slots_on utc (daily_at ''23:50'') ''laptop'' day = [day_time 739806 0 9]"
proof -
  have g: "go_date utc 739804 23 50 = day_time 739804 23 50" "go_date utc 739805 23 50 = day_time 739805 23 50"
    by code_simp+
  have s: "slot_of utc (daily_at ''23:50'') ''laptop'' 739804 ''23:50'' = Some (day_time 739805 0 20)"
    "slot_of utc (daily_at ''23:50'') ''laptop'' 739805 ''23:50'' = Some (day_time 739806 0 9)"
    by (simp_all only: slot_of_def late_daily(4) late_daily_jitter g Let_def sum.case prod.case)
      (simp_all add: day_time_def)
  then show "slot_of utc (daily_at ''23:50'') ''laptop'' 739804 ''23:50'' = Some (day_time 739805 0 20)"
    by blast
  show "slots_on utc (daily_at ''23:50'') ''laptop'' day = [day_time 739805 0 20]"
    if "local_day utc day = 739804"
    by (simp only: slots_on_def late_daily(2) that List.map_filter_simps s option.case)
      (simp add: insertion_sort_def)
  show "slots_on utc (daily_at ''23:50'') ''laptop'' day = [day_time 739806 0 9]"
    if "local_day utc day = 739805"
    by (simp only: slots_on_def late_daily(2) that List.map_filter_simps s option.case)
      (simp add: insertion_sort_def)
qed

text \<open>a jitter that carries a slot over midnight breaks the promise that \<open>Next\<close> is the next
  instant a run would start: with a daily time of 23:50 and the default jitter, this machine's slot
  for one day is 00:20 on the following one; asked at 00:05, \<open>Next\<close> looks only at that day and the
  one after, and answers the following night. \<open>Due\<close> looks back and still starts the run.\<close>

theorem next_slot_misses_slot_after_midnight:
  "\<exists>s node after x. validate_schedule s = None \<and> s = daily_at ''23:50'' \<and>
     scheduled utc s node x \<and> after < x \<and> x < next_slot utc s node after \<and>
     due utc s node x (after - 24 * hour)"
proof -
  let ?s = "daily_at ''23:50''" and ?n = "''laptop''"
  have d: "local_day utc (add_days utc (day_time 739805 0 5) (int 0)) = 739805"
    "local_day utc (add_days utc (day_time 739805 0 20) (- int 0)) = 739805"
    "local_day utc (add_days utc (day_time 739805 0 20) (- int 1)) = 739804"
    by code_simp+
  have t: "day_time 739805 0 5 < day_time 739805 0 20" "day_time 739805 0 5 < day_time 739806 0 9"
    "day_time 739805 0 20 < day_time 739806 0 9" "day_time 739805 0 20 \<noteq> 0"
    "day_time 739805 0 5 - 24 * hour \<noteq> 0" "day_time 739805 0 5 - 24 * hour < day_time 739805 0 20"
    "\<not> time_sub (day_time 739805 0 20) (day_time 739805 0 5 - 24 * hour) < 6 * hour"
    by code_simp+
  have n: "next_slot utc ?s ?n (day_time 739805 0 5) = day_time 739806 0 9"
    unfolding next_slot_unfold search_ahead.simps late_daily_slots(3) [OF d(1)] using t by simp
  have l: "last_slot_at_or_before utc ?s ?n (day_time 739805 0 20) = day_time 739805 0 20"
    unfolding last_slot_unfold search_back.simps late_daily_slots(3) [OF d(2)]
      late_daily_slots(2) [OF d(3)] using t by simp
  have "scheduled utc ?s ?n (day_time 739805 0 20)"
    using late_daily_slots(1) unfolding scheduled_def late_daily(2) by auto
  moreover have "due utc ?s ?n (day_time 739805 0 20) (day_time 739805 0 5 - 24 * hour)"
    unfolding due_def l late_daily(3) using t by (simp add: Let_def)
  ultimately show ?thesis using late_daily(1) n t(1,3) by metis
qed

section \<open>Properties of the presets\<close>

lemma count_times_eq: "count_times ts k = count (mset (map trim_space ts)) k"
proof -
  have "foldl (\<lambda>seen t. seen(trim_space t := seen (trim_space t) + 1)) seen ts k =
    seen k + count (mset (map trim_space ts)) k" for seen :: "string \<Rightarrow> nat"
    by (induction ts arbitrary: seen) auto
  then show ?thesis by (simp add: count_times_def)
qed

lemma use_up_iff: "use_up seen ts \<longleftrightarrow> (\<forall>k. count (mset (map trim_space ts)) k \<le> seen k)"
proof (induction ts arbitrary: seen)
  case Nil
  then show ?case by simp
next
  case (Cons t ts)
  let ?k = "trim_space t" and ?M = "mset (map trim_space ts)"
  show ?case
  proof (cases "seen ?k = 0")
    case True
    then have "\<not> count (add_mset ?k ?M) ?k \<le> seen ?k" by simp
    with True show ?thesis by (auto simp: Let_def intro!: exI [of _ ?k])
  next
    case False
    then have "(\<forall>k. count ?M k \<le> (seen(?k := seen ?k - 1)) k) \<longleftrightarrow>
      (\<forall>k. count (add_mset ?k ?M) k \<le> seen k)"
      by (intro iff_allI) auto
    with False Cons.IH show ?thesis by (simp add: Let_def)
  qed
qed

text \<open>two lists of times are the same exactly when they hold the same times the same number of
  times each, whatever their order and the space around them.\<close>

theorem same_times_iff:
  "same_times a b \<longleftrightarrow> mset (map trim_space a) = mset (map trim_space b)"
proof
  assume "same_times a b"
  then have "length a = length b" and "\<forall>k. count (mset (map trim_space a)) k \<le> count (mset (map trim_space b)) k"
    by (auto simp: same_times_def use_up_iff count_times_eq split: if_splits)
  then have "mset (map trim_space a) \<subseteq># mset (map trim_space b)"
    and "size (mset (map trim_space b)) \<le> size (mset (map trim_space a))"
    by (simp_all add: subseteq_mset_def)
  then show "mset (map trim_space a) = mset (map trim_space b)"
    by (metis mset_subset_size not_less subset_mset.le_neq_trans)
next
  assume eq: "mset (map trim_space a) = mset (map trim_space b)"
  then have "length a = length b" by (metis length_map size_mset)
  with eq show "same_times a b" by (simp add: same_times_def use_up_iff count_times_eq)
qed

lemma length_eq_of_mset: "mset (map f xs) = mset (map f ys) \<Longrightarrow> length xs = length ys"
  by (metis length_map size_mset)

lemma preset_lengths: "length (times thrice_daily) = 3" "length (times hourly) = 24"
  by (simp_all add: thrice_daily_def hourly_def)

lemma preset_pick:
  fixes n :: nat
  assumes "P \<longrightarrow> n = 3" and "Q \<longrightarrow> n = 24"
  shows "(if n = 1 then PresetDaily else if n = 3 \<and> P then PresetThriceDaily
      else if n = 24 \<and> Q then PresetHourly else PresetCustom) = PresetThriceDaily \<longleftrightarrow> P"
    and "(if n = 1 then PresetDaily else if n = 3 \<and> P then PresetThriceDaily
      else if n = 24 \<and> Q then PresetHourly else PresetCustom) = PresetHourly \<longleftrightarrow> Q"
  using assms by (cases P; cases Q; simp)+

lemma preset_of_times:
  "preset_of s = PresetThriceDaily \<longleftrightarrow> mset (map trim_space (times s)) = mset (map trim_space (times thrice_daily))"
  "preset_of s = PresetHourly \<longleftrightarrow> mset (map trim_space (times s)) = mset (map trim_space (times hourly))"
proof -
  let ?T = "mset (map trim_space (times thrice_daily))" and ?H = "mset (map trim_space (times hourly))"
  have a: "mset (map trim_space (times s)) = ?T \<longrightarrow> length (times s) = 3"
    using length_eq_of_mset preset_lengths by metis
  have b: "mset (map trim_space (times s)) = ?H \<longrightarrow> length (times s) = 24"
    using length_eq_of_mset preset_lengths by metis
  show "preset_of s = PresetThriceDaily \<longleftrightarrow> mset (map trim_space (times s)) = ?T"
    unfolding preset_of_def Let_def same_times_iff by (rule preset_pick(1) [OF a b])
  show "preset_of s = PresetHourly \<longleftrightarrow> mset (map trim_space (times s)) = ?H"
    unfolding preset_of_def Let_def same_times_iff by (rule preset_pick(2) [OF a b])
qed

text \<open>the presets read back as themselves. A schedule is recognised as hourly or as thrice daily
  exactly when its times are the preset's, in whatever order and spacing they came back from the
  settings page, and a daily one gives back the time it was made with.\<close>

theorem preset_roundtrip:
  "preset_of (daily_at t) = PresetDaily \<and> daily_time (daily_at t) = trim_space t \<and>
   (preset_of s = PresetThriceDaily \<longleftrightarrow>
      mset (map trim_space (times s)) = mset (map trim_space (times thrice_daily))) \<and>
   (preset_of s = PresetHourly \<longleftrightarrow>
      mset (map trim_space (times s)) = mset (map trim_space (times hourly)))"
proof -
  have "preset_of (daily_at t) = PresetDaily" and "daily_time (daily_at t) = trim_space t"
    by (simp_all add: preset_of_def daily_time_def daily_at_def Let_def)
  then show ?thesis by (simp only: preset_of_times simp_thms)
qed

end
