(* ===== verification/Plan.thy ===== *)
theory Plan
  imports Schedule Rotation
begin

text \<open>
  What this machine backs up: \<open>business/domain/plan/planbus/planbus.go\<close>. The domain reads and writes
  through the interface \<open>Storer\<close>, a record of operations on the state of the store; what it relies
  on of a store is the locale \<open>plan_store\<close>, and the lemmas of the domain are proved inside it.
\<close>

section \<open>The plan\<close>

definition ErrNoPlan :: err where
  "ErrNoPlan = Sentinel ''planbus: this machine has no backup plan yet''"

record plan =
  node_id :: string
  repository :: string
  targets :: "string list"
  excludes :: "string list"
  plan_schedule :: schedule
  pack_size_mib :: int
  read_concurrency :: int
  use_fs_snapshot :: bool
  allow_vss_fallback :: bool
  one_file_system :: bool
  paused :: bool
  skip_on_metered :: bool
  skip_larger_than_gb :: int
  style :: string
  confirmed_at :: instant
  updated_at :: instant

definition zero_plan :: plan where
  "zero_plan = \<lparr>node_id = [], repository = [], targets = [], excludes = [],
     plan_schedule = \<lparr>times = [], jitter_minutes = 0, min_interval = 0\<rparr>, pack_size_mib = 0,
     read_concurrency = 0, use_fs_snapshot = False, allow_vss_fallback = False, one_file_system = False,
     paused = False, skip_on_metered = False, skip_larger_than_gb = 0, style = [],
     confirmed_at = zero_time, updated_at = zero_time\<rparr>"

definition confirmed :: "plan \<Rightarrow> bool" where
  "confirmed p \<longleftrightarrow> \<not> is_zero (confirmed_at p)"

definition validate_plan :: "plan \<Rightarrow> err option" where
  "validate_plan p =
     (if node_id p = []
      then Some (Sentinel ''planbus: the plan needs a node ID, so the fleet dashboard can name this machine'')
      else if repository p = [] then Some (Sentinel ''planbus: the plan needs a repository URL'')
      else if skip_larger_than_gb p < 0
      then Some (Sentinel ''planbus: the size limit cannot be negative'')
      else validate_schedule (plan_schedule p))"

definition runnable :: "plan \<Rightarrow> err option" where
  "runnable p =
     (case validate_plan p of
        Some e \<Rightarrow> Some e
      | None \<Rightarrow>
          if targets p = []
          then Some (Sentinel ''planbus: the plan has no targets; a backup of nothing would report success'')
          else None)"

text \<open>\<open>MinInterval\<close> is a \<open>time.Duration\<close>: 64 bits, as every plan the program builds has it.\<close>

definition sized :: "plan \<Rightarrow> bool" where
  "sized p \<longleftrightarrow> in_int64 (min_interval (plan_schedule p))"

record size =
  s_now :: int
  s_fresh :: int
  s_snapshots :: int

section \<open>The store interface\<close>

record 's storer =
  st_get :: "'s \<Rightarrow> plan res \<times> 's"
  st_put :: "plan \<Rightarrow> 's \<Rightarrow> unit res \<times> 's"
  st_seeded :: "'s \<Rightarrow> bool res \<times> 's"
  st_mark_seeded :: "'s \<Rightarrow> unit res \<times> 's"
  st_get_measurement :: "'s \<Rightarrow> measurement res \<times> 's"
  st_put_measurement :: "measurement \<Rightarrow> 's \<Rightarrow> unit res \<times> 's"
  st_get_integrity :: "'s \<Rightarrow> integrity res \<times> 's"
  st_put_integrity :: "integrity \<Rightarrow> 's \<Rightarrow> unit res \<times> 's"
  st_get_machine_state :: "'s \<Rightarrow> machine_state res \<times> 's"
  st_put_machine_state :: "machine_state \<Rightarrow> 's \<Rightarrow> unit res \<times> 's"

section \<open>The operations of the domain\<close>

definition biz_put :: "'s storer \<Rightarrow> plan \<Rightarrow> instant \<Rightarrow> 's \<Rightarrow> unit res \<times> 's" where
  "biz_put st p now s =
     (case validate_plan p of
        Some e \<Rightarrow> (Inl e, s)
      | None \<Rightarrow> st_put st (p\<lparr>updated_at := now\<rparr>) s)"

definition biz_confirm :: "'s storer \<Rightarrow> instant \<Rightarrow> 's \<Rightarrow> unit res \<times> 's" where
  "biz_confirm st now s =
     (case st_get st s of
        (Inl e, s1) \<Rightarrow> (Inl e, s1)
      | (Inr p, s1) \<Rightarrow>
          (case runnable p of
             Some e \<Rightarrow> (Inl e, s1)
           | None \<Rightarrow> st_put st (p\<lparr>confirmed_at := now, updated_at := now\<rparr>) s1))"

definition biz_measurement ::
  "'s storer \<Rightarrow> string \<Rightarrow> instant \<Rightarrow> 's \<Rightarrow> measurement res \<times> 's" where
  "biz_measurement st url now s =
     (case st_get_measurement st s of
        (Inl e, s1) \<Rightarrow> (Inl e, s1)
      | (Inr m, s1) \<Rightarrow>
          if m_repository_url m \<noteq> url
          then (Inr (zero_measurement\<lparr>m_repository_url := url, since := now\<rparr>), s1)
          else (Inr m, s1))"

definition biz_record_measurement ::
  "'s storer \<Rightarrow> string \<Rightarrow> instant \<Rightarrow> instant \<Rightarrow> size \<Rightarrow> 's \<Rightarrow> unit res \<times> 's" where
  "biz_record_measurement st url now since0 sz s =
     st_put_measurement st
       \<lparr>m_repository_url = url, since = (if is_zero since0 then now else since0), measured_at = now,
        size_now = s_now sz, size_fresh = s_fresh sz, snapshots = s_snapshots sz\<rparr> s"

definition biz_seed :: "'s storer \<Rightarrow> plan \<Rightarrow> instant \<Rightarrow> 's \<Rightarrow> bool res \<times> 's" where
  "biz_seed st p now s =
     (case st_seeded st s of
        (Inl e, s1) \<Rightarrow> (Inl e, s1)
      | (Inr done_before, s1) \<Rightarrow>
          if done_before then (Inr False, s1)
          else (case validate_plan p of
            Some e \<Rightarrow> (Inl (Wrap ''the seed configuration is not usable: '' e []), s1)
          | None \<Rightarrow>
              (case st_put st (p\<lparr>updated_at := now\<rparr>) s1 of
                 (Inl e, s2) \<Rightarrow> (Inl e, s2)
               | (Inr _, s2) \<Rightarrow>
                   (case st_mark_seeded st s2 of
                      (Inl e, s3) \<Rightarrow> (Inl e, s3)
                    | (Inr _, s3) \<Rightarrow> (Inr True, s3)))))"

definition biz_integrity :: "'s storer \<Rightarrow> string \<Rightarrow> 's \<Rightarrow> integrity res \<times> 's" where
  "biz_integrity st url s =
     (case st_get_integrity st s of
        (Inl e, s1) \<Rightarrow> (Inl e, s1)
      | (Inr i, s1) \<Rightarrow>
          if i_repository_url i \<noteq> url then (Inr zero_integrity, s1) else (Inr i, s1))"

definition biz_record_integrity :: "'s storer \<Rightarrow> integrity \<Rightarrow> 's \<Rightarrow> unit res \<times> 's" where
  "biz_record_integrity st i s = st_put_integrity st i s"

definition biz_machine_state :: "'s storer \<Rightarrow> 's \<Rightarrow> machine_state res \<times> 's" where
  "biz_machine_state st s = st_get_machine_state st s"

definition biz_record_machine_state :: "'s storer \<Rightarrow> machine_state \<Rightarrow> 's \<Rightarrow> unit res \<times> 's" where
  "biz_record_machine_state st m s = st_put_machine_state st m s"

definition biz_record_state_failure :: "'s storer \<Rightarrow> string \<Rightarrow> 's \<Rightarrow> unit res \<times> 's" where
  "biz_record_state_failure st reason s =
     (case st_get_machine_state st s of
        (Inl e, s1) \<Rightarrow> (Inl e, s1)
      | (Inr m, s1) \<Rightarrow> st_put_machine_state st (m\<lparr>ms_error := reason\<rparr>) s1)"

lemmas biz_defs = biz_put_def biz_confirm_def biz_measurement_def biz_record_measurement_def
  biz_seed_def biz_integrity_def biz_record_integrity_def biz_machine_state_def
  biz_record_machine_state_def biz_record_state_failure_def

section \<open>The steps of the domain\<close>

text \<open>
  Every way the domain changes the store: the calls of the daemon, of the status page and of the
  command line, in any order and with any arguments, whether they succeed or fail.
\<close>

inductive plan_step :: "'s storer \<Rightarrow> 's \<Rightarrow> 's \<Rightarrow> bool" for st where
  step_put: "sized p \<Longrightarrow> plan_step st s (snd (biz_put st p now s))"
| step_confirm: "plan_step st s (snd (biz_confirm st now s))"
| step_seed: "sized p \<Longrightarrow> plan_step st s (snd (biz_seed st p now s))"
| step_measure: "plan_step st s (snd (biz_record_measurement st url now since0 sz s))"
| step_integrity: "plan_step st s (snd (biz_record_integrity st i s))"
| step_state: "plan_step st s (snd (biz_record_machine_state st m s))"
| step_failure: "plan_step st s (snd (biz_record_state_failure st reason s))"

inductive plan_steps :: "'s storer \<Rightarrow> 's \<Rightarrow> 's \<Rightarrow> bool" for st where
  steps_none: "plan_steps st s s"
| steps_more: "plan_steps st s t \<Longrightarrow> plan_step st t u \<Longrightarrow> plan_steps st s u"

section \<open>What the domain relies on\<close>

text \<open>
  The laws of a store: what it holds can be read as a plan, a seed marker and three records; a read
  answers with what is held or fails, and changes nothing; a write that succeeds is held from then
  on in the form \<open>stored\<close> gives it, and a write that fails leaves everything as it was. A plan and
  its stored form are equally valid and name the same things.
\<close>

locale plan_store =
  fixes st :: "'s storer"
    and plan_of :: "'s \<Rightarrow> plan option"
    and seeded_of :: "'s \<Rightarrow> bool"
    and measurement_of :: "'s \<Rightarrow> measurement"
    and integrity_of :: "'s \<Rightarrow> integrity"
    and state_of :: "'s \<Rightarrow> machine_state"
    and stored :: "plan \<Rightarrow> plan"
  assumes get_view: "st_get st s = (rp, s') \<Longrightarrow>
      (\<forall>p. rp = Inr p \<longrightarrow> plan_of s = Some p) \<and> plan_of s' = plan_of s \<and> seeded_of s' = seeded_of s"
    and put_ok: "st_put st p s = (Inr u, s') \<Longrightarrow>
      plan_of s' = Some (stored p) \<and> seeded_of s' = seeded_of s"
    and put_err: "st_put st p s = (Inl e, s') \<Longrightarrow> plan_of s' = plan_of s \<and> seeded_of s' = seeded_of s"
    and seeded_view: "st_seeded st s = (rb, s') \<Longrightarrow>
      (\<forall>b. rb = Inr b \<longrightarrow> b = seeded_of s) \<and> plan_of s' = plan_of s \<and> seeded_of s' = seeded_of s"
    and mark_ok: "st_mark_seeded st s = (Inr u, s') \<Longrightarrow> seeded_of s' \<and> plan_of s' = plan_of s"
    and mark_err: "st_mark_seeded st s = (Inl e, s') \<Longrightarrow>
      seeded_of s' = seeded_of s \<and> plan_of s' = plan_of s"
    and measurement_view: "st_get_measurement st s = (Inr m, s') \<Longrightarrow> m = measurement_of s"
    and put_measurement_frame: "st_put_measurement st m s = (r, s') \<Longrightarrow>
      plan_of s' = plan_of s \<and> seeded_of s' = seeded_of s"
    and put_integrity_frame: "st_put_integrity st i s = (r, s') \<Longrightarrow>
      plan_of s' = plan_of s \<and> seeded_of s' = seeded_of s"
    and state_view: "st_get_machine_state st s = (rm, s') \<Longrightarrow>
      (\<forall>ms. rm = Inr ms \<longrightarrow> ms = state_of s) \<and> state_of s' = state_of s \<and>
      plan_of s' = plan_of s \<and> seeded_of s' = seeded_of s"
    and put_state_ok: "st_put_machine_state st ms s = (Inr u, s') \<Longrightarrow> state_of s' = ms"
    and put_state_err: "st_put_machine_state st ms s = (Inl e, s') \<Longrightarrow> state_of s' = state_of s"
    and put_state_frame: "st_put_machine_state st ms s = (r, s') \<Longrightarrow>
      plan_of s' = plan_of s \<and> seeded_of s' = seeded_of s"
    and integrity_view: "st_get_integrity st s = (Inr i, s') \<Longrightarrow> i = integrity_of s"
    and stored_valid: "validate_plan p = None \<Longrightarrow> sized p \<Longrightarrow>
      validate_plan (stored p) = None \<and> sized (stored p)"
    and stored_targets: "targets (stored p) = targets p"
begin

definition valid_store :: "'s \<Rightarrow> bool" where
  "valid_store s \<longleftrightarrow> (\<forall>p. plan_of s = Some p \<longrightarrow> validate_plan p = None \<and> sized p)"

lemma put_cases:
  "st_put st p s = (r, s') \<Longrightarrow>
    (plan_of s' = plan_of s \<or> plan_of s' = Some (stored p)) \<and> seeded_of s' = seeded_of s"
  using put_ok put_err by (cases r) blast+

lemma mark_cases:
  "st_mark_seeded st s = (r, s') \<Longrightarrow> plan_of s' = plan_of s \<and> (seeded_of s \<longrightarrow> seeded_of s')"
  using mark_ok mark_err by (cases r) blast+

lemma runnable_valid: "runnable p = None \<Longrightarrow> validate_plan p = None \<and> targets p \<noteq> []"
  by (auto simp: runnable_def split: option.splits if_splits)

lemma validate_times [simp]:
  "validate_plan (p\<lparr>updated_at := t\<rparr>) = validate_plan p"
  "validate_plan (p\<lparr>confirmed_at := c\<rparr>) = validate_plan p"
  by (simp_all add: validate_plan_def)

lemma sized_times [simp]:
  "sized (p\<lparr>updated_at := t\<rparr>) = sized p"
  "sized (p\<lparr>confirmed_at := c\<rparr>) = sized p"
  by (simp_all add: sized_def)

lemma biz_put_view:
  assumes "biz_put st p now s = (r, s')"
  shows "plan_of s' = plan_of s \<or>
      validate_plan p = None \<and> plan_of s' = Some (stored (p\<lparr>updated_at := now\<rparr>))"
    and "seeded_of s' = seeded_of s"
  using assms put_cases [of "p\<lparr>updated_at := now\<rparr>" s r s']
  by (auto simp: biz_put_def split: option.splits)

lemma biz_confirm_view:
  assumes c: "biz_confirm st now s = (r, s')"
  shows "(plan_of s' = plan_of s \<or> (\<exists>p. plan_of s = Some p \<and> runnable p = None \<and>
      plan_of s' = Some (stored (p\<lparr>confirmed_at := now, updated_at := now\<rparr>)))) \<and>
    seeded_of s' = seeded_of s \<and> (\<not> is_ok r \<longrightarrow> plan_of s' = plan_of s) \<and>
    (is_ok r \<longrightarrow> (\<exists>p. plan_of s = Some p \<and> runnable p = None \<and>
      plan_of s' = Some (stored (p\<lparr>confirmed_at := now, updated_at := now\<rparr>))))"
proof -
  obtain r1 s1 where g: "st_get st s = (r1, s1)" by fastforce
  note v = get_view [OF g]
  show ?thesis
  proof (cases r1)
    case (Inl e)
    with c g v show ?thesis by (auto simp: biz_confirm_def)
  next
    case (Inr p)
    show ?thesis
    proof (cases "runnable p")
      case None
      obtain r2 s2 where q: "st_put st (p\<lparr>confirmed_at := now, updated_at := now\<rparr>) s1 = (r2, s2)"
        by fastforce
      with c g Inr None have rs: "r = r2" "s' = s2" by (simp_all add: biz_confirm_def)
      have bad: "\<not> is_ok r2 \<Longrightarrow> plan_of s2 = plan_of s1" using put_err q by (cases r2) auto
      have good: "is_ok r2 \<Longrightarrow>
          plan_of s2 = Some (stored (p\<lparr>confirmed_at := now, updated_at := now\<rparr>))"
        using put_ok q by (cases r2) auto
      from bad good put_cases [OF q] v Inr None show ?thesis
        unfolding rs by (cases "is_ok r2") auto
    next
      case (Some e)
      with c g v Inr show ?thesis by (auto simp: biz_confirm_def)
    qed
  qed
qed

lemma biz_seed_view:
  assumes c: "biz_seed st p now s = (r, s')"
  shows "(plan_of s' = plan_of s \<or> \<not> seeded_of s \<and> validate_plan p = None \<and>
      plan_of s' = Some (stored (p\<lparr>updated_at := now\<rparr>))) \<and>
    (seeded_of s \<longrightarrow> seeded_of s') \<and>
    (r = Inr True \<longrightarrow> \<not> seeded_of s \<and> seeded_of s' \<and>
      plan_of s' = Some (stored (p\<lparr>updated_at := now\<rparr>)))"
proof -
  obtain r1 s1 where g: "st_seeded st s = (r1, s1)" by fastforce
  note v = seeded_view [OF g]
  show ?thesis
  proof (cases "r1 = Inr False \<and> validate_plan p = None")
    case False
    with c g have "s' = s1 \<and> r \<noteq> Inr True"
      by (cases r1) (auto simp: biz_seed_def split: option.splits if_splits)
    with v show ?thesis by simp
  next
    case True
    then have fresh: "\<not> seeded_of s" "validate_plan p = None" using v by auto
    obtain r2 s2 where q: "st_put st (p\<lparr>updated_at := now\<rparr>) s1 = (r2, s2)" by fastforce
    show ?thesis
    proof (cases r2)
      case (Inl e)
      with True c g q have "s' = s2 \<and> r \<noteq> Inr True" by (auto simp: biz_seed_def)
      with put_cases [OF q] v fresh show ?thesis by metis
    next
      case (Inr u)
      obtain r3 s3 where m: "st_mark_seeded st s2 = (r3, s3)" by fastforce
      have po: "plan_of s2 = Some (stored (p\<lparr>updated_at := now\<rparr>))" using put_ok q Inr by blast
      have rs: "s' = s3" "r = Inr True \<longrightarrow> is_ok r3"
        using True Inr c g q m by (cases r3; auto simp: biz_seed_def)+
      have "is_ok r3 \<longrightarrow> seeded_of s3" using mark_ok m by (cases r3) auto
      with mark_cases [OF m] po fresh rs show ?thesis by metis
    qed
  qed
qed

lemma failure_view:
  assumes c: "biz_record_state_failure st reason s = (r, s')"
  shows "plan_of s' = plan_of s \<and> seeded_of s' = seeded_of s \<and>
    state_of s' = (if is_ok r then (state_of s)\<lparr>ms_error := reason\<rparr> else state_of s)"
proof -
  obtain r1 s1 where g: "st_get_machine_state st s = (r1, s1)" by fastforce
  note v = state_view [OF g]
  show ?thesis
  proof (cases r1)
    case (Inl e)
    with c g v show ?thesis by (auto simp: biz_record_state_failure_def)
  next
    case (Inr m)
    obtain r2 s2 where q: "st_put_machine_state st (m\<lparr>ms_error := reason\<rparr>) s1 = (r2, s2)"
      by fastforce
    with c g Inr have rs: "r = r2" "s' = s2" by (simp_all add: biz_record_state_failure_def)
    have "state_of s2 = (if is_ok r2 then m\<lparr>ms_error := reason\<rparr> else state_of s1)"
      using put_state_ok put_state_err q by (cases r2) auto
    with put_state_frame [OF q] v Inr show ?thesis unfolding rs by simp
  qed
qed

lemma valid_store_kept: "valid_store s \<Longrightarrow> plan_of t = plan_of s \<Longrightarrow> valid_store t"
  by (simp add: valid_store_def)

lemma valid_store_stored:
  "validate_plan p = None \<Longrightarrow> sized p \<Longrightarrow> plan_of t = Some (stored p) \<Longrightarrow> valid_store t"
  using stored_valid by (simp add: valid_store_def)

lemmas valid_store_intros = valid_store_kept valid_store_stored

lemma step_valid:
  assumes "plan_step st s t" and v: "valid_store s"
  shows "valid_store t"
  using assms(1)
proof (cases rule: plan_step.cases)
  case (step_put p now)
  from step_put(2) biz_put_view [of p now s] valid_store_stored [of "p\<lparr>updated_at := now\<rparr>" t]
  show ?thesis
    unfolding step_put(1) by (metis prod.collapse validate_times(1) sized_times(1) v valid_store_kept)
next
  case (step_confirm now)
  obtain r where r: "biz_confirm st now s = (r, t)" using step_confirm by (metis prod.collapse)
  have "plan_of t = plan_of s \<or> (\<exists>p. plan_of s = Some p \<and> runnable p = None \<and>
      plan_of t = Some (stored (p\<lparr>confirmed_at := now, updated_at := now\<rparr>)))"
    using biz_confirm_view [OF r] by blast
  then have "valid_store t"
  proof (elim disjE exE conjE)
    fix p assume "plan_of s = Some p" and "runnable p = None"
      and q: "plan_of t = Some (stored (p\<lparr>confirmed_at := now, updated_at := now\<rparr>))"
    with v have "validate_plan p = None" and "sized p" by (simp_all add: valid_store_def)
    then show ?thesis by (intro valid_store_stored [OF _ _ q]) simp_all
  qed (rule valid_store_kept [OF v])
  then show ?thesis .
next
  case (step_seed p now)
  obtain r where r: "biz_seed st p now s = (r, t)" using step_seed by (metis prod.collapse)
  have "valid_store t" using biz_seed_view [OF r]
  proof (elim conjE disjE)
    assume q: "plan_of t = Some (stored (p\<lparr>updated_at := now\<rparr>))" and "validate_plan p = None"
    then show ?thesis by (intro valid_store_stored [OF _ _ q]) (simp_all add: step_seed)
  qed (rule valid_store_kept [OF v])
  then show ?thesis .
next
  case (step_measure url now since0 sz)
  then show ?thesis using put_measurement_frame v valid_store_kept
    by (metis biz_record_measurement_def prod.collapse)
next
  case (step_integrity i)
  then show ?thesis using put_integrity_frame v valid_store_kept
    by (metis biz_record_integrity_def prod.collapse)
next
  case (step_state m)
  then show ?thesis using put_state_frame v valid_store_kept
    by (metis biz_record_machine_state_def prod.collapse)
next
  case (step_failure reason)
  then show ?thesis using failure_view v valid_store_kept by (metis prod.collapse)
qed

lemma step_seeded:
  assumes "plan_step st s t" and "seeded_of s"
  shows "seeded_of t"
  using assms(1)
proof (cases rule: plan_step.cases)
  case (step_put p now)
  then show ?thesis using assms(2) biz_put_view [of p now s] by (metis prod.collapse)
next
  case (step_confirm now)
  then show ?thesis using assms(2) biz_confirm_view [of now s] by (metis prod.collapse)
next
  case (step_seed p now)
  then show ?thesis using assms(2) biz_seed_view [of p now s] by (metis prod.collapse)
next
  case (step_measure url now since0 sz)
  then show ?thesis using assms(2) put_measurement_frame
    by (metis biz_record_measurement_def prod.collapse)
next
  case (step_integrity i)
  then show ?thesis using assms(2) put_integrity_frame
    by (metis biz_record_integrity_def prod.collapse)
next
  case (step_state m)
  then show ?thesis using assms(2) put_state_frame
    by (metis biz_record_machine_state_def prod.collapse)
next
  case (step_failure reason)
  then show ?thesis using assms(2) failure_view by (metis prod.collapse)
qed

lemma steps_seeded: "plan_steps st s t \<Longrightarrow> seeded_of s \<Longrightarrow> seeded_of t"
  by (induction rule: plan_steps.induct) (auto dest: step_seeded)

lemma steps_valid:
  assumes "plan_steps st s t" and "valid_store s"
  shows "valid_store t"
  using assms by (induction rule: plan_steps.induct) (auto dest: step_valid)

end

end
