(* ===== verification/PlanDb.thy ===== *)
theory PlanDb
  imports Plan
begin

text \<open>
  The plan in SQLite: \<open>business/domain/plan/stores/plandb/plandb.go\<close>. The database is the columns of
  the table \<open>plan\<close>, its one row, the key/value table \<open>plan_meta\<close>, and the list of faults that says
  which of the coming statements fail. The last part interprets \<open>plan_store\<close> on these operations, and
  states the properties of the domain over the database.
\<close>

section \<open>The database\<close>

definition rfc3339_or_empty :: "instant \<Rightarrow> time_text" where
  "rfc3339_or_empty t = (if is_zero t then NoTime else TimeText (whole_second t))"

text \<open>A column that holds a JSON list is \<open>None\<close> when its text does not decode.\<close>

record plan_row =
  r_node_id :: string
  r_repository :: string
  r_targets :: "string list option"
  r_excludes :: "string list option"
  r_times :: "string list option"
  r_jitter_minutes :: int
  r_min_interval_secs :: int
  r_pack_size_mib :: int
  r_read_concurrency :: int
  r_use_fs_snapshot :: bool
  r_allow_vss_fallback :: bool
  r_one_file_system :: bool
  r_paused :: bool
  r_skip_on_metered :: bool
  r_skip_larger_than_gb :: int
  r_style :: string
  r_confirmed_at :: time_text
  r_updated_at :: time_text

datatype meta_value =
    MetaText string
  | MetaMeasurement measurement
  | MetaIntegrity integrity
  | MetaState machine_state

record plandb =
  has_table :: bool
  plan_cols :: "string list"
  plan_rows :: "plan_row option"
  plan_meta :: "string \<rightharpoonup> meta_value"
  db_faults :: faults

definition seeded_key :: string where "seeded_key = ''config_seeded''"
definition measurement_key :: string where "measurement_key = ''repository_measurement''"
definition integrity_key :: string where "integrity_key = ''repository_integrity''"
definition machine_state_key :: string where "machine_state_key = ''machine_state''"

lemmas key_defs = seeded_key_def measurement_key_def integrity_key_def machine_state_key_def

text \<open>
  One statement: it fails with the driver's error when the next fault says so, and the list of
  faults moves on either way.
\<close>

definition sql_error :: err where
  "sql_error = Sentinel ''sql''"

definition next_statement :: "plandb \<Rightarrow> bool \<times> plandb" where
  "next_statement db = (fails_next (db_faults db), db\<lparr>db_faults := tl (db_faults db)\<rparr>)"

section \<open>Migration\<close>

definition first_columns :: "string list" where
  "first_columns =
     [''id'', ''node_id'', ''repository'', ''targets'', ''excludes'', ''schedule_times'',
      ''jitter_minutes'', ''min_interval_secs'', ''pack_size_mib'', ''read_concurrency'',
      ''use_fs_snapshot'', ''allow_vss_fallback'', ''one_file_system'', ''paused'', ''updated_at'']"

definition added_columns :: "string list" where
  "added_columns = [''style'', ''confirmed_at'', ''skip_larger_than_gb'', ''skip_on_metered'']"

text \<open>\<open>CREATE TABLE IF NOT EXISTS\<close> for both tables: nothing at all where the table is there.\<close>

definition create_tables :: "plandb \<Rightarrow> plandb" where
  "create_tables db =
     (if has_table db then db
      else db\<lparr>has_table := True, plan_cols := first_columns @ added_columns, plan_rows := None\<rparr>)"

text \<open>\<open>ALTER TABLE ... ADD COLUMN\<close> gives the row that is there the default of the column.\<close>

definition column_default :: "string \<Rightarrow> plan_row \<Rightarrow> plan_row" where
  "column_default c r =
     (if c = ''style'' then r\<lparr>r_style := []\<rparr>
      else if c = ''confirmed_at'' then r\<lparr>r_confirmed_at := NoTime\<rparr>
      else if c = ''skip_larger_than_gb'' then r\<lparr>r_skip_larger_than_gb := 0\<rparr>
      else if c = ''skip_on_metered'' then r\<lparr>r_skip_on_metered := False\<rparr>
      else r)"

definition alter_add :: "string \<Rightarrow> plandb \<Rightarrow> plandb" where
  "alter_add c db =
     db\<lparr>plan_cols := plan_cols db @ [c], plan_rows := map_option (column_default c) (plan_rows db)\<rparr>"

definition backfill_confirmed :: "plandb \<Rightarrow> plandb" where
  "backfill_confirmed db =
     db\<lparr>plan_rows := map_option (\<lambda>r. r\<lparr>r_confirmed_at := r_updated_at r\<rparr>) (plan_rows db)\<rparr>"

text \<open>The loop over the columns; \<open>have\<close> is what the table had when the loop began.\<close>

fun add_each :: "string list \<Rightarrow> string list \<Rightarrow> plandb \<Rightarrow> unit res \<times> plandb" where
  "add_each had [] db = (Inr (), db)"
| "add_each had (c # cs) db =
     (if c \<in> set had then add_each had cs db
      else let (bad, db1) = next_statement db in
        if bad then (Inl (Wrap (''plandb: adding the '' @ c @ '' column: '') sql_error []), db1)
        else let db2 = alter_add c db1 in
          if c = ''confirmed_at'' then
            let (bad2, db3) = next_statement db2 in
              if bad2
              then (Inl (Wrap ''plandb: confirming the plan this machine already had: '' sql_error []), db3)
              else add_each had cs (backfill_confirmed db3)
          else add_each had cs db2)"

definition add_columns :: "plandb \<Rightarrow> unit res \<times> plandb" where
  "add_columns db =
     (let (bad, db1) = next_statement db in
        if bad then (Inl (Wrap ''plandb: reading the plan columns: '' sql_error []), db1)
        else add_each (plan_cols db1) added_columns db1)"

definition migrate :: "plandb \<Rightarrow> unit res \<times> plandb" where
  "migrate db =
     (let (bad, db1) = next_statement db in
        if bad then (Inl (Wrap ''plandb: applying the schema: '' sql_error []), db1)
        else add_columns (create_tables db1))"

section \<open>The operations of the store\<close>

text \<open>A statement that names a column the table does not have is an error of the driver.\<close>

definition db_ready :: "plandb \<Rightarrow> bool" where
  "db_ready db \<longleftrightarrow> has_table db \<and> set (first_columns @ added_columns) \<subseteq> set (plan_cols db)"

definition need :: "string \<Rightarrow> 'a option \<Rightarrow> 'a res" where
  "need name x =
     (case x of
        None \<Rightarrow> Inl (Wrap (''plandb: reading the stored '' @ name @ '': '') sql_error [])
      | Some v \<Rightarrow> Inr v)"

definition parse_time :: "string \<Rightarrow> time_text \<Rightarrow> instant res" where
  "parse_time name t =
     (case t of
        TimeText i \<Rightarrow> Inr i
      | _ \<Rightarrow> Inl (Wrap (''plandb: reading '' @ name @ '': '') sql_error []))"

definition decode_row :: "plan_row \<Rightarrow> plan res" where
  "decode_row r =
     on_ok (need ''targets'' (r_targets r)) (\<lambda>ts.
     on_ok (need ''excludes'' (r_excludes r)) (\<lambda>xs.
     on_ok (need ''schedule times'' (r_times r)) (\<lambda>slots.
     on_ok (parse_time ''updated_at'' (r_updated_at r)) (\<lambda>u.
     on_ok (if r_confirmed_at r = NoTime then Inr zero_time
            else parse_time ''confirmed_at'' (r_confirmed_at r)) (\<lambda>c.
     Inr \<lparr>node_id = r_node_id r, repository = r_repository r, targets = ts, excludes = xs,
          plan_schedule = \<lparr>times = slots, jitter_minutes = r_jitter_minutes r,
            min_interval = wrap64 (r_min_interval_secs r * second)\<rparr>,
          pack_size_mib = r_pack_size_mib r, read_concurrency = r_read_concurrency r,
          use_fs_snapshot = r_use_fs_snapshot r, allow_vss_fallback = r_allow_vss_fallback r,
          one_file_system = r_one_file_system r, paused = r_paused r,
          skip_on_metered = r_skip_on_metered r, skip_larger_than_gb = r_skip_larger_than_gb r,
          style = r_style r, confirmed_at = c, updated_at = u\<rparr>)))))"

definition encode_row :: "plan \<Rightarrow> plan_row" where
  "encode_row p =
     \<lparr>r_node_id = node_id p, r_repository = repository p, r_targets = Some (targets p),
      r_excludes = Some (excludes p), r_times = Some (times (plan_schedule p)),
      r_jitter_minutes = jitter_minutes (plan_schedule p),
      r_min_interval_secs = trunc_div (min_interval (plan_schedule p)) second,
      r_pack_size_mib = pack_size_mib p, r_read_concurrency = read_concurrency p,
      r_use_fs_snapshot = use_fs_snapshot p, r_allow_vss_fallback = allow_vss_fallback p,
      r_one_file_system = one_file_system p, r_paused = paused p,
      r_skip_on_metered = skip_on_metered p, r_skip_larger_than_gb = skip_larger_than_gb p,
      r_style = style p, r_confirmed_at = rfc3339_or_empty (confirmed_at p),
      r_updated_at = TimeText (whole_second (updated_at p))\<rparr>"

definition plandb_get :: "plandb \<Rightarrow> plan res \<times> plandb" where
  "plandb_get db =
     (let (bad, db1) = next_statement db in
        if bad \<or> \<not> db_ready db then (Inl (Wrap ''plandb: reading the plan: '' sql_error []), db1)
        else case plan_rows db1 of
            None \<Rightarrow> (Inl ErrNoPlan, db1)
          | Some r \<Rightarrow> (decode_row r, db1))"

definition plandb_put :: "plan \<Rightarrow> plandb \<Rightarrow> unit res \<times> plandb" where
  "plandb_put p db =
     (let (bad, db1) = next_statement db in
        if bad \<or> \<not> db_ready db then (Inl (Wrap ''plandb: writing the plan: '' sql_error []), db1)
        else (Inr (), db1\<lparr>plan_rows := Some (encode_row p)\<rparr>))"

definition read_meta :: "string \<Rightarrow> string \<Rightarrow> plandb \<Rightarrow> meta_value option res \<times> plandb" where
  "read_meta what key db =
     (let (bad, db1) = next_statement db in
        if bad \<or> \<not> has_table db
        then (Inl (Wrap (''plandb: reading the '' @ what @ '': '') sql_error []), db1)
        else (Inr (plan_meta db1 key), db1))"

definition write_meta :: "string \<Rightarrow> string \<Rightarrow> meta_value \<Rightarrow> plandb \<Rightarrow> unit res \<times> plandb" where
  "write_meta what key v db =
     (let (bad, db1) = next_statement db in
        if bad \<or> \<not> has_table db
        then (Inl (Wrap (''plandb: writing the '' @ what @ '': '') sql_error []), db1)
        else (Inr (), db1\<lparr>plan_meta := (plan_meta db1)(key \<mapsto> v)\<rparr>))"

definition plandb_seeded :: "plandb \<Rightarrow> bool res \<times> plandb" where
  "plandb_seeded db =
     (case read_meta ''seed marker'' seeded_key db of
        (Inl e, db1) \<Rightarrow> (Inl e, db1)
      | (Inr v, db1) \<Rightarrow> (Inr (v = Some (MetaText ''1'')), db1))"

definition plandb_mark_seeded :: "plandb \<Rightarrow> unit res \<times> plandb" where
  "plandb_mark_seeded db = write_meta ''seed marker'' seeded_key (MetaText ''1'') db"

text \<open>A value that does not decode reads as the zero one, and the machine carries on.\<close>

definition as_measurement :: "meta_value option \<Rightarrow> measurement" where
  "as_measurement v = (case v of Some (MetaMeasurement m) \<Rightarrow> m | _ \<Rightarrow> zero_measurement)"

definition as_integrity :: "meta_value option \<Rightarrow> integrity" where
  "as_integrity v = (case v of Some (MetaIntegrity i) \<Rightarrow> i | _ \<Rightarrow> zero_integrity)"

definition as_machine_state :: "meta_value option \<Rightarrow> machine_state" where
  "as_machine_state v = (case v of Some (MetaState m) \<Rightarrow> m | _ \<Rightarrow> zero_machine_state)"

definition plandb_get_measurement :: "plandb \<Rightarrow> measurement res \<times> plandb" where
  "plandb_get_measurement db =
     (case read_meta ''measurement'' measurement_key db of
        (Inl e, db1) \<Rightarrow> (Inl e, db1)
      | (Inr v, db1) \<Rightarrow> (Inr (as_measurement v), db1))"

definition plandb_put_measurement :: "measurement \<Rightarrow> plandb \<Rightarrow> unit res \<times> plandb" where
  "plandb_put_measurement m db = write_meta ''measurement'' measurement_key (MetaMeasurement m) db"

definition plandb_get_integrity :: "plandb \<Rightarrow> integrity res \<times> plandb" where
  "plandb_get_integrity db =
     (case read_meta ''integrity check'' integrity_key db of
        (Inl e, db1) \<Rightarrow> (Inl e, db1)
      | (Inr v, db1) \<Rightarrow> (Inr (as_integrity v), db1))"

definition plandb_put_integrity :: "integrity \<Rightarrow> plandb \<Rightarrow> unit res \<times> plandb" where
  "plandb_put_integrity i db = write_meta ''integrity check'' integrity_key (MetaIntegrity i) db"

definition plandb_get_machine_state :: "plandb \<Rightarrow> machine_state res \<times> plandb" where
  "plandb_get_machine_state db =
     (case read_meta ''machine state'' machine_state_key db of
        (Inl e, db1) \<Rightarrow> (Inl e, db1)
      | (Inr v, db1) \<Rightarrow> (Inr (as_machine_state v), db1))"

definition plandb_put_machine_state :: "machine_state \<Rightarrow> plandb \<Rightarrow> unit res \<times> plandb" where
  "plandb_put_machine_state m db = write_meta ''machine state'' machine_state_key (MetaState m) db"

definition plandb :: "plandb storer" where
  "plandb =
     \<lparr>st_get = plandb_get, st_put = plandb_put, st_seeded = plandb_seeded,
      st_mark_seeded = plandb_mark_seeded, st_get_measurement = plandb_get_measurement,
      st_put_measurement = plandb_put_measurement, st_get_integrity = plandb_get_integrity,
      st_put_integrity = plandb_put_integrity, st_get_machine_state = plandb_get_machine_state,
      st_put_machine_state = plandb_put_machine_state\<rparr>"

lemmas plandb_defs = plandb_def plandb_get_def plandb_put_def plandb_seeded_def
  plandb_mark_seeded_def plandb_get_measurement_def plandb_put_measurement_def
  plandb_get_integrity_def plandb_put_integrity_def plandb_get_machine_state_def
  plandb_put_machine_state_def read_meta_def write_meta_def next_statement_def

section \<open>What is held\<close>

definition held_plan :: "plandb \<Rightarrow> plan option" where
  "held_plan db =
     (if db_ready db
      then case plan_rows db of
          None \<Rightarrow> None
        | Some r \<Rightarrow> (case decode_row r of Inl _ \<Rightarrow> None | Inr p \<Rightarrow> Some p)
      else None)"

definition held_seeded :: "plandb \<Rightarrow> bool" where
  "held_seeded db \<longleftrightarrow> plan_meta db seeded_key = Some (MetaText ''1'')"

definition held_measurement :: "plandb \<Rightarrow> measurement" where
  "held_measurement db = as_measurement (plan_meta db measurement_key)"

definition held_integrity :: "plandb \<Rightarrow> integrity" where
  "held_integrity db = as_integrity (plan_meta db integrity_key)"

definition held_state :: "plandb \<Rightarrow> machine_state" where
  "held_state db = as_machine_state (plan_meta db machine_state_key)"

lemmas held_defs = held_plan_def held_seeded_def held_measurement_def held_integrity_def
  held_state_def

text \<open>What a plan comes back as: times to the second and the interval to the second.\<close>

definition stored_time :: "instant \<Rightarrow> instant" where
  "stored_time t = (if is_zero t then zero_time else whole_second t)"

definition stored_plan :: "plan \<Rightarrow> plan" where
  "stored_plan p =
     p\<lparr>plan_schedule := (plan_schedule p)\<lparr>min_interval :=
         wrap64 (trunc_div (min_interval (plan_schedule p)) second * second)\<rparr>,
       confirmed_at := stored_time (confirmed_at p), updated_at := whole_second (updated_at p)\<rparr>"

lemma db_ready_simps [simp]:
  "db_ready (db\<lparr>db_faults := fs\<rparr>) = db_ready db"
  "db_ready (db\<lparr>plan_rows := r\<rparr>) = db_ready db"
  "db_ready (db\<lparr>plan_meta := m\<rparr>) = db_ready db"
  by (simp_all add: db_ready_def)

lemma decode_encode: "decode_row (encode_row p) = Inr (stored_plan p)"
  by (simp add: decode_row_def encode_row_def stored_plan_def need_def parse_time_def
      rfc3339_or_empty_def stored_time_def)

lemma trunc_seconds:
  assumes "in_int64 d" and "0 \<le> d"
  shows "wrap64 (d div second * second) = d div second * second"
proof -
  have "0 \<le> d div second * second" and "d div second * second \<le> d"
    using assms(2) by (simp_all add: div_times_less_eq_dividend)
  with assms have "in_int64 (d div second * second)" by (simp add: int64_defs)
  then show ?thesis by (rule wrap64_id)
qed

lemma stored_plan_valid:
  assumes "validate_plan p = None" and "sized p"
  shows "validate_plan (stored_plan p) = None \<and> sized (stored_plan p)"
proof -
  let ?d = "min_interval (plan_schedule p)"
  have "0 \<le> ?d" using assms(1)
    by (auto simp: validate_plan_def validate_schedule_def split: if_splits option.splits)
  then have "wrap64 (trunc_div ?d second * second) = ?d div second * second"
    using assms(2) by (simp add: sized_def trunc_seconds)
  moreover have "0 \<le> ?d div second * second" using \<open>0 \<le> ?d\<close> by simp
  moreover have "in_int64 (?d div second * second)"
    using trunc_seconds [of ?d] \<open>0 \<le> ?d\<close> assms(2) wrap64_range by (metis sized_def)
  ultimately show ?thesis using assms(1)
    by (auto simp: validate_plan_def validate_schedule_def stored_plan_def sized_def
        split: if_splits option.splits)
qed

section \<open>The store keeps the laws\<close>

lemma key_distinct [simp]:
  "seeded_key \<noteq> measurement_key" "seeded_key \<noteq> integrity_key" "seeded_key \<noteq> machine_state_key"
  "measurement_key \<noteq> integrity_key" "measurement_key \<noteq> machine_state_key"
  "integrity_key \<noteq> machine_state_key"
  "measurement_key \<noteq> seeded_key" "integrity_key \<noteq> seeded_key" "machine_state_key \<noteq> seeded_key"
  "integrity_key \<noteq> measurement_key" "machine_state_key \<noteq> measurement_key"
  "machine_state_key \<noteq> integrity_key"
  by (simp_all add: key_defs)

interpretation pdb: plan_store plandb held_plan held_seeded held_measurement held_integrity
  held_state stored_plan
proof (unfold_locales, goal_cases)
  case (1 s rp s')
  then show ?case by (auto simp: plandb_defs held_defs split: if_splits option.splits sum.splits)
next
  case (2 p s u s')
  then show ?case by (auto simp: plandb_defs held_defs decode_encode split: if_splits)
next
  case (3 p s e s')
  then show ?case by (auto simp: plandb_defs held_defs split: if_splits)
next
  case (4 s rb s')
  then show ?case by (auto simp: plandb_defs held_defs split: if_splits)
next
  case (5 s u s')
  then show ?case by (auto simp: plandb_defs held_defs split: if_splits)
next
  case (6 s e s')
  then show ?case by (auto simp: plandb_defs held_defs split: if_splits)
next
  case (7 s m s')
  then show ?case by (auto simp: plandb_defs held_defs split: if_splits)
next
  case (8 m s r s')
  then show ?case by (auto simp: plandb_defs held_defs split: if_splits)
next
  case (9 i s r s')
  then show ?case by (auto simp: plandb_defs held_defs split: if_splits)
next
  case (10 s rm s')
  then show ?case by (auto simp: plandb_defs held_defs split: if_splits)
next
  case (11 ms s u s')
  then show ?case by (auto simp: plandb_defs held_defs as_machine_state_def split: if_splits)
next
  case (12 ms s e s')
  then show ?case by (auto simp: plandb_defs held_defs split: if_splits)
next
  case (13 ms s r s')
  then show ?case by (auto simp: plandb_defs held_defs split: if_splits)
next
  case (14 s i s')
  then show ?case by (auto simp: plandb_defs held_defs split: if_splits)
next
  case (15 p)
  then show ?case by (rule stored_plan_valid)
next
  case (16 p)
  then show ?case by (simp add: stored_plan_def)
qed

section \<open>The migration\<close>

lemma next_statement_frame:
  assumes "next_statement db = (bad, db1)"
  shows "has_table db1 = has_table db" "plan_cols db1 = plan_cols db"
    "plan_rows db1 = plan_rows db" "plan_meta db1 = plan_meta db"
  using assms by (auto simp: next_statement_def)

text \<open>The part of a row that a migration leaves alone: all but the four added columns.\<close>

definition old_part :: "plan_row \<Rightarrow> plan_row" where
  "old_part r =
     r\<lparr>r_skip_on_metered := False, r_skip_larger_than_gb := 0, r_style := [],
       r_confirmed_at := NoTime\<rparr>"

lemma old_part_simps [simp]:
  "old_part (column_default c r) = old_part r"
  "old_part (r\<lparr>r_confirmed_at := t\<rparr>) = old_part r"
  "r_updated_at (column_default c r) = r_updated_at r"
  by (simp_all add: old_part_def column_default_def)

definition added :: "string \<Rightarrow> plan_row \<Rightarrow> plan_row" where
  "added c r =
     (if c = ''confirmed_at'' then (column_default c r)\<lparr>r_confirmed_at := r_updated_at r\<rparr>
      else column_default c r)"

lemma added_simps [simp]:
  "old_part (added c r) = old_part r"
  "r_updated_at (added c r) = r_updated_at r"
  "r_confirmed_at (added c r) = (if c = ''confirmed_at'' then r_updated_at r else r_confirmed_at r)"
  by (simp_all add: added_def) (simp add: column_default_def)

text \<open>One turn of the loop that did not fail.\<close>

lemma add_each_step:
  assumes "add_each had (c # cs) db = (Inr u, db')" and "c \<notin> set had"
  shows "\<exists>db2. add_each had cs db2 = (Inr u, db') \<and>
    plan_rows db2 = map_option (added c) (plan_rows db) \<and> plan_cols db2 = plan_cols db @ [c] \<and>
    has_table db2 = has_table db \<and> plan_meta db2 = plan_meta db"
proof -
  obtain bad db1 where n: "next_statement db = (bad, db1)" by fastforce
  obtain bad2 db3 where n2: "next_statement (alter_add c db1) = (bad2, db3)" by fastforce
  have ok: "\<not> bad" using assms n by (cases bad) (simp_all add: Let_def)
  show ?thesis
  proof (cases "c = ''confirmed_at''")
    case True
    have "\<not> bad2" using assms n n2 ok True by (cases bad2) (simp_all add: Let_def)
    then have "add_each had cs (backfill_confirmed db3) = (Inr u, db')"
      using assms n n2 ok True by (simp add: Let_def)
    then show ?thesis using True
      next_statement_frame [OF n] next_statement_frame [OF n2]
      by (intro exI [of _ "backfill_confirmed db3"])
        (cases "plan_rows db"; simp add: backfill_confirmed_def alter_add_def added_def)
  next
    case False
    then have "add_each had cs (alter_add c db1) = (Inr u, db')"
      using assms n ok by (simp add: Let_def)
    then show ?thesis using False next_statement_frame [OF n]
      by (intro exI [of _ "alter_add c db1"]) 
        (cases "plan_rows db"; simp add: alter_add_def added_def)
  qed
qed

lemma add_each_row:
  assumes "add_each had cs db = (Inr u, db')" and "plan_rows db = Some r"
  shows "\<exists>r'. plan_rows db' = Some r' \<and> old_part r' = old_part r \<and> r_updated_at r' = r_updated_at r \<and>
    r_confirmed_at r' =
      (if ''confirmed_at'' \<in> set cs - set had then r_updated_at r else r_confirmed_at r)"
  using assms
proof (induction cs arbitrary: db r)
  case Nil
  then show ?case by simp
next
  case (Cons c cs)
  show ?case
  proof (cases "c \<in> set had")
    case True
    with Cons.prems(1) have "add_each had cs db = (Inr u, db')" by simp
    from Cons.IH [OF this Cons.prems(2)] True show ?thesis by auto
  next
    case False
    obtain db2 where more: "add_each had cs db2 = (Inr u, db')"
      and row: "plan_rows db2 = Some (added c r)"
      using add_each_step [OF Cons.prems(1) False] Cons.prems(2) by auto
    from Cons.IH [OF more row] False show ?thesis by auto
  qed
qed

lemma add_each_cols:
  assumes "add_each had cs db = (Inr u, db')"
  shows "plan_cols db' = plan_cols db @ filter (\<lambda>c. c \<notin> set had) cs \<and>
    has_table db' = has_table db \<and> plan_meta db' = plan_meta db"
  using assms
proof (induction cs arbitrary: db)
  case Nil
  then show ?case by simp
next
  case (Cons c cs)
  show ?case
  proof (cases "c \<in> set had")
    case True
    with Cons.prems Cons.IH [of db] show ?thesis by simp
  next
    case False
    from add_each_step [OF Cons.prems False] Cons.IH False show ?thesis by fastforce
  qed
qed

lemma add_each_none: "set cs \<subseteq> set had \<Longrightarrow> add_each had cs db = (Inr (), db)"
  by (induction cs) auto

lemma first_columns_facts [simp]:
  "''confirmed_at'' \<notin> set first_columns" "''confirmed_at'' \<in> set added_columns"
  by (simp_all add: first_columns_def added_columns_def)

lemma migrate_ok_cases:
  assumes "migrate db = (Inr u, db')" and "has_table db"
  obtains db1 where "add_each (plan_cols db) added_columns db1 = (Inr u, db')"
    and "plan_rows db1 = plan_rows db" and "plan_cols db1 = plan_cols db"
    and "has_table db1" and "plan_meta db1 = plan_meta db"
proof -
  obtain b1 d1 where n1: "next_statement db = (b1, d1)" by fastforce
  obtain b2 d2 where n2: "next_statement d1 = (b2, d2)" by fastforce
  have b1: "\<not> b1" using assms n1 by (cases b1) (simp_all add: migrate_def)
  note f1 = next_statement_frame [OF n1] and f2 = next_statement_frame [OF n2]
  have "create_tables d1 = d1" using f1 assms(2) by (simp add: create_tables_def)
  then have a: "add_columns d1 = (Inr u, db')" using assms n1 b1 by (simp add: migrate_def)
  then have "\<not> b2" using n2 by (cases b2) (simp_all add: add_columns_def)
  then have "add_each (plan_cols db) added_columns d2 = (Inr u, db')"
    using a f1 f2 n2 by (simp add: add_columns_def)
  then show ?thesis using that f1 f2 assms(2) by simp
qed

lemma add_each_quiet: "db_faults db = [] \<Longrightarrow> is_ok (fst (add_each had cs db))"
  by (induction cs arbitrary: db)
    (simp_all add: Let_def next_statement_def alter_add_def backfill_confirmed_def)

lemma migrate_quiet: "db_faults db = [] \<Longrightarrow> is_ok (fst (migrate db))"
  by (simp add: migrate_def add_columns_def next_statement_def create_tables_def add_each_quiet)

lemma migrate_ready:
  assumes "migrate db = (Inr u, db')" and "has_table db"
    and "set first_columns \<subseteq> set (plan_cols db)"
  shows "db_ready db' \<and> plan_meta db' = plan_meta db"
proof -
  obtain db1 where m: "add_each (plan_cols db) added_columns db1 = (Inr u, db')"
    "plan_cols db1 = plan_cols db" "has_table db1" "plan_meta db1 = plan_meta db"
    using migrate_ok_cases [OF assms(1,2)] by metis
  from add_each_cols [OF m(1)] m(2-) assms(3) show ?thesis by (auto simp: db_ready_def)
qed

section \<open>The properties of the plan\<close>

definition no_faults :: "plandb \<Rightarrow> plandb" where
  "no_faults db = db\<lparr>db_faults := []\<rparr>"

definition sample_plan :: plan where
  "sample_plan =
     \<lparr>node_id = ''leto'', repository = ''s3:b2/leto'', targets = [''/home''], excludes = [],
      plan_schedule = default_schedule, pack_size_mib = 0, read_concurrency = 0,
      use_fs_snapshot = True, allow_vss_fallback = True, one_file_system = False, paused = False,
      skip_on_metered = False, skip_larger_than_gb = 0, style = ''simple'',
      confirmed_at = zero_time, updated_at = zero_time\<rparr>"

definition fresh_db :: plandb where
  "fresh_db =
     \<lparr>has_table = True, plan_cols = first_columns @ added_columns, plan_rows = None,
      plan_meta = Map.empty, db_faults = []\<rparr>"

lemma held_stored:
  assumes "db_ready db" and "plan_rows db = Some (encode_row p)"
  shows "held_plan db = Some (stored_plan p)"
    and "fst (plandb_get (no_faults db)) = Inr (stored_plan p)"
  using assms
  by (simp_all add: held_plan_def decode_encode plandb_get_def next_statement_def no_faults_def)

lemma put_row:
  assumes "plandb_put p db = (r, db')"
  shows "plan_meta db' = plan_meta db \<and> db_ready db' = db_ready db \<and>
    (if is_ok r then db_ready db \<and> plan_rows db' = Some (encode_row p)
     else plan_rows db' = plan_rows db)"
  using assms
  by (cases "fails_next (db_faults db) \<or> \<not> db_ready db")
    (auto simp: plandb_put_def next_statement_def)

lemma sample_plan_ok [simp]:
  "validate_plan sample_plan = None" "runnable sample_plan = None" "sized sample_plan"
proof -
  show "validate_plan sample_plan = None" by code_simp
  show "runnable sample_plan = None" by code_simp
  show "sized sample_plan" by (simp add: sized_def sample_plan_def default_schedule_def int64_defs)
qed


text \<open>Confirming a plan succeeds only on a plan that is held and could run, one with targets and a
  valid schedule, and leaves it held as confirmed at that instant; a confirmation that fails, for a
  plan that is missing or not runnable or for a statement that fails, leaves the plan as it was.\<close>

theorem plan_confirm_spec:
  "case biz_confirm plandb now db of
      (Inr _, db') \<Rightarrow> (\<exists>p. held_plan db = Some p \<and> validate_plan p = None \<and> targets p \<noteq> [] \<and>
        held_plan db' = Some (stored_plan (p\<lparr>confirmed_at := now, updated_at := now\<rparr>)))
    | (Inl e, db') \<Rightarrow> held_plan db' = held_plan db"
proof -
  obtain r db' where c: "biz_confirm plandb now db = (r, db')" by fastforce
  show ?thesis
  proof (cases r)
    case (Inl e)
    with pdb.biz_confirm_view [OF c] c show ?thesis by simp
  next
    case (Inr u)
    with pdb.biz_confirm_view [OF c] pdb.runnable_valid c show ?thesis by fastforce
  qed
qed

text \<open>C4: Whatever sequence of saves, confirmations, seedings, measurements, checks and polls the
  domain carries out on the database, with whatever failures, a store that holds no plan or a valid
  one holds no plan or a valid one at the end.\<close>

theorem stored_plan_stays_valid:
  assumes "plan_steps plandb db db'"
    and "\<forall>p. held_plan db = Some p \<longrightarrow> validate_plan p = None \<and> sized p"
  shows "\<forall>p. held_plan db' = Some p \<longrightarrow> validate_plan p = None \<and> sized p"
  using pdb.steps_valid [OF assms(1)] assms(2) by (simp add: pdb.valid_store_def)

theorem stored_plan_stays_valid_witness:
  "\<exists>p. held_plan (snd (biz_put plandb sample_plan 5 fresh_db)) = Some p \<and>
    validate_plan p = None \<and> sized p"
proof -
  let ?db = "snd (biz_put plandb sample_plan 5 fresh_db)"
  have "plan_steps plandb fresh_db ?db"
    by (rule steps_more [OF steps_none step_put], rule sample_plan_ok)
  moreover have "\<forall>p. held_plan fresh_db = Some p \<longrightarrow> validate_plan p = None \<and> sized p"
    by (simp add: held_plan_def fresh_db_def)
  ultimately have "\<forall>p. held_plan ?db = Some p \<longrightarrow> validate_plan p = None \<and> sized p"
    by (rule stored_plan_stays_valid)
  moreover have "db_ready fresh_db" by (simp add: db_ready_def fresh_db_def)
  then have "held_plan ?db = Some (stored_plan (sample_plan\<lparr>updated_at := 5\<rparr>))"
    by (intro held_stored(1))
      (simp_all add: biz_put_def plandb_def plandb_put_def next_statement_def fresh_db_def db_ready_def)
  ultimately show ?thesis by blast
qed

text \<open>The seed configuration is used once. A seeding that reports it was applied found the marker
  absent, and leaves the seeded plan held and the marker set; and once the marker is set, no sequence
  of operations brings back a seeding that is applied or that changes the plan, so an edit made on the
  status page is never undone by a later start.\<close>

theorem seed_applies_once:
  assumes "biz_seed plandb p now db = (Inr True, db1)" and "plan_steps plandb db1 db2"
    and "biz_seed plandb q later db2 = (r, db3)"
  shows "\<not> held_seeded db \<and> held_plan db1 = Some (stored_plan (p\<lparr>updated_at := now\<rparr>)) \<and>
    r \<noteq> Inr True \<and> held_plan db3 = held_plan db2"
proof -
  have first: "\<not> held_seeded db" "held_seeded db1"
    "held_plan db1 = Some (stored_plan (p\<lparr>updated_at := now\<rparr>))"
    using pdb.biz_seed_view [OF assms(1)] by simp_all
  have "held_seeded db2" using assms(2) first(2)
    by (rule pdb.steps_seeded)
  with pdb.biz_seed_view [OF assms(3)] first show ?thesis by auto
qed

lemma biz_seed_fresh:
  "biz_seed plandb sample_plan 5 fresh_db =
     (Inr True, fresh_db\<lparr>plan_rows := Some (encode_row (sample_plan\<lparr>updated_at := 5\<rparr>)),
        plan_meta := [seeded_key \<mapsto> MetaText ''1'']\<rparr>)"
proof -
  have "db_ready fresh_db" by (simp add: db_ready_def fresh_db_def)
  moreover have "db_faults fresh_db = []" "has_table fresh_db" "plan_meta fresh_db = Map.empty"
    by (simp_all add: fresh_db_def)
  ultimately show ?thesis
    by (simp add: biz_seed_def plandb_def plandb_seeded_def plandb_mark_seeded_def plandb_put_def
        read_meta_def write_meta_def next_statement_def fresh_db_def)
qed

theorem seed_applies_once_witness:
  "fst (biz_seed plandb sample_plan 9 (snd (biz_seed plandb sample_plan 5 fresh_db))) \<noteq> Inr True"
proof -
  obtain r db3 where s: "biz_seed plandb sample_plan 9 (snd (biz_seed plandb sample_plan 5 fresh_db)) = (r, db3)"
    by fastforce
  from seed_applies_once [OF biz_seed_fresh steps_none] s show ?thesis
    unfolding biz_seed_fresh by (metis fst_conv snd_conv)
qed

text \<open>Migrating a database an older build wrote: when the migration succeeds on a table without the
  column \<open>confirmed_at\<close>, the plan that was there is kept and is confirmed as of its last edit, every
  column the program reads is there and the flags are untouched, and running the migration again
  changes nothing. So a machine that was backing up goes on doing so.\<close>

theorem migration_keeps_and_confirms:
  assumes "migrate db = (Inr u, db')" and "has_table db"
    and "set first_columns \<subseteq> set (plan_cols db)" and "''confirmed_at'' \<notin> set (plan_cols db)"
    and "plan_rows db = Some r"
  shows "db_ready db' \<and> plan_meta db' = plan_meta db \<and>
    (\<exists>r'. plan_rows db' = Some r' \<and> old_part r' = old_part r \<and>
      r_updated_at r' = r_updated_at r \<and> r_confirmed_at r' = r_updated_at r) \<and>
    migrate (no_faults db') = (Inr (), no_faults db')"
proof -
  obtain db1 where m: "add_each (plan_cols db) added_columns db1 = (Inr u, db')"
    "plan_rows db1 = Some r"
    using migrate_ok_cases [OF assms(1,2)] assms(5) by metis
  have ready: "db_ready db'" "plan_meta db' = plan_meta db"
    using migrate_ready [OF assms(1,2,3)] by simp_all
  then have "has_table db'" "set added_columns \<subseteq> set (plan_cols db')" by (simp_all add: db_ready_def)
  then have again: "migrate (no_faults db') = (Inr (), no_faults db')"
    by (simp add: migrate_def add_columns_def next_statement_def create_tables_def no_faults_def
        add_each_none)
  from add_each_row [OF m] assms(4) ready again show ?thesis by simp
qed

definition old_row :: plan_row where
  "old_row = (encode_row sample_plan)\<lparr>r_updated_at := TimeText (5 * second)\<rparr>"

definition old_db :: "faults \<Rightarrow> plandb" where
  "old_db fs =
     \<lparr>has_table = True, plan_cols = first_columns, plan_rows = Some old_row, plan_meta = Map.empty,
      db_faults = fs\<rparr>"

lemma old_db_cols [simp]:
  "''style'' \<notin> set first_columns" "''skip_larger_than_gb'' \<notin> set first_columns"
  "''skip_on_metered'' \<notin> set first_columns"
  by (simp_all add: first_columns_def)

theorem migration_keeps_and_confirms_witness:
  "\<exists>r'. plan_rows (snd (migrate (old_db []))) = Some r' \<and> r_confirmed_at r' = TimeText (5 * second)"
proof -
  obtain u db' where m: "migrate (old_db []) = (Inr u, db')"
    by (simp add: migrate_def add_columns_def next_statement_def create_tables_def old_db_def
        added_columns_def Let_def alter_add_def backfill_confirmed_def)
  have "plan_rows (old_db []) = Some old_row" by (simp add: old_db_def)
  from migration_keeps_and_confirms [OF m _ _ _ this]
  have "\<exists>r'. plan_rows db' = Some r' \<and> r_confirmed_at r' = r_updated_at old_row"
    by (auto simp: old_db_def)
  then show ?thesis unfolding m by (simp add: old_row_def)
qed

text \<open>A migration that is interrupted between adding the column \<open>confirmed_at\<close> and filling it in
  is not repaired by the next one: the first reports an error, the next start sees the column, does
  not fill it, succeeds, and the plan of a machine that was backing up is unconfirmed from then on.\<close>

theorem interrupted_migration_unconfirms:
  assumes "has_table db" and "''style'' \<in> set (plan_cols db)"
    and "''confirmed_at'' \<notin> set (plan_cols db)" and "plan_rows db = Some r"
    and "db_faults db = [False, False, False, True]"
  shows "\<not> is_ok (fst (migrate db)) \<and> is_ok (fst (migrate (snd (migrate db)))) \<and>
    map_option r_confirmed_at (plan_rows (snd (migrate (snd (migrate db))))) = Some NoTime"
proof -
  define db1 where "db1 = snd (migrate db)"
  have first: "\<not> is_ok (fst (migrate db))" "has_table db1" "db_faults db1 = []"
    "plan_cols db1 = plan_cols db @ [''confirmed_at'']"
    "plan_rows db1 = Some (column_default ''confirmed_at'' r)"
    using assms unfolding db1_def
    by (simp_all add: migrate_def add_columns_def next_statement_def create_tables_def
        added_columns_def Let_def alter_add_def)
  obtain q db2 where m: "migrate db1 = (q, db2)" by fastforce
  have ok: "is_ok q" using migrate_quiet [OF first(3)] m by simp
  then obtain u where u: "migrate db1 = (Inr u, db2)" using m by (auto simp: is_ok_iff)
  obtain db3 where a: "add_each (plan_cols db1) added_columns db3 = (Inr u, db2)"
    "plan_rows db3 = plan_rows db1"
    using migrate_ok_cases [OF u first(2)] by metis
  from add_each_row [OF a(1)] a(2) first(4,5) have
    "map_option r_confirmed_at (plan_rows db2) = Some NoTime"
    by (fastforce simp: column_default_def)
  with first(1) ok m show ?thesis by (simp add: db1_def)
qed

theorem interrupted_migration_unconfirms_witness:
  "\<exists>db. is_ok (fst (migrate (snd (migrate db)))) \<and> held_plan (no_faults db) = None \<and>
    map_option r_confirmed_at (plan_rows (snd (migrate (snd (migrate db))))) = Some NoTime"
proof -
  let ?db = "(old_db [False, False, False, True])\<lparr>plan_cols := first_columns @ [''style'']\<rparr>"
  have "plan_rows ?db = Some old_row" by (simp add: old_db_def)
  from interrupted_migration_unconfirms [OF _ _ _ this]
  have "is_ok (fst (migrate (snd (migrate ?db)))) \<and>
      map_option r_confirmed_at (plan_rows (snd (migrate (snd (migrate ?db))))) = Some NoTime"
    by (simp add: old_db_def)
  moreover have "held_plan (no_faults ?db) = None"
    by (simp add: held_plan_def no_faults_def db_ready_def old_db_def added_columns_def
        first_columns_def)
  ultimately show ?thesis by blast
qed

text \<open>Recording that the server could not be asked changes only the error: the last answer keeps
  its time, its bucket and its offer, the plan is untouched, and when the write succeeds the reason is
  what the page shows.\<close>

theorem failure_keeps_the_answer:
  "case biz_record_state_failure plandb reason db of (r, db') \<Rightarrow>
      held_plan db' = held_plan db \<and>
      (if is_ok r then held_state db' = (held_state db)\<lparr>ms_error := reason\<rparr>
       else held_state db' = held_state db)"
proof -
  obtain r db' where c: "biz_record_state_failure plandb reason db = (r, db')" by fastforce
  with pdb.failure_view [OF c] show ?thesis by simp
qed

text \<open>What a read and a write of the plan leave in the store.\<close>

lemma plandb_get_held:
  assumes "plandb_get db = (r, db1)"
  shows "held_plan db1 = held_plan db"
    and "case r of Inr p \<Rightarrow> held_plan db = Some p | Inl e \<Rightarrow> err_is ErrNoPlan e \<longrightarrow> held_plan db = None"
proof -
  show "held_plan db1 = held_plan db" using assms pdb.get_view [of db r db1] by (auto simp: plandb_def)
  show "case r of Inr p \<Rightarrow> held_plan db = Some p | Inl e \<Rightarrow> err_is ErrNoPlan e \<longrightarrow> held_plan db = None"
  proof (cases r)
    case (Inl e)
    then show ?thesis using assms
      by (auto simp: plandb_get_def held_plan_def next_statement_def ErrNoPlan_def sql_error_def
          split: if_splits option.splits sum.splits)
  next
    case (Inr p)
    then show ?thesis using assms pdb.get_view [of db r db1] by (auto simp: plandb_def)
  qed
qed

lemma plandb_get_seeded: "plandb_get db = (r, db1) \<Longrightarrow> held_seeded db1 = held_seeded db"
  using pdb.get_view [of db r db1] by (auto simp: plandb_def)

lemma biz_put_held:
  assumes "biz_put plandb p now db = (r, db')"
  shows "case r of
      Inl _ \<Rightarrow> held_plan db' = held_plan db
    | Inr _ \<Rightarrow> validate_plan p = None \<and> held_plan db' = Some (stored_plan (p\<lparr>updated_at := now\<rparr>))"
    and "held_seeded db' = held_seeded db"
  using assms pdb.put_ok [of _ db _ db'] pdb.put_err [of _ db _ db']
  by (cases r; force simp: biz_put_def split: option.splits)+

end
