(* ===== verification/Json.thy ===== *)
theory Json
  imports GoText
begin

text \<open>
  What the program uses of \<open>encoding/json\<close> when it reads: a text is taken apart one level at a time,
  an object into its keys and the raw texts of its values, and a struct is filled from the values
  whose key is the field's name, whatever its case, the last one winning and a null leaving the field
  alone. Taking one level apart is the parameter \<open>parse\<close> of the definitions here, \<open>None\<close> for a text
  that is not JSON; a value of the wrong kind for a field is an error of the whole struct.
\<close>

datatype json =
    JNull
  | JBool bool
  | JNumber string rat
  | JText string
  | JArray "string list"
  | JObject "(string \<times> string) list"

type_synonym parser = "string \<Rightarrow> json option"

text \<open>The raw texts an object gives for a field, in order.\<close>

definition values_of :: "string \<Rightarrow> (string \<times> string) list \<Rightarrow> string list" where
  "values_of name fields = map snd (filter (\<lambda>(k, _). to_lower k = name) fields)"

text \<open>One field: every value given for it is decoded in turn onto what the field holds.\<close>

fun fold_field :: "(json \<Rightarrow> 'a option) \<Rightarrow> parser \<Rightarrow> 'a \<Rightarrow> string list \<Rightarrow> 'a option" where
  "fold_field d parse x [] = Some x"
| "fold_field d parse x (raw # raws) =
     (case parse raw of
        None \<Rightarrow> None
      | Some JNull \<Rightarrow> fold_field d parse x raws
      | Some j \<Rightarrow> (case d j of None \<Rightarrow> None | Some y \<Rightarrow> fold_field d parse y raws))"

fun as_text :: "json \<Rightarrow> string option" where
  "as_text (JText s) = Some s"
| "as_text _ = None"

fun as_int :: "json \<Rightarrow> int option" where
  "as_int (JNumber lit _) = atoi lit"
| "as_int _ = None"

fun as_float :: "json \<Rightarrow> rat option" where
  "as_float (JNumber _ v) = Some v"
| "as_float _ = None"

fun as_bool :: "json \<Rightarrow> bool option" where
  "as_bool (JBool b) = Some b"
| "as_bool _ = None"

fun texts_of :: "parser \<Rightarrow> string list \<Rightarrow> string list option" where
  "texts_of parse [] = Some []"
| "texts_of parse (raw # raws) =
     (case (case parse raw of Some JNull \<Rightarrow> Some [] | Some j \<Rightarrow> as_text j | None \<Rightarrow> None) of
        None \<Rightarrow> None
      | Some s \<Rightarrow> map_option ((#) s) (texts_of parse raws))"

fun as_texts :: "parser \<Rightarrow> json \<Rightarrow> string list option" where
  "as_texts parse (JArray raws) = texts_of parse raws"
| "as_texts parse _ = None"

definition text_field :: "parser \<Rightarrow> (string \<times> string) list \<Rightarrow> string \<Rightarrow> string option" where
  "text_field parse fields name = fold_field as_text parse [] (values_of name fields)"

definition int_field :: "parser \<Rightarrow> (string \<times> string) list \<Rightarrow> string \<Rightarrow> int option" where
  "int_field parse fields name = fold_field as_int parse 0 (values_of name fields)"

definition float_field :: "parser \<Rightarrow> (string \<times> string) list \<Rightarrow> string \<Rightarrow> rat option" where
  "float_field parse fields name = fold_field as_float parse 0 (values_of name fields)"

definition bool_field :: "parser \<Rightarrow> (string \<times> string) list \<Rightarrow> string \<Rightarrow> bool option" where
  "bool_field parse fields name = fold_field as_bool parse False (values_of name fields)"

definition texts_field :: "parser \<Rightarrow> (string \<times> string) list \<Rightarrow> string \<Rightarrow> string list option" where
  "texts_field parse fields name = fold_field (as_texts parse) parse [] (values_of name fields)"

text \<open>A \<open>json.RawMessage\<close> takes the text of the last value, null included.\<close>

definition raw_field :: "(string \<times> string) list \<Rightarrow> string \<Rightarrow> string" where
  "raw_field fields name =
     (case rev (values_of name fields) of [] \<Rightarrow> [] | raw # _ \<Rightarrow> raw)"

text \<open>The fields of a struct's text: a null is a struct with no field set.\<close>

definition struct_fields :: "parser \<Rightarrow> string \<Rightarrow> (string \<times> string) list option" where
  "struct_fields parse s =
     (case parse s of
        Some (JObject fields) \<Rightarrow> Some fields
      | Some JNull \<Rightarrow> Some []
      | _ \<Rightarrow> None)"

text \<open>
  A struct inside a struct: every object given for it is decoded onto the same struct, so that its
  fields are those of all of them in order. A pointer to one is dropped by a null and made by an
  object; a slice or a pointer to a value is nil until a value is given, and nil again after a null.
\<close>

fun object_fields :: "parser \<Rightarrow> (string \<times> string) list \<Rightarrow> string list \<Rightarrow> (string \<times> string) list option" where
  "object_fields parse fs [] = Some fs"
| "object_fields parse fs (raw # raws) =
     Option.bind (struct_fields parse raw) (\<lambda>g. object_fields parse (fs @ g) raws)"

definition object_field :: "parser \<Rightarrow> (string \<times> string) list \<Rightarrow> string \<Rightarrow> (string \<times> string) list option" where
  "object_field parse fields name = object_fields parse [] (values_of name fields)"

fun pointer_fields ::
  "parser \<Rightarrow> (string \<times> string) list option \<Rightarrow> string list \<Rightarrow> (string \<times> string) list option option" where
  "pointer_fields parse p [] = Some p"
| "pointer_fields parse p (raw # raws) =
     (case parse raw of
        Some JNull \<Rightarrow> pointer_fields parse None raws
      | Some (JObject g) \<Rightarrow> pointer_fields parse (Some (case p of None \<Rightarrow> g | Some fs \<Rightarrow> fs @ g)) raws
      | _ \<Rightarrow> None)"

definition pointer_field ::
  "parser \<Rightarrow> (string \<times> string) list \<Rightarrow> string \<Rightarrow> (string \<times> string) list option option" where
  "pointer_field parse fields name = pointer_fields parse None (values_of name fields)"

fun fold_nilable :: "(json \<Rightarrow> 'a option) \<Rightarrow> parser \<Rightarrow> 'a option \<Rightarrow> string list \<Rightarrow> 'a option option" where
  "fold_nilable d parse x [] = Some x"
| "fold_nilable d parse x (raw # raws) =
     (case parse raw of
        None \<Rightarrow> None
      | Some JNull \<Rightarrow> fold_nilable d parse None raws
      | Some j \<Rightarrow> (case d j of None \<Rightarrow> None | Some y \<Rightarrow> fold_nilable d parse (Some y) raws))"

end
