(* ===== verification/Restic.thy ===== *)
theory Restic
  imports Errors Json GoTime GoFloat
begin

text \<open>
  The wrapper around the restic binary: \<open>foundation/restic/restic.go\<close>, \<open>backup.go\<close> and \<open>ops.go\<close>. What
  a process does is not the program's: the world holds what the coming invocations will do, and the
  command lines that were run. A JSON reader is the parameter \<open>parse\<close>, and the platform \<open>goos\<close>.
\<close>

section \<open>The repository\<close>

record repository =
  repo_url :: string
  password :: string
  access_key_id :: string
  secret_access_key :: string
  repo_pack_size :: int
  repo_read_concurrency :: int

definition stripped :: "string \<Rightarrow> bool" where
  "stripped name \<longleftrightarrow> prefix ''RESTIC_'' name \<or> prefix ''AWS_'' name"

fun keep_environ :: "string list \<Rightarrow> string list" where
  "keep_environ [] = []"
| "keep_environ (kv # kvs) =
     (case cut (CHR ''='') kv of
        None \<Rightarrow> keep_environ kvs
      | Some (name, _) \<Rightarrow> if stripped name then keep_environ kvs else kv # keep_environ kvs)"

definition repo_env :: "string list \<Rightarrow> repository \<Rightarrow> string list" where
  "repo_env environ r =
     keep_environ environ @
     [''RESTIC_REPOSITORY='' @ repo_url r, ''RESTIC_PASSWORD='' @ password r,
      ''AWS_ACCESS_KEY_ID='' @ access_key_id r, ''AWS_SECRET_ACCESS_KEY='' @ secret_access_key r] @
     (if 0 < repo_pack_size r then [''RESTIC_PACK_SIZE='' @ itoa (repo_pack_size r)] else []) @
     (if 0 < repo_read_concurrency r
      then [''RESTIC_READ_CONCURRENCY='' @ itoa (repo_read_concurrency r)] else [])"

definition validate_repo :: "repository \<Rightarrow> err option" where
  "validate_repo r =
     (if repo_url r = [] then Some (Sentinel ''restic: the repository has no URL'')
      else if password r = []
      then Some (Sentinel ''restic: the repository password is empty; nothing could ever be restored'')
      else if access_key_id r = [] \<or> secret_access_key r = []
      then Some (Sentinel ''restic: the S3 credentials are incomplete'')
      else None)"

section \<open>Reading an exit\<close>

definition contains_any :: "string \<Rightarrow> string list \<Rightarrow> bool" where
  "contains_any s needles = list_ex (\<lambda>n. contains_str n s) needles"

definition classify :: "int \<Rightarrow> string \<Rightarrow> int" where
  "classify code stderr =
     (if code \<noteq> ExitFailed then code
      else let msg = to_lower stderr in
        if contains_any msg
             [''unable to open config file'', ''is there a repository at the following location'',
              ''repository does not exist'', ''no such file or directory'']
           \<and> contains_any msg [''config'', ''repository'']
        then ExitNoRepository
        else if contains_any msg
             [''unable to create lock'', ''repository is already locked'', ''locked exclusively'']
        then ExitLocked
        else if contains_any msg [''wrong password'', ''invalid password''] then ExitWrongPassword
        else code)"

definition stderr_tail :: nat where
  "stderr_tail = 8192"

definition newline :: char where
  "newline = CHR 0x0A"

definition ellipsis :: string where
  "ellipsis = [CHR 0xE2, CHR 0x80, CHR 0xA6, CHR 0x0A]"

definition tail :: "string \<Rightarrow> nat \<Rightarrow> string" where
  "tail s0 n =
     (let s = trim_space s0 in
      if length s \<le> n then s
      else let c = drop (length s - n) s in
        (case index_str [newline] c of
           None \<Rightarrow> ellipsis @ c
         | Some i \<Rightarrow> if i < length c - 1 then ellipsis @ drop (i + 1) c else ellipsis @ c))"

section \<open>Running a command\<close>

text \<open>What an invocation does: it does not start, or it writes to both streams and ends.\<close>

datatype ended = Exited int | NotWaited err

datatype proc = NoPipe err | NoStart err | Ran (p_stdout: string) (p_stderr: string) (p_end: ended)

record world =
  procs :: "proc list"
  ran :: "string list list"

definition invoke :: "string list \<Rightarrow> world \<Rightarrow> proc \<times> world" where
  "invoke args w =
     ((case procs w of [] \<Rightarrow> Ran [] [] (Exited 0) | p # _ \<Rightarrow> p),
      w\<lparr>procs := tl (procs w), ran := ran w @ [args]\<rparr>)"

definition exit_error :: "string list \<Rightarrow> int \<Rightarrow> string \<Rightarrow> err" where
  "exit_error args code stderr =
     (let d = tail stderr stderr_tail in ResticError args (classify code d) d)"

definition run_restic ::
  "repository \<Rightarrow> string list \<Rightarrow> world \<Rightarrow> (string \<times> err option) \<times> world" where
  "run_restic repo args w =
     (case validate_repo repo of
        Some e \<Rightarrow> (([], Some e), w)
      | None \<Rightarrow>
          (case invoke args w of
             (NoPipe e, w') \<Rightarrow> (([], Some (Wrap (''restic '' @ join_with '' '' args @ '': '') e [])), w')
           | (NoStart e, w') \<Rightarrow> (([], Some (Wrap (''restic '' @ join_with '' '' args @ '': '') e [])), w')
           | (Ran out stderr (Exited code), w') \<Rightarrow>
               if code = 0 then ((out, None), w')
               else ((out, Some (exit_error args code stderr)), w')
           | (Ran out stderr (NotWaited e), w') \<Rightarrow>
               ((out, Some (Wrap (''restic '' @ join_with '' '' args @ '': '') e [])), w')))"

section \<open>The operations on a repository\<close>

definition ErrAbsent :: err where
  "ErrAbsent = Sentinel ''restic: there is no repository at that URL''"

definition res_of :: "'a \<Rightarrow> err option \<Rightarrow> 'a res" where
  "res_of x e = (case e of None \<Rightarrow> Inr x | Some e' \<Rightarrow> Inl e')"

definition init_repo :: "repository \<Rightarrow> world \<Rightarrow> unit res \<times> world" where
  "init_repo repo w =
     (case run_restic repo [''init''] w of ((_, e), w') \<Rightarrow> (res_of () e, w'))"

definition is_no_repository :: "err \<Rightarrow> bool" where
  "is_no_repository e =
     (case as_restic e of Some r \<Rightarrow> restic_code r = ExitNoRepository | None \<Rightarrow> False)"

definition exists_repo :: "repository \<Rightarrow> world \<Rightarrow> bool res \<times> world" where
  "exists_repo repo w =
     (case run_restic repo [''cat'', ''config''] w of
        ((_, None), w') \<Rightarrow> (Inr True, w')
      | ((_, Some e), w') \<Rightarrow> if is_no_repository e then (Inr False, w') else (Inl e, w'))"

text \<open>\<open>Ensure\<close> answers whether it created the repository, and an error beside that.\<close>

definition ensure_repo ::
  "repository \<Rightarrow> bool \<Rightarrow> world \<Rightarrow> (bool \<times> err option) \<times> world" where
  "ensure_repo repo may_create w =
     (case exists_repo repo w of
        (Inl e, w1) \<Rightarrow>
          ((False, Some (Wrap (''could not reach the repository at '' @ repo_url repo @ '': '') e [])), w1)
      | (Inr there, w1) \<Rightarrow>
          if there then ((False, None), w1)
          else if \<not> may_create then ((False, Some (Wrap [] ErrAbsent ('': '' @ repo_url repo))), w1)
          else (case init_repo repo w1 of
              (Inl e, w2) \<Rightarrow>
                ((False, Some (Wrap (''could not create the repository at '' @ repo_url repo @ '': '') e [])),
                 w2)
            | (Inr _, w2) \<Rightarrow>
                (case exists_repo repo w2 of
                   (Inl e, w3) \<Rightarrow>
                     ((True, Some (Wrap (''created the repository at '' @ repo_url repo @
                        '' but could not read it back: '') e [])), w3)
                 | (Inr opened, w3) \<Rightarrow>
                     if \<not> opened
                     then ((True, Some (Sentinel (''created the repository at '' @ repo_url repo @
                        '' and it is still not there''))), w3)
                     else ((True, None), w3))))"

definition restore_args :: "string \<Rightarrow> string \<Rightarrow> string list \<Rightarrow> string list" where
  "restore_args snap target incs =
     [''restore'', snap, ''--target'', target] @ concat (map (\<lambda>i. [''--include'', i]) incs)"

definition restore ::
  "repository \<Rightarrow> string \<Rightarrow> string \<Rightarrow> string list \<Rightarrow> world \<Rightarrow> unit res \<times> world" where
  "restore repo snap target incs w =
     (if snap = [] then (Inl (Sentinel ''restic: restore needs a snapshot ID or \"latest\"''), w)
      else if target = [] then (Inl (Sentinel ''restic: restore needs a target directory''), w)
      else (case run_restic repo (restore_args snap target incs) w of ((_, e), w') \<Rightarrow> (res_of () e, w')))"

definition check_repo :: "repository \<Rightarrow> string \<Rightarrow> world \<Rightarrow> unit res \<times> world" where
  "check_repo repo part w =
     (case run_restic repo
        ([''check''] @ (if part \<noteq> [] then [''--read-data-subset='' @ part] else [])) w of
        ((_, e), w') \<Rightarrow> (res_of () e, w'))"

definition unlock :: "repository \<Rightarrow> world \<Rightarrow> unit res \<times> world" where
  "unlock repo w = (case run_restic repo [''unlock''] w of ((_, e), w') \<Rightarrow> (res_of () e, w'))"

record stats =
  total_size :: int
  total_file_count :: int
  total_blob_count :: int
  snapshots_count :: int

definition decode_stats :: "parser \<Rightarrow> string \<Rightarrow> stats option" where
  "decode_stats parse s =
     Option.bind (struct_fields parse s) (\<lambda>f.
     Option.bind (int_field parse f ''total_size'') (\<lambda>a.
     Option.bind (int_field parse f ''total_file_count'') (\<lambda>b.
     Option.bind (int_field parse f ''total_blob_count'') (\<lambda>c.
     Option.bind (int_field parse f ''snapshots_count'') (\<lambda>d.
     Some \<lparr>total_size = a, total_file_count = b, total_blob_count = c, snapshots_count = d\<rparr>)))))"

definition repo_stats ::
  "parser \<Rightarrow> repository \<Rightarrow> string \<Rightarrow> string \<Rightarrow> world \<Rightarrow> stats res \<times> world" where
  "repo_stats parse repo mode snapshot w =
     (case run_restic repo ([''stats'', ''--json'', ''--mode'', mode] @
        (if snapshot \<noteq> [] then [snapshot] else [])) w of
        ((_, Some e), w') \<Rightarrow> (Inl e, w')
      | ((out, None), w') \<Rightarrow>
          (case decode_stats parse out of
             None \<Rightarrow> (Inl (Wrap ''restic: reading stats output: '' (Sentinel ''json'') []), w')
           | Some s \<Rightarrow> (Inr s, w')))"

record repo_size =
  rs_now :: int
  rs_fresh :: int
  rs_snapshots :: int

definition repo_reclaimable :: "repo_size \<Rightarrow> int" where
  "repo_reclaimable s = (if rs_now s \<le> rs_fresh s then 0 else wrap64 (rs_now s - rs_fresh s))"

definition measure_repo :: "parser \<Rightarrow> repository \<Rightarrow> world \<Rightarrow> repo_size res \<times> world" where
  "measure_repo parse repo w =
     (case repo_stats parse repo ''raw-data'' [] w of
        (Inl e, w1) \<Rightarrow> (Inl e, w1)
      | (Inr whole, w1) \<Rightarrow>
          (case repo_stats parse repo ''raw-data'' ''latest'' w1 of
             (Inl e, w2) \<Rightarrow> (Inl e, w2)
           | (Inr newest, w2) \<Rightarrow>
               (Inr \<lparr>rs_now = total_size whole, rs_fresh = total_size newest,
                     rs_snapshots = snapshots_count whole\<rparr>, w2)))"

section \<open>A name that could not be looked up\<close>

definition host_char :: "char \<Rightarrow> bool" where
  "host_char c =
     (let n = (of_char c :: nat) in
        65 \<le> n \<and> n \<le> 90 \<or> 97 \<le> n \<and> n \<le> 122 \<or> 48 \<le> n \<and> n \<le> 57 \<or>
        c \<in> {CHR ''.'', CHR ''_'', CHR ''-''})"

text \<open>The leftmost match of \<open>lookup ([A-Za-z0-9._-]+)\<close>, and what its group holds.\<close>

fun find_lookup :: "string \<Rightarrow> string option" where
  "find_lookup [] = None"
| "find_lookup (c # cs) =
     (let host = takeWhile host_char (drop 7 (c # cs)) in
      if prefix ''lookup '' (c # cs) \<and> host \<noteq> [] then Some host else find_lookup cs)"

definition unresolvable :: "err \<Rightarrow> string option" where
  "unresolvable e = map_option (trim_suffix ''.'') (find_lookup (restic_stderr e))"

section \<open>A backup\<close>

record backup_options =
  o_targets :: "string list"
  o_exclude_file :: string
  o_excludes :: "string list"
  o_tags :: "string list"
  o_host :: string
  o_use_fs_snapshot :: bool
  o_allow_vss_fallback :: bool
  o_one_file_system :: bool
  o_exclude_larger_than :: int

record progress =
  percent_done :: rat
  total_files :: int
  files_done :: int
  total_bytes :: int
  bytes_done :: int
  pr_error_count :: int
  current_files :: "string list"
  seconds_remaining :: int

record file_error =
  fe_item :: string
  fe_error :: string

record summary =
  files_new :: int
  files_changed :: int
  files_unmodified :: int
  dirs_new :: int
  dirs_changed :: int
  data_added :: int
  data_added_packed :: int
  total_files_processed :: int
  total_bytes_processed :: int
  total_duration :: rat
  snapshot_id :: string
  sum_errors :: "file_error list"
  error_count :: int
  vss_fell_back :: bool

definition zero_summary :: summary where
  "zero_summary =
     \<lparr>files_new = 0, files_changed = 0, files_unmodified = 0, dirs_new = 0, dirs_changed = 0,
      data_added = 0, data_added_packed = 0, total_files_processed = 0, total_bytes_processed = 0,
      total_duration = 0, snapshot_id = [], sum_errors = [], error_count = 0, vss_fell_back = False\<rparr>"

definition supports_one_file_system :: "string \<Rightarrow> bool" where
  "supports_one_file_system goos \<longleftrightarrow> goos \<noteq> ''windows''"

definition backup_args :: "string \<Rightarrow> backup_options \<Rightarrow> string list" where
  "backup_args goos opts =
     [''backup'', ''--json''] @
     (if o_use_fs_snapshot opts then [''--use-fs-snapshot''] else []) @
     (if o_one_file_system opts \<and> supports_one_file_system goos then [''--one-file-system''] else []) @
     (if o_host opts \<noteq> [] then [''--host'', o_host opts] else []) @
     concat (map (\<lambda>t. [''--tag'', t]) (o_tags opts)) @
     (if o_exclude_file opts \<noteq> [] then [''--exclude-file'', o_exclude_file opts] else []) @
     concat (map (\<lambda>p. [''--exclude'', p]) (o_excludes opts)) @
     (if 0 < o_exclude_larger_than opts
      then [''--exclude-larger-than'', itoa (o_exclude_larger_than opts) @ ''B''] else []) @
     [''--''] @ o_targets opts"

text \<open>
  \<open>bufio.Scanner\<close> over lines with a buffer of 4 MiB: a fragment that does not fit ends the scan with
  an error, and an empty fragment at the end of the stream is no line.
\<close>

definition max_line :: int where
  "max_line = 4194304"

definition fragments :: "string \<Rightarrow> string list" where
  "fragments s = (let ls = split_on newline s in if last ls = [] then butlast ls else ls)"

definition scan_lines :: "string \<Rightarrow> string list \<times> bool" where
  "scan_lines s =
     (let fs = fragments s
      in (takeWhile (\<lambda>l. int (length l) < max_line) fs, list_ex (\<lambda>l. max_line \<le> int (length l)) fs))"

record message =
  message_type :: string
  msg_error :: string
  msg_item :: string

definition decode_message :: "parser \<Rightarrow> string \<Rightarrow> message option" where
  "decode_message parse line =
     Option.bind (struct_fields parse line) (\<lambda>f.
     Option.bind (text_field parse f ''message_type'') (\<lambda>t.
     Option.bind (text_field parse f ''item'') (\<lambda>i.
     Some \<lparr>message_type = t, msg_error = raw_field f ''error'', msg_item = i\<rparr>)))"

definition decode_progress :: "parser \<Rightarrow> string \<Rightarrow> progress option" where
  "decode_progress parse line =
     Option.bind (struct_fields parse line) (\<lambda>f.
     Option.bind (float_field parse f ''percent_done'') (\<lambda>pd.
     Option.bind (int_field parse f ''total_files'') (\<lambda>tf.
     Option.bind (int_field parse f ''files_done'') (\<lambda>fd.
     Option.bind (int_field parse f ''total_bytes'') (\<lambda>tb.
     Option.bind (int_field parse f ''bytes_done'') (\<lambda>bd.
     Option.bind (int_field parse f ''error_count'') (\<lambda>ec.
     Option.bind (texts_field parse f ''current_files'') (\<lambda>cf.
     Option.bind (int_field parse f ''seconds_remaining'') (\<lambda>sr.
     Some \<lparr>percent_done = pd, total_files = tf, files_done = fd, total_bytes = tb, bytes_done = bd,
           pr_error_count = ec, current_files = cf, seconds_remaining = sr\<rparr>)))))))))"

text \<open>The field \<open>Errors\<close> has no key in a line restic writes; what it holds is replaced by the caller.\<close>

definition decode_summary :: "parser \<Rightarrow> string \<Rightarrow> summary option" where
  "decode_summary parse line =
     Option.bind (struct_fields parse line) (\<lambda>f.
     Option.bind (int_field parse f ''files_new'') (\<lambda>a.
     Option.bind (int_field parse f ''files_changed'') (\<lambda>b.
     Option.bind (int_field parse f ''files_unmodified'') (\<lambda>c.
     Option.bind (int_field parse f ''dirs_new'') (\<lambda>d.
     Option.bind (int_field parse f ''dirs_changed'') (\<lambda>e.
     Option.bind (int_field parse f ''data_added'') (\<lambda>g.
     Option.bind (int_field parse f ''data_added_packed'') (\<lambda>h.
     Option.bind (int_field parse f ''total_files_processed'') (\<lambda>i.
     Option.bind (int_field parse f ''total_bytes_processed'') (\<lambda>j.
     Option.bind (float_field parse f ''total_duration'') (\<lambda>k.
     Option.bind (text_field parse f ''snapshot_id'') (\<lambda>l.
     Option.bind (bool_field parse f ''vssfellback'') (\<lambda>m.
     Some \<lparr>files_new = a, files_changed = b, files_unmodified = c, dirs_new = d, dirs_changed = e,
           data_added = g, data_added_packed = h, total_files_processed = i,
           total_bytes_processed = j, total_duration = k, snapshot_id = l, sum_errors = [],
           error_count = 0, vss_fell_back = m\<rparr>)))))))))))))"

definition describe_error :: "parser \<Rightarrow> string \<Rightarrow> string" where
  "describe_error parse raw =
     (if raw = [] then []
      else case Option.bind (struct_fields parse raw) (\<lambda>f. text_field parse f ''message'') of
          Some (c # cs) \<Rightarrow> c # cs
        | _ \<Rightarrow> (case parse raw of
              Some (JText s) \<Rightarrow> s
            | Some JNull \<Rightarrow> []
            | _ \<Rightarrow> trim_space raw))"

definition max_errors_kept :: nat where
  "max_errors_kept = 100"

record parse_state =
  ps_summary :: summary
  ps_count :: int
  ps_progress :: "progress list"

definition add_error :: "file_error \<Rightarrow> summary \<Rightarrow> summary" where
  "add_error e s =
     (if length (sum_errors s) < max_errors_kept then s\<lparr>sum_errors := sum_errors s @ [e]\<rparr> else s)"

text \<open>One line of the stream: the next state, or the error that ends the parse.\<close>

definition parse_line :: "parser \<Rightarrow> bool \<Rightarrow> string \<Rightarrow> parse_state \<Rightarrow> parse_state \<times> err option" where
  "parse_line parse listening raw st =
     (let line = trim_space raw in
      if line = [] then (st, None)
      else case decode_message parse line of
          None \<Rightarrow> (st, None)
        | Some msg \<Rightarrow>
            if message_type msg = ''status'' then
              (case (if listening then decode_progress parse line else None) of
                 None \<Rightarrow> (st, None)
               | Some p \<Rightarrow> (st\<lparr>ps_progress := ps_progress st @ [p]\<rparr>, None))
            else if message_type msg = ''error'' then
              (st\<lparr>ps_count := ps_count st + 1,
                  ps_summary := add_error \<lparr>fe_item = msg_item msg,
                    fe_error = describe_error parse (msg_error msg)\<rparr> (ps_summary st)\<rparr>, None)
            else if message_type msg = ''summary'' then
              (case decode_summary parse line of
                 None \<Rightarrow> (st, Some (Wrap ''restic: its summary line was unreadable: '' (Sentinel ''json'') []))
               | Some got \<Rightarrow>
                   (st\<lparr>ps_summary := got\<lparr>sum_errors := sum_errors (ps_summary st)\<rparr>\<rparr>, None))
            else (st, None))"

fun parse_lines :: "parser \<Rightarrow> bool \<Rightarrow> string list \<Rightarrow> parse_state \<Rightarrow> parse_state \<times> err option" where
  "parse_lines parse listening [] st = (st, None)"
| "parse_lines parse listening (l # ls) st =
     (case parse_line parse listening l st of
        (st', Some e) \<Rightarrow> (st', Some e)
      | (st', None) \<Rightarrow> parse_lines parse listening ls st')"

definition parse_backup ::
  "parser \<Rightarrow> bool \<Rightarrow> string \<Rightarrow> (summary \<times> progress list) \<times> err option" where
  "parse_backup parse listening out =
     (let (ls, too_long) = scan_lines out in
      case parse_lines parse listening ls \<lparr>ps_summary = zero_summary, ps_count = 0, ps_progress = []\<rparr> of
        (st, Some e) \<Rightarrow> ((ps_summary st, ps_progress st), Some e)
      | (st, None) \<Rightarrow>
          if too_long
          then ((ps_summary st, ps_progress st),
                Some (Wrap ''restic: reading backup output: '' (Sentinel ''bufio.Scanner: token too long'') []))
          else (((ps_summary st)\<lparr>error_count := ps_count st\<rparr>, ps_progress st), None))"

definition merge_errors :: "summary \<Rightarrow> summary \<Rightarrow> summary" where
  "merge_errors s other =
     foldl (\<lambda>acc e. add_error e acc) (s\<lparr>error_count := error_count s + error_count other\<rparr>)
       (sum_errors other)"

definition vss_refused :: "string \<Rightarrow> err \<Rightarrow> bool" where
  "vss_refused goos e =
     (if goos \<noteq> ''windows'' then False
      else case as_restic e of
          None \<Rightarrow> False
        | Some r \<Rightarrow> contains_any (to_lower (restic_stderr r))
            [''failed to create snapshot'', ''vss'', ''shadow copy'', ''access is denied''])"

type_synonym backup_result = "(summary \<times> progress list) \<times> err option"

definition backup_once ::
  "parser \<Rightarrow> string \<Rightarrow> string \<Rightarrow> repository \<Rightarrow> backup_options \<Rightarrow> world \<Rightarrow> backup_result \<times> world" where
  "backup_once parse goos bin repo opts w =
     (case validate_repo repo of
        Some e \<Rightarrow> (((zero_summary, []), Some e), w)
      | None \<Rightarrow>
          let args = backup_args goos opts in
          (case invoke args w of
             (NoPipe e, w') \<Rightarrow>
               (((zero_summary, []), Some (Wrap ''restic: opening a pipe to backup's output: '' e [])), w')
           | (NoStart e, w') \<Rightarrow>
               (((zero_summary, []), Some (Wrap (''restic backup: starting '' @ bin @ '': '') e [])), w')
           | (Ran out stderr ended, w') \<Rightarrow>
               (let ((s0, seen), parse_err) = parse_backup parse True out;
                    s = (case parse_backup parse False stderr of
                           ((errs, _), None) \<Rightarrow> merge_errors s0 errs
                         | (_, Some _) \<Rightarrow> s0)
                in case ended of
                    Exited code \<Rightarrow>
                      if code \<noteq> 0 then (((s, seen), Some (exit_error args code stderr)), w')
                      else (((s, seen), parse_err), w')
                  | NotWaited e \<Rightarrow> (((s, seen), Some (Wrap ''restic backup: '' e [])), w'))))"

definition run_backup ::
  "parser \<Rightarrow> string \<Rightarrow> string \<Rightarrow> repository \<Rightarrow> backup_options \<Rightarrow> world \<Rightarrow> backup_result \<times> world" where
  "run_backup parse goos bin repo opts w =
     (if o_targets opts = []
      then (((zero_summary, []), Some (Sentinel (''restic: refusing to back up with no targets; '' @
        ''that would write an empty snapshot and report success''))), w)
      else (case backup_once parse goos bin repo opts w of
          (((s, seen), Some e), w1) \<Rightarrow>
            if o_use_fs_snapshot opts \<and> o_allow_vss_fallback opts \<and> vss_refused goos e
            then (case backup_once parse goos bin repo (opts\<lparr>o_use_fs_snapshot := False\<rparr>) w1 of
                ((( s2, seen2), e2), w2) \<Rightarrow>
                  (((s2\<lparr>vss_fell_back := True\<rparr>, seen @ seen2), e2), w2))
            else (((s, seen), Some e), w1)
        | (((s, seen), None), w1) \<Rightarrow> (((s, seen), None), w1)))"

section \<open>How the command line is read\<close>

text \<open>
  The reader of restic's own flags, as its manual documents them: a flag with a value takes the next
  argument whatever it looks like, a limit is a number of bytes, and what follows a bare \<open>--\<close> is paths.
\<close>

definition no_options :: backup_options where
  "no_options =
     \<lparr>o_targets = [], o_exclude_file = [], o_excludes = [], o_tags = [], o_host = [],
      o_use_fs_snapshot = False, o_allow_vss_fallback = False, o_one_file_system = False,
      o_exclude_larger_than = 0\<rparr>"

definition read_bytes :: "string \<Rightarrow> int option" where
  "read_bytes s = (if suffix ''B'' s then atoi (butlast s) else None)"

definition set_flag :: "string \<Rightarrow> backup_options \<Rightarrow> backup_options option" where
  "set_flag f acc =
     (if f = ''--json'' then Some acc
      else if f = ''--use-fs-snapshot'' then Some (acc\<lparr>o_use_fs_snapshot := True\<rparr>)
      else if f = ''--one-file-system'' then Some (acc\<lparr>o_one_file_system := True\<rparr>)
      else None)"

definition set_value :: "string \<Rightarrow> string \<Rightarrow> backup_options \<Rightarrow> backup_options option" where
  "set_value f v acc =
     (if f = ''--host'' then Some (acc\<lparr>o_host := v\<rparr>)
      else if f = ''--tag'' then Some (acc\<lparr>o_tags := o_tags acc @ [v]\<rparr>)
      else if f = ''--exclude-file'' then Some (acc\<lparr>o_exclude_file := v\<rparr>)
      else if f = ''--exclude'' then Some (acc\<lparr>o_excludes := o_excludes acc @ [v]\<rparr>)
      else if f = ''--exclude-larger-than''
      then map_option (\<lambda>n. acc\<lparr>o_exclude_larger_than := n\<rparr>) (read_bytes v)
      else None)"

fun read_flags :: "backup_options \<Rightarrow> string list \<Rightarrow> backup_options option" where
  "read_flags acc [] = None"
| "read_flags acc [a] = (if a = ''--'' then Some acc else None)"
| "read_flags acc (a # b # rest) =
     (if a = ''--'' then Some (acc\<lparr>o_targets := b # rest\<rparr>)
      else case set_flag a acc of
          Some acc' \<Rightarrow> read_flags acc' (b # rest)
        | None \<Rightarrow> Option.bind (set_value a b acc) (\<lambda>acc'. read_flags acc' rest))"

definition read_backup_args :: "string list \<Rightarrow> backup_options option" where
  "read_backup_args args =
     (case args of a # rest \<Rightarrow> if a = ''backup'' then read_flags no_options rest else None | [] \<Rightarrow> None)"

lemma read_flag:
  "a \<noteq> ''--'' \<Longrightarrow> set_flag a acc = Some acc' \<Longrightarrow> rest \<noteq> [] \<Longrightarrow>
    read_flags acc (a # rest) = read_flags acc' rest"
  by (cases rest) auto

lemma read_value:
  "a \<noteq> ''--'' \<Longrightarrow> set_flag a acc = None \<Longrightarrow> set_value a v acc = Some acc' \<Longrightarrow>
    read_flags acc (a # v # rest) = read_flags acc' rest"
  by simp

lemma read_tags:
  "read_flags acc (concat (map (\<lambda>t. [''--tag'', t]) ts) @ rest) =
    read_flags (acc\<lparr>o_tags := o_tags acc @ ts\<rparr>) rest"
proof (induction ts arbitrary: acc)
  case Nil
  then show ?case by simp
next
  case (Cons t ts)
  have "read_flags acc (''--tag'' # t # concat (map (\<lambda>t. [''--tag'', t]) ts) @ rest) =
      read_flags (acc\<lparr>o_tags := o_tags acc @ [t]\<rparr>) (concat (map (\<lambda>t. [''--tag'', t]) ts) @ rest)"
    by (rule read_value) (simp_all add: set_flag_def set_value_def)
  with Cons show ?case by simp
qed

lemma read_excludes:
  "read_flags acc (concat (map (\<lambda>t. [''--exclude'', t]) ts) @ rest) =
    read_flags (acc\<lparr>o_excludes := o_excludes acc @ ts\<rparr>) rest"
proof (induction ts arbitrary: acc)
  case Nil
  then show ?case by simp
next
  case (Cons t ts)
  have "read_flags acc (''--exclude'' # t # concat (map (\<lambda>t. [''--exclude'', t]) ts) @ rest) =
      read_flags (acc\<lparr>o_excludes := o_excludes acc @ [t]\<rparr>) (concat (map (\<lambda>t. [''--exclude'', t]) ts) @ rest)"
    by (rule read_value) (simp_all add: set_flag_def set_value_def)
  with Cons show ?case by simp
qed

lemma read_option:
  "rest \<noteq> [] \<Longrightarrow> read_flags acc ((if b then [''--use-fs-snapshot''] else []) @ rest) =
    read_flags (if b then acc\<lparr>o_use_fs_snapshot := True\<rparr> else acc) rest"
  "rest \<noteq> [] \<Longrightarrow> read_flags acc ((if b then [''--one-file-system''] else []) @ rest) =
    read_flags (if b then acc\<lparr>o_one_file_system := True\<rparr> else acc) rest"
  "read_flags acc ((if b then [''--host'', v] else []) @ rest) =
    read_flags (if b then acc\<lparr>o_host := v\<rparr> else acc) rest"
  "read_flags acc ((if b then [''--exclude-file'', v] else []) @ rest) =
    read_flags (if b then acc\<lparr>o_exclude_file := v\<rparr> else acc) rest"
  by (simp_all add: read_flag set_flag_def set_value_def)

lemma read_limit:
  assumes "in_int64 n"
  shows "read_flags acc ((if 0 < n then [''--exclude-larger-than'', itoa n @ ''B''] else []) @ rest) =
    read_flags (if 0 < n then acc\<lparr>o_exclude_larger_than := n\<rparr> else acc) rest"
  using assms by (simp add: set_flag_def set_value_def read_bytes_def atoi_itoa suffix_def)



section \<open>Properties of the wrapper\<close>

text \<open>The entries of an environment that name a variable of their own.\<close>

definition names_variable :: "(string \<Rightarrow> bool) \<Rightarrow> string \<Rightarrow> bool" where
  "names_variable P kv \<longleftrightarrow> (case cut (CHR ''='') kv of None \<Rightarrow> False | Some (name, _) \<Rightarrow> P name)"

lemma keep_environ_filter: "keep_environ kvs = filter (names_variable (\<lambda>n. \<not> stripped n)) kvs"
  by (induction kvs) (auto simp: names_variable_def split: option.splits)

definition variable :: "string \<Rightarrow> string" where
  "variable kv = (case cut (CHR ''='') kv of None \<Rightarrow> [] | Some (name, _) \<Rightarrow> name)"

text \<open>restic sees the repository it was given and no other. Of the environment of the process,
  exactly the variables outside restic's and Amazon's names are passed on, in order; the variables
  with those names are the ones this run sets, each once, and carry the repository's own values.\<close>

theorem repo_env_isolated:
  "repo_env environ r = filter (names_variable (\<lambda>n. \<not> stripped n)) environ @ repo_env [] r \<and>
   filter (names_variable stripped) (repo_env environ r) = repo_env [] r \<and>
   distinct (map variable (repo_env [] r)) \<and>
   set [''RESTIC_REPOSITORY='' @ repo_url r, ''RESTIC_PASSWORD='' @ password r,
      ''AWS_ACCESS_KEY_ID='' @ access_key_id r, ''AWS_SECRET_ACCESS_KEY='' @ secret_access_key r]
     \<subseteq> set (repo_env environ r)"
proof -
  have own: "filter (names_variable stripped) (repo_env [] r) = repo_env [] r"
    by (simp add: repo_env_def names_variable_def stripped_def cut_append)
  have "filter (names_variable stripped) (filter (names_variable (\<lambda>n. \<not> stripped n)) environ) = []"
    by (simp add: filter_empty_conv names_variable_def split: option.splits)
  then have "filter (names_variable stripped) (repo_env environ r) = repo_env [] r"
    using own by (simp add: repo_env_def keep_environ_filter)
  moreover have "distinct (map variable (repo_env [] r))"
    by (simp add: repo_env_def variable_def)
  ultimately show ?thesis by (simp add: repo_env_def keep_environ_filter)
qed

section \<open>Commands run\<close>

lemma run_restic_invalid: "validate_repo repo = Some e \<Longrightarrow> run_restic repo args w = (([], Some e), w)"
  by (simp add: run_restic_def)

lemma run_restic_valid:
  "validate_repo repo = None \<Longrightarrow> run_restic repo args w = (r, w') \<Longrightarrow>
    ran w' = ran w @ [args] \<and> procs w' = tl (procs w)"
  by (auto simp: run_restic_def invoke_def split: proc.splits ended.splits if_splits)

lemma validate_not_restic: "validate_repo repo = Some e \<Longrightarrow> \<not> is_no_repository e"
  by (auto simp: validate_repo_def is_no_repository_def split: if_splits)

lemma exists_invalid: "validate_repo repo = Some e \<Longrightarrow> exists_repo repo w = (Inl e, w)"
  by (simp add: exists_repo_def run_restic_invalid validate_not_restic)

lemma exists_valid:
  "validate_repo repo = None \<Longrightarrow> exists_repo repo w = (r, w') \<Longrightarrow>
    ran w' = ran w @ [[''cat'', ''config'']]"
  using run_restic_valid [of repo "[''cat'', ''config'']" w]
  by (auto simp: exists_repo_def split: prod.splits option.splits if_splits)

lemma init_valid:
  "validate_repo repo = None \<Longrightarrow> init_repo repo w = (r, w') \<Longrightarrow> ran w' = ran w @ [[''init'']]"
  using run_restic_valid [of repo "[''init'']" w] by (auto simp: init_repo_def split: prod.splits)

text \<open>C7: a repository is created only by permission and only over an answer that none is there.
  The commands of one call are nothing, when the credentials are incomplete; one look, whose error is
  the call's and which is enough when the repository is there; the look and a creation that failed;
  or look, creation and second look. The creation happens only with the permission and after a look
  that found no repository, and the call succeeds after it only when the second look opened it.\<close>

theorem ensure_creates_only_when_told:
  "case ensure_repo repo may_create w of ((created, e), w') \<Rightarrow> \<exists>cmds. ran w' = ran w @ cmds \<and>
    (cmds = [] \<and> \<not> created \<and> e \<noteq> None \<or>
     cmds = [[''cat'', ''config'']] \<and> \<not> created \<and>
       (e = None \<longleftrightarrow> fst (exists_repo repo w) = Inr True) \<or>
     may_create \<and> fst (exists_repo repo w) = Inr False \<and>
       cmds = [[''cat'', ''config''], [''init'']] \<and> \<not> created \<and> e \<noteq> None \<or>
     may_create \<and> fst (exists_repo repo w) = Inr False \<and>
       cmds = [[''cat'', ''config''], [''init''], [''cat'', ''config'']] \<and> created \<and>
       (\<exists>w2. ran w2 = ran w @ [[''cat'', ''config''], [''init'']] \<and>
         (e = None \<longleftrightarrow> fst (exists_repo repo w2) = Inr True)))"
proof (cases "validate_repo repo")
  case (Some e)
  then show ?thesis by (simp add: ensure_repo_def exists_invalid)
next
  case None
  obtain r1 w1 where x1: "exists_repo repo w = (r1, w1)" by fastforce
  obtain r2 w2 where x2: "init_repo repo w1 = (r2, w2)" by fastforce
  obtain r3 w3 where x3: "exists_repo repo w2 = (r3, w3)" by fastforce
  note ran = exists_valid [OF None x1] init_valid [OF None x2] exists_valid [OF None x3]
  consider e where "r1 = Inl e" | "r1 = Inr True" | "r1 = Inr False" "\<not> may_create"
    | e where "r1 = Inr False" "may_create" "r2 = Inl e"
    | "r1 = Inr False" "may_create" "r2 = Inr ()"
    by (cases r1; cases r2; cases may_create) auto
  then show ?thesis
  proof cases
    case 5
    have "\<exists>b. ensure_repo repo may_create w = ((True, b), w3) \<and> (b = None \<longleftrightarrow> r3 = Inr True)"
      using x1 x2 x3 5 by (cases r3) (auto simp: ensure_repo_def)
    then show ?thesis using x1 x3 ran 5 by (auto intro!: exI [of _ w2])
  qed (use x1 x2 ran in \<open>auto simp: ensure_repo_def\<close>)
qed

definition refused_key :: string where
  "refused_key =
     ''Fatal: unable to open config file: Stat: Access Denied.'' @ [newline] @
     ''Is there a repository at the following location?'' @ [newline] @ ''s3:https://s3.example.org/b''"

definition sample_repo :: repository where
  "sample_repo =
     \<lparr>repo_url = ''s3:https://s3.example.org/b'', password = ''p'', access_key_id = ''a'',
      secret_access_key = ''s'', repo_pack_size = 0, repo_read_concurrency = 0\<rparr>"

lemma refused_key_tail: "tail refused_key stderr_tail = refused_key"
  by code_simp

lemma refused_key_class: "classify 1 refused_key = ExitNoRepository"
  by code_simp

text \<open>a repository that cannot be opened for another reason reads as one that is not there. restic
  ends with status 1 and begins its complaint with "unable to open config file" for every failure to
  reach the first object, a refused key among them, and \<open>Exists\<close> answers that there is no repository,
  where the comment on \<open>Ensure\<close> says such a failure is never read as "not there, so create it".\<close>

theorem refused_key_reads_as_absent:
  "fst (exists_repo sample_repo \<lparr>procs = [Ran [] refused_key (Exited 1)], ran = []\<rparr>) = Inr False \<and>
   ran (snd (ensure_repo sample_repo True \<lparr>procs = [Ran [] refused_key (Exited 1)], ran = []\<rparr>)) =
     [[''cat'', ''config''], [''init''], [''cat'', ''config'']]"
proof -
  have v: "validate_repo sample_repo = None" by (simp add: validate_repo_def sample_repo_def)
  have n: "is_no_repository (exit_error args 1 refused_key)" for args
    by (simp add: exit_error_def refused_key_tail refused_key_class is_no_repository_def)
  show ?thesis
    by (simp add: ensure_repo_def exists_repo_def init_repo_def run_restic_def invoke_def v n res_of_def)
qed

section \<open>Properties of a backup\<close>

text \<open>What a line of restic's output says, apart from the state of the parse.\<close>

datatype event = Nothing | Status progress | Unread file_error | Finished summary | Garbled

definition event_of :: "parser \<Rightarrow> string \<Rightarrow> event" where
  "event_of parse raw =
     (case decode_message parse (trim_space raw) of
        None \<Rightarrow> Nothing
      | Some msg \<Rightarrow>
          if trim_space raw = [] then Nothing
          else if message_type msg = ''status''
          then (case decode_progress parse (trim_space raw) of None \<Rightarrow> Nothing | Some p \<Rightarrow> Status p)
          else if message_type msg = ''error''
          then Unread \<lparr>fe_item = msg_item msg, fe_error = describe_error parse (msg_error msg)\<rparr>
          else if message_type msg = ''summary''
          then (case decode_summary parse (trim_space raw) of None \<Rightarrow> Garbled | Some s \<Rightarrow> Finished s)
          else Nothing)"

fun step_event :: "event \<Rightarrow> parse_state \<Rightarrow> parse_state" where
  "step_event Nothing st = st"
| "step_event (Status p) st = st\<lparr>ps_progress := ps_progress st @ [p]\<rparr>"
| "step_event (Unread e) st =
     st\<lparr>ps_count := ps_count st + 1, ps_summary := add_error e (ps_summary st)\<rparr>"
| "step_event (Finished s) st = st\<lparr>ps_summary := s\<lparr>sum_errors := sum_errors (ps_summary st)\<rparr>\<rparr>"
| "step_event Garbled st = st"

lemma parse_line_event:
  "fst (parse_line parse True raw st) = step_event (event_of parse raw) st"
  "snd (parse_line parse True raw st) = None \<longleftrightarrow> event_of parse raw \<noteq> Garbled"
  by (auto simp: parse_line_def event_of_def Let_def split: option.splits)

definition unread :: "event list \<Rightarrow> file_error list" where
  "unread evs = List.map_filter (\<lambda>ev. case ev of Unread e \<Rightarrow> Some e | _ \<Rightarrow> None) evs"

definition statuses :: "event list \<Rightarrow> progress list" where
  "statuses evs = List.map_filter (\<lambda>ev. case ev of Status p \<Rightarrow> Some p | _ \<Rightarrow> None) evs"

definition finished :: "event list \<Rightarrow> summary list" where
  "finished evs = List.map_filter (\<lambda>ev. case ev of Finished s \<Rightarrow> Some s | _ \<Rightarrow> None) evs"

lemma event_lists [simp]:
  "unread [] = []" "statuses [] = []" "finished [] = []"
  "unread (ev # evs) = (case ev of Unread e \<Rightarrow> [e] | _ \<Rightarrow> []) @ unread evs"
  "statuses (ev # evs) = (case ev of Status p \<Rightarrow> [p] | _ \<Rightarrow> []) @ statuses evs"
  "finished (ev # evs) = (case ev of Finished s \<Rightarrow> [s] | _ \<Rightarrow> []) @ finished evs"
  by (auto simp: unread_def statuses_def finished_def List.map_filter_simps split: event.splits)

text \<open>Everything of a summary but its list of errors, their number and the mark of the retry.\<close>

definition figures :: "summary \<Rightarrow> summary" where
  "figures s = s\<lparr>sum_errors := [], error_count := 0\<rparr>"

lemma figures_simps [simp]:
  "figures (s\<lparr>sum_errors := es\<rparr>) = figures s" "figures (s\<lparr>error_count := n\<rparr>) = figures s"
  "figures (add_error e s) = figures s"
  by (simp_all add: figures_def add_error_def)

lemma add_error_take:
  "sum_errors s = take max_errors_kept es \<Longrightarrow>
    sum_errors (add_error e s) = take max_errors_kept (es @ [e])"
  by (auto simp: add_error_def)

lemma parse_lines_events:
  assumes "parse_lines parse True ls st = (st', None)"
    and "sum_errors (ps_summary st) = take max_errors_kept es0"
  shows "ps_count st' = ps_count st + int (length (unread (map (event_of parse) ls)))"
    and "sum_errors (ps_summary st') = take max_errors_kept (es0 @ unread (map (event_of parse) ls))"
    and "ps_progress st' = ps_progress st @ statuses (map (event_of parse) ls)"
    and "figures (ps_summary st') =
      (if finished (map (event_of parse) ls) = [] then figures (ps_summary st)
       else figures (last (finished (map (event_of parse) ls))))"
    and "Garbled \<notin> set (map (event_of parse) ls)"
proof -
  have "ps_count st' = ps_count st + int (length (unread (map (event_of parse) ls))) \<and>
    sum_errors (ps_summary st') = take max_errors_kept (es0 @ unread (map (event_of parse) ls)) \<and>
    ps_progress st' = ps_progress st @ statuses (map (event_of parse) ls) \<and>
    figures (ps_summary st') =
      (if finished (map (event_of parse) ls) = [] then figures (ps_summary st)
       else figures (last (finished (map (event_of parse) ls)))) \<and>
    Garbled \<notin> set (map (event_of parse) ls)"
    using assms
  proof (induction ls arbitrary: st es0)
    case Nil
    then show ?case by simp
  next
    case (Cons l ls)
    obtain st1 e where l: "parse_line parse True l st = (st1, e)" by fastforce
    with Cons.prems(1) have e: "e = None" and more: "parse_lines parse True ls st1 = (st', None)"
      by (auto split: option.splits)
    have st1: "st1 = step_event (event_of parse l) st" and ng: "event_of parse l \<noteq> Garbled"
      using parse_line_event [of parse l st] l e by auto
    show ?case
    proof (cases "event_of parse l")
      case (Unread x)
      have "sum_errors (ps_summary st1) = take max_errors_kept (es0 @ [x])"
        using add_error_take [OF Cons.prems(2)] by (simp add: st1 Unread)
      from Cons.IH [OF more this] show ?thesis by (simp add: st1 Unread)
    qed (use Cons.IH [OF more] Cons.prems(2) st1 ng in \<open>auto\<close>)
  qed
  then show "ps_count st' = ps_count st + int (length (unread (map (event_of parse) ls)))"
    and "sum_errors (ps_summary st') = take max_errors_kept (es0 @ unread (map (event_of parse) ls))"
    and "ps_progress st' = ps_progress st @ statuses (map (event_of parse) ls)"
    and "figures (ps_summary st') =
      (if finished (map (event_of parse) ls) = [] then figures (ps_summary st)
       else figures (last (finished (map (event_of parse) ls))))"
    and "Garbled \<notin> set (map (event_of parse) ls)"
    by blast+
qed

definition stream_events :: "parser \<Rightarrow> string \<Rightarrow> event list" where
  "stream_events parse out = map (event_of parse) (fst (scan_lines out))"

text \<open>a stream that is read to its end without an error lost nothing: every line fitted, the files
  that could not be read are counted one by one, the first hundred are kept in order, wherever the
  summary line stood among them, the progress lines were all reported in order, and the figures are
  those of the last summary line.\<close>

theorem parse_backup_spec:
  assumes "parse_backup parse True out = ((s, seen), None)"
  shows "(\<forall>l\<in>set (fragments out). int (length l) < max_line) \<and>
    error_count s = int (length (unread (stream_events parse out))) \<and>
    sum_errors s = take 100 (unread (stream_events parse out)) \<and>
    seen = statuses (stream_events parse out) \<and>
    figures s = (if finished (stream_events parse out) = [] then figures zero_summary
      else figures (last (finished (stream_events parse out))))"
proof -
  let ?st0 = "\<lparr>ps_summary = zero_summary, ps_count = 0, ps_progress = []\<rparr>"
  obtain ls too_long where sc: "scan_lines out = (ls, too_long)" by fastforce
  obtain st where p: "parse_lines parse True ls ?st0 = (st, None)" and "\<not> too_long"
    and s: "s = (ps_summary st)\<lparr>error_count := ps_count st\<rparr>" "seen = ps_progress st"
    using assms sc by (auto simp: parse_backup_def split: prod.splits option.splits if_splits)
  have fit: "\<forall>l\<in>set (fragments out). int (length l) < max_line"
    using sc \<open>\<not> too_long\<close> by (auto simp: scan_lines_def Let_def list_ex_iff not_le)
  have "sum_errors (ps_summary ?st0) = take max_errors_kept []" by (simp add: zero_summary_def)
  note ev = parse_lines_events [OF p this]
  show ?thesis using fit ev
    by (simp add: s stream_events_def sc max_errors_kept_def)
qed

text \<open>A reader of three words, for the examples.\<close>

definition tiny_parse :: parser where
  "tiny_parse s =
     (if s = ''E'' then Some (JObject [(''message_type'', ''e''), (''item'', ''f'')])
      else if s = ''S'' then Some (JObject [(''message_type'', ''s''), (''snapshot_id'', ''i'')])
      else if s = ''e'' then Some (JText ''error'')
      else if s = ''s'' then Some (JText ''summary'')
      else if s = ''f'' then Some (JText ''/a'')
      else if s = ''i'' then Some (JText ''9f3c'')
      else None)"

definition tiny_stream :: string where
  "tiny_stream = ''E'' @ [newline] @ ''S'' @ [newline] @ ''E''"

theorem parse_backup_spec_witness:
  "error_count (fst (fst (parse_backup tiny_parse True tiny_stream))) = 2 \<and>
   snapshot_id (fst (fst (parse_backup tiny_parse True tiny_stream))) = ''9f3c''"
proof -
  let ?r = "parse_backup tiny_parse True tiny_stream"
  have ok: "snd ?r = None" by code_simp
  have ev: "length (unread (stream_events tiny_parse tiny_stream)) = 2" by code_simp
  have "snapshot_id (fst (fst ?r)) = ''9f3c''" by code_simp
  moreover obtain s seen where r: "?r = ((s, seen), None)" using ok by (metis prod.collapse)
  ultimately show ?thesis using parse_backup_spec [OF r] ev by simp
qed

lemma merge_errors_figures [simp]: "figures (merge_errors s other) = figures s"
proof -
  have "figures (foldl (\<lambda>acc e. add_error e acc) a es) = figures a" for a es
    by (induction es arbitrary: a) simp_all
  then show ?thesis by (simp add: merge_errors_def)
qed

lemma classify_incomplete [simp]: "classify code d = ExitIncomplete \<longleftrightarrow> code = ExitIncomplete"
  by (auto simp: classify_def exit_defs Let_def)

text \<open>an exit that is not zero is never a clean run, and its figures are kept. Whatever restic wrote,
  the error is restic's own, it counts as incomplete exactly for status 3, whatever the message says,
  and the summary that comes with it has the figures of the summary line, the snapshot among them.\<close>

theorem failed_exit_keeps_summary:
  assumes "validate_repo repo = None" and "procs w = Ran out stderr (Exited code) # ps"
    and "code \<noteq> 0"
  shows "case backup_once parse goos bin repo opts w of (((s, seen), e), w') \<Rightarrow>
    figures s = figures (fst (fst (parse_backup parse True out))) \<and>
    (\<exists>x. e = Some x \<and> as_restic x = Some x \<and> (incomplete x \<longleftrightarrow> code = 3))"
proof -
  obtain s0 seen pe where p: "parse_backup parse True out = ((s0, seen), pe)"
    by (metis prod.collapse)
  obtain s1 where b: "backup_once parse goos bin repo opts w =
      (((s1, seen), Some (exit_error (backup_args goos opts) code stderr)),
       w\<lparr>procs := ps, ran := ran w @ [backup_args goos opts]\<rparr>)" and "figures s1 = figures s0"
    using assms p
    by (auto simp: backup_once_def invoke_def Let_def split: prod.splits option.splits)
  then show ?thesis
    using p by (simp add: exit_error_def Let_def incomplete_def) (simp add: exit_defs)
qed

theorem failed_exit_keeps_summary_witness:
  "\<exists>x. snd (fst (backup_once tiny_parse ''linux'' ''restic'' sample_repo no_options
      \<lparr>procs = [Ran tiny_stream [] (Exited 3)], ran = []\<rparr>)) = Some x \<and> incomplete x"
proof -
  have "validate_repo sample_repo = None" by (simp add: validate_repo_def sample_repo_def)
  from failed_exit_keeps_summary [OF this, of "\<lparr>procs = [Ran tiny_stream [] (Exited 3)], ran = []\<rparr>"
      tiny_stream "[]" 3 "[]" tiny_parse "''linux''" "''restic''" no_options]
  show ?thesis by (auto split: prod.splits)
qed

definition next_proc :: "world \<Rightarrow> proc" where
  "next_proc w = (case procs w of [] \<Rightarrow> Ran [] [] (Exited 0) | p # _ \<Rightarrow> p)"

lemma backup_once_effect:
  "validate_repo repo = None \<Longrightarrow> backup_once parse goos bin repo opts w = (r, w') \<Longrightarrow>
    ran w' = ran w @ [backup_args goos opts] \<and> procs w' = tl (procs w)"
  by (auto simp: backup_once_def invoke_def Let_def split: proc.splits ended.splits prod.splits if_splits)

lemma backup_once_clean:
  assumes "backup_once parse goos bin repo opts w = ((r, None), w')"
  shows "validate_repo repo = None \<and>
    (\<exists>out stderr. next_proc w = Ran out stderr (Exited 0) \<and> snd (parse_backup parse True out) = None)"
  using assms
  by (auto simp: backup_once_def invoke_def next_proc_def Let_def
      split: option.splits proc.splits ended.splits prod.splits if_splits)

text \<open>C5: a backup without an error is a backup restic finished. There were targets, complete
  credentials, and either one process, run with the command line of the options, that ended with
  status 0 and whose stream was read to its end; or, on Windows and with the fallback allowed, a first
  attempt that was refused a filesystem snapshot and a second without it that ended so, and then the
  summary says that it fell back. There is never a third.\<close>

theorem clean_backup_finished:
  assumes "run_backup parse goos bin repo opts w = (((s, seen), None), w')"
  shows "o_targets opts \<noteq> [] \<and> validate_repo repo = None \<and>
    (\<exists>out stderr. snd (parse_backup parse True out) = None \<and>
      (next_proc w = Ran out stderr (Exited 0) \<and> ran w' = ran w @ [backup_args goos opts] \<or>
       goos = ''windows'' \<and> o_use_fs_snapshot opts \<and> o_allow_vss_fallback opts \<and> vss_fell_back s \<and>
       next_proc (w\<lparr>procs := tl (procs w)\<rparr>) = Ran out stderr (Exited 0) \<and>
       ran w' = ran w @ [backup_args goos opts,
         backup_args goos (opts\<lparr>o_use_fs_snapshot := False\<rparr>)]))"
proof -
  have ts: "o_targets opts \<noteq> []" using assms by (auto simp: run_backup_def)
  obtain r1 e1 w1 where b1: "backup_once parse goos bin repo opts w = ((r1, e1), w1)"
    by (metis prod.collapse)
  show ?thesis
  proof (cases e1)
    case None
    with assms ts b1 have "w' = w1" by (auto simp: run_backup_def split: prod.splits)
    with backup_once_clean [OF b1 [unfolded None]] backup_once_effect [of repo] b1 ts
    show ?thesis by blast
  next
    case (Some e)
    obtain r2 e2 w2 where
      b2: "backup_once parse goos bin repo (opts\<lparr>o_use_fs_snapshot := False\<rparr>) w1 = ((r2, e2), w2)"
      by (metis prod.collapse)
    have c: "o_use_fs_snapshot opts" "o_allow_vss_fallback opts" "vss_refused goos e" "e2 = None"
      "w' = w2" "s = (fst r2)\<lparr>vss_fell_back := True\<rparr>"
      using assms ts b1 b2 Some by (auto simp: run_backup_def split: prod.splits if_splits)
    have win: "goos = ''windows''" using c(3) by (auto simp: vss_refused_def split: if_splits)
    note clean = backup_once_clean [OF b2 [unfolded c(4)]]
    from clean have v: "validate_repo repo = None" by blast
    have n: "next_proc w1 = next_proc (w\<lparr>procs := tl (procs w)\<rparr>)"
      using backup_once_effect [OF v b1] by (simp add: next_proc_def)
    from clean backup_once_effect [OF v b1] backup_once_effect [OF v b2] c win ts v
    show ?thesis unfolding n by fastforce
  qed
qed

theorem clean_backup_finished_witness:
  "ran (snd (run_backup tiny_parse ''linux'' ''restic'' sample_repo
      (no_options\<lparr>o_targets := [''/a'']\<rparr>) \<lparr>procs = [], ran = []\<rparr>)) =
    [[''backup'', ''--json'', ''--'', ''/a'']]"
proof -
  let ?o = "no_options\<lparr>o_targets := [''/a'']\<rparr>" and ?w = "\<lparr>procs = [], ran = []\<rparr>"
  have "snd (fst (run_backup tiny_parse ''linux'' ''restic'' sample_repo ?o ?w)) = None"
    by code_simp
  then obtain s seen w' where r: "run_backup tiny_parse ''linux'' ''restic'' sample_repo ?o ?w = (((s, seen), None), w')"
    by (metis prod.collapse)
  from clean_backup_finished [OF r] have "ran w' = [backup_args ''linux'' ?o]" by auto
  then show ?thesis unfolding r by (simp add: backup_args_def no_options_def)
qed

end
