(* ===== verification/Backup.thy ===== *)
theory Backup
  imports Restic
begin

text \<open>
  One backup and what its outcome was: \<open>business/domain/backup/backupbus/backupbus.go\<close>. The machine is
  the world of the restic wrapper with the files of the program's own directories, the faults of the
  disk, the random values it will be given and what the coming restores will write.
\<close>

section \<open>Outcomes and runs\<close>

datatype outcome = OutcomeSuccess | OutcomeDegraded | OutcomeIncomplete | OutcomeUnverified
  | OutcomeFailed | OutcomeCancelled

definition good :: "outcome \<Rightarrow> bool" where
  "good o' \<longleftrightarrow> o' = OutcomeSuccess"

definition reported_outcome :: "outcome \<Rightarrow> outcome" where
  "reported_outcome o' = (if o' = OutcomeCancelled then OutcomeFailed else o')"

record run =
  run_id :: int
  run_node :: string
  run_uuid :: string
  run_repository :: string
  run_seeding :: bool
  started_at :: instant
  finished_at :: instant
  run_outcome :: outcome
  run_message :: string
  run_snapshot :: string
  run_files_new :: int
  run_files_changed :: int
  run_total_files :: int
  run_total_bytes :: int
  run_data_added :: int
  unreadable_files :: "string list"
  verified :: bool
  run_vss_fell_back :: bool
  reported_at :: "instant option"

definition run_duration :: "run \<Rightarrow> duration" where
  "run_duration r =
     (if is_zero (finished_at r) then 0 else time_sub (finished_at r) (started_at r))"

definition unfinished :: "run \<Rightarrow> bool" where
  "unfinished r \<longleftrightarrow> is_zero (finished_at r)"

definition stopped :: "run \<Rightarrow> bool" where
  "stopped r \<longleftrightarrow> run_outcome r = OutcomeCancelled"

definition stale_after :: duration where
  "stale_after = 48 * hour"

definition ErrNoRuns :: err where
  "ErrNoRuns = Sentinel ''backupbus: this machine has no run history''"

definition ErrAlreadyRunning :: err where
  "ErrAlreadyRunning = Sentinel ''backupbus: a backup is already running''"

definition ErrNotRunning :: err where
  "ErrNotRunning = Sentinel ''backupbus: no backup is running''"

record request =
  req_node :: string
  req_uuid :: string
  req_seeding :: bool
  req_repository :: repository
  req_options :: backup_options

text \<open>The row a run begins with; the rest is what Go's zero values are.\<close>

definition opened_run :: "request \<Rightarrow> instant \<Rightarrow> run" where
  "opened_run req when =
     \<lparr>run_id = 0, run_node = req_node req, run_uuid = req_uuid req,
      run_repository = repo_url (req_repository req), run_seeding = req_seeding req,
      started_at = when, finished_at = zero_time, run_outcome = OutcomeFailed, run_message = [],
      run_snapshot = [], run_files_new = 0, run_files_changed = 0, run_total_files = 0,
      run_total_bytes = 0, run_data_added = 0, unreadable_files = [], verified = False,
      run_vss_fell_back = False, reported_at = None\<rparr>"

section \<open>Texts\<close>

definition failure_message :: "err \<Rightarrow> string" where
  "failure_message e =
     (case Option.bind (as_restic e) unresolvable of
        Some host \<Rightarrow> ''this computer could not look up '' @ host @
          '', so nothing could be uploaded; its DNS or network connection is not working''
      | None \<Rightarrow> err_text e)"

definition unreadable_line :: "string \<Rightarrow> string \<Rightarrow> string" where
  "unreadable_line item0 msg0 =
     (let item = trim_space item0; msg = trim_space msg0 in
      if item = [] then msg
      else if msg = [] then item
      else case last_index_str item msg of
          Some i \<Rightarrow>
            let reason = trim_left_set {CHR '':'', CHR '' ''} (trim_space (drop (i + length item) msg))
            in if reason = [] then item else item @ '': '' @ reason
        | None \<Rightarrow> item @ '': '' @ msg)"

definition first_of :: "string list \<Rightarrow> string" where
  "first_of s = (case s of [] \<Rightarrow> [] | x # _ \<Rightarrow> x)"

function scale_bytes :: "int \<Rightarrow> int \<Rightarrow> nat \<Rightarrow> int \<times> nat" where
  "scale_bytes v unit_div ex =
     (if 1024 \<le> v then scale_bytes (v div 1024) (unit_div * 1024) (ex + 1) else (unit_div, ex))"
  by pat_completeness auto
termination
  by (relation "measure (\<lambda>(v, _, _). nat v)") auto

declare scale_bytes.simps [simp del]

definition human_bytes :: "int \<Rightarrow> string" where
  "human_bytes n =
     (if n < 1024 then itoa n @ '' B''
      else let (unit_div, ex) = scale_bytes (n div 1024) 1024 0
        in fixed1 (float_div (float_of_int n) (float_of_int unit_div)) @ '' '' @
           [''KMGTPE'' ! ex] @ ''iB'')"

section \<open>Paths\<close>

definition is_letter :: "char \<Rightarrow> bool" where
  "is_letter c =
     (let n = (of_char c :: nat) in 65 \<le> n \<and> n \<le> 90 \<or> 97 \<le> n \<and> n \<le> 122)"

definition is_windows_path :: "string \<Rightarrow> bool" where
  "is_windows_path s \<longleftrightarrow>
     prefix [backslash, backslash] s \<or>
     (3 \<le> length s \<and> s ! 1 = CHR '':'' \<and> (s ! 2 = backslash \<or> s ! 2 = CHR ''/'') \<and> is_letter (s ! 0))"

definition to_slash :: "string \<Rightarrow> string \<Rightarrow> string" where
  "to_slash goos p = (if goos = ''windows'' then replace_char backslash (CHR ''/'') p else p)"

definition from_slash :: "string \<Rightarrow> string \<Rightarrow> string" where
  "from_slash goos p = (if goos = ''windows'' then replace_char (CHR ''/'') backslash p else p)"

definition snapshot_path :: "string \<Rightarrow> string \<Rightarrow> string" where
  "snapshot_path goos local =
     (let p = (if is_windows_path local
               then let q = replace_char backslash (CHR ''/'') local in
                 if 2 \<le> length q \<and> q ! 1 = CHR '':'' then take 1 q @ drop 2 q else q
               else to_slash goos local)
      in if prefix ''/'' p then p else ''/'' @ p)"

definition restored_path :: "string \<Rightarrow> string \<Rightarrow> string \<Rightarrow> string" where
  "restored_path goos target source =
     join_path goos target (from_slash goos (trim_prefix ''/'' (snapshot_path goos source)))"

section \<open>The machine\<close>

record settings =
  cfg_parse :: parser
  cfg_goos :: string
  restic_bin :: string
  verify_dir :: string
  scratch_dir :: string

record machine =
  world :: world
  files :: "string \<rightharpoonup> string"
  disk :: faults
  nonces :: "string list"
  restores :: "(string \<rightharpoonup> string) list"

text \<open>One operation on the disk: whether it fails, and the machine after it.\<close>

definition next_disk :: "machine \<Rightarrow> bool \<times> machine" where
  "next_disk m = (fails_next (disk m), m\<lparr>disk := tl (disk m)\<rparr>)"

definition io_error :: "string \<Rightarrow> err" where
  "io_error what = Sentinel what"

definition remove_all :: "string \<Rightarrow> string \<Rightarrow> machine \<Rightarrow> machine" where
  "remove_all g dir m = m\<lparr>files := (\<lambda>p. if under g dir p then None else files m p)\<rparr>"

definition clear_scratch :: "settings \<Rightarrow> machine \<Rightarrow> unit res \<times> machine" where
  "clear_scratch cfg m =
     (let (bad, m1) = next_disk m in
      if bad
      then (Inl (Wrap (''paths: clearing '' @ scratch_dir cfg @ '': '') (io_error ''remove'') []), m1)
      else let m2 = remove_all (cfg_goos cfg) (scratch_dir cfg) m1; (bad2, m3) = next_disk m2 in
        if bad2
        then (Inl (Wrap (''paths: recreating '' @ scratch_dir cfg @ '': '') (io_error ''mkdir'') []), m3)
        else (Inr (), m3))"

section \<open>Verification\<close>

definition nonce_file :: "settings \<Rightarrow> string" where
  "nonce_file cfg = join_path (cfg_goos cfg) (verify_dir cfg) ''verification.txt''"

definition nonce_body :: "instant \<Rightarrow> string \<Rightarrow> string" where
  "nonce_body now raw = rfc3339_utc now @ '' '' @ hex_text raw"

definition write_nonce :: "settings \<Rightarrow> instant \<Rightarrow> machine \<Rightarrow> (string \<times> string) res \<times> machine" where
  "write_nonce cfg now m =
     (let (bad, m1) = next_disk m in
      if bad
      then (Inl (Wrap (''preparing '' @ verify_dir cfg @ '': '') (io_error ''mkdir'') []), m1)
      else case nonces m1 of
          [] \<Rightarrow> (Inl (Wrap ''generating a verification nonce: '' (io_error ''rand'') []), m1)
        | raw # later \<Rightarrow>
            let m2 = m1\<lparr>nonces := later\<rparr>; body = nonce_body now raw; file = nonce_file cfg;
                (bad2, m3) = next_disk m2 in
            if bad2 then (Inl (Wrap (''writing '' @ file @ '': '') (io_error ''write'') []), m3)
            else (Inr (body, file), m3\<lparr>files := (files m3)(file \<mapsto> body)\<rparr>))"

text \<open>
  A restore: the wrapper's operation, and the files the process wrote, which are those of the next
  restore where a process was started at all.
\<close>

definition restore_files ::
  "settings \<Rightarrow> repository \<Rightarrow> string \<Rightarrow> string list \<Rightarrow> machine \<Rightarrow> unit res \<times> machine" where
  "restore_files cfg repo target incs m =
     (case restore repo ''latest'' target incs (world m) of
        (r, w) \<Rightarrow>
          if ran w = ran (world m) then (r, m\<lparr>world := w\<rparr>)
          else (r, m\<lparr>world := w, restores := tl (restores m),
            files := files m ++ (case restores m of [] \<Rightarrow> Map.empty | f # _ \<Rightarrow> f)\<rparr>))"

definition verify :: "settings \<Rightarrow> repository \<Rightarrow> string \<Rightarrow> string \<Rightarrow> machine \<Rightarrow> err option \<times> machine" where
  "verify cfg repo want source m =
     (case restore_files cfg repo (scratch_dir cfg) [snapshot_path (cfg_goos cfg) source] m of
        (rr, m1) \<Rightarrow>
          let (bad, m2) = next_disk m1;
              got = (if bad then None else files m2 (restored_path (cfg_goos cfg) (scratch_dir cfg) source))
          in case got of
              None \<Rightarrow>
                (case rr of
                   Inl re \<Rightarrow>
                     (Some (Wrap2 ''the verification file was not in the restore: '' (io_error ''read'')
                        '' (the restore also failed: '' re '')''), m2)
                 | Inr _ \<Rightarrow>
                     (Some (Wrap ''the verification file was not in the restore: '' (io_error ''read'') []), m2))
            | Some text \<Rightarrow>
                if text \<noteq> want
                then (Some (Sentinel (''the restored verification file does not match what was backed up ('' @
                    itoa (int (length text)) @ '' bytes restored, '' @ itoa (int (length want)) @
                    '' written)'')), m2)
                else (None, m2))"

section \<open>A run\<close>

text \<open>
  A cancellation: the number of processes this run has started when it is asked for, and the reason.
  The run's context carries it from then on.
\<close>

type_synonym cancellation = "(nat \<times> string) option"

definition cancelled_by :: "cancellation \<Rightarrow> nat \<Rightarrow> string option" where
  "cancelled_by c processes =
     (case c of None \<Rightarrow> None | Some (n, reason) \<Rightarrow> if n \<le> processes then Some reason else None)"

definition processes_of :: "machine \<Rightarrow> machine \<Rightarrow> nat" where
  "processes_of before after = length (ran (world after)) - length (ran (world before))"

definition record_cancelled :: "repository \<Rightarrow> string \<Rightarrow> run \<Rightarrow> machine \<Rightarrow> run \<times> machine" where
  "record_cancelled repo reason r m =
     (case unlock repo (world m) of
        (Inr _, w) \<Rightarrow> (r\<lparr>run_outcome := OutcomeCancelled, run_message := reason\<rparr>, m\<lparr>world := w\<rparr>)
      | (Inl _, w) \<Rightarrow>
          (r\<lparr>run_outcome := OutcomeCancelled,
             run_message := reason @ ''; the repository may still be locked, and the next backup will clear it''\<rparr>,
           m\<lparr>world := w\<rparr>))"

definition take_summary :: "summary \<Rightarrow> run \<Rightarrow> run" where
  "take_summary s r =
     r\<lparr>run_snapshot := snapshot_id s, run_files_new := files_new s, run_files_changed := files_changed s,
       run_total_files := total_files_processed s, run_total_bytes := total_bytes_processed s,
       run_data_added := data_added s, run_vss_fell_back := vss_fell_back s,
       unreadable_files := unreadable_files r @
         map (\<lambda>e. unreadable_line (fe_item e) (fe_error e)) (sum_errors s)\<rparr>"

definition degraded_message :: string where
  "degraded_message =
     ''backed up without a filesystem snapshot, so files that were open may be '' @
     ''missing or incomplete; run the service as an administrator to restore VSS''"

definition verify_and_close ::
  "settings \<Rightarrow> repository \<Rightarrow> string \<Rightarrow> string \<Rightarrow> run \<Rightarrow> machine \<Rightarrow> run \<times> machine" where
  "verify_and_close cfg repo body file r m =
     (case verify cfg repo body file m of
        (Some e, m1) \<Rightarrow>
          (r\<lparr>run_outcome := OutcomeUnverified,
             run_message := ''the backup could not be read back: '' @ failure_message e\<rparr>, m1)
      | (None, m1) \<Rightarrow>
          let r1 = r\<lparr>verified := True\<rparr>;
              r2 = (if run_vss_fell_back r1 \<and> run_outcome r1 = OutcomeSuccess
                    then r1\<lparr>run_outcome := OutcomeDegraded, run_message := degraded_message\<rparr> else r1);
              r3 = (if run_message r2 = []
                    then r2\<lparr>run_message := itoa (run_total_files r2) @ '' files, '' @
                      human_bytes (run_data_added r2) @ '' added''\<rparr> else r2);
              (_, m2) = clear_scratch cfg m1;
              (bad, m3) = next_disk m2
          in (r3, if bad then m3 else m3\<lparr>files := (files m3)(file := None)\<rparr>))"

definition settle ::
  "settings \<Rightarrow> repository \<Rightarrow> string \<Rightarrow> string \<Rightarrow> summary \<Rightarrow> err option \<Rightarrow> run \<Rightarrow> machine \<Rightarrow> run \<times> machine" where
  "settle cfg repo body file s e r0 m =
     (let r = take_summary s r0 in
      case e of
        None \<Rightarrow> verify_and_close cfg repo body file (r\<lparr>run_outcome := OutcomeSuccess\<rparr>) m
      | Some e' \<Rightarrow>
          (case as_restic e' of
             None \<Rightarrow> (r\<lparr>run_message := failure_message e'\<rparr>, m)
           | Some re \<Rightarrow>
               if incomplete re then
                 verify_and_close cfg repo body file
                   (r\<lparr>run_outcome := OutcomeIncomplete,
                      run_message := itoa (error_count s) @ '' files could not be read''\<rparr>) m
               else if retryable re then
                 (case unlock repo (world m) of
                    (Inr _, w) \<Rightarrow>
                      (r\<lparr>run_message :=
                         ''the repository was locked; the lock has been cleared and the next run should succeed''\<rparr>,
                       m\<lparr>world := w\<rparr>)
                  | (Inl ue, w) \<Rightarrow>
                      (r\<lparr>run_message :=
                         ''the repository is locked and the lock could not be cleared: '' @ err_text ue\<rparr>,
                       m\<lparr>world := w\<rparr>))
               else (r\<lparr>run_message := failure_message e'\<rparr>, m)))"

definition execute ::
  "settings \<Rightarrow> cancellation \<Rightarrow> instant \<Rightarrow> request \<Rightarrow> run \<Rightarrow> machine \<Rightarrow> run \<times> machine" where
  "execute cfg cancel now req r m0 =
     (case clear_scratch cfg m0 of
        (Inl e, m1) \<Rightarrow>
          (r\<lparr>run_message := ''could not prepare the verification directory: '' @ err_text e\<rparr>, m1)
      | (Inr _, m1) \<Rightarrow>
          (case write_nonce cfg now m1 of
             (Inl e, m2) \<Rightarrow> (r\<lparr>run_message := err_text e\<rparr>, m2)
           | (Inr (body, file), m2) \<Rightarrow>
               let repo = req_repository req; opts = req_options req in
               (case run_backup (cfg_parse cfg) (cfg_goos cfg) (restic_bin cfg) repo
                    (opts\<lparr>o_targets := o_targets opts @ [verify_dir cfg]\<rparr>) (world m2) of
                  (((s, _), e), w) \<Rightarrow>
                    let m3 = m2\<lparr>world := w\<rparr> in
                    (case cancelled_by cancel (processes_of m0 m3) of
                       Some reason \<Rightarrow> record_cancelled repo reason r m3
                     | None \<Rightarrow> settle cfg repo body file s e r m3))))"

text \<open>The fields of a run that say which one it is.\<close>

definition identity :: "run \<Rightarrow> int \<times> string \<times> string \<times> string \<times> bool \<times> instant \<times> instant" where
  "identity r =
     (run_id r, run_node r, run_uuid r, run_repository r, run_seeding r, started_at r, finished_at r)"

lemma identity_steps:
  "identity (take_summary s r) = identity r"
  "identity (fst (record_cancelled repo reason r m)) = identity r"
  "identity (fst (verify_and_close cfg repo body file r m)) = identity r"
  by (auto simp: identity_def take_summary_def record_cancelled_def verify_and_close_def Let_def
      split: prod.splits sum.splits option.splits)

lemma identity_set [simp]:
  "identity (q\<lparr>run_outcome := oc\<rparr>) = identity q"
  "identity (q\<lparr>run_message := t\<rparr>) = identity q"
  by (simp_all add: identity_def)

lemma identity_settle: "identity (fst (settle cfg repo body file s e r m)) = identity r"
  by (auto simp: settle_def Let_def identity_steps split: prod.splits sum.splits option.splits)

lemma execute_identity:
  assumes "execute cfg cancel now req r m = (r', m')"
  shows "identity r' = identity r"
proof -
  have "identity (fst (execute cfg cancel now req r m)) = identity r"
    by (auto simp: execute_def Let_def identity_steps identity_settle
        split: prod.splits sum.splits option.splits)
  then show ?thesis using assms by simp
qed

lemma execute_id: "execute cfg cancel now req r m = (r', m') \<Longrightarrow> run_id r' = run_id r"
  using execute_identity [of cfg cancel now req r m r' m'] by (simp add: identity_def)

section \<open>What a run found out\<close>

lemma verify_close_cases:
  assumes "verify_and_close cfg repo body file r m = (r', m')"
  shows "(\<exists>e m1. verify cfg repo body file m = (Some e, m1) \<and> run_outcome r' = OutcomeUnverified \<and>
      verified r' = verified r \<and> m' = m1) \<or>
    (\<exists>m1. verify cfg repo body file m = (None, m1) \<and> verified r' \<and>
      run_outcome r' = (if run_vss_fell_back r \<and> run_outcome r = OutcomeSuccess then OutcomeDegraded
        else run_outcome r))"
    and "run_snapshot r' = run_snapshot r"
proof -
  obtain e m1 where v: "verify cfg repo body file m = (e, m1)" by fastforce
  obtain c m2 where c: "clear_scratch cfg m1 = (c, m2)" by fastforce
  obtain b m3 where n: "next_disk m2 = (b, m3)" by fastforce
  show "(\<exists>e m1. verify cfg repo body file m = (Some e, m1) \<and> run_outcome r' = OutcomeUnverified \<and>
      verified r' = verified r \<and> m' = m1) \<or>
    (\<exists>m1. verify cfg repo body file m = (None, m1) \<and> verified r' \<and>
      run_outcome r' = (if run_vss_fell_back r \<and> run_outcome r = OutcomeSuccess then OutcomeDegraded
        else run_outcome r))"
    using assms v c n by (cases e) (auto simp: verify_and_close_def Let_def)
  show "run_snapshot r' = run_snapshot r"
    using assms v c n by (cases e) (auto simp: verify_and_close_def Let_def)
qed

text \<open>What goes into the verification: a clean backup, or one that restic called incomplete.\<close>

definition verifiable :: "summary \<Rightarrow> err option \<Rightarrow> run \<Rightarrow> run \<Rightarrow> bool" where
  "verifiable s e r q \<longleftrightarrow>
     (e = None \<and> q = (take_summary s r)\<lparr>run_outcome := OutcomeSuccess\<rparr> \<or>
      (\<exists>x re. e = Some x \<and> as_restic x = Some re \<and> incomplete re \<and>
        q = (take_summary s r)\<lparr>run_outcome := OutcomeIncomplete,
          run_message := itoa (error_count s) @ '' files could not be read''\<rparr>))"

lemma settle_cases:
  assumes "settle cfg repo body file s e r m = (r', m')"
  shows "(\<exists>q. verifiable s e r q \<and> verify_and_close cfg repo body file q m = (r', m')) \<or>
    (run_outcome r' = run_outcome r \<and> verified r' = verified r \<and> e \<noteq> None)"
proof (cases e)
  case None
  with assms show ?thesis by (auto simp: settle_def verifiable_def Let_def)
next
  case (Some x)
  show ?thesis
  proof (cases "\<exists>re. as_restic x = Some re \<and> incomplete re")
    case True
    then obtain re where re: "as_restic x = Some re" "incomplete re" by blast
    define q where "q = (take_summary s r)\<lparr>run_outcome := OutcomeIncomplete,
        run_message := itoa (error_count s) @ '' files could not be read''\<rparr>"
    have "verify_and_close cfg repo body file q m = (r', m')"
      using assms Some re by (simp add: settle_def Let_def q_def)
    moreover have "verifiable s e r q" using Some re by (auto simp: verifiable_def q_def)
    ultimately show ?thesis by blast
  next
    case False
    have "run_outcome r' = run_outcome r \<and> verified r' = verified r"
      using assms Some False
      by (auto simp: settle_def Let_def take_summary_def split: option.splits if_splits prod.splits sum.splits)
    with Some show ?thesis by simp
  qed
qed

text \<open>The backup a run asks restic for: the options of the plan and the directory of the nonce.\<close>

definition job_backup :: "settings \<Rightarrow> request \<Rightarrow> world \<Rightarrow> backup_result \<times> world" where
  "job_backup cfg req w =
     run_backup (cfg_parse cfg) (cfg_goos cfg) (restic_bin cfg) (req_repository req)
       ((req_options req)\<lparr>o_targets := o_targets (req_options req) @ [verify_dir cfg]\<rparr>) w"

lemma execute_cases:
  assumes "execute cfg cancel now req r m = (r', m')"
  obtains (early) "run_outcome r' = run_outcome r" "verified r' = verified r"
      "unreadable_files r' = unreadable_files r"
  | (stopped) m1 m2 x reason where "clear_scratch cfg m = (Inr (), m1)" "write_nonce cfg now m1 = (Inr x, m2)"
      "run_outcome r' = OutcomeCancelled" "verified r' = verified r"
      "cancelled_by cancel (processes_of m (m2\<lparr>world := snd (job_backup cfg req (world m2))\<rparr>)) = Some reason"
      "unreadable_files r' = unreadable_files r"
  | (settled) m1 m2 body path s seen e w where "clear_scratch cfg m = (Inr (), m1)"
      "write_nonce cfg now m1 = (Inr (body, path), m2)"
      "job_backup cfg req (world m2) = (((s, seen), e), w)"
      "settle cfg (req_repository req) body path s e r (m2\<lparr>world := w\<rparr>) = (r', m')"
proof -
  obtain c m1 where c: "clear_scratch cfg m = (c, m1)" by fastforce
  show ?thesis
  proof (cases c)
    case (Inl e)
    with assms c early show ?thesis by (auto simp: execute_def)
  next
    case okc: (Inr u)
    obtain x m2 where n: "write_nonce cfg now m1 = (x, m2)" by fastforce
    show ?thesis
    proof (cases x)
      case (Inl e)
      with assms c okc n early show ?thesis by (auto simp: execute_def)
    next
      case (Inr y)
      obtain body path where y: "y = (body, path)" by fastforce
      obtain s seen e w where b: "job_backup cfg req (world m2) = (((s, seen), e), w)"
        by (metis prod.collapse)
      let ?k = "cancelled_by cancel (processes_of m (m2\<lparr>world := w\<rparr>))"
      have ex: "(r', m') = (case ?k of Some reason \<Rightarrow> record_cancelled (req_repository req) reason r (m2\<lparr>world := w\<rparr>)
          | None \<Rightarrow> settle cfg (req_repository req) body path s e r (m2\<lparr>world := w\<rparr>))"
        using assms c okc n Inr y b by (simp add: execute_def job_backup_def Let_def)
      show ?thesis
      proof (cases ?k)
        case None
        then show ?thesis using settled c okc n Inr y b ex by auto
      next
        case (Some reason)
        have "run_outcome r' = OutcomeCancelled" "verified r' = verified r"
          "unreadable_files r' = unreadable_files r"
          using ex Some by (auto simp: record_cancelled_def split: prod.splits sum.splits)
        then show ?thesis using stopped c okc n Inr y b Some by auto
      qed
    qed
  qed
qed

section \<open>The run history the domain relies on\<close>

record 's run_storer =
  rs_create :: "run \<Rightarrow> 's \<Rightarrow> int res \<times> 's"
  rs_seen_repository :: "string \<Rightarrow> 's \<Rightarrow> bool res \<times> 's"
  rs_finish :: "run \<Rightarrow> 's \<Rightarrow> unit res \<times> 's"
  rs_recent :: "int \<Rightarrow> 's \<Rightarrow> run list res \<times> 's"
  rs_last :: "'s \<Rightarrow> run res \<times> 's"
  rs_last_finished :: "'s \<Rightarrow> run res \<times> 's"
  rs_unreported :: "int \<Rightarrow> 's \<Rightarrow> run list res \<times> 's"
  rs_mark_reported :: "int \<Rightarrow> instant \<Rightarrow> 's \<Rightarrow> unit res \<times> 's"

definition record_failed_start ::
  "'s run_storer \<Rightarrow> request \<Rightarrow> string \<Rightarrow> instant \<Rightarrow> 's \<Rightarrow> unit res \<times> 's" where
  "record_failed_start st req reason now s =
     (let r = (opened_run req now)\<lparr>finished_at := now, run_message := reason\<rparr> in
      case rs_create st r s of
        (Inl e, s1) \<Rightarrow> (Inl (Wrap ''backupbus: recording a backup that could not start: '' e []), s1)
      | (Inr i, s1) \<Rightarrow>
          (case rs_finish st (r\<lparr>run_id := i\<rparr>) s1 of
             (Inl e, s2) \<Rightarrow>
               (Inl (Wrap ''backupbus: finishing the record of a backup that could not start: '' e []), s2)
           | (Inr _, s2) \<Rightarrow> (Inr (), s2)))"

definition seeding :: "'s run_storer \<Rightarrow> string \<Rightarrow> 's \<Rightarrow> bool res \<times> 's" where
  "seeding st url s =
     (case rs_seen_repository st url s of
        (Inl e, s1) \<Rightarrow> (Inl e, s1)
      | (Inr seen, s1) \<Rightarrow> (Inr (\<not> seen), s1))"

definition cancel_run :: "bool \<Rightarrow> string \<Rightarrow> nat \<Rightarrow> cancellation res" where
  "cancel_run running reason processes =
     (if \<not> running then Inl ErrNotRunning else Inr (Some (processes, reason)))"

text \<open>
  \<open>Run\<close>: the three instants are the start, the time written beside the nonce and the end, \<open>running\<close> is
  the guard that lets one backup through. The run comes back beside the error.
\<close>

definition run_job ::
  "settings \<Rightarrow> 's run_storer \<Rightarrow> bool \<Rightarrow> cancellation \<Rightarrow> instant \<Rightarrow> instant \<Rightarrow> instant \<Rightarrow> request \<Rightarrow>
    's \<Rightarrow> machine \<Rightarrow> (run option \<times> err option) \<times> 's \<times> machine" where
  "run_job cfg st running cancel t0 t1 t2 req s m =
     (if running then ((None, Some ErrAlreadyRunning), s, m)
      else case rs_create st (opened_run req t0) s of
          (Inl e, s1) \<Rightarrow>
            ((None, Some (Wrap ''backupbus: recording the start of a run: '' e [])), s1, m)
        | (Inr i, s1) \<Rightarrow>
            (case execute cfg cancel t1 req ((opened_run req t0)\<lparr>run_id := i\<rparr>) m of
               (r0, m1) \<Rightarrow>
                 let r = r0\<lparr>finished_at := t2\<rparr> in
                 (case rs_finish st r s1 of
                    (Inl e, s2) \<Rightarrow>
                      ((Some r, Some (Wrap (''backupbus: recording the end of run '' @ itoa i @ '': '') e [])),
                       s2, m1)
                  | (Inr _, s2) \<Rightarrow> ((Some r, None), s2, m1))))"

section \<open>What a row holds\<close>

definition open_row :: "int \<Rightarrow> run \<Rightarrow> run" where
  "open_row i r =
     \<lparr>run_id = i, run_node = run_node r, run_uuid = run_uuid r, run_repository = run_repository r,
      run_seeding = run_seeding r, started_at = whole_second (started_at r), finished_at = zero_time,
      run_outcome = run_outcome r, run_message = run_message r, run_snapshot = [], run_files_new = 0,
      run_files_changed = 0, run_total_files = 0, run_total_bytes = 0, run_data_added = 0,
      unreadable_files = [], verified = False, run_vss_fell_back = False, reported_at = None\<rparr>"

definition close_row :: "run \<Rightarrow> run \<Rightarrow> run" where
  "close_row r x =
     x\<lparr>finished_at := whole_second (finished_at r), run_outcome := run_outcome r,
       run_message := run_message r, run_snapshot := run_snapshot r,
       run_files_new := run_files_new r, run_files_changed := run_files_changed r,
       run_total_files := run_total_files r, run_total_bytes := run_total_bytes r,
       run_data_added := run_data_added r, unreadable_files := unreadable_files r,
       verified := verified r, run_vss_fell_back := run_vss_fell_back r\<rparr>"

definition due_report :: "run \<Rightarrow> bool" where
  "due_report x \<longleftrightarrow> reported_at x = None \<and> \<not> unfinished x"

text \<open>
  The laws of a history: its rows stand in the order of their ids; an opened row is a new one at the
  end with an id no row had; closing changes the one row with that id, or fails and changes nothing;
  what is to be reported is the finished rows nobody was told about, oldest first, and marking one
  changes only that.
\<close>

locale run_store =
  fixes st :: "'s run_storer"
    and rows :: "'s \<Rightarrow> run list"
    and inv :: "'s \<Rightarrow> bool"
  assumes create_ok: "inv s \<Longrightarrow> rs_create st r s = (Inr i, s') \<Longrightarrow>
      inv s' \<and> rows s' = rows s @ [open_row i r] \<and> (\<forall>x\<in>set (rows s). run_id x < i)"
    and create_err: "inv s \<Longrightarrow> rs_create st r s = (Inl e, s') \<Longrightarrow> inv s' \<and> rows s' = rows s"
    and finish_ok: "inv s \<Longrightarrow> second \<le> finished_at r \<Longrightarrow> rs_finish st r s = (Inr u, s') \<Longrightarrow>
      inv s' \<and> run_id r \<in> run_id ` set (rows s) \<and>
      rows s' = map (\<lambda>x. if run_id x = run_id r then close_row r x else x) (rows s)"
    and finish_err: "inv s \<Longrightarrow> rs_finish st r s = (Inl e, s') \<Longrightarrow> inv s' \<and> rows s' = rows s"
    and unreported_view: "inv s \<Longrightarrow> rs_unreported st n s = (rr, s') \<Longrightarrow>
      inv s' \<and> rows s' = rows s \<and>
      (\<forall>xs. rr = Inr xs \<longrightarrow> xs = take (nat (if n \<le> 0 then 50 else n)) (filter due_report (rows s)))"
    and mark_ok: "inv s \<Longrightarrow> rs_mark_reported st i t s = (Inr u, s') \<Longrightarrow>
      inv s' \<and> rows s' = map (\<lambda>x. if run_id x = i then x\<lparr>reported_at := Some (whole_second t)\<rparr> else x) (rows s)"
    and mark_err: "inv s \<Longrightarrow> rs_mark_reported st i t s = (Inl e, s') \<Longrightarrow> inv s' \<and> rows s' = rows s"
    and seen_view: "inv s \<Longrightarrow> rs_seen_repository st url s = (rb, s') \<Longrightarrow>
      inv s' \<and> rows s' = rows s \<and>
      (\<forall>b. rb = Inr b \<longrightarrow> b = (\<exists>x\<in>set (rows s). run_repository x = url \<and> run_snapshot x \<noteq> []))"
begin

text \<open>Opening and closing one run: the history before, with one more row.\<close>

lemma open_close:
  assumes "inv s" and "rs_create st r s = (Inr i, s1)" and "second \<le> finished_at q" and "run_id q = i"
    and "rs_finish st q s1 = (rf, s2)"
  shows "inv s2 \<and> rows s2 = rows s @ [if is_ok rf then close_row q (open_row i r) else open_row i r]"
proof -
  note c = create_ok [OF assms(1,2)]
  show ?thesis
  proof (cases rf)
    case (Inl e)
    with finish_err [of s1 q e s2] assms(5) c show ?thesis by simp
  next
    case (Inr u)
    note f = finish_ok [OF conjunct1 [OF c] assms(3) assms(5) [unfolded Inr]]
    have "map (\<lambda>x. if run_id x = i then close_row q x else x) (rows s) = rows s"
      using c by (intro map_idI) auto
    then show ?thesis using f c Inr assms(4) by (simp add: open_row_def)
  qed
qed

lemma failed_start_rows:
  assumes "inv s" and "second \<le> now" and "record_failed_start st req reason now s = (res, s')"
  shows "inv s' \<and> (rows s' = rows s \<and> \<not> is_ok res \<or>
    (\<exists>x. rows s' = rows s @ [x] \<and> run_outcome x = OutcomeFailed \<and> run_message x = reason \<and>
      (is_ok res \<longrightarrow> finished_at x = started_at x \<and> \<not> unfinished x)))"
proof -
  define r where "r = (opened_run req now)\<lparr>finished_at := now, run_message := reason\<rparr>"
  obtain rc s1 where c: "rs_create st r s = (rc, s1)" by fastforce
  show ?thesis
  proof (cases rc)
    case (Inl e)
    with c create_err [OF assms(1)] assms(3) show ?thesis
      by (auto simp: record_failed_start_def Let_def r_def [symmetric])
  next
    case (Inr i)
    obtain rf s2 where f: "rs_finish st (r\<lparr>run_id := i\<rparr>) s1 = (rf, s2)" by fastforce
    have res: "is_ok res = is_ok rf" "s' = s2"
      using assms(3) c f Inr by (cases rf; auto simp: record_failed_start_def Let_def r_def [symmetric])+
    have w: "whole_second now \<noteq> 0"
      using assms(2) whole_second_mono [of second now] by (simp add: whole_second_def)
    from open_close [OF assms(1) c [unfolded Inr] _ _ f] assms(2)
    have "inv s2 \<and> rows s2 = rows s @ [if is_ok rf then close_row (r\<lparr>run_id := i\<rparr>) (open_row i r)
      else open_row i r]" by (simp add: r_def)
    then show ?thesis using w
      by (auto simp: res r_def open_row_def close_row_def opened_run_def unfinished_def is_zero_def)
  qed
qed

lemma job_rows:
  assumes "inv s" and "second \<le> t2"
    and "run_job cfg st running cancel t0 t1 t2 req s m = ((ro, e), s', m')"
  shows "inv s' \<and> ((ro = None \<and> e \<noteq> None \<and> rows s' = rows s \<and> m' = m) \<or>
    (\<exists>i r. execute cfg cancel t1 req ((opened_run req t0)\<lparr>run_id := i\<rparr>) m = (r, m') \<and>
      ro = Some (r\<lparr>finished_at := t2\<rparr>) \<and> (\<forall>x\<in>set (rows s). run_id x < i) \<and>
      rows s' = rows s @ [if e = None then close_row (r\<lparr>finished_at := t2\<rparr>) (open_row i (opened_run req t0))
        else open_row i (opened_run req t0)]))"
proof (cases running)
  case True
  with assms show ?thesis by (auto simp: run_job_def)
next
  case False
  obtain rc s1 where c: "rs_create st (opened_run req t0) s = (rc, s1)" by fastforce
  show ?thesis
  proof (cases rc)
    case (Inl e1)
    with c create_err [OF assms(1)] assms(3) False show ?thesis by (auto simp: run_job_def)
  next
    case (Inr i)
    obtain r m1 where x: "execute cfg cancel t1 req ((opened_run req t0)\<lparr>run_id := i\<rparr>) m = (r, m1)"
      by fastforce
    have i: "run_id r = i" using execute_id [OF x] by simp
    obtain rf s2 where f: "rs_finish st (r\<lparr>finished_at := t2\<rparr>) s1 = (rf, s2)" by fastforce
    have out: "m' = m1" "s' = s2" "ro = Some (r\<lparr>finished_at := t2\<rparr>)" "is_ok rf = (e = None)"
      using assms(3) False c Inr x f by (cases rf; auto simp: run_job_def Let_def)+
    from open_close [OF assms(1) c [unfolded Inr] _ _ f] assms(2) i x out
      create_ok [OF assms(1) c [unfolded Inr]]
    show ?thesis by auto
  qed
qed

end

section \<open>The bytes are the verdict\<close>

lemma clear_scratch_ok:
  assumes "clear_scratch cfg m = (Inr u, m')"
  shows "(\<forall>p. files m' p = (if under (cfg_goos cfg) (scratch_dir cfg) p then None else files m p)) \<and>
    nonces m' = nonces m \<and> restores m' = restores m \<and> world m' = world m"
  using assms by (auto simp: clear_scratch_def next_disk_def remove_all_def Let_def split: if_splits)

lemma write_nonce_ok:
  assumes "write_nonce cfg now m = (Inr (body, path), m')"
  shows "\<exists>raw later. nonces m = raw # later \<and> body = nonce_body now raw \<and> path = nonce_file cfg \<and>
    files m' = (files m)(path \<mapsto> body) \<and> restores m' = restores m \<and> world m' = world m"
  using assms by (auto simp: write_nonce_def next_disk_def Let_def split: if_splits list.splits)

lemma restored_under: "under g dir (restored_path g dir src)"
  by (auto simp: under_def restored_path_def join_path_def prefix_def)

lemma restore_files_cases:
  assumes "restore_files cfg repo target incs m = (r, m')"
  shows "files m' = files m \<or> (\<exists>f fs. restores m = f # fs \<and> files m' = files m ++ f)"
  using assms by (auto simp: restore_files_def split: prod.splits if_splits list.splits)

lemma verify_ok:
  assumes "verify cfg repo want src m = (None, m')"
    and "files m (restored_path (cfg_goos cfg) (scratch_dir cfg) src) = None"
  shows "\<exists>f fs. restores m = f # fs \<and> f (restored_path (cfg_goos cfg) (scratch_dir cfg) src) = Some want"
proof -
  let ?p = "restored_path (cfg_goos cfg) (scratch_dir cfg) src"
  obtain rr m1 where r: "restore_files cfg repo (scratch_dir cfg) [snapshot_path (cfg_goos cfg) src] m = (rr, m1)"
    by fastforce
  have "files m1 ?p = Some want"
    using assms(1) r by (auto simp: verify_def next_disk_def Let_def split: option.splits sum.splits if_splits)
  with restore_files_cases [OF r] assms(2) show ?thesis by auto
qed

text \<open>C8: a run is marked verified only over bytes that came back out of the repository in this run.
  Whatever exit status the restore had, whatever was lying in the scratch directory before and
  whatever restic printed, a run that ends as verified is one whose restore wrote, at the place the
  snapshot path of the verification file has under the scratch directory, exactly the text made of
  this run's time and this run's random value. The verification file itself lies outside the scratch
  directory.\<close>

theorem verified_means_read_back:
  assumes "execute cfg cancel now req r m = (r', m')" and "verified r'" and "\<not> verified r"
    and "\<not> under (cfg_goos cfg) (scratch_dir cfg) (nonce_file cfg)"
  shows "\<exists>raw later f fs. nonces m = raw # later \<and> restores m = f # fs \<and>
    f (restored_path (cfg_goos cfg) (scratch_dir cfg) (nonce_file cfg)) = Some (nonce_body now raw)"
  using assms(1)
proof (cases rule: execute_cases)
  case early
  with assms(2,3) show ?thesis by simp
next
  case (stopped m1 m2 x reason)
  with assms(2,3) show ?thesis by simp
next
  case (settled m1 m2 body path s seen e w)
  note c = clear_scratch_ok [OF settled(1)]
  obtain raw later where n: "nonces m1 = raw # later" "body = nonce_body now raw" "path = nonce_file cfg"
    "files m2 = (files m1)(path \<mapsto> body)" "restores m2 = restores m1"
    using write_nonce_ok [OF settled(2)] by blast
  obtain q where q: "verifiable s e r q"
    and v: "verify_and_close cfg (req_repository req) body path q (m2\<lparr>world := w\<rparr>) = (r', m')"
    using settle_cases [OF settled(4)] assms(2,3) by auto
  have "\<not> verified q" using q assms(3) by (auto simp: verifiable_def take_summary_def)
  then obtain m3 where ok: "verify cfg (req_repository req) body path (m2\<lparr>world := w\<rparr>) = (None, m3)"
    using verify_close_cases(1) [OF v] assms(2) by auto
  let ?p = "restored_path (cfg_goos cfg) (scratch_dir cfg) path"
  have "?p \<noteq> path" using restored_under [of "cfg_goos cfg" "scratch_dir cfg" path] assms(4) n(3) by metis
  then have "files (m2\<lparr>world := w\<rparr>) ?p = None" using c n(4) restored_under by simp
  from verify_ok [OF ok this] n c show ?thesis by auto
qed

lemma execute_verified_iff:
  assumes "execute cfg cancel now req r m = (r', m')"
    and "run_outcome r = OutcomeFailed" and "\<not> verified r"
  shows "verified r' \<longleftrightarrow> run_outcome r' \<in> {OutcomeSuccess, OutcomeDegraded, OutcomeIncomplete}"
  using assms(1)
proof (cases rule: execute_cases)
  case early
  with assms(2,3) show ?thesis by simp
next
  case (stopped m1 m2 x reason)
  with assms(2,3) show ?thesis by simp
next
  case (settled m1 m2 body path s seen e w)
  show ?thesis using settle_cases [OF settled(4)]
  proof (elim disjE exE conjE)
    fix q
    assume q: "verifiable s e r q"
      and v: "verify_and_close cfg (req_repository req) body path q (m2\<lparr>world := w\<rparr>) = (r', m')"
    have "\<not> verified q" "run_outcome q \<in> {OutcomeSuccess, OutcomeIncomplete}"
      using q assms(3) by (auto simp: verifiable_def take_summary_def)
    then show ?thesis using verify_close_cases(1) [OF v] by (auto split: if_splits)
  qed (use assms(2,3) in simp)
qed


section \<open>Examples\<close>

definition sample_settings :: settings where
  "sample_settings =
     \<lparr>cfg_parse = tiny_parse, cfg_goos = ''linux'', restic_bin = ''restic'', verify_dir = ''/d/v'',
      scratch_dir = ''/d/s''\<rparr>"

definition sample_request :: request where
  "sample_request =
     \<lparr>req_node = ''leto'', req_uuid = ''u'', req_seeding = False, req_repository = sample_repo,
      req_options = no_options\<lparr>o_targets := [''/a'']\<rparr>\<rparr>"

text \<open>A restore that brings the file of the nonce \<open>N\<close> back.\<close>

definition sample_restored :: string where
  "sample_restored = restored_path ''linux'' ''/d/s'' ''/d/v/verification.txt''"

definition sample_machine :: "proc list \<Rightarrow> (string \<rightharpoonup> string) list \<Rightarrow> machine" where
  "sample_machine ps rs =
     \<lparr>world = \<lparr>procs = ps, ran = []\<rparr>, files = Map.empty, disk = [], nonces = [''N''], restores = rs\<rparr>"

lemma sample_paths:
  "nonce_file sample_settings = ''/d/v/verification.txt''"
  "sample_restored = ''/d/s/d/v/verification.txt''"
  "\<not> under ''linux'' ''/d/s'' ''/d/v/verification.txt''"
  by code_simp+

lemma sample_backup:
  "run_backup tiny_parse ''linux'' ''restic'' sample_repo
      (no_options\<lparr>o_targets := [''/a'', ''/d/v'']\<rparr>) \<lparr>procs = [], ran = []\<rparr> =
    (((zero_summary, []), None), \<lparr>procs = [], ran = [[''backup'', ''--json'', ''--'', ''/a'', ''/d/v'']]\<rparr>)"
  by code_simp

definition sample_good :: machine where
  "sample_good = sample_machine [] [[sample_restored \<mapsto> nonce_body 0 ''N'']]"


lemma sample_good_run:
  "verified (fst (execute sample_settings None 0 sample_request (opened_run sample_request 5) sample_good))"
  "run_outcome (fst (execute sample_settings None 0 sample_request (opened_run sample_request 5) sample_good))
   = OutcomeSuccess"
  by code_simp+

theorem verified_means_read_back_witness:
  "\<exists>raw later f fs. nonces sample_good = raw # later \<and> restores sample_good = f # fs \<and>
    f sample_restored = Some (nonce_body 0 raw)"
proof -
  let ?x = "execute sample_settings None 0 sample_request (opened_run sample_request 5) sample_good"
  have n: "\<not> verified (opened_run sample_request 5)" by (simp add: opened_run_def)
  have "\<not> under (cfg_goos sample_settings) (scratch_dir sample_settings) (nonce_file sample_settings)"
    by (simp only: sample_paths(1)) (simp add: sample_settings_def sample_paths(3))
  from verified_means_read_back [OF _ sample_good_run(1) n this, of _ _ _ _ "snd ?x"]
  have "\<exists>raw later f fs. nonces sample_good = raw # later \<and> restores sample_good = f # fs \<and>
      f (restored_path (cfg_goos sample_settings) (scratch_dir sample_settings)
        (nonce_file sample_settings)) = Some (nonce_body 0 raw)" by (metis prod.collapse)
  then show ?thesis unfolding sample_paths(1) sample_restored_def by (simp add: sample_settings_def)
qed


text \<open>a backup cancelled while it is being verified is recorded as one that could not be read back.
  The cancellation is looked at once, after restic's backup has ended; when it comes after that, the
  restore is killed with the context, the file is not there, and the row says "the backup could not be
  read back", which the comment on \<open>cancelled\<close> says a run stopped on purpose must not say.\<close>

theorem cancelled_verification_reads_unverified:
  "case execute sample_settings (Some (2, ''stopped on the status page'')) 0 sample_request
      (opened_run sample_request 5)
      (sample_machine [Ran [] [] (Exited 0), Ran [] [] (Exited (- 1))] []) of (r, m) \<Rightarrow>
    length (ran (world m)) = 2 \<and> run_outcome r = OutcomeUnverified \<and>
    prefix ''the backup could not be read back: '' (run_message r)"
  by code_simp

end
