(* ===== verification/BackupDb.thy ===== *)
theory BackupDb
  imports Backup
begin

text \<open>
  The run history in SQLite: \<open>business/domain/backup/stores/backupdb/backupdb.go\<close>. The database is the
  columns of the table \<open>run\<close>, its rows in the order of their ids, the next id of the AUTOINCREMENT key,
  and the faults of the coming statements. It interprets \<open>run_store\<close>.
\<close>

section \<open>The database\<close>

text \<open>
  A row: the columns that are read as they are, in \<open>row_base\<close>, and the ones that are texts to be
  parsed, beside it. \<open>None\<close> is NULL for the two times that may be missing, and a text that does not
  decode for the list of files.
\<close>

record run_row =
  row_base :: run
  row_started :: time_text
  row_finished :: "time_text option"
  row_reported :: "time_text option"
  row_unreadable :: "string list option"

record rundb =
  run_cols :: "string list"
  run_rows :: "run_row list"
  next_id :: int
  run_faults :: faults

definition run_sql_error :: err where
  "run_sql_error = Sentinel ''sql''"

definition run_statement :: "rundb \<Rightarrow> bool \<times> rundb" where
  "run_statement db = (fails_next (run_faults db), db\<lparr>run_faults := tl (run_faults db)\<rparr>)"

definition added_run_columns :: "string list" where
  "added_run_columns = [''run_uuid'', ''seeding'']"

definition run_ready :: "rundb \<Rightarrow> bool" where
  "run_ready db \<longleftrightarrow> set added_run_columns \<subseteq> set (run_cols db)"

section \<open>Migration\<close>

definition run_default :: "string \<Rightarrow> run_row \<Rightarrow> run_row" where
  "run_default c row =
     (if c = ''run_uuid'' then row\<lparr>row_base := (row_base row)\<lparr>run_uuid := []\<rparr>\<rparr>
      else if c = ''seeding'' then row\<lparr>row_base := (row_base row)\<lparr>run_seeding := False\<rparr>\<rparr>
      else row)"

fun add_run_columns :: "string list \<Rightarrow> rundb \<Rightarrow> unit res \<times> rundb" where
  "add_run_columns [] db = (Inr (), db)"
| "add_run_columns (c # cs) db =
     (case run_statement db of (bad, db1) \<Rightarrow>
        if bad then (Inl (Wrap (''backupdb: looking for run.'' @ c @ '': '') run_sql_error []), db1)
        else if c \<in> set (run_cols db1) then add_run_columns cs db1
        else (case run_statement db1 of (bad2, db2) \<Rightarrow>
          if bad2 then (Inl (Wrap (''backupdb: adding run.'' @ c @ '': '') run_sql_error []), db2)
          else add_run_columns cs
            (db2\<lparr>run_cols := run_cols db2 @ [c], run_rows := map (run_default c) (run_rows db2)\<rparr>)))"

definition run_migrate :: "rundb \<Rightarrow> unit res \<times> rundb" where
  "run_migrate db =
     (case run_statement db of (bad, db1) \<Rightarrow>
        if bad then (Inl (Wrap ''backupdb: applying the schema: '' run_sql_error []), db1)
        else add_run_columns added_run_columns db1)"

section \<open>The operations of the store\<close>

definition create_row :: "int \<Rightarrow> run \<Rightarrow> run_row" where
  "create_row i r =
     \<lparr>row_base = (open_row i r)\<lparr>started_at := zero_time\<rparr>,
      row_started = TimeText (whole_second (started_at r)), row_finished = None, row_reported = None,
      row_unreadable = Some []\<rparr>"

definition rundb_create :: "run \<Rightarrow> rundb \<Rightarrow> int res \<times> rundb" where
  "rundb_create r db =
     (case run_statement db of (bad, db1) \<Rightarrow>
        if bad \<or> \<not> run_ready db then (Inl (Wrap ''backupdb: opening a run row: '' run_sql_error []), db1)
        else (Inr (next_id db1),
          db1\<lparr>run_rows := run_rows db1 @ [create_row (next_id db1) r], next_id := next_id db1 + 1\<rparr>))"

definition finish_row :: "run \<Rightarrow> run_row \<Rightarrow> run_row" where
  "finish_row r row =
     row\<lparr>row_base := (close_row r (row_base row))\<lparr>finished_at := finished_at (row_base row),
           unreadable_files := unreadable_files (row_base row)\<rparr>,
         row_finished := Some (TimeText (whole_second (finished_at r))),
         row_unreadable := Some (unreadable_files r)\<rparr>"

definition rundb_finish :: "run \<Rightarrow> rundb \<Rightarrow> unit res \<times> rundb" where
  "rundb_finish r db =
     (case run_statement db of (bad, db1) \<Rightarrow>
        if bad \<or> \<not> run_ready db
        then (Inl (Wrap (''backupdb: closing run '' @ itoa (run_id r) @ '': '') run_sql_error []), db1)
        else if \<not> list_ex (\<lambda>row. run_id (row_base row) = run_id r) (run_rows db1)
        then (Inl (Sentinel (''backupdb: run '' @ itoa (run_id r) @ '' is not in the history'')), db1)
        else (Inr (), db1\<lparr>run_rows :=
          map (\<lambda>row. if run_id (row_base row) = run_id r then finish_row r row else row) (run_rows db1)\<rparr>))"

definition scan_time :: "string \<Rightarrow> int \<Rightarrow> time_text \<Rightarrow> instant res" where
  "scan_time what i t =
     (case t of TimeText x \<Rightarrow> Inr x
      | _ \<Rightarrow> Inl (Wrap (''backupdb: reading run '' @ itoa i @ what) run_sql_error []))"

definition scan_run :: "run_row \<Rightarrow> run res" where
  "scan_run row =
     (let i = run_id (row_base row) in
      on_ok (scan_time '''s start time: '' i (row_started row)) (\<lambda>st.
      on_ok (case row_finished row of None \<Rightarrow> Inr zero_time | Some t \<Rightarrow> scan_time '''s end time: '' i t) (\<lambda>fin.
      on_ok (case row_reported row of None \<Rightarrow> Inr None
             | Some t \<Rightarrow> on_ok (scan_time '''s report time: '' i t) (\<lambda>x. Inr (Some x))) (\<lambda>rep.
      case row_unreadable row of
        None \<Rightarrow> Inl (Wrap (''backupdb: reading run '' @ itoa i @ '''s unreadable files: '') run_sql_error [])
      | Some fs \<Rightarrow> Inr ((row_base row)\<lparr>started_at := st, finished_at := fin, reported_at := rep,
            unreadable_files := fs\<rparr>)))))"

fun scan_runs :: "run_row list \<Rightarrow> run list res" where
  "scan_runs [] = Inr []"
| "scan_runs (row # more_rows) =
     on_ok (scan_run row) (\<lambda>r. on_ok (scan_runs more_rows) (\<lambda>rs. Inr (r # rs)))"

definition query_runs ::
  "string \<Rightarrow> (run_row list \<Rightarrow> run_row list) \<Rightarrow> rundb \<Rightarrow> run list res \<times> rundb" where
  "query_runs msg sel db =
     (case run_statement db of (bad, db1) \<Rightarrow>
        if bad \<or> \<not> run_ready db then (Inl (Wrap msg run_sql_error []), db1)
        else (scan_runs (sel (run_rows db1)), db1))"

definition rundb_recent :: "int \<Rightarrow> rundb \<Rightarrow> run list res \<times> rundb" where
  "rundb_recent limit db =
     query_runs ''backupdb: reading the run history: ''
       (\<lambda>rows. take (nat (if limit \<le> 0 then 30 else limit)) (rev rows)) db"

definition first_run :: "run list res \<times> rundb \<Rightarrow> run res \<times> rundb" where
  "first_run x =
     (case x of
        (Inl e, db) \<Rightarrow> (Inl e, db)
      | (Inr [], db) \<Rightarrow> (Inl ErrNoRuns, db)
      | (Inr (r # _), db) \<Rightarrow> (Inr r, db))"

definition rundb_last :: "rundb \<Rightarrow> run res \<times> rundb" where
  "rundb_last db = first_run (rundb_recent 1 db)"

definition rundb_last_finished :: "rundb \<Rightarrow> run res \<times> rundb" where
  "rundb_last_finished db =
     first_run (query_runs ''backupdb: reading the last finished run: ''
       (\<lambda>rows. take 1 (rev (filter (\<lambda>row. row_finished row \<noteq> None) rows))) db)"

definition rundb_unreported :: "int \<Rightarrow> rundb \<Rightarrow> run list res \<times> rundb" where
  "rundb_unreported limit db =
     query_runs ''backupdb: reading unreported runs: ''
       (\<lambda>rows. take (nat (if limit \<le> 0 then 50 else limit))
          (filter (\<lambda>row. row_reported row = None \<and> row_finished row \<noteq> None) rows)) db"

definition rundb_seen :: "string \<Rightarrow> rundb \<Rightarrow> bool res \<times> rundb" where
  "rundb_seen url db =
     (case run_statement db of (bad, db1) \<Rightarrow>
        if bad
        then (Inl (Wrap (''backupdb: looking for earlier runs against '' @ url @ '': '') run_sql_error []), db1)
        else (Inr (list_ex (\<lambda>row. run_repository (row_base row) = url \<and> run_snapshot (row_base row) \<noteq> [])
            (run_rows db1)), db1))"

definition rundb_mark :: "int \<Rightarrow> instant \<Rightarrow> rundb \<Rightarrow> unit res \<times> rundb" where
  "rundb_mark i t db =
     (case run_statement db of (bad, db1) \<Rightarrow>
        if bad
        then (Inl (Wrap (''backupdb: marking run '' @ itoa i @ '' reported: '') run_sql_error []), db1)
        else (Inr (), db1\<lparr>run_rows := map (\<lambda>row. if run_id (row_base row) = i
            then row\<lparr>row_reported := Some (TimeText (whole_second t))\<rparr> else row) (run_rows db1)\<rparr>))"

definition rundb_prune :: "int \<Rightarrow> rundb \<Rightarrow> unit res \<times> rundb" where
  "rundb_prune keep db =
     (if keep \<le> 0 then (Inl (Sentinel ''backupdb: refusing to prune the entire history''), db)
      else case run_statement db of (bad, db1) \<Rightarrow>
        if bad then (Inl (Wrap ''backupdb: pruning the history: '' run_sql_error []), db1)
        else (Inr (), db1\<lparr>run_rows := drop (length (run_rows db1) - nat keep) (run_rows db1)\<rparr>))"

definition rundb :: "rundb run_storer" where
  "rundb =
     \<lparr>rs_create = rundb_create, rs_seen_repository = rundb_seen, rs_finish = rundb_finish,
      rs_recent = rundb_recent, rs_last = rundb_last, rs_last_finished = rundb_last_finished,
      rs_unreported = rundb_unreported, rs_mark_reported = rundb_mark\<rparr>"

lemmas rundb_defs = rundb_def rundb_create_def rundb_seen_def rundb_finish_def
  rundb_unreported_def rundb_mark_def run_statement_def query_runs_def

section \<open>The history the rows stand for\<close>

fun time_of :: "time_text \<Rightarrow> instant" where
  "time_of (TimeText t) = t"
| "time_of _ = zero_time"

definition run_of :: "run_row \<Rightarrow> run" where
  "run_of row =
     (row_base row)\<lparr>started_at := time_of (row_started row),
       finished_at := (case row_finished row of None \<Rightarrow> zero_time | Some t \<Rightarrow> time_of t),
       reported_at := map_option time_of (row_reported row),
       unreadable_files := (case row_unreadable row of None \<Rightarrow> [] | Some fs \<Rightarrow> fs)\<rparr>"

definition history :: "rundb \<Rightarrow> run list" where
  "history db = map run_of (run_rows db)"

definition is_time :: "time_text \<Rightarrow> bool" where
  "is_time t = (case t of TimeText _ \<Rightarrow> True | _ \<Rightarrow> False)"

definition row_ok :: "run_row \<Rightarrow> bool" where
  "row_ok row \<longleftrightarrow> is_time (row_started row) \<and> row_unreadable row \<noteq> None \<and>
     (case row_finished row of None \<Rightarrow> True | Some t \<Rightarrow> is_time t \<and> time_of t \<noteq> 0) \<and>
     (case row_reported row of None \<Rightarrow> True | Some t \<Rightarrow> is_time t)"

definition run_inv :: "rundb \<Rightarrow> bool" where
  "run_inv db \<longleftrightarrow> run_ready db \<and> list_all row_ok (run_rows db) \<and>
     sorted_wrt (<) (map (\<lambda>row. run_id (row_base row)) (run_rows db)) \<and>
     list_all (\<lambda>row. run_id (row_base row) < next_id db) (run_rows db)"

lemma run_of_simps [simp]:
  "run_id (run_of row) = run_id (row_base row)"
  "run_repository (run_of row) = run_repository (row_base row)"
  "run_snapshot (run_of row) = run_snapshot (row_base row)"
  by (simp_all add: run_of_def)

lemma run_of_create [simp]: "run_of (create_row i r) = open_row i r"
  by (simp add: run_of_def create_row_def open_row_def)

lemma run_of_finish [simp]: "run_of (finish_row r row) = close_row r (run_of row)"
  by (simp add: run_of_def finish_row_def close_row_def)

lemma scan_run_ok: "row_ok row \<Longrightarrow> scan_run row = Inr (run_of row)"
  by (auto simp: row_ok_def scan_run_def run_of_def is_time_def scan_time_def Let_def
      split: time_text.splits option.splits)

lemma scan_runs_ok: "list_all row_ok rows \<Longrightarrow> scan_runs rows = Inr (map run_of rows)"
  by (induction rows) (simp_all add: scan_run_ok)

section \<open>The store keeps the laws\<close>

lemma run_ready_simps [simp]:
  "run_ready (db\<lparr>run_rows := r\<rparr>) = run_ready db"
  "run_ready (db\<lparr>next_id := i\<rparr>) = run_ready db"
  "run_ready (db\<lparr>run_faults := fs\<rparr>) = run_ready db"
  by (simp_all add: run_ready_def)

lemma run_inv_faults [simp]: "run_inv (db\<lparr>run_faults := fs\<rparr>) = run_inv db"
  by (simp add: run_inv_def)

lemma history_faults [simp]: "history (db\<lparr>run_faults := fs\<rparr>) = history db"
  by (simp add: history_def)

lemma whole_second_nonzero: "second \<le> t \<Longrightarrow> whole_second t \<noteq> 0"
  using whole_second_mono [of second t] by (simp add: whole_second_def)

lemma run_id_open [simp]: "run_id (open_row i r) = i"
  by (simp add: open_row_def)

lemma run_id_close [simp]: "run_id (close_row r x) = run_id x"
  by (simp add: close_row_def)

lemma run_id_create [simp]: "run_id (row_base (create_row i r)) = i"
  by (simp add: create_row_def)

lemma run_id_finish [simp]: "run_id (row_base (finish_row r row)) = run_id (row_base row)"
  by (simp add: finish_row_def)

lemma row_ok_create [simp]: "row_ok (create_row i r)"
  by (simp add: row_ok_def create_row_def is_time_def)

lemma row_ok_finish: "row_ok row \<Longrightarrow> second \<le> finished_at r \<Longrightarrow> row_ok (finish_row r row)"
  using whole_second_nonzero [of "finished_at r"] by (simp add: row_ok_def finish_row_def is_time_def)

lemma due_report_row:
  "row_ok row \<Longrightarrow> due_report (run_of row) \<longleftrightarrow> row_reported row = None \<and> row_finished row \<noteq> None"
  by (auto simp: due_report_def run_of_def unfinished_def is_zero_def row_ok_def split: option.splits)

lemma run_inv_map:
  assumes "run_inv db" and "\<And>row. row \<in> set (run_rows db) \<Longrightarrow> row_ok row \<Longrightarrow> row_ok (f row)"
    and "\<And>row. run_id (row_base (f row)) = run_id (row_base row)"
  shows "run_inv (db\<lparr>run_rows := map f (run_rows db)\<rparr>)"
  using assms by (auto simp: run_inv_def list_all_iff comp_def)

lemma create_run_inv:
  assumes "run_inv db"
  shows "run_inv (db\<lparr>run_rows := run_rows db @ [create_row (next_id db) r], next_id := next_id db + 1\<rparr>)"
  using assms by (auto simp: run_inv_def sorted_wrt_append list_all_iff)

lemma take_scan:
  assumes "run_inv db"
  shows "scan_runs (take n (filter (\<lambda>row. row_reported row = None \<and> row_finished row \<noteq> None) (run_rows db))) =
    Inr (take n (filter due_report (history db)))"
proof -
  have ok: "list_all row_ok (run_rows db)" using assms by (simp add: run_inv_def)
  let ?f = "filter (\<lambda>row. row_reported row = None \<and> row_finished row \<noteq> None) (run_rows db)"
  have "list_all row_ok (take n ?f)" using ok by (auto simp: list_all_iff dest: in_set_takeD)
  then have "scan_runs (take n ?f) = Inr (map run_of (take n ?f))" by (rule scan_runs_ok)
  moreover have "filter due_report (history db) = map run_of ?f"
    using ok unfolding history_def filter_map comp_def
    by (intro arg_cong [of _ _ "map run_of"] filter_cong refl)
      (auto simp: due_report_row list_all_iff)
  ultimately show ?thesis by (simp add: take_map)
qed

interpretation rdb: run_store rundb history run_inv
proof (unfold_locales, goal_cases)
  case (1 s r i s')
  let ?t = "s\<lparr>run_faults := tl (run_faults s)\<rparr>"
  from 1(2) have s': "s' = ?t\<lparr>run_rows := run_rows ?t @ [create_row (next_id ?t) r],
      next_id := next_id ?t + 1\<rparr>" and i: "i = next_id s"
    by (auto simp: rundb_defs split: if_splits)
  have "run_inv ?t" using 1(1) by simp
  from create_run_inv [OF this, of r] 1(1) show ?case
    unfolding s' i by (auto simp: history_def run_inv_def list_all_iff)
next
  case (2 s r e s')
  then show ?case by (auto simp: rundb_defs split: if_splits)
next
  case (3 s r u s')
  let ?t = "s\<lparr>run_faults := tl (run_faults s)\<rparr>"
  let ?f = "\<lambda>row. if run_id (row_base row) = run_id r then finish_row r row else row"
  from 3(3) have s': "s' = ?t\<lparr>run_rows := map ?f (run_rows ?t)\<rparr>"
    and mem: "list_ex (\<lambda>row. run_id (row_base row) = run_id r) (run_rows s)"
    by (auto simp: rundb_defs split: if_splits)
  have "run_inv ?t" using 3(1) by simp
  from run_inv_map [OF this, of ?f] 3(2) row_ok_finish have "run_inv s'" unfolding s' by auto
  moreover obtain row where "row \<in> set (run_rows s)" and "run_id r = run_id (run_of row)"
    using mem by (auto simp: list_ex_iff)
  then have "run_id r \<in> run_id ` set (history s)"
    unfolding history_def set_map by (metis imageI)
  moreover have "history s' = map (\<lambda>x. if run_id x = run_id r then close_row r x else x) (history s)"
    unfolding s' by (simp add: history_def)
  ultimately show ?case by simp
next
  case (4 s r e s')
  then show ?case by (auto simp: rundb_defs split: if_splits)
next
  case (5 s n rr s')
  then show ?case using take_scan [OF 5(1)] by (auto simp: rundb_defs split: if_splits)
next
  case (6 s i t u s')
  let ?t = "s\<lparr>run_faults := tl (run_faults s)\<rparr>"
  let ?f = "\<lambda>row. if run_id (row_base row) = i
      then row\<lparr>row_reported := Some (TimeText (whole_second t))\<rparr> else row"
  from 6(2) have s': "s' = ?t\<lparr>run_rows := map ?f (run_rows ?t)\<rparr>"
    by (auto simp: rundb_defs split: if_splits)
  have "run_inv ?t" using 6(1) by simp
  from run_inv_map [OF this, of ?f] have "run_inv s'"
    unfolding s' by (auto simp: row_ok_def is_time_def)
  then show ?case unfolding s' by (auto simp: history_def run_of_def)
next
  case (7 s i t e s')
  then show ?case by (auto simp: rundb_defs split: if_splits)
next
  case (8 s url rb s')
  then show ?case by (auto simp: rundb_defs history_def list_ex_iff split: if_splits)
qed

section \<open>The properties of the history\<close>

text \<open>The row a run leaves, and that the run that comes back carries its id.\<close>

lemma job_row:
  assumes "run_inv s" and "second \<le> t2"
    and "run_job cfg rundb running cancel t0 t1 t2 req s m = ((ro, e), s', m')"
  shows "run_inv s' \<and> ((ro = None \<and> e \<noteq> None \<and> history s' = history s \<and> m' = m) \<or>
    (\<exists>x. history s' = history s @ [x] \<and> (\<forall>y\<in>set (history s). run_id y < run_id x) \<and> run_id (the ro) = run_id x \<and>
      run_repository x = repo_url (req_repository req) \<and> (e = None \<longleftrightarrow> \<not> unfinished x) \<and>
      (unfinished x \<longrightarrow> run_outcome x = OutcomeFailed \<and> \<not> verified x) \<and>
      (verified x \<longleftrightarrow> run_outcome x \<in> {OutcomeSuccess, OutcomeDegraded, OutcomeIncomplete})))"
proof -
  note j = rdb.job_rows [OF assms]
  show ?thesis using conjunct2 [OF j]
  proof (elim disjE exE conjE)
    fix i r
    let ?o = "open_row i (opened_run req t0)"
    define z where "z = (if e = None then close_row (r\<lparr>finished_at := t2\<rparr>) ?o else ?o)"
    assume x: "execute cfg cancel t1 req ((opened_run req t0)\<lparr>run_id := i\<rparr>) m = (r, m')"
      and ro: "ro = Some (r\<lparr>finished_at := t2\<rparr>)" and fresh: "\<forall>x\<in>set (history s). run_id x < i" and h: "history s' = history s @ [if e = None then close_row (r\<lparr>finished_at := t2\<rparr>) ?o else ?o]"
    have "run_outcome ((opened_run req t0)\<lparr>run_id := i\<rparr>) = OutcomeFailed"
      "\<not> verified ((opened_run req t0)\<lparr>run_id := i\<rparr>)" by (simp_all add: opened_run_def)
    note v = execute_verified_iff [OF x this]
    have "whole_second t2 \<noteq> 0" using whole_second_nonzero assms(2) by simp
    then have "run_id z = i \<and> run_repository z = repo_url (req_repository req) \<and>
        (e = None \<longleftrightarrow> \<not> unfinished z) \<and>
        (unfinished z \<longrightarrow> run_outcome z = OutcomeFailed \<and> \<not> verified z) \<and>
        (verified z \<longleftrightarrow> run_outcome z \<in> {OutcomeSuccess, OutcomeDegraded, OutcomeIncomplete})"
      unfolding z_def using v by (simp add: open_row_def close_row_def opened_run_def unfinished_def is_zero_def)
    moreover have "history s' = history s @ [z]" using h by (simp add: z_def)
    moreover have "run_id (the ro) = i" using execute_id [OF x] ro by simp
    ultimately show ?thesis using fresh conjunct1 [OF j] by metis
  qed (use conjunct1 [OF j] in simp)
qed

text \<open>every backup leaves one row that tells the truth. A call that is refused, because one is
  running or because the row could not be opened, changes nothing and starts nothing. Every other call
  adds one row at the end of the history, with an id no row had, and leaves the rows before it alone.
  The row is closed exactly when the call reports no error; while it is open, after a crash or a failed
  write, it reads as failed and unverified; and it reads as success, degraded or incomplete exactly
  when it is marked verified.\<close>

theorem every_run_leaves_a_row:
  assumes "run_inv s" and "second \<le> t2"
    and "run_job cfg rundb running cancel t0 t1 t2 req s m = ((ro, e), s', m')"
  shows "run_inv s' \<and> ((ro = None \<and> e \<noteq> None \<and> history s' = history s \<and> m' = m) \<or>
    (\<exists>x. history s' = history s @ [x] \<and> (\<forall>y\<in>set (history s). run_id y < run_id x) \<and>
      run_repository x = repo_url (req_repository req) \<and> (e = None \<longleftrightarrow> \<not> unfinished x) \<and>
      (unfinished x \<longrightarrow> run_outcome x = OutcomeFailed \<and> \<not> verified x) \<and>
      (verified x \<longleftrightarrow> run_outcome x \<in> {OutcomeSuccess, OutcomeDegraded, OutcomeIncomplete})))"
  using job_row [OF assms] by blast

definition empty_rundb :: rundb where
  "empty_rundb = \<lparr>run_cols = added_run_columns, run_rows = [], next_id = 1, run_faults = []\<rparr>"

theorem every_run_leaves_a_row_witness:
  "run_inv (fst (snd (run_job sample_settings rundb False None 0 0 second sample_request empty_rundb
    sample_good)))"
proof -
  have "run_inv empty_rundb"
    by (simp add: run_inv_def empty_rundb_def run_ready_def)
  from every_run_leaves_a_row [OF this order_refl] show ?thesis by (metis prod.collapse)
qed

end
