(* ===== verification/Api.thy ===== *)
theory Api
  imports Errors Json
begin

text \<open>
  The client of the fleet's server: \<open>foundation/eumaeusapi/eumaeusapi.go\<close>. What comes back for a
  request is not the program's; the network holds the coming replies and the requests that were made.
  How a request's body is encoded is left to its caller, which logs the body itself.
\<close>

definition ErrNotFound :: err where
  "ErrNotFound = Sentinel ''eumaeusapi: not found''"

definition ErrUnauthorised :: err where
  "ErrUnauthorised = Sentinel ''eumaeusapi: the token was refused''"

definition ErrForbidden :: err where
  "ErrForbidden = Sentinel ''eumaeusapi: the server refused this request''"

definition ErrConflict :: err where
  "ErrConflict = Sentinel ''eumaeusapi: already claimed''"

definition max_detail :: nat where
  "max_detail = 1024"

text \<open>
  \<open>strings.ToValidUTF8(s[:maxDetail], "")\<close> of a text that is valid UTF-8 drops the bytes of a letter
  that the cut went through: the continuation bytes at the end and the byte that led them, when the
  letter is not whole.
\<close>

definition is_continuation :: "char \<Rightarrow> bool" where
  "is_continuation c = (let n = (of_char c :: nat) in 128 \<le> n \<and> n < 192)"

definition sequence_length :: "char \<Rightarrow> nat" where
  "sequence_length c =
     (let n = (of_char c :: nat) in
      if n < 128 then 1 else if n < 224 then 2 else if n < 240 then 3 else 4)"

definition drop_torn :: "string \<Rightarrow> string" where
  "drop_torn s =
     (let conts = takeWhile is_continuation (rev s); before = drop (length conts) (rev s) in
      case before of
        [] \<Rightarrow> s
      | lead # front \<Rightarrow>
          if (of_char lead :: nat) < 192 then s
          else if length conts + 1 < sequence_length lead then rev front else s)"

definition clip :: "string \<Rightarrow> string" where
  "clip s0 =
     (let s = trim_space s0 in
      if length s \<le> max_detail then s
      else drop_torn (take max_detail s) @ [CHR 0xE2, CHR 0x80, CHR 0xA6])"

definition new_bad_request :: "parser \<Rightarrow> int \<Rightarrow> string \<Rightarrow> string \<Rightarrow> string \<Rightarrow> err" where
  "new_bad_request parse status meth path body =
     (case Option.bind (struct_fields parse body) (\<lambda>f.
             Option.bind (text_field parse f ''error'') (\<lambda>e.
             Option.bind (text_field parse f ''field'') (\<lambda>fl. Some (e, fl)))) of
        Some (c # cs, fl) \<Rightarrow> BadRequest status meth path (clip (c # cs)) (clip fl) []
      | _ \<Rightarrow> BadRequest status meth path [] [] (clip body))"

datatype reply = NoReply err | Reply (reply_status: int) (reply_line: string) (reply_body: string)

text \<open>What a reply means: an error, or a body to be decoded.\<close>

definition read_reply :: "parser \<Rightarrow> string \<Rightarrow> string \<Rightarrow> reply \<Rightarrow> string res" where
  "read_reply parse meth path r =
     (case r of
        NoReply e \<Rightarrow> Inl (Wrap (''eumaeusapi: '' @ meth @ '' '' @ path @ '': '') e [])
      | Reply status line body \<Rightarrow>
          if status = 404 then Inl ErrNotFound
          else if status = 400 \<or> status = 422 then Inl (new_bad_request parse status meth path body)
          else if status = 401 then Inl ErrUnauthorised
          else if status = 403 then Inl ErrForbidden
          else if status = 409 then Inl ErrConflict
          else if 300 \<le> status
          then Inl (Sentinel (''eumaeusapi: '' @ meth @ '' '' @ path @ '': '' @ line @ '': '' @ trim_space body))
          else Inr body)"

record 'b request_made =
  req_method :: string
  req_path :: string
  req_body :: 'b

record 'b net =
  replies :: "reply list"
  made :: "'b request_made list"

definition api_do :: "parser \<Rightarrow> string \<Rightarrow> string \<Rightarrow> 'b \<Rightarrow> 'b net \<Rightarrow> string res \<times> 'b net" where
  "api_do parse meth path body n =
     (read_reply parse meth path
        (case replies n of [] \<Rightarrow> Reply 204 ''204 No Content'' [] | r # _ \<Rightarrow> r),
      n\<lparr>replies := tl (replies n),
        made := made n @ [\<lparr>req_method = meth, req_path = path, req_body = body\<rparr>]\<rparr>)"

lemma read_reply_classes:
  "read_reply parse meth path (Reply 400 l b) = Inl e \<Longrightarrow> err_is ErrBadRequest e"
  "read_reply parse meth path (Reply 422 l b) = Inl e \<Longrightarrow> err_is ErrUnprocessable e \<and> \<not> err_is ErrBadRequest e"
  by (auto simp: read_reply_def new_bad_request_def refusal_class_def ErrBadRequest_def
      ErrUnprocessable_def split: option.splits list.splits)

end
