(* ===== verification/Drain.thy ===== *)
theory Drain
  imports Errors
begin

text \<open>
  The shape of a queue that is sent in order: an item is offered, a refusal for good is dropped like a
  delivery, any other failure stops the loop, and what was delivered or dropped is cleared before the
  next item is looked at. Two components have a loop of this shape, the run events of
  \<open>business/domain/fleet/fleetbus\<close> and the diagnostic reports of \<open>business/domain/diag/diagbus\<close>; each
  interprets the locale on its own loop.
\<close>

text \<open>Every item of the list was cleared without an error, one after the other.\<close>

fun all_clear :: "('i \<Rightarrow> 's \<Rightarrow> err option \<times> 's) \<Rightarrow> 'i list \<Rightarrow> 's \<Rightarrow> bool" where
  "all_clear clear [] s = True"
| "all_clear clear (x # xs) s =
     (case clear x s of (e, s1) \<Rightarrow> e = None \<and> all_clear clear xs s1)"

locale drain =
  fixes loop :: "'i list \<Rightarrow> int \<Rightarrow> 'n \<Rightarrow> 's \<Rightarrow> (int \<times> err option) \<times> 'n \<times> 's"
    and offer :: "'i \<Rightarrow> 'n \<Rightarrow> err option \<times> 'n"
    and clear :: "'i \<Rightarrow> 's \<Rightarrow> err option \<times> 's"
    and rejected :: "err \<Rightarrow> bool"
  assumes loop_nil: "loop [] k n s = ((k, None), n, s)"
    and loop_fail: "offer x n = (Some e, n1) \<Longrightarrow> \<not> rejected e \<Longrightarrow>
      loop (x # xs) k n s = ((k, Some e), n1, s)"
    and loop_stuck: "offer x n = (oe, n1) \<Longrightarrow> (case oe of None \<Rightarrow> True | Some e \<Rightarrow> rejected e) \<Longrightarrow>
      clear x s = (Some e', s1) \<Longrightarrow> loop (x # xs) k n s = ((k, Some e'), n1, s1)"
    and loop_next: "offer x n = (oe, n1) \<Longrightarrow> (case oe of None \<Rightarrow> True | Some e \<Rightarrow> rejected e) \<Longrightarrow>
      clear x s = (None, s1) \<Longrightarrow>
      loop (x # xs) k n s = loop xs (if oe = None then k + 1 else k) n1 s1"
begin

definition offers :: "'i list \<Rightarrow> 'n \<Rightarrow> 'n" where
  "offers xs n = foldl (\<lambda>n x. snd (offer x n)) n xs"

definition clears :: "'i list \<Rightarrow> 's \<Rightarrow> 's" where
  "clears xs s = foldl (\<lambda>s x. snd (clear x s)) s xs"

lemma fold_simps [simp]:
  "offers [] n = n" "offers (x # xs) n = offers xs (snd (offer x n))"
  "clears [] s = s" "clears (x # xs) s = clears xs (snd (clear x s))"
  by (simp_all add: offers_def clears_def)

lemma fold_append [simp]:
  "offers (xs @ ys) n = offers ys (offers xs n)" "clears (xs @ ys) s = clears ys (clears xs s)"
  by (simp_all add: offers_def clears_def)

text \<open>How far the loop got: what was dealt with is a prefix, and at most one item more was offered.\<close>

definition got_to :: "'i list \<Rightarrow> 'i list \<Rightarrow> int \<Rightarrow> 'n \<Rightarrow> 's \<Rightarrow> (int \<times> err option) \<times> 'n \<times> 's \<Rightarrow> bool" where
  "got_to done rest k n s out =
     (case out of ((k', e), n', s') \<Rightarrow>
        k \<le> k' \<and> k' \<le> k + int (length done) \<and> all_clear clear done s \<and>
        (case rest of
           [] \<Rightarrow> e = None \<and> n' = offers done n \<and> s' = clears done s
         | x # _ \<Rightarrow> n' = offers (done @ [x]) n \<and>
             ((\<exists>e'. e = Some e' \<and> \<not> rejected e' \<and> fst (offer x (offers done n)) = Some e' \<and>
                s' = clears done s) \<or>
              (\<exists>e'. e = Some e' \<and> fst (clear x (clears done s)) = Some e' \<and>
                s' = clears (done @ [x]) s))))"

lemma got_to_next:
  assumes "offer x n = (oe, n1)" and "clear x s = (None, s1)"
    and "got_to done rest (if oe = None then k + 1 else k) n1 s1 out"
  shows "got_to (x # done) rest k n s out"
  using assms by (auto simp: got_to_def split: list.splits if_splits)

lemma loop_prefix: "\<exists>done rest. xs = done @ rest \<and> got_to done rest k n s (loop xs k n s)"
proof (induction xs arbitrary: k n s)
  case Nil
  show ?case by (intro exI [of _ "[]"]) (simp add: loop_nil got_to_def)
next
  case (Cons x xs)
  obtain oe n1 where o': "offer x n = (oe, n1)" by fastforce
  obtain ce s1 where c: "clear x s = (ce, s1)" by fastforce
  show ?case
  proof (cases "case oe of None \<Rightarrow> True | Some e \<Rightarrow> rejected e")
    case False
    then obtain e where e: "oe = Some e" "\<not> rejected e" by (cases oe) auto
    then have "got_to [] (x # xs) k n s (loop (x # xs) k n s)"
      using loop_fail [OF o' [unfolded e] e(2)] o' by (simp add: got_to_def)
    then show ?thesis by (intro exI [of _ "[]"] exI [of _ "x # xs"]) simp
  next
    case True
    show ?thesis
    proof (cases ce)
      case (Some e')
      then have "got_to [] (x # xs) k n s (loop (x # xs) k n s)"
        using loop_stuck [OF o' True c [unfolded Some]] o' c by (simp add: got_to_def)
      then show ?thesis by (intro exI [of _ "[]"] exI [of _ "x # xs"]) simp
    next
      case None
      let ?k = "if oe = None then k + 1 else k"
      obtain ds rest where d: "xs = ds @ rest" "got_to ds rest ?k n1 s1 (loop xs ?k n1 s1)"
        using Cons.IH by blast
      have "got_to (x # ds) rest k n s (loop (x # xs) k n s)"
        using got_to_next [OF o' c [unfolded None] d(2)] loop_next [OF o' True c [unfolded None]] by simp
      then show ?thesis using d(1) by (intro exI [of _ "x # ds"] exI [of _ rest]) simp
    qed
  qed
qed

end

text \<open>A drained queue whose offers are logged, one entry for each, whatever comes of it.\<close>

locale logged_drain = drain loop offer clear rejected
  for loop :: "'i list \<Rightarrow> int \<Rightarrow> 'n \<Rightarrow> 's \<Rightarrow> (int \<times> err option) \<times> 'n \<times> 's"
    and offer :: "'i \<Rightarrow> 'n \<Rightarrow> err option \<times> 'n"
    and clear :: "'i \<Rightarrow> 's \<Rightarrow> err option \<times> 's"
    and rejected :: "err \<Rightarrow> bool" +
  fixes sent_log :: "'n \<Rightarrow> 'b list"
    and content :: "'i \<Rightarrow> 'b"
  assumes offer_logs: "offer x n = (r, n1) \<Longrightarrow> sent_log n1 = sent_log n @ [content x]"
begin

lemma offers_log: "sent_log (offers xs n) = sent_log n @ map content xs"
proof (induction xs arbitrary: n)
  case Nil
  then show ?case by simp
next
  case (Cons x xs)
  obtain r n1 where "offer x n = (r, n1)" by fastforce
  from offer_logs [OF this] Cons.IH [of n1] this show ?case by simp
qed

lemma logged_prefix:
  assumes "loop xs k n s = ((k', e), n', s')"
  shows "\<exists>ds offered rest. xs = ds @ offered @ rest \<and> length offered \<le> 1 \<and>
    sent_log n' = sent_log n @ map content (ds @ offered) \<and> all_clear clear ds s \<and>
    (e = None \<longrightarrow> offered @ rest = []) \<and> k \<le> k' \<and> k' \<le> k + int (length ds) \<and>
    (s' = clears ds s \<or> (\<exists>x e'. offered = [x] \<and> clear x (clears ds s) = (Some e', s')))"
proof -
  obtain ds qs where xs: "xs = ds @ qs" and got: "got_to ds qs k n s ((k', e), n', s')"
    using loop_prefix [of xs k n s] assms by auto
  show ?thesis
  proof (cases qs)
    case Nil
    with got have "sent_log n' = sent_log n @ map content ds" "e = None" "s' = clears ds s"
      "k \<le> k'" "k' \<le> k + int (length ds)" "all_clear clear ds s"
      by (auto simp: got_to_def offers_log)
    then have "xs = ds @ [] @ [] \<and> length ([] :: 'i list) \<le> 1 \<and>
        sent_log n' = sent_log n @ map content (ds @ []) \<and> all_clear clear ds s \<and>
        (e = None \<longrightarrow> [] @ [] = ([] :: 'i list)) \<and> k \<le> k' \<and> k' \<le> k + int (length ds) \<and>
        (s' = clears ds s \<or> (\<exists>x e'. [] = [x] \<and> clear x (clears ds s) = (Some e', s')))"
      using xs Nil by simp
    then show ?thesis by blast
  next
    case (Cons x rest)
    have n': "sent_log n' = sent_log n @ map content (ds @ [x])"
      using got Cons offers_log [of "ds @ [x]" n] by (simp add: got_to_def del: fold_append)
    have "e \<noteq> None" "k \<le> k'" "k' \<le> k + int (length ds)" "all_clear clear ds s"
      using got Cons by (auto simp: got_to_def)
    moreover have "s' = clears ds s \<or>
        (\<exists>e'. fst (clear x (clears ds s)) = Some e' \<and> s' = snd (clear x (clears ds s)))"
      using got Cons by (auto simp: got_to_def)
    then have "s' = clears ds s \<or> (\<exists>e'. clear x (clears ds s) = (Some e', s'))" by (metis prod.collapse)
    ultimately have "xs = ds @ [x] @ rest \<and> length [x] \<le> 1 \<and>
        sent_log n' = sent_log n @ map content (ds @ [x]) \<and> all_clear clear ds s \<and>
        (e = None \<longrightarrow> [x] @ rest = []) \<and> k \<le> k' \<and> k' \<le> k + int (length ds) \<and>
        (s' = clears ds s \<or> (\<exists>y e'. [x] = [y] \<and> clear y (clears ds s) = (Some e', s')))"
      using xs Cons n' by auto
    then show ?thesis by blast
  qed
qed

end

end
