(* ===== verification/Fleet.thy ===== *)
theory Fleet
  imports BackupDb Api Drain
begin

text \<open>
  What the fleet dashboard is told about runs: \<open>business/domain/fleet/fleetbus/fleetbus.go\<close>, its client
  \<open>sources/eumaeusfleet\<close>, and the conversion and the flush of the daemon in \<open>cmd/sion-backup/events.go\<close>
  and \<open>daemon.go\<close>. The network logs the events that were posted.
\<close>

section \<open>Events\<close>

datatype phase = PhaseStarted | PhaseFinished

record event =
  ev_node :: string
  ev_uuid :: string
  ev_repository :: string
  ev_seeding :: bool
  ev_phase :: phase
  ev_started :: instant
  ev_finished :: "instant option"
  ev_outcome :: "outcome option"
  ev_message :: string
  ev_snapshot :: string
  ev_files :: int
  ev_bytes :: int
  ev_data_added :: int
  ev_unreadable :: int
  ev_verified :: bool
  ev_agent :: string
  ev_os :: string

record pending =
  pend_id :: int
  pend_event :: event

definition ErrRejected :: err where
  "ErrRejected = Sentinel ''fleetbus: the server rejected the event''"

definition start_event :: "string \<Rightarrow> string \<Rightarrow> string \<Rightarrow> string \<Rightarrow> string \<Rightarrow> bool \<Rightarrow> instant \<Rightarrow> event" where
  "start_event agent os node url uuid is_seeding now =
     \<lparr>ev_node = node, ev_uuid = uuid, ev_repository = url, ev_seeding = is_seeding,
      ev_phase = PhaseStarted, ev_started = now, ev_finished = None, ev_outcome = None,
      ev_message = [], ev_snapshot = [], ev_files = 0, ev_bytes = 0, ev_data_added = 0,
      ev_unreadable = 0, ev_verified = False, ev_agent = agent, ev_os = os\<rparr>"

definition event_for :: "string \<Rightarrow> string \<Rightarrow> run \<Rightarrow> event" where
  "event_for agent os r =
     \<lparr>ev_node = run_node r, ev_uuid = run_uuid r, ev_repository = run_repository r,
      ev_seeding = run_seeding r, ev_phase = PhaseFinished, ev_started = started_at r,
      ev_finished = Some (finished_at r), ev_outcome = Some (reported_outcome (run_outcome r)),
      ev_message = run_message r, ev_snapshot = run_snapshot r, ev_files = run_total_files r,
      ev_bytes = run_total_bytes r, ev_data_added = run_data_added r,
      ev_unreadable = int (length (unreadable_files r)), ev_verified = verified r,
      ev_agent = agent, ev_os = os\<rparr>"

section \<open>Reporting\<close>

definition report_event :: "parser \<Rightarrow> event \<Rightarrow> event net \<Rightarrow> err option \<times> event net" where
  "report_event parse e n =
     (case api_do parse ''POST'' ''/runs'' e n of
        (Inr _, n1) \<Rightarrow> (None, n1)
      | (Inl er, n1) \<Rightarrow>
          if err_is ErrBadRequest er
          then (Some (Wrap2 (''eumaeusfleet: reporting run '' @ ev_uuid e @ '': '') ErrRejected '': '' er []), n1)
          else (Some (Wrap (''eumaeusfleet: reporting run '' @ ev_uuid e @ '': '') er []), n1))"

fun fleet_flush ::
  "('e \<Rightarrow> 'n \<Rightarrow> err option \<times> 'n) \<Rightarrow> (int \<Rightarrow> 's \<Rightarrow> err option \<times> 's) \<Rightarrow> (int \<times> 'e) list \<Rightarrow> int \<Rightarrow>
    'n \<Rightarrow> 's \<Rightarrow> (int \<times> err option) \<times> 'n \<times> 's" where
  "fleet_flush report mark [] sent n s = ((sent, None), n, s)"
| "fleet_flush report mark ((i, e) # ps) sent n s =
     (case report e n of
        (Some er, n1) \<Rightarrow>
          if err_is ErrRejected er
          then (case mark i s of
              (Some me, s1) \<Rightarrow> ((sent, Some me), n1, s1)
            | (None, s1) \<Rightarrow> fleet_flush report mark ps sent n1 s1)
          else ((sent, Some er), n1, s)
      | (None, n1) \<Rightarrow>
          (case mark i s of
             (Some me, s1) \<Rightarrow> ((sent, Some me), n1, s1)
           | (None, s1) \<Rightarrow> fleet_flush report mark ps (sent + 1) n1 s1))"

definition error_of :: "'a res \<Rightarrow> err option" where
  "error_of r = (case r of Inl e \<Rightarrow> Some e | Inr _ \<Rightarrow> None)"

definition mark_run :: "instant \<Rightarrow> int \<Rightarrow> rundb \<Rightarrow> err option \<times> rundb" where
  "mark_run now i db = (case rundb_mark i now db of (r, db1) \<Rightarrow> (error_of r, db1))"

text \<open>The daemon's flush of run events; the reports of failures are flushed before it.\<close>

definition flush_runs ::
  "parser \<Rightarrow> string \<Rightarrow> string \<Rightarrow> instant \<Rightarrow> event net \<Rightarrow> rundb \<Rightarrow> (int \<times> err option) \<times> event net \<times> rundb" where
  "flush_runs parse agent os now n db =
     (case rundb_unreported 50 db of
        (Inl e, db1) \<Rightarrow> ((0, Some e), n, db1)
      | (Inr runs, db1) \<Rightarrow>
          fleet_flush (report_event parse) (mark_run now)
            (map (\<lambda>r. (run_id r, event_for agent os r)) runs) 0 n db1)"

section \<open>The loop keeps the laws of a drained queue\<close>

lemma report_event_made:
  assumes "report_event parse e n = (r, n1)"
  shows "map req_body (made n1) = map req_body (made n) @ [e]"
  using assms by (auto simp: report_event_def api_do_def split: sum.splits if_splits)

interpretation fd: logged_drain "fleet_flush (report_event parse) mark" "\<lambda>(i, e). report_event parse e"
    "\<lambda>(i, e). mark i" "err_is ErrRejected" "\<lambda>n. map req_body (made n)" snd
  for parse mark
  by unfold_locales (auto split: option.splits prod.splits simp: report_event_made)

text \<open>Marking the runs of a list: the rows with those ids are reported, the others as they were.\<close>

definition mark_ids :: "instant \<Rightarrow> int set \<Rightarrow> run list \<Rightarrow> run list" where
  "mark_ids now is rs =
     map (\<lambda>x. if run_id x \<in> is then x\<lparr>reported_at := Some (whole_second now)\<rparr> else x) rs"

lemma mark_run_ok:
  assumes "run_inv db" and "mark_run now i db = (None, db1)"
  shows "run_inv db1 \<and> history db1 = mark_ids now {i} (history db)"
  using assms rdb.mark_ok [of db i now _ db1]
  by (auto simp: mark_run_def error_of_def rundb_def mark_ids_def split: prod.splits sum.splits)

lemma mark_run_err:
  assumes "run_inv db" and "mark_run now i db = (Some e, db1)"
  shows "run_inv db1 \<and> history db1 = history db"
  using assms rdb.mark_err [of db i now _ db1]
  by (auto simp: mark_run_def error_of_def rundb_def split: prod.splits sum.splits)

lemma mark_ids_union: "mark_ids now A (mark_ids now B rs) = mark_ids now (A \<union> B) rs"
  by (auto simp: mark_ids_def)

lemma marks_history:
  assumes "run_inv db" and "all_clear (\<lambda>(i, e). mark_run now i) xs db"
  shows "run_inv (fd.clears (mark_run now) xs db) \<and>
    history (fd.clears (mark_run now) xs db) = mark_ids now (fst ` set xs) (history db)"
  using assms
proof (induction xs arbitrary: db)
  case Nil
  then show ?case by (simp add: mark_ids_def)
next
  case (Cons x xs)
  obtain i e where x: "x = (i, e)" by fastforce
  obtain db1 where m: "mark_run now i db = (None, db1)" and ok: "all_clear (\<lambda>(i, e). mark_run now i) xs db1"
    using Cons.prems(2) by (auto simp: x split: prod.splits)
  note m1 = mark_run_ok [OF Cons.prems(1) m]
  from Cons.IH [OF conjunct1 [OF m1] ok] m m1 show ?case
    by (simp add: x mark_ids_union)
qed

lemma marked_prefix:
  assumes "map f xs = ps @ qs @ rs"
  shows "\<exists>as bs cs. xs = as @ bs @ cs \<and> ps = map f as \<and> qs = map f bs \<and> rs = map f cs"
proof -
  obtain as vs where 1: "xs = as @ vs" "ps = map f as" "qs @ rs = map f vs"
    using assms by (auto simp: map_eq_append_conv)
  from 1(3) obtain bs cs where 2: "vs = bs @ cs" "qs = map f bs" "rs = map f cs"
    by (auto simp: append_eq_map_conv)
  from 1(1,2) 2 show ?thesis by (intro exI conjI) simp_all
qed

lemma last_mark:
  assumes "db' = db2 \<or> (\<exists>x e'. os = [x] \<and> (case x of (i, e) \<Rightarrow> mark_run now i) db2 = (Some e', db'))"
    and "run_inv db2"
  shows "run_inv db' \<and> history db' = history db2"
  using assms mark_run_err by (auto split: prod.splits)

section \<open>The properties of the flush\<close>


definition waiting_db :: rundb where
  "waiting_db =
     \<lparr>run_cols = added_run_columns,
      run_rows = [finish_row ((opened_run sample_request second)\<lparr>finished_at := 9 * second\<rparr>)
        (create_row 1 (opened_run sample_request second))],
      next_id = 2, run_faults = []\<rparr>"

lemma waiting_db_inv: "run_inv waiting_db"
proof -
  have "row_ok (finish_row ((opened_run sample_request second)\<lparr>finished_at := 9 * second\<rparr>)
        (create_row 1 (opened_run sample_request second)))"
    by (rule row_ok_finish) simp_all
  then show ?thesis by (simp add: run_inv_def waiting_db_def run_ready_def)
qed


section \<open>The number of files the dashboard is told\<close>

lemma add_error_cap: "length (sum_errors s) \<le> 100 \<Longrightarrow> length (sum_errors (add_error e s)) \<le> 100"
  by (simp add: add_error_def max_errors_kept_def)

lemma parse_line_cap:
  assumes "length (sum_errors (ps_summary st)) \<le> 100"
  shows "length (sum_errors (ps_summary (fst (parse_line p b l st)))) \<le> 100"
  using assms by (auto simp: parse_line_def Let_def add_error_cap split: option.splits)

lemma parse_lines_cap:
  "length (sum_errors (ps_summary st)) \<le> 100 \<Longrightarrow>
    length (sum_errors (ps_summary (fst (parse_lines p b ls st)))) \<le> 100"
proof (induction ls arbitrary: st)
  case Nil
  then show ?case by simp
next
  case (Cons l ls)
  have "length (sum_errors (ps_summary (fst (parse_line p b l st)))) \<le> 100"
    using parse_line_cap Cons.prems by blast
  with Cons.IH show ?case by (auto split: prod.splits option.splits)
qed

lemma parse_backup_cap: "length (sum_errors (fst (fst (parse_backup p b out)))) \<le> 100"
proof -
  obtain ls tl where sc: "scan_lines out = (ls, tl)" by fastforce
  have "length (sum_errors (ps_summary
      (fst (parse_lines p b ls \<lparr>ps_summary = zero_summary, ps_count = 0, ps_progress = []\<rparr>)))) \<le> 100"
    by (rule parse_lines_cap) (simp add: zero_summary_def)
  then show ?thesis
    by (auto simp: parse_backup_def sc Let_def split: prod.splits option.splits)
qed

lemma merge_errors_cap: "length (sum_errors s) \<le> 100 \<Longrightarrow> length (sum_errors (merge_errors s t)) \<le> 100"
proof -
  have "length (sum_errors a) \<le> 100 \<Longrightarrow> length (sum_errors (foldl (\<lambda>acc e. add_error e acc) a es)) \<le> 100"
    for a es by (induction es arbitrary: a) (simp_all add: add_error_cap)
  then show "length (sum_errors s) \<le> 100 \<Longrightarrow> ?thesis" by (simp add: merge_errors_def)
qed

lemma backup_once_cap: "length (sum_errors (fst (fst (fst (backup_once p g b repo opts w))))) \<le> 100"
proof -
  have "length (sum_errors s0) \<le> 100" if "parse_backup p True out = ((s0, seen), pe)" for s0 out seen pe
    using parse_backup_cap [of p True out] that by simp
  then show ?thesis
    by (auto simp: backup_once_def invoke_def Let_def zero_summary_def intro: merge_errors_cap
        split: prod.splits option.splits proc.splits ended.splits)
qed

lemma run_backup_cap:
  assumes "run_backup p g b repo opts w = (((s, seen), e), w')"
  shows "length (sum_errors s) \<le> 100"
  using assms backup_once_cap [of p g b repo opts w]
    backup_once_cap [of p g b repo "opts\<lparr>o_use_fs_snapshot := False\<rparr>" "snd (backup_once p g b repo opts w)"]
  by (auto simp: run_backup_def zero_summary_def split: prod.splits option.splits if_splits)

lemma verify_close_files:
  "verify_and_close cfg repo body path r m = (r', m') \<Longrightarrow> unreadable_files r' = unreadable_files r"
  by (auto simp: verify_and_close_def Let_def split: prod.splits option.splits if_splits)

lemma settle_files:
  assumes "settle cfg repo body path s e r m = (r', m')"
  shows "length (unreadable_files r') = length (unreadable_files r) + length (sum_errors s)"
proof -
  have "unreadable_files r' = unreadable_files (take_summary s r)"
    using assms by (auto simp: settle_def Let_def split: option.splits if_splits prod.splits sum.splits
        dest!: verify_close_files)
  then show ?thesis by (simp add: take_summary_def)
qed

text \<open>the dashboard is never told of more than a hundred unreadable files. The event of a run takes
  its number from the list on the row, which restic's reader caps, and not from the number of files
  that could not be read; so a machine with four thousand of them reports a hundred, while the message
  beside it, and the comments in \<open>backup.go\<close> on the difference, say four thousand.\<close>

theorem dashboard_told_of_a_hundred:
  assumes "execute cfg cancel now req r m = (r', m')" and "unreadable_files r = []"
  shows "ev_unreadable (event_for agent os r') \<le> 100"
proof -
  have "length (unreadable_files r') \<le> 100"
    using assms(1)
  proof (cases rule: execute_cases)
    case early
    with assms(2) show ?thesis by simp
  next
    case (stopped m1 m2 x reason)
    with assms(2) show ?thesis by simp
  next
    case (settled m1 m2 body path s seen e w)
    have "length (sum_errors s) \<le> 100" using run_backup_cap settled(3) by (auto simp: job_backup_def)
    with settle_files [OF settled(4)] assms(2) show ?thesis by simp
  qed
  then show ?thesis by (simp add: event_for_def)
qed
theorem dashboard_told_of_a_hundred_witness:
  "ev_unreadable (event_for ''1.0'' ''linux'' (fst (execute sample_settings None 0 sample_request
    (opened_run sample_request 5) sample_good))) \<le> 100"
proof -
  have "unreadable_files (opened_run sample_request 5) = []" by (simp add: opened_run_def)
  from dashboard_told_of_a_hundred [OF _ this] show ?thesis by (metis prod.collapse)
qed

end
