(* ===== verification/Diag.thy ===== *)
theory Diag
  imports Api Drain GoTime "HOL-Library.List_Lexorder" "HOL-Library.Char_ord" "HOL-Library.AList"
begin

text \<open>
  The reports a machine sends about itself failing: \<open>business/domain/diag/diagbus/diagbus.go\<close>, the
  directory they wait in, \<open>stores/diagfile/diagfile.go\<close>, and their client, \<open>sources/eumaeusdiag\<close>.
\<close>

section \<open>Reports\<close>

datatype diag_kind = KindInstallFailed | KindPanic | KindUpdateFailed | KindUpdateRolledBack
  | KindRepositoryDamaged

fun kind_text :: "diag_kind \<Rightarrow> string" where
  "kind_text KindInstallFailed = ''install-failed''"
| "kind_text KindPanic = ''panic''"
| "kind_text KindUpdateFailed = ''update-failed''"
| "kind_text KindUpdateRolledBack = ''update-rolled-back''"
| "kind_text KindRepositoryDamaged = ''repository-damaged''"

record report =
  d_kind :: diag_kind
  d_occurred :: instant
  d_agent :: string
  d_os :: string
  d_install :: string
  d_node :: string
  d_step :: string
  d_prior :: string
  d_rollback :: string
  d_restored :: string
  d_detail :: string

definition RollbackRecovered :: string where "RollbackRecovered = ''rolled-back''"
definition RollbackStuck :: string where "RollbackStuck = ''stuck''"

definition max_report_detail :: nat where
  "max_report_detail = 16384"

definition ErrReportRejected :: err where
  "ErrReportRejected = Sentinel ''diagbus: the server rejected the report''"

section \<open>Scrubbing\<close>

definition folded_prefix :: "string \<Rightarrow> string \<Rightarrow> bool" where
  "folded_prefix p s \<longleftrightarrow> map lower_char (take (length p) s) = map lower_char p"

definition is_ascii_letter :: "char \<Rightarrow> bool" where
  "is_ascii_letter c =
     (let n = (of_char c :: nat) in 65 \<le> n \<and> n \<le> 90 \<or> 97 \<le> n \<and> n \<le> 122)"

text \<open>The length of what stands before a person's name at the head of a text, 0 for nothing.\<close>

definition home_prefix :: "string \<Rightarrow> nat" where
  "home_prefix s =
     (if folded_prefix ''/home/'' s then 6
      else if folded_prefix ''/Users/'' s then 7
      else case s of
          c # rest \<Rightarrow>
            if is_ascii_letter c \<and> folded_prefix ('':'' @ [CHR 0x5C] @ ''Users'' @ [CHR 0x5C]) rest then 9
            else 0
        | [] \<Rightarrow> 0)"

definition name_char :: "char \<Rightarrow> bool" where
  "name_char c \<longleftrightarrow> c \<notin> {CHR ''/'', CHR 0x5C, CHR '' '', CHR 0x22, CHR 0x27}"

text \<open>The length of a match of \<open>homePath\<close> at the head of a text, 0 for none.\<close>

definition home_match :: "string \<Rightarrow> nat" where
  "home_match s =
     (let p = home_prefix s; q = length (takeWhile name_char (drop p s))
      in if p = 0 \<or> q = 0 then 0 else p + q)"

function scrub_all :: "string \<Rightarrow> string" where
  "scrub_all [] = []"
| "scrub_all (c # cs) =
     (let k = home_match (c # cs)
      in if k = 0 then c # scrub_all cs else CHR ''~'' # scrub_all (drop k (c # cs)))"
  by pat_completeness auto
termination
  by (relation "measure length") auto

definition scrub :: "string \<Rightarrow> string" where
  "scrub detail = trim_space (scrub_all detail)"

definition truncated :: string where
  "truncated = [CHR 0x0A] @ ''[truncated]''"

section \<open>The directory\<close>

datatype diag_entry = DiagReport report | DiagGarbage | DiagDirectory

record diagdir =
  dir_entries :: "(string \<times> diag_entry) list"
  dir_faults :: faults

definition keep_reports :: nat where
  "keep_reports = 20"

definition max_age :: duration where
  "max_age = 30 * 24 * hour"

definition dir_step :: "diagdir \<Rightarrow> bool \<times> diagdir" where
  "dir_step d = (fails_next (dir_faults d), d\<lparr>dir_faults := tl (dir_faults d)\<rparr>)"

definition is_report_name :: "string \<times> diag_entry \<Rightarrow> bool" where
  "is_report_name x \<longleftrightarrow>
     snd x \<noteq> DiagDirectory \<and> \<not> prefix ''.'' (fst x) \<and> suffix ''.json'' (fst x)"

definition report_names :: "diagdir \<Rightarrow> string list" where
  "report_names d = sort (map fst (filter is_report_name (dir_entries d)))"

definition dir_names :: "diagdir \<Rightarrow> string list res \<times> diagdir" where
  "dir_names d =
     (case dir_step d of (bad, d1) \<Rightarrow>
        if bad then (Inl (Wrap ''diagfile: reading the directory: '' (Sentinel ''readdir'') []), d1)
        else (Inr (report_names d1), d1))"

text \<open>\<open>os.Remove\<close>: whether it failed, for a file that is there or not.\<close>

definition dir_remove :: "string \<Rightarrow> diagdir \<Rightarrow> bool \<times> diagdir" where
  "dir_remove name d =
     (case dir_step d of (bad, d1) \<Rightarrow>
        if bad then (True, d1) else (False, d1\<lparr>dir_entries := AList.delete name (dir_entries d1)\<rparr>))"

fun remove_each :: "string list \<Rightarrow> diagdir \<Rightarrow> diagdir" where
  "remove_each [] d = d"
| "remove_each (x # xs) d = remove_each xs (snd (dir_remove x d))"

definition dir_trim :: "diagdir \<Rightarrow> diagdir" where
  "dir_trim d =
     (case dir_names d of
        (Inl _, d1) \<Rightarrow> d1
      | (Inr names, d1) \<Rightarrow>
          if length names \<le> keep_reports then d1
          else remove_each (take (length names - keep_reports) names) d1)"

text \<open>\<open>Put\<close>: the name is the time of the report and part of a fresh UUID.\<close>

definition stamp :: "instant \<Rightarrow> string" where
  "stamp t =
     (let s = t div second; d = s div 86400; q = s mod 86400; (y, m, dd) = civil_of_day d
      in pad_zero 4 (nat y) @ pad_zero 2 (nat m) @ pad_zero 2 (nat dd) @ ''T'' @
         pad_zero 2 (nat (q div 3600)) @ pad_zero 2 (nat (q div 60 mod 60)) @
         pad_zero 2 (nat (q mod 60)) @ ''.'' @ pad_zero 3 (nat (t mod second div 1000000)))"

definition report_name :: "report \<Rightarrow> string \<Rightarrow> string" where
  "report_name r uuid = stamp (d_occurred r) @ ''-'' @ take 8 uuid @ ''.json''"

definition dir_put :: "report \<Rightarrow> string \<Rightarrow> diagdir \<Rightarrow> unit res \<times> diagdir" where
  "dir_put r uuid d =
     (let name = report_name r uuid; tmp = ''.'' @ name in
      case dir_step d of (bad, d1) \<Rightarrow>
        if bad then (Inl (Wrap ''diagfile: writing a report: '' (Sentinel ''write'') []), d1)
        else let d2 = d1\<lparr>dir_entries := AList.update tmp (DiagReport r) (dir_entries d1)\<rparr> in
          (case dir_step d2 of (bad2, d3) \<Rightarrow>
            if bad2 then (Inl (Wrap ''diagfile: storing a report: '' (Sentinel ''rename'') []), d3)
            else (Inr (), dir_trim (d3\<lparr>dir_entries :=
              AList.update name (DiagReport r) (AList.delete tmp (dir_entries d3))\<rparr>))))"

fun list_named :: "instant \<Rightarrow> string list \<Rightarrow> diagdir \<Rightarrow> (string \<times> report) list res \<times> diagdir" where
  "list_named now [] d = (Inr [], d)"
| "list_named now (name # names) d =
     (case dir_step d of (bad, d1) \<Rightarrow>
        (case map_of (dir_entries d1) name of
           None \<Rightarrow> list_named now names d1
         | Some entry \<Rightarrow>
             if bad then (Inl (Wrap (''diagfile: reading '' @ name @ '': '') (Sentinel ''read'') []), d1)
             else (case entry of
                 DiagReport r \<Rightarrow>
                   if \<not> is_zero (d_occurred r) \<and> max_age < time_sub now (d_occurred r)
                   then list_named now names (snd (dir_remove name d1))
                   else (case list_named now names d1 of
                       (Inl e, d2) \<Rightarrow> (Inl e, d2)
                     | (Inr qs, d2) \<Rightarrow> (Inr ((name, r) # qs), d2))
               | DiagGarbage \<Rightarrow> list_named now names (snd (dir_remove name d1))
               | DiagDirectory \<Rightarrow>
                   (Inl (Wrap (''diagfile: reading '' @ name @ '': '') (Sentinel ''read'') []), d1))))"

definition dir_list :: "instant \<Rightarrow> diagdir \<Rightarrow> (string \<times> report) list res \<times> diagdir" where
  "dir_list now d =
     (case dir_names d of
        (Inl e, d1) \<Rightarrow> (Inl e, d1)
      | (Inr names, d1) \<Rightarrow> list_named now names d1)"

text \<open>\<open>filepath.Base\<close> leaves a name alone that has no separator and is not empty.\<close>

definition is_base :: "string \<Rightarrow> string \<Rightarrow> bool" where
  "is_base goos i \<longleftrightarrow>
     i \<noteq> [] \<and> (CHR ''/'' \<notin> set i \<or> i = ''/'') \<and>
     (goos = ''windows'' \<longrightarrow> CHR 0x5C \<notin> set i \<and> CHR '':'' \<notin> set i)"

definition dir_discard :: "string \<Rightarrow> string \<Rightarrow> diagdir \<Rightarrow> err option \<times> diagdir" where
  "dir_discard goos i d =
     (if \<not> is_base goos i
      then (Some (Sentinel (''diagfile: '' @ quote i @ '' is not a report in this directory'')), d)
      else case dir_remove i d of
          (True, d1) \<Rightarrow> (Some (Wrap (''diagfile: removing '' @ i @ '': '') (Sentinel ''remove'') []), d1)
        | (False, d1) \<Rightarrow> (None, d1))"

section \<open>Recording and sending\<close>

definition prepare_report :: "string \<Rightarrow> string \<Rightarrow> instant \<Rightarrow> report \<Rightarrow> report" where
  "prepare_report agent os now r =
     (let detail = scrub (d_detail r) in
      r\<lparr>d_agent := agent, d_os := os,
        d_occurred := (if is_zero (d_occurred r) then now else d_occurred r),
        d_detail := (if max_report_detail < length detail
                     then take max_report_detail detail @ truncated else detail)\<rparr>)"

definition record_report ::
  "string \<Rightarrow> string \<Rightarrow> instant \<Rightarrow> string \<Rightarrow> report \<Rightarrow> diagdir option \<Rightarrow> unit res \<times> diagdir option" where
  "record_report agent os now uuid r queue =
     (case queue of
        None \<Rightarrow> (Inr (), None)
      | Some d \<Rightarrow> (case dir_put (prepare_report agent os now r) uuid d of (res, d1) \<Rightarrow> (res, Some d1)))"

definition send_report :: "parser \<Rightarrow> report \<Rightarrow> report net \<Rightarrow> err option \<times> report net" where
  "send_report parse r n =
     (case api_do parse ''POST'' ''/diagnostics'' r n of
        (Inr _, n1) \<Rightarrow> (None, n1)
      | (Inl er, n1) \<Rightarrow>
          if err_is ErrBadRequest er
          then (Some (Wrap2 ''eumaeusdiag: '' ErrReportRejected '': '' er []), n1)
          else (Some (Wrap (''eumaeusdiag: sending a '' @ kind_text (d_kind r) @ '' report: '') er []), n1))"

fun diag_drain ::
  "('r \<Rightarrow> 'n \<Rightarrow> err option \<times> 'n) \<Rightarrow> (string \<Rightarrow> 's \<Rightarrow> err option \<times> 's) \<Rightarrow> (string \<times> 'r) list \<Rightarrow> int \<Rightarrow>
    'n \<Rightarrow> 's \<Rightarrow> (int \<times> err option) \<times> 'n \<times> 's" where
  "diag_drain send discard [] sent n s = ((sent, None), n, s)"
| "diag_drain send discard ((i, r) # qs) sent n s =
     (let (er, n1) = send r n;
          landed = (er = None);
          stop = (case er of None \<Rightarrow> False | Some e \<Rightarrow> \<not> err_is ErrReportRejected e)
      in if stop then ((sent, er), n1, s)
         else case discard i s of
             (Some re, s1) \<Rightarrow> ((sent, Some re), n1, s1)
           | (None, s1) \<Rightarrow> diag_drain send discard qs (if landed then sent + 1 else sent) n1 s1)"

definition flush_reports ::
  "parser \<Rightarrow> string \<Rightarrow> instant \<Rightarrow> report net option \<Rightarrow> diagdir option \<Rightarrow>
    (int \<times> err option) \<times> report net option \<times> diagdir option" where
  "flush_reports parse goos now sink queue =
     (case (sink, queue) of
        (Some n, Some d) \<Rightarrow>
          (case dir_list now d of
             (Inl e, d1) \<Rightarrow> ((0, Some e), Some n, Some d1)
           | (Inr waiting, d1) \<Rightarrow>
               (case diag_drain (send_report parse) (dir_discard goos) waiting 0 n d1 of
                  (out, n2, d2) \<Rightarrow> (out, Some n2, Some d2)))
      | _ \<Rightarrow> ((0, None), sink, queue))"

definition waiting_reports :: "instant \<Rightarrow> diagdir option \<Rightarrow> int \<times> diagdir option" where
  "waiting_reports now queue =
     (case queue of
        None \<Rightarrow> (0, None)
      | Some d \<Rightarrow> (case dir_list now d of
            (Inl _, d1) \<Rightarrow> (0, Some d1)
          | (Inr qs, d1) \<Rightarrow> (int (length qs), Some d1)))"

lemma send_report_made:
  assumes "send_report parse r n = (e, n1)"
  shows "map req_body (made n1) = map req_body (made n) @ [r]"
  using assms by (auto simp: send_report_def api_do_def split: sum.splits if_splits)

interpretation dd: logged_drain "diag_drain (send_report parse) discard" "\<lambda>(i, r). send_report parse r"
    "\<lambda>(i, r). discard i" "err_is ErrReportRejected" "\<lambda>n. map req_body (made n)" snd
  for parse discard
  by unfold_locales (auto split: option.splits prod.splits simp: send_report_made)

section \<open>What scrubbing leaves\<close>

lemma home_prefix_cases: "home_prefix s \<in> {0, 6, 7, 9}"
  by (auto simp: home_prefix_def split: list.splits)

lemma map_take_eq_length:
  "map f (take (length p) s) = map f p \<Longrightarrow> length p \<le> length s"
  by (metis length_map length_take min.cobounded1 min_def)

lemma home_prefix_length: "home_prefix s \<le> length s"
  using map_take_eq_length [of lower_char "''/home/''" s] map_take_eq_length [of lower_char "''/Users/''" s]
    map_take_eq_length [of lower_char "'':'' @ [CHR 0x5C] @ ''Users'' @ [CHR 0x5C]" "tl s"]
  by (auto simp: home_prefix_def folded_prefix_def split: list.splits if_splits)

text \<open>What stands before a name has no tilde in it, and depends on those characters alone.\<close>

lemma lower_tilde: "lower_char c = CHR ''~'' \<Longrightarrow> c = CHR ''~''"
proof -
  assume l: "lower_char c = CHR ''~''"
  show "c = CHR ''~''"
  proof (cases "65 \<le> (of_char c :: nat) \<and> (of_char c :: nat) \<le> 90")
    case True
    then have "(of_char (char_of (of_char c + 32 :: nat) :: char) :: nat) = of_char (CHR ''~'')"
      using l by (simp add: lower_char_def Let_def)
    then have "(of_char c + 32 :: nat) mod 256 = 126" by simp
    with True show ?thesis by simp
  next
    case False
    with l show ?thesis by (auto simp: lower_char_def Let_def)
  qed
qed

lemma folded_no_tilde:
  assumes "folded_prefix p s" and "CHR ''~'' \<notin> set (map lower_char p)"
  shows "CHR ''~'' \<notin> set (take (length p) s)"
proof
  assume "CHR ''~'' \<in> set (take (length p) s)"
  then have "lower_char (CHR ''~'') \<in> set (map lower_char (take (length p) s))" by (simp only: set_map imageI)
  moreover have "lower_char (CHR ''~'') = CHR ''~''" by code_simp
  moreover have "lower_char ` set (take (length p) s) = set (map lower_char p)"
    using arg_cong [OF assms(1) [unfolded folded_prefix_def], of set] by simp
  ultimately show False using assms(2) by simp
qed

lemma folded_prefix_take:
  assumes "take n u = take n s" and "length p \<le> n"
  shows "folded_prefix p u = folded_prefix p s"
proof -
  have "take (length p) u = take (length p) s"
    using arg_cong [OF assms(1), of "take (length p)"] assms(2) by (simp add: min_def)
  then show ?thesis by (simp add: folded_prefix_def)
qed

lemma prefixes_no_tilde:
  "CHR ''~'' \<notin> set (map lower_char ''/home/'')" "CHR ''~'' \<notin> set (map lower_char ''/Users/'')"
  "CHR ''~'' \<notin> set (map lower_char ('':'' @ [CHR 0x5C] @ ''Users'' @ [CHR 0x5C]))"
  by code_simp+

lemma home_prefix_take:
  assumes p: "home_prefix s = p" and "p \<noteq> 0"
  shows "CHR ''~'' \<notin> set (take p s) \<and> (\<forall>u. take p u = take p s \<longrightarrow> home_prefix u = p)"
proof (cases "folded_prefix ''/home/'' s")
  case True
  have "p = 6" using True p by (simp add: home_prefix_def)
  have "CHR ''~'' \<notin> set (take 6 s)"
    using folded_no_tilde [OF True prefixes_no_tilde(1)] by (simp add: numeral_eq_Suc)
  then show ?thesis
    using \<open>p = 6\<close> folded_prefix_take [of 6 _ s "''/home/''"] True
    by (auto simp: home_prefix_def)
next
  case nohome: False
  show ?thesis
  proof (cases "folded_prefix ''/Users/'' s")
    case True
    have "p = 7" using True p nohome by (simp add: home_prefix_def)
    have "CHR ''~'' \<notin> set (take 7 s)"
      using folded_no_tilde [OF True prefixes_no_tilde(2)] by (simp add: numeral_eq_Suc)
    then show ?thesis
      using \<open>p = 7\<close> folded_prefix_take [of 7 _ s "''/Users/''"]
        folded_prefix_take [of 7 _ s "''/home/''"] True nohome
      by (auto simp: home_prefix_def)
  next
    case nousers: False
    let ?w = "'':'' @ [CHR 0x5C] @ ''Users'' @ [CHR 0x5C]"
    obtain c rest where s: "s = c # rest" "is_ascii_letter c" "folded_prefix ?w rest" and p9: "p = 9"
      using p nohome nousers assms(2) by (auto simp: home_prefix_def split: list.splits if_splits)
    have "c \<noteq> CHR ''~''" using s(2) by (auto simp: is_ascii_letter_def)
    then have "CHR ''~'' \<notin> set (take 9 s)"
      using folded_no_tilde [OF s(3) prefixes_no_tilde(3)] by (simp add: s(1) numeral_eq_Suc)
    moreover have "home_prefix u = 9" if u: "take 9 u = take 9 s" for u
    proof -
      obtain rest' where u': "u = c # rest'" "take 8 rest' = take 8 rest"
        using u s(1) by (cases u) auto
      have "\<not> folded_prefix ''/home/'' u" "\<not> folded_prefix ''/Users/'' u"
        using folded_prefix_take [OF u] nohome nousers by simp_all
      moreover have "folded_prefix ?w rest'" using folded_prefix_take [OF u'(2)] s(3) by simp
      ultimately show ?thesis using s(2) by (simp add: home_prefix_def u'(1))
    qed
    ultimately show ?thesis using p9 by blast
  qed
qed

lemma scrub_prefix:
  assumes "CHR ''~'' \<notin> set (take p (scrub_all s))" and "p \<le> length (scrub_all s)"
  shows "take p s = take p (scrub_all s) \<and> p \<le> length s \<and> drop p (scrub_all s) = scrub_all (drop p s)"
  using assms
proof (induction p arbitrary: s)
  case 0
  then show ?case by simp
next
  case (Suc p)
  obtain c cs where s: "s = c # cs" using Suc.prems(2) by (cases s) auto
  have k: "home_match (c # cs) = 0"
    using Suc.prems(1) by (auto simp: s Let_def split: if_splits)
  then have r: "scrub_all s = c # scrub_all cs" by (simp add: s)
  from Suc.IH [of cs] Suc.prems show ?case by (simp add: s k)
qed

lemma home_match_iff:
  "home_match s \<noteq> 0 \<longleftrightarrow>
    home_prefix s \<noteq> 0 \<and> (\<exists>x xs. drop (home_prefix s) s = x # xs \<and> name_char x)"
  by (cases "drop (home_prefix s) s") (auto simp: home_match_def Let_def)

lemma scrub_head:
  assumes "home_match (scrub_all s) \<noteq> 0"
  shows "hd (drop (home_prefix (scrub_all s)) (scrub_all s)) = CHR ''~''"
proof -
  let ?t = "scrub_all s"
  let ?p = "home_prefix ?t"
  obtain x xs where p: "?p \<noteq> 0" and x: "drop ?p ?t = x # xs" "name_char x"
    using assms home_match_iff by blast
  note pre = scrub_prefix [OF conjunct1 [OF home_prefix_take [OF refl p]] home_prefix_length]
  have "home_prefix s = ?p" using home_prefix_take [OF refl p] pre by metis
  moreover obtain c cs where s: "s = c # cs" using p pre by (cases s) auto
  moreover have "home_match s = 0"
  proof (rule ccontr)
    assume "home_match s \<noteq> 0"
    then have "hd ?t = CHR ''~''" by (simp add: s Let_def)
    moreover have "hd ?t \<in> set (take ?p ?t)" using x(1) p by (cases ?t) (auto simp: take_Cons' )
    ultimately show False using home_prefix_take [OF refl p] by metis
  qed
  ultimately have none: "\<And>y ys. drop ?p s = y # ys \<Longrightarrow> \<not> name_char y"
    using p home_match_iff [of s] by auto
  have d: "scrub_all (drop ?p s) = x # xs" using pre x(1) by simp
  then obtain y ys where y: "drop ?p s = y # ys" by (cases "drop ?p s") auto
  with d none x(2) have "home_match (y # ys) \<noteq> 0" by (auto simp: Let_def split: if_splits)
  with d y show ?thesis using x(1) by (auto simp: Let_def)
qed

lemma scrub_all_suffix: "\<exists>r. drop k (scrub_all s) = scrub_all r"
proof (induction s arbitrary: k rule: scrub_all.induct)
  case 1
  then show ?case by (metis drop_Nil scrub_all.simps(1))
next
  case (2 c cs)
  show ?case
  proof (cases k)
    case 0
    then show ?thesis by (metis drop_0)
  next
    case (Suc j)
    then show ?thesis
      using 2(1) [OF refl, of j] 2(2) [OF refl, of j] by (auto simp: Let_def)
  qed
qed

lemma home_match_append:
  assumes "home_match u \<noteq> 0"
  shows "home_match (u @ w) \<noteq> 0 \<and> home_prefix (u @ w) = home_prefix u \<and>
    hd (drop (home_prefix u) (u @ w)) = hd (drop (home_prefix u) u)"
proof -
  obtain x xs where x: "home_prefix u \<noteq> 0" "drop (home_prefix u) u = x # xs" "name_char x"
    using assms home_match_iff by blast
  have "take (home_prefix u) (u @ w) = take (home_prefix u) u"
    using home_prefix_length [of u] by simp
  then have "home_prefix (u @ w) = home_prefix u" using home_prefix_take [OF refl x(1)] by blast
  then show ?thesis using x home_prefix_length [of u] home_match_iff [of "u @ w"] by simp
qed

lemma trim_space_part: "\<exists>a b. s = a @ trim_space s @ b"
proof -
  have d: "\<exists>a. s = a @ drop_spaces seqs s" for seqs s
  proof (induction seqs s rule: drop_spaces.induct)
    case (1 seqs s)
    show ?case
    proof (cases "leading_space seqs s = 0 \<or> s = []")
      case True
      then show ?thesis by (subst drop_spaces.simps) (auto simp: Let_def)
    next
      case False
      with 1 obtain a where "drop (leading_space seqs s) s = a @ drop_spaces seqs (drop (leading_space seqs s) s)"
        by blast
      then have "s = (take (leading_space seqs s) s @ a) @ drop_spaces seqs (drop (leading_space seqs s) s)"
        by (metis append.assoc append_take_drop_id)
      moreover have "drop_spaces seqs s = drop_spaces seqs (drop (leading_space seqs s) s)"
        using False by (subst drop_spaces.simps) (simp add: Let_def)
      ultimately show ?thesis by metis
    qed
  qed
  obtain a where a: "s = a @ drop_spaces space_seqs s" using d by blast
  obtain b where "rev (drop_spaces space_seqs s) = b @ drop_spaces (map rev space_seqs) (rev (drop_spaces space_seqs s))"
    using d by blast
  then have "drop_spaces space_seqs s = trim_space s @ rev b"
    by (metis rev_append rev_rev_ident trim_space_def)
  then show ?thesis using a by metis
qed



text \<open>A name of two words is not dropped whole: the second is left beside the tilde.\<close>

theorem scrub_leaves_surname:
  "scrub (''open C:'' @ [CHR 0x5C] @ ''Users'' @ [CHR 0x5C] @ ''Ann Lee'' @ [CHR 0x5C] @ ''x: locked'') =
   ''open ~ Lee'' @ [CHR 0x5C] @ ''x: locked''"
  by code_simp

section \<open>The queue\<close>

lemma report_name_visible: "\<not> prefix ''.'' (report_name r uuid) \<and> suffix ''.json'' (report_name r uuid)"
proof -
  obtain yy m dd where "civil_of_day (d_occurred r div second div 86400) = (yy, m, dd)"
    by (metis prod_cases3)
  then have "prefix (pad_zero 4 (nat yy)) (report_name r uuid)"
    by (simp add: report_name_def stamp_def Let_def)
  then obtain y where y: "prefix (pad_zero 4 y) (report_name r uuid)" by blast
  have dig: "\<forall>c\<in>set (pad_zero 4 y). \<exists>d<10. c = digit_char d"
  proof
    fix c assume "c \<in> set (pad_zero 4 y)"
    then have "c = CHR ''0'' \<or> c \<in> set (nat_text y)" by (auto simp: pad_zero_def Let_def)
    moreover have "CHR ''0'' = digit_char 0" by code_simp
    ultimately show "\<exists>d<10. c = digit_char d" using nat_text_digits by (metis zero_less_numeral)
  qed
  have "pad_zero 4 y \<noteq> []" by (auto simp: pad_zero_def Let_def nat_text.simps [of y])
  then obtain c cs where c: "pad_zero 4 y = c # cs" by (cases "pad_zero 4 y") auto
  then have "c \<noteq> CHR ''.''" using dig digit_char_not_sign(4) by auto
  then have "\<not> prefix ''.'' (report_name r uuid)" using y c by (auto simp: prefix_def)
  moreover have "suffix ''.json'' (report_name r uuid)"
    by (auto simp: report_name_def suffix_def)
  ultimately show ?thesis by blast
qed

lemma update_nonmember: "k \<notin> fst ` set al \<Longrightarrow> AList.update k v al = al @ [(k, v)]"
  by (induction al) auto

definition quiet :: "diagdir \<Rightarrow> bool" where
  "quiet d \<longleftrightarrow> dir_faults d = []"

lemma dir_step_quiet: "quiet d \<Longrightarrow> dir_step d = (False, d)"
  by (simp add: dir_step_def quiet_def)

lemma remove_each_quiet:
  "quiet d \<Longrightarrow> quiet (remove_each xs d) \<and>
    dir_entries (remove_each xs d) = filter (\<lambda>x. fst x \<notin> set xs) (dir_entries d)"
proof (induction xs arbitrary: d)
  case Nil
  then show ?case by simp
next
  case (Cons x xs)
  let ?d = "d\<lparr>dir_entries := AList.delete x (dir_entries d)\<rparr>"
  have "quiet ?d" using Cons.prems by (simp add: quiet_def)
  moreover have "dir_remove x d = (False, ?d)" using Cons.prems by (simp add: dir_remove_def dir_step_quiet)
  ultimately show ?case using Cons.IH [of ?d]
    by (auto simp: AList.delete_eq intro!: filter_cong)
qed

lemma report_names_filter:
  "dir_entries d' = filter (\<lambda>x. P (fst x)) (dir_entries d) \<Longrightarrow>
    report_names d' = filter P (report_names d)"
  by (simp add: report_names_def filter_sort filter_map comp_def conj_commute)

lemma sorted_drop_filter:
  fixes N :: "string list"
  assumes "distinct N"
  shows "filter (\<lambda>x. x \<notin> set (take k N)) N = drop k N"
proof -
  have "filter (\<lambda>x. x \<notin> set (take k N)) (take k N) = []" by (simp add: filter_empty_conv)
  moreover have "filter (\<lambda>x. x \<notin> set (take k N)) (drop k N) = drop k N"
    using assms set_take_disj_set_drop_if_distinct [of N k k] by (auto simp: filter_id_conv)
  ultimately show ?thesis by (metis append_Nil append_take_drop_id filter_append)
qed

lemma dir_trim_quiet:
  assumes "quiet d" and "distinct (map fst (dir_entries d))"
  shows "report_names (dir_trim d) = drop (length (report_names d) - keep_reports) (report_names d)"
proof -
  let ?N = "report_names d"
  have dn: "dir_names d = (Inr ?N, d)" using assms(1) by (simp add: dir_names_def dir_step_quiet)
  have "distinct (map fst (filter is_report_name (dir_entries d)))"
    using assms(2) by (rule distinct_map_filter)
  then have dist: "distinct ?N" by (simp add: report_names_def)
  show ?thesis
  proof (cases "length ?N \<le> keep_reports")
    case True
    then show ?thesis by (simp add: dir_trim_def dn)
  next
    case False
    then have "dir_trim d = remove_each (take (length ?N - keep_reports) ?N) d"
      by (simp add: dir_trim_def dn)
    moreover have "report_names (remove_each xs d) = filter (\<lambda>x. x \<notin> set xs) ?N" for xs
      by (rule report_names_filter) (rule conjunct2 [OF remove_each_quiet [OF assms(1)]])
    ultimately show ?thesis by (simp only: sorted_drop_filter [OF dist])
  qed
qed

text \<open>the directory holds the newest twenty reports. A report that is put where nothing fails is
  stored under a name no file had, and of the names there were and the new one, in order, the last
  twenty are left, whatever stray or half-written files lie beside them.\<close>

theorem queue_keeps_newest:
  assumes "dir_faults d = []" and "distinct (map fst (dir_entries d))"
    and "report_name r uuid \<notin> fst ` set (dir_entries d)" and "dir_put r uuid d = (res, d')"
  shows "is_ok res \<and> length (report_names d') \<le> 20 \<and>
    (let N = insort (report_name r uuid) (report_names d)
     in report_names d' = drop (length N - 20) N)"
proof -
  let ?name = "report_name r uuid"
  let ?tmp = "''.'' @ ?name"
  define e where "e = AList.delete ?tmp (AList.update ?tmp (DiagReport r) (dir_entries d))"
  define d3 where "d3 = d\<lparr>dir_entries := AList.update ?name (DiagReport r) e\<rparr>"
  have q: "quiet d" using assms(1) by (simp add: quiet_def)
  have "quiet (d\<lparr>dir_entries := x\<rparr>)" for x using assms(1) by (simp add: quiet_def)
  then have out: "res = Inr ()" "d' = dir_trim d3" and q3: "quiet d3"
    using assms(4) q by (auto simp: dir_put_def dir_step_quiet Let_def e_def d3_def)
  have e: "e = filter (\<lambda>x. fst x \<noteq> ?tmp) (dir_entries d)"
  proof -
    have "e = AList.delete ?tmp (dir_entries d)" unfolding e_def by (rule AList.delete_update_same)
    then show ?thesis by (auto simp: AList.delete_eq intro: filter_cong)
  qed
  have dist: "distinct (map fst e)" using assms(2) by (simp add: e distinct_map_filter)
  have fresh: "?name \<notin> fst ` set e" using assms(3) by (auto simp: e)
  have d3: "dir_entries d3 = e @ [(?name, DiagReport r)]"
    using fresh update_nonmember [of ?name e] by (simp add: d3_def)
  have vis: "is_report_name (?name, DiagReport r)"
    using report_name_visible [of r uuid] by (simp add: is_report_name_def)
  have "filter is_report_name e = filter is_report_name (dir_entries d)"
    by (auto simp: e is_report_name_def intro!: filter_cong)
  then have "report_names d3 = sort (map fst (filter is_report_name (dir_entries d)) @ [?name])"
    using vis by (simp add: report_names_def d3)
  also have "\<dots> = insort ?name (report_names d)"
    by (rule properties_for_sort) (simp_all add: report_names_def sorted_insort)
  finally have "report_names d3 = insort ?name (report_names d)" .
  with dir_trim_quiet [OF q3] dist fresh d3 out show ?thesis
    by (simp add: keep_reports_def Let_def)
qed

definition sample_report :: report where
  "sample_report =
     \<lparr>d_kind = KindPanic, d_occurred = 5 * second, d_agent = ''1.0'', d_os = ''linux'', d_install = [],
      d_node = [], d_step = [], d_prior = [], d_rollback = [], d_restored = [], d_detail = ''boom''\<rparr>"

definition sample_dir :: diagdir where
  "sample_dir = \<lparr>dir_entries = [(''notes.txt'', DiagGarbage)], dir_faults = []\<rparr>"

theorem queue_keeps_newest_witness:
  "report_names (snd (dir_put sample_report ''0123456789'' sample_dir)) =
    [report_name sample_report ''0123456789'']"
proof -
  let ?out = "dir_put sample_report ''0123456789'' sample_dir"
  have h: "dir_faults sample_dir = []" "distinct (map fst (dir_entries sample_dir))"
    "report_name sample_report ''0123456789'' \<notin> fst ` set (dir_entries sample_dir)"
    "report_names sample_dir = []" by code_simp+
  from queue_keeps_newest [OF h(1-3), of "fst ?out" "snd ?out"] h(4) show ?thesis
    by (simp add: Let_def)
qed

section \<open>The flush of the queue\<close>

lemma discard_ok:
  assumes "dir_discard goos i d = (None, d1)"
  shows "dir_entries d1 = filter (\<lambda>x. fst x \<noteq> i) (dir_entries d)"
  using assms by (auto simp: dir_discard_def dir_remove_def dir_step_def AList.delete_eq
      split: if_splits intro!: filter_cong)

lemma discard_err:
  assumes "dir_discard goos i d = (Some e, d1)"
  shows "dir_entries d1 = dir_entries d"
  using assms by (auto simp: dir_discard_def dir_remove_def dir_step_def split: if_splits)

lemma discards_entries:
  assumes "all_clear (\<lambda>(i, r). dir_discard goos i) xs d"
  shows "dir_entries (dd.clears (dir_discard goos) xs d) =
    filter (\<lambda>x. fst x \<notin> fst ` set xs) (dir_entries d)"
  using assms
proof (induction xs arbitrary: d)
  case Nil
  then show ?case by simp
next
  case (Cons x xs)
  obtain i r where x: "x = (i, r)" by fastforce
  obtain d1 where m: "dir_discard goos i d = (None, d1)" and
      ok: "all_clear (\<lambda>(i, r). dir_discard goos i) xs d1"
    using Cons.prems by (auto simp: x split: prod.splits)
  have "dir_entries d1 = filter (\<lambda>x. fst x \<noteq> i) (dir_entries d)" by (rule discard_ok [OF m])
  then show ?case using Cons.IH [OF ok] m by (simp add: x conj_commute)
qed

lemma last_discard:
  assumes "d' = d2 \<or> (\<exists>x e'. ys = [x] \<and> (case x of (i, r) \<Rightarrow> dir_discard goos i) d2 = (Some e', d'))"
  shows "dir_entries d' = dir_entries d2"
  using assms discard_err by (auto split: prod.splits)

text \<open>a report leaves the directory only after it was posted, and the others stay. Of the reports
  that were read, in order, a flush posts the ones it dealt with and at most one more; exactly the files
  of those it dealt with are gone, and a flush without an error has dealt with all of them.\<close>

theorem reports_leave_once_posted:
  assumes "flush_reports parse goos now (Some n) (Some d) = ((sent, e), Some n', Some d')"
    and "dir_list now d = (Inr waiting, d1)"
  shows "\<exists>ds offered rest. waiting = ds @ offered @ rest \<and> length offered \<le> 1 \<and>
    map req_body (made n') = map req_body (made n) @ map snd (ds @ offered) \<and>
    dir_entries d' = filter (\<lambda>x. fst x \<notin> fst ` set ds) (dir_entries d1) \<and>
    (e = None \<longrightarrow> offered @ rest = []) \<and> 0 \<le> sent \<and> sent \<le> int (length ds)"
proof -
  have "diag_drain (send_report parse) (dir_discard goos) waiting 0 n d1 = ((sent, e), n', d')"
    using assms by (simp add: flush_reports_def split: prod.splits)
  from dd.logged_prefix [OF this]
  obtain ds offered rest where cut: "waiting = ds @ offered @ rest" "length offered \<le> 1"
      and log: "map req_body (made n') = map req_body (made n) @ map snd (ds @ offered)"
      and ok: "all_clear (\<lambda>(i, r). dir_discard goos i) ds d1"
      and stop: "e = None \<longrightarrow> offered @ rest = []" and sent: "0 \<le> sent" "sent \<le> 0 + int (length ds)"
      and d': "d' = dd.clears (dir_discard goos) ds d1 \<or>
        (\<exists>x e'. offered = [x] \<and>
          (case x of (i, r) \<Rightarrow> dir_discard goos i) (dd.clears (dir_discard goos) ds d1) = (Some e', d'))"
    by (elim exE conjE) (rule that)
  have "dir_entries d' = filter (\<lambda>x. fst x \<notin> fst ` set ds) (dir_entries d1)"
    using last_discard [OF d'] discards_entries [OF ok] by (rule trans)
  moreover have "sent \<le> int (length ds)" using sent(2) by simp
  ultimately show ?thesis
    using cut log stop sent(1) by (intro exI [of _ ds] exI [of _ offered] exI [of _ rest] conjI)
qed

theorem reports_leave_once_posted_witness:
  "\<exists>n' d'. flush_reports (\<lambda>_. None) ''linux'' (6 * second) (Some \<lparr>replies = [], made = []\<rparr>)
      (Some \<lparr>dir_entries = [(''a.json'', DiagReport sample_report)], dir_faults = []\<rparr>) =
    ((1, None), Some n', Some d') \<and> map req_body (made n') = [sample_report] \<and> dir_entries d' = []"
proof -
  let ?n = "\<lparr>replies = [], made = []\<rparr>"
  let ?d = "\<lparr>dir_entries = [(''a.json'', DiagReport sample_report)], dir_faults = []\<rparr>"
  let ?x = "flush_reports (\<lambda>_. None) ''linux'' (6 * second) (Some ?n) (Some ?d)"
  have r: "fst ?x = (1, None)" "fst (snd ?x) \<noteq> None" "snd (snd ?x) \<noteq> None"
    "fst (dir_list (6 * second) ?d) = Inr [(''a.json'', sample_report)]"
    "dir_entries (snd (dir_list (6 * second) ?d)) = [(''a.json'', DiagReport sample_report)]"
    by code_simp+
  obtain n' d' where x: "?x = ((1, None), Some n', Some d')" using r(1-3) by (cases ?x) auto
  have l: "dir_list (6 * second) ?d = (Inr [(''a.json'', sample_report)], snd (dir_list (6 * second) ?d))"
    using r(4) by (metis prod.collapse)
  from reports_leave_once_posted [OF x l]
  have "map req_body (made n') = [sample_report] \<and> dir_entries d' = []"
    using r(5) by auto
  with x show ?thesis by (intro exI conjI) (assumption | simp)+
qed

end
