(* ===== verification/Disk.thy ===== *)
theory Disk
  imports Errors
begin

text \<open>
  A directory of files that operations can fail on. A file is a path with its content, of a type the
  component chooses; whether an operation fails is read from the list of faults. A write that fails
  fails before it opened the file, or after it emptied it: the second leaves what the caller names as
  the torn content.
\<close>

record 'b disk =
  files :: "string \<Rightarrow> 'b option"
  disk_faults :: faults

definition ErrNotExist :: err where
  "ErrNotExist = Sentinel ''file does not exist''"

definition ErrDisk :: err where
  "ErrDisk = Sentinel ''input/output error''"

definition disk_step :: "'b disk \<Rightarrow> bool \<times> 'b disk" where
  "disk_step d = (fails_next (disk_faults d), d\<lparr>disk_faults := tl (disk_faults d)\<rparr>)"

definition fs_stat :: "string \<Rightarrow> 'b disk \<Rightarrow> err option \<times> 'b disk" where
  "fs_stat p d =
     (case disk_step d of (bad, d1) \<Rightarrow>
        (if bad then Some ErrDisk else if files d1 p = None then Some ErrNotExist else None, d1))"

definition fs_read :: "string \<Rightarrow> 'b disk \<Rightarrow> 'b res \<times> 'b disk" where
  "fs_read p d =
     (case disk_step d of (bad, d1) \<Rightarrow>
        (if bad then Inl ErrDisk
         else case files d1 p of None \<Rightarrow> Inl ErrNotExist | Some b \<Rightarrow> Inr b, d1))"

definition fs_remove :: "string \<Rightarrow> 'b disk \<Rightarrow> err option \<times> 'b disk" where
  "fs_remove p d =
     (case disk_step d of (bad, d1) \<Rightarrow>
        if bad then (Some ErrDisk, d1)
        else if files d1 p = None then (Some ErrNotExist, d1)
        else (None, d1\<lparr>files := (files d1)(p := None)\<rparr>))"

definition fs_rename :: "string \<Rightarrow> string \<Rightarrow> 'b disk \<Rightarrow> err option \<times> 'b disk" where
  "fs_rename a b d =
     (case disk_step d of (bad, d1) \<Rightarrow>
        if bad then (Some ErrDisk, d1)
        else case files d1 a of
            None \<Rightarrow> (Some ErrNotExist, d1)
          | Some x \<Rightarrow> (None, d1\<lparr>files := (files d1)(a := None, b := Some x)\<rparr>))"

definition fs_write :: "'b \<Rightarrow> string \<Rightarrow> 'b \<Rightarrow> 'b disk \<Rightarrow> err option \<times> 'b disk" where
  "fs_write torn p x d =
     (case disk_step d of (bad, d1) \<Rightarrow>
        if bad then (Some ErrDisk, d1)
        else case disk_step d1 of (bad2, d2) \<Rightarrow>
          if bad2 then (Some ErrDisk, d2\<lparr>files := (files d2)(p := Some torn)\<rparr>)
          else (None, d2\<lparr>files := (files d2)(p := Some x)\<rparr>))"

text \<open>\<open>O_CREATE | O_EXCL\<close>: only a file that is not there yet.\<close>

definition fs_create_new :: "string \<Rightarrow> 'b \<Rightarrow> 'b disk \<Rightarrow> err option \<times> 'b disk" where
  "fs_create_new p x d =
     (case disk_step d of (bad, d1) \<Rightarrow>
        if bad then (Some ErrDisk, d1)
        else if files d1 p \<noteq> None then (Some (Sentinel ''file exists''), d1)
        else (None, d1\<lparr>files := (files d1)(p := Some x)\<rparr>))"

lemmas fs_defs = fs_stat_def fs_read_def fs_remove_def fs_rename_def fs_write_def fs_create_new_def
  disk_step_def

section \<open>How many operations can still fail\<close>

definition failures :: "'b disk \<Rightarrow> nat" where
  "failures d = count_list (disk_faults d) True"

lemma count_tl: "count_list (tl fs) True = count_list fs True - (if fails_next fs then 1 else 0)"
  by (cases fs) auto

lemma fails_next_count: "fails_next fs \<Longrightarrow> 0 < count_list fs True"
  by (cases fs) auto

lemma disk_step_failures:
  assumes "disk_step d = (bad, d1)"
  shows "files d1 = files d" "failures d1 + (if bad then 1 else 0) = failures d"
  using assms fails_next_count [of "disk_faults d"]
  by (auto simp: disk_step_def failures_def count_tl)

lemma failures_files [simp]: "failures (d\<lparr>files := f\<rparr>) = failures d"
  by (simp add: failures_def)

text \<open>What each operation does, on every branch.\<close>

lemma fs_remove_cases:
  assumes "fs_remove p d = (e, d')"
  obtains "e = None" "files d p \<noteq> None" "files d' = (files d)(p := None)" "failures d' \<le> failures d"
  | "e \<noteq> None" "files d' = files d" "files d p = None" "failures d' \<le> failures d"
  | "e \<noteq> None" "files d' = files d" "failures d' < failures d"
proof -
  obtain bad d1 where 1: "disk_step d = (bad, d1)" by fastforce
  show thesis
    using assms 1 disk_step_failures [OF 1] that
    by (cases bad) (auto simp: fs_remove_def split: if_splits)
qed

lemma fs_rename_cases:
  assumes "fs_rename a b d = (e, d')"
  obtains x where "e = None" "files d a = Some x" "files d' = (files d)(a := None, b := Some x)"
    "failures d' \<le> failures d"
  | "e \<noteq> None" "files d' = files d" "files d a = None" "failures d' \<le> failures d"
  | "e \<noteq> None" "files d' = files d" "failures d' < failures d"
proof -
  obtain bad d1 where 1: "disk_step d = (bad, d1)" by fastforce
  show thesis
    using assms 1 disk_step_failures [OF 1] that
    by (cases bad) (auto simp: fs_rename_def split: if_splits option.splits)
qed

lemma fs_write_cases:
  assumes "fs_write torn p x d = (e, d')"
  obtains "e = None" "files d' = (files d)(p := Some x)" "failures d' \<le> failures d"
  | "e \<noteq> None" "files d' = files d" "failures d' < failures d"
  | "e \<noteq> None" "files d' = (files d)(p := Some torn)" "failures d' < failures d"
proof -
  obtain bad d1 where 1: "disk_step d = (bad, d1)" by fastforce
  obtain bad2 d2 where 2: "disk_step d1 = (bad2, d2)" by fastforce
  show thesis
    using assms 1 2 disk_step_failures [OF 1] disk_step_failures [OF 2] that
    by (auto simp: fs_write_def failures_def split: if_splits)
qed

lemma fs_read_frame:
  assumes "fs_read p d = (r, d')"
  shows "files d' = files d" "failures d' \<le> failures d"
  using assms disk_step_failures [of d] by (auto simp: fs_read_def split: prod.splits)

lemma fs_read_ok: "fs_read p d = (Inr b, d') \<Longrightarrow> files d p = Some b"
  by (auto simp: fs_defs split: if_splits option.splits)

lemma fs_stat_frame:
  assumes "fs_stat p d = (r, d')"
  shows "files d' = files d" "failures d' \<le> failures d" "r = None \<Longrightarrow> files d p \<noteq> None"
  using assms disk_step_failures [of d] by (auto simp: fs_stat_def split: prod.splits if_splits)

lemma fs_create_new_cases:
  assumes "fs_create_new p x d = (e, d')"
  obtains "e = None" "files d p = None" "files d' = (files d)(p := Some x)" "failures d' \<le> failures d"
  | "e \<noteq> None" "files d' = files d" "failures d' \<le> failures d"
proof -
  obtain bad d1 where 1: "disk_step d = (bad, d1)" by fastforce
  show thesis
    using assms 1 disk_step_failures [OF 1] that
    by (cases bad) (auto simp: fs_create_new_def split: if_splits)
qed

section \<open>A disk that works\<close>

definition works :: "'b disk \<Rightarrow> bool" where
  "works d \<longleftrightarrow> disk_faults d = []"

lemma works_step: "works d \<Longrightarrow> disk_step d = (False, d)"
  by (simp add: disk_step_def works_def)

lemma works_files [simp]: "works d \<Longrightarrow> works (d\<lparr>files := f\<rparr>)"
  by (simp add: works_def)

lemma works_ops:
  assumes "works d"
  shows "fs_stat p d = (if files d p = None then Some ErrNotExist else None, d)"
    "fs_read p d = (case files d p of None \<Rightarrow> Inl ErrNotExist | Some b \<Rightarrow> Inr b, d)"
    "fs_remove p d = (if files d p = None then (Some ErrNotExist, d)
       else (None, d\<lparr>files := (files d)(p := None)\<rparr>))"
    "fs_rename a b d = (case files d a of None \<Rightarrow> (Some ErrNotExist, d)
       | Some x \<Rightarrow> (None, d\<lparr>files := (files d)(a := None, b := Some x)\<rparr>))"
    "fs_write torn p x d = (None, d\<lparr>files := (files d)(p := Some x)\<rparr>)"
    "fs_create_new p x d = (if files d p \<noteq> None then (Some (Sentinel ''file exists''), d)
       else (None, d\<lparr>files := (files d)(p := Some x)\<rparr>))"
  using assms
  by (simp_all add: fs_stat_def fs_read_def fs_remove_def fs_rename_def fs_write_def
      fs_create_new_def works_step)

end
