(* ===== verification/SelfUpdate.thy ===== *)
theory SelfUpdate
  imports Disk Api GoTime "HOL-Library.Product_Lexorder"
begin

text \<open>
  The program replacing itself, \<open>foundation/selfupdate\<close>: which version is newer and the download that
  is verified, run and swapped in (\<open>selfupdate.go\<close>), the probation a new version is on and the way back
  (\<open>probation.go\<close>), and the release GitHub offers (\<open>github.go\<close>).

  The directory of the program is a disk (theory \<open>Disk\<close>); a file holds bytes or the JSON of the
  probation state. What a binary prints when it is asked for its version is the parameter \<open>prog\<close>,
  whether it exits with status 0 and its output; the SHA-256 of a download is the parameter \<open>sha\<close>,
  about which nothing is assumed. A start, an update and a rollback run to their end: a crash of the
  machine between two renames is not modelled.
\<close>

section \<open>Versions\<close>

fun version_number :: "string \<Rightarrow> int option" where
  "version_number p = (case atoi p of None \<Rightarrow> None | Some n \<Rightarrow> if n < 0 then None else Some n)"

definition parse_version :: "string \<Rightarrow> (int \<times> int \<times> int) option" where
  "parse_version v =
     (case split_on (CHR ''.'') (trim_prefix ''v'' (trim_space v)) of
        [a, b, c] \<Rightarrow>
          Option.bind (version_number a) (\<lambda>x. Option.bind (version_number b) (\<lambda>y.
            Option.bind (version_number c) (\<lambda>z. Some (x, y, z))))
      | _ \<Rightarrow> None)"

definition newer :: "string \<Rightarrow> string \<Rightarrow> bool" where
  "newer current candidate =
     (case (parse_version current, parse_version candidate) of
        (Some (c0, c1, c2), Some (n0, n1, n2)) \<Rightarrow>
          if c0 < n0 then True else if n0 < c0 then False
          else if c1 < n1 then True else if n1 < c1 then False
          else c2 < n2
      | _ \<Rightarrow> False)"

definition asset_name :: "string \<Rightarrow> string \<Rightarrow> string" where
  "asset_name goos goarch =
     ''sion-backup-'' @ goos @ ''-'' @ goarch @ (if goos = ''windows'' then ''.exe'' else [])"

section \<open>Releases\<close>

record release =
  rel_version :: string
  rel_url :: string
  rel_sha256 :: string

definition ErrNotWritable :: err where
  "ErrNotWritable = Sentinel ''selfupdate: this binary is not writable by this process''"

definition ErrNoRelease :: err where
  "ErrNoRelease = Sentinel ''selfupdate: no installable release for this platform''"

definition ErrFetchNotFound :: err where
  "ErrFetchNotFound = Sentinel ''selfupdate: not found''"

definition DefaultRepository :: string where
  "DefaultRepository = ''jroedel/sion-backup''"

definition max_metadata :: nat where
  "max_metadata = 1048576"

definition gh_fetch :: "string \<Rightarrow> reply \<Rightarrow> string res" where
  "gh_fetch url r =
     (case r of
        NoReply e \<Rightarrow> Inl (Wrap (''selfupdate: '' @ url @ '': '') e [])
      | Reply status line body \<Rightarrow>
          if status = 404 then Inl (Wrap [] ErrFetchNotFound ('': '' @ url))
          else if status \<noteq> 200 then Inl (Sentinel (''selfupdate: '' @ url @ '': '' @ line))
          else Inr (take max_metadata body))"

record gh_release =
  gh_tag :: string
  gh_draft :: bool
  gh_prerelease :: bool
  gh_assets :: "(string \<times> string) list"

fun decode_assets :: "parser \<Rightarrow> string list \<Rightarrow> (string \<times> string) list option" where
  "decode_assets parse [] = Some []"
| "decode_assets parse (raw # raws) =
     Option.bind (struct_fields parse raw) (\<lambda>f.
     Option.bind (text_field parse f ''name'') (\<lambda>n.
     Option.bind (text_field parse f ''browser_download_url'') (\<lambda>u.
     map_option ((#) (n, u)) (decode_assets parse raws))))"

fun as_assets :: "parser \<Rightarrow> json \<Rightarrow> (string \<times> string) list option" where
  "as_assets parse (JArray raws) = decode_assets parse raws"
| "as_assets parse _ = None"

definition decode_release :: "parser \<Rightarrow> string \<Rightarrow> gh_release option" where
  "decode_release parse body =
     Option.bind (struct_fields parse body) (\<lambda>f.
     Option.bind (text_field parse f ''tag_name'') (\<lambda>t.
     Option.bind (bool_field parse f ''draft'') (\<lambda>d.
     Option.bind (bool_field parse f ''prerelease'') (\<lambda>p.
     Option.bind (fold_field (as_assets parse) parse [] (values_of ''assets'' f)) (\<lambda>a.
     Some \<lparr>gh_tag = t, gh_draft = d, gh_prerelease = p, gh_assets = a\<rparr>)))))"

text \<open>\<open>strings.Fields\<close>: the words between spaces.\<close>

fun take_word :: "string \<Rightarrow> string" where
  "take_word [] = []"
| "take_word (c # cs) = (if leading_space space_seqs (c # cs) = 0 then c # take_word cs else [])"

lemma drop_spaces_length: "length (drop_spaces seqs s) \<le> length s"
proof (induction seqs s rule: drop_spaces.induct)
  case (1 seqs s)
  then show ?case by (subst drop_spaces.simps) (fastforce simp: Let_def)
qed

function words_of :: "string \<Rightarrow> string list" where
  "words_of s =
     (let t = drop_spaces space_seqs s; w = take_word t in
      if w = [] then [] else w # words_of (drop (length w) t))"
  by pat_completeness auto
termination
proof (relation "measure length")
  fix s t w assume "t = drop_spaces space_seqs s" and w: "w = take_word t" and n: "w \<noteq> []"
  then have "length t \<le> length s" using drop_spaces_length by simp
  moreover have "t \<noteq> []" using w n by (cases t) auto
  ultimately show "(drop (length w) t, s) \<in> measure length" using n by (cases t; cases w) auto
qed simp

declare words_of.simps [simp del]

definition newline :: char where
  "newline = CHR 0x0A"

fun checksum_line :: "string \<Rightarrow> string list \<Rightarrow> string option" where
  "checksum_line asset [] = None"
| "checksum_line asset (line # rest) =
     (case words_of line of
        [digest, file_name] \<Rightarrow>
          if trim_prefix ''*'' file_name = asset then Some digest else checksum_line asset rest
      | _ \<Rightarrow> checksum_line asset rest)"

definition gh_checksum :: "string \<Rightarrow> string \<Rightarrow> reply \<Rightarrow> string res" where
  "gh_checksum url asset r =
     on_ok (gh_fetch url r) (\<lambda>body.
       case checksum_line asset (split_on newline body) of
         Some digest \<Rightarrow> Inr digest
       | None \<Rightarrow> Inl (Wrap [] ErrNoRelease ('': SHA256SUMS does not list '' @ asset)))"

text \<open>The last asset of a name wins, an empty URL counts as none.\<close>

definition asset_url :: "string \<Rightarrow> (string \<times> string) list \<Rightarrow> string" where
  "asset_url name assets = foldl (\<lambda>u (n, v). if n = name then v else u) [] assets"

definition gh_latest ::
  "parser \<Rightarrow> string \<Rightarrow> string \<Rightarrow> string \<Rightarrow> reply \<Rightarrow> reply \<Rightarrow> release res" where
  "gh_latest parse repository goos goarch answer sums_answer =
     (let repo = (if repository = [] then DefaultRepository else repository);
          url = ''https://api.github.com/repos/'' @ repo @ ''/releases/latest'' in
      case gh_fetch url answer of
        Inl e \<Rightarrow>
          if err_is ErrFetchNotFound e
          then Inl (Wrap [] ErrNoRelease ('': '' @ repo @ '' has published no releases yet''))
          else Inl e
      | Inr body \<Rightarrow>
        (case decode_release parse body of
           None \<Rightarrow> Inl (Sentinel ''selfupdate: reading the release list'')
         | Some rel \<Rightarrow>
             if gh_draft rel \<or> gh_prerelease rel
             then Inl (Wrap [] ErrNoRelease ('': the latest release is a '' @
               (if gh_draft rel then ''draft'' else ''prerelease'')))
             else
               let want = asset_name goos goarch;
                   bin_url = asset_url want (gh_assets rel);
                   sums_url = asset_url ''SHA256SUMS'' (gh_assets rel) in
               if bin_url = [] then Inl (Wrap [] ErrNoRelease ('': '' @ gh_tag rel @ '' has no '' @ want))
               else if sums_url = []
               then Inl (Wrap [] ErrNoRelease ('': '' @ gh_tag rel @ '' publishes no SHA256SUMS''))
               else on_ok (gh_checksum sums_url want sums_answer) (\<lambda>digest.
                 Inr \<lparr>rel_version = gh_tag rel, rel_url = bin_url, rel_sha256 = digest\<rparr>)))"

section \<open>The files beside the program\<close>

record probation =
  pr_installed :: string
  pr_previous :: string
  pr_starts :: int
  pr_began :: instant

datatype blob = Bytes string | State probation

record updater =
  upd_exe :: string
  upd_current :: string

definition probation_path :: "updater \<Rightarrow> string" where
  "probation_path u = upd_exe u @ ''.probation''"

definition refused_path :: "updater \<Rightarrow> string" where
  "refused_path u = upd_exe u @ ''.refused''"

definition old_path :: "updater \<Rightarrow> string" where
  "old_path u = upd_exe u @ ''.old''"

definition back_path :: "updater \<Rightarrow> string" where
  "back_path u = upd_exe u @ ''.back''"

definition new_path :: "updater \<Rightarrow> string" where
  "new_path u = upd_exe u @ ''.new''"

definition probe_path :: "updater \<Rightarrow> string" where
  "probe_path u = upd_exe u @ ''.probe''"

lemmas path_defs = probation_path_def refused_path_def old_path_def back_path_def new_path_def
  probe_path_def

lemma path_ne [simp]:
  "upd_exe u \<noteq> probation_path u" "upd_exe u \<noteq> refused_path u" "upd_exe u \<noteq> old_path u"
  "upd_exe u \<noteq> back_path u" "upd_exe u \<noteq> new_path u" "upd_exe u \<noteq> probe_path u"
  "probation_path u \<noteq> upd_exe u" "probation_path u \<noteq> refused_path u" "probation_path u \<noteq> old_path u"
  "probation_path u \<noteq> back_path u" "probation_path u \<noteq> new_path u" "probation_path u \<noteq> probe_path u"
  "refused_path u \<noteq> upd_exe u" "refused_path u \<noteq> probation_path u" "refused_path u \<noteq> old_path u"
  "refused_path u \<noteq> back_path u" "refused_path u \<noteq> new_path u" "refused_path u \<noteq> probe_path u"
  "old_path u \<noteq> upd_exe u" "old_path u \<noteq> probation_path u" "old_path u \<noteq> refused_path u"
  "old_path u \<noteq> back_path u" "old_path u \<noteq> new_path u" "old_path u \<noteq> probe_path u"
  "back_path u \<noteq> upd_exe u" "back_path u \<noteq> probation_path u" "back_path u \<noteq> refused_path u"
  "back_path u \<noteq> old_path u" "back_path u \<noteq> new_path u" "back_path u \<noteq> probe_path u"
  "new_path u \<noteq> upd_exe u" "new_path u \<noteq> probation_path u" "new_path u \<noteq> refused_path u"
  "new_path u \<noteq> old_path u" "new_path u \<noteq> back_path u" "new_path u \<noteq> probe_path u"
  "probe_path u \<noteq> upd_exe u" "probe_path u \<noteq> probation_path u" "probe_path u \<noteq> refused_path u"
  "probe_path u \<noteq> old_path u" "probe_path u \<noteq> back_path u" "probe_path u \<noteq> new_path u"
  by (simp_all add: path_defs)

type_synonym prog = "string \<Rightarrow> bool \<times> string"

definition smoke_test :: "prog \<Rightarrow> string \<Rightarrow> string \<Rightarrow> blob disk \<Rightarrow> err option \<times> blob disk" where
  "smoke_test prog path want d =
     (case disk_step d of (bad, d1) \<Rightarrow>
        let (ok, out) = (if bad then (False, []) else
              case files d1 path of Some (Bytes b) \<Rightarrow> prog b | _ \<Rightarrow> (False, [])) in
        (if \<not> ok
         then Some (Sentinel (''selfupdate: the downloaded binary does not run: '' @ trim_space out))
         else if \<not> contains_str want out
         then Some (Sentinel (''selfupdate: the downloaded binary reports '' @ quote (trim_space out) @
           '', and the release said '' @ want))
         else None, d1))"

section \<open>Versions that were given up on\<close>

definition max_refused :: nat where
  "max_refused = 10"

definition refused_lines :: "string \<Rightarrow> string list" where
  "refused_lines text = filter (\<lambda>v. v \<noteq> []) (map trim_space (split_on newline text))"

definition refused :: "updater \<Rightarrow> blob disk \<Rightarrow> string list \<times> blob disk" where
  "refused u d =
     (case fs_read (refused_path u) d of
        (Inr (Bytes text), d1) \<Rightarrow> (refused_lines text, d1)
      | (_, d1) \<Rightarrow> ([], d1))"

definition refuses :: "updater \<Rightarrow> string \<Rightarrow> blob disk \<Rightarrow> bool \<times> blob disk" where
  "refuses u v d = (case refused u d of (vs, d1) \<Rightarrow> (v \<in> set vs, d1))"

definition last_refused :: "string list \<Rightarrow> string list" where
  "last_refused vs = drop (length vs - max_refused) vs"

definition refuse :: "updater \<Rightarrow> string \<Rightarrow> blob disk \<Rightarrow> err option \<times> blob disk" where
  "refuse u v d =
     (case refused u d of (vs, d1) \<Rightarrow>
        if v \<in> set vs then (None, d1)
        else fs_write (Bytes []) (refused_path u)
          (Bytes (join_with [newline] (last_refused (vs @ [v])) @ [newline])) d1)"

definition forget :: "updater \<Rightarrow> blob disk \<Rightarrow> err option \<times> blob disk" where
  "forget u d =
     (case fs_remove (refused_path u) d of
        (Some e, d1) \<Rightarrow>
          (if err_is ErrNotExist e then None
           else Some (Wrap ''selfupdate: clearing the refused versions: '' e []), d1)
      | (None, d1) \<Rightarrow> (None, d1))"

section \<open>Probation\<close>

definition probation_starts :: int where
  "probation_starts = 3"

definition probation_grace :: duration where
  "probation_grace = 10 * minute"

definition begin_probation :: "updater \<Rightarrow> string \<Rightarrow> string \<Rightarrow> instant \<Rightarrow> blob disk \<Rightarrow> err option \<times> blob disk" where
  "begin_probation u installed previous now d =
     (case fs_write (Bytes []) (probation_path u)
         (State \<lparr>pr_installed = installed, pr_previous = previous, pr_starts = 0, pr_began = now\<rparr>) d of
        (Some e, d1) \<Rightarrow> (Some (Wrap ''selfupdate: recording probation: '' e []), d1)
      | (None, d1) \<Rightarrow> (None, d1))"

definition read_probation :: "updater \<Rightarrow> blob disk \<Rightarrow> probation option \<times> blob disk" where
  "read_probation u d =
     (case fs_read (probation_path u) d of
        (Inr (State p), d1) \<Rightarrow> (if pr_installed p \<noteq> [] then Some p else None, d1)
      | (_, d1) \<Rightarrow> (None, d1))"

datatype up_outcome = Nothing | OnProbation | RolledBack | Stuck

record start =
  st_outcome :: up_outcome
  st_version :: string
  st_failed :: string
  st_starts :: int

definition remove_old :: "updater \<Rightarrow> blob disk \<Rightarrow> blob disk" where
  "remove_old u d = snd (fs_remove (old_path u) d)"

definition roll_back :: "prog \<Rightarrow> updater \<Rightarrow> probation \<Rightarrow> blob disk \<Rightarrow> string res \<times> blob disk" where
  "roll_back prog u p d =
     (let old = old_path u; staged = back_path u; exe = upd_exe u in
      case fs_stat old d of
        (Some e, d1) \<Rightarrow> (Inl (Wrap (''there is no '' @ old @ '' to go back to: '') e []), d1)
      | (None, d1) \<Rightarrow>
      (case smoke_test prog old (pr_previous p) d1 of
        (Some e, d2) \<Rightarrow> (Inl (Wrap ''the previous binary does not run: '' e []), d2)
      | (None, d2) \<Rightarrow>
      (case snd (refuse u (pr_installed p) d2) of d3 \<Rightarrow>
      (case fs_rename old staged d3 of
        (Some e, d4) \<Rightarrow> (Inl (Wrap ''staging the previous binary: '' e []), d4)
      | (None, d4) \<Rightarrow>
      (case fs_rename exe old d4 of
        (Some e, d5) \<Rightarrow>
          (Inl (Wrap ''moving the failed binary aside: '' e []), snd (fs_rename staged old d5))
      | (None, d5) \<Rightarrow>
      (case fs_rename staged exe d5 of
        (Some e, d6) \<Rightarrow>
          (case fs_rename old exe d6 of
             (Some e2, d7) \<Rightarrow>
               (Inl (Wrap2 ''restoring the previous binary failed ('' e
                 ('') and there is now no binary at '' @ exe @ '' ('') e2 '')''), d7)
           | (None, d7) \<Rightarrow> (Inl (Wrap ''restoring the previous binary: '' e []), d7))
      | (None, d6) \<Rightarrow> (Inr (pr_previous p), d6)))))))"

text \<open>\<open>Start\<close>, at the top of every command that runs for long.\<close>

definition start_up :: "prog \<Rightarrow> updater \<Rightarrow> blob disk \<Rightarrow> start \<times> blob disk" where
  "start_up prog u d =
     (case read_probation u d of
        (None, d1) \<Rightarrow>
          (\<lparr>st_outcome = Nothing, st_version = [], st_failed = [], st_starts = 0\<rparr>, remove_old u d1)
      | (Some p0, d1) \<Rightarrow>
          let p = p0\<lparr>pr_starts := pr_starts p0 + 1\<rparr> in
          if pr_starts p \<le> probation_starts
          then (\<lparr>st_outcome = OnProbation, st_version = pr_installed p, st_failed = [],
                 st_starts = pr_starts p\<rparr>,
                snd (fs_write (Bytes []) (probation_path u) (State p) d1))
          else
            (case roll_back prog u p d1 of (r, d2) \<Rightarrow>
             (case snd (fs_remove (probation_path u) d2) of d3 \<Rightarrow>
              (case r of
                 Inl e \<Rightarrow>
                   (\<lparr>st_outcome = Stuck, st_version = pr_installed p, st_failed = pr_installed p,
                     st_starts = pr_starts p\<rparr>, d3)
               | Inr v \<Rightarrow>
                   (\<lparr>st_outcome = RolledBack, st_version = v, st_failed = pr_installed p,
                     st_starts = pr_starts p\<rparr>, d3)))))"

definition settle_probation :: "updater \<Rightarrow> blob disk \<Rightarrow> blob disk" where
  "settle_probation u d =
     (case read_probation u d of
        (None, d1) \<Rightarrow> d1
      | (Some p, d1) \<Rightarrow>
          (case fs_remove (probation_path u) d1 of
             (None, d2) \<Rightarrow> remove_old u d2
           | (Some e, d2) \<Rightarrow> if err_is ErrNotExist e then remove_old u d2 else d2))"

section \<open>Installing\<close>

definition writable :: "updater \<Rightarrow> blob disk \<Rightarrow> err option \<times> blob disk" where
  "writable u d =
     (case fs_create_new (probe_path u) (Bytes []) d of
        (Some e, d1) \<Rightarrow> (Some (Wrap2 [] ErrNotWritable ('': '' @ upd_exe u @ '': '') e []), d1)
      | (None, d1) \<Rightarrow> fs_remove (probe_path u) d1)"

definition equal_fold :: "string \<Rightarrow> string \<Rightarrow> bool" where
  "equal_fold a b \<longleftrightarrow> map lower_char a = map lower_char b"

definition download ::
  "(string \<Rightarrow> string) \<Rightarrow> release \<Rightarrow> reply \<Rightarrow> string \<Rightarrow> blob disk \<Rightarrow> err option \<times> blob disk" where
  "download sha r rep target d =
     (case rep of
        NoReply e \<Rightarrow> (Some (Wrap (''selfupdate: downloading '' @ rel_version r @ '': '') e []), d)
      | Reply status line body \<Rightarrow>
          if status \<noteq> 200
          then (Some (Sentinel (''selfupdate: downloading '' @ rel_version r @ '': '' @ line)), d)
          else (case fs_write (Bytes []) target (Bytes body) d of
              (Some e, d1) \<Rightarrow> (Some (Wrap ''selfupdate: writing the download: '' e []), d1)
            | (None, d1) \<Rightarrow>
                (if \<not> equal_fold (sha body) (rel_sha256 r)
                 then Some (Sentinel (''selfupdate: refusing '' @ rel_version r @ '': it hashes to '' @
                   sha body @ '', and the release says '' @ map lower_char (rel_sha256 r)))
                 else None, d1)))"

definition swap_in :: "updater \<Rightarrow> string \<Rightarrow> blob disk \<Rightarrow> err option \<times> blob disk" where
  "swap_in u staged d =
     (let old = old_path u; exe = upd_exe u in
      case snd (fs_remove old d) of d1 \<Rightarrow>
      (case fs_rename exe old d1 of
        (Some e, d2) \<Rightarrow> (Some (Wrap ''selfupdate: moving the current binary aside: '' e []), d2)
      | (None, d2) \<Rightarrow>
      (case fs_rename staged exe d2 of
        (Some e, d3) \<Rightarrow>
          (case fs_rename old exe d3 of
             (Some e2, d4) \<Rightarrow>
               (Some (Wrap2 ''selfupdate: installing the new binary failed ('' e
                 '') and the old one could not be restored ('' e2 (''); it is at '' @ old)), d4)
           | (None, d4) \<Rightarrow> (Some (Wrap ''selfupdate: installing the new binary: '' e []), d4))
      | (None, d3) \<Rightarrow> (None, d3))))"

definition install ::
  "(string \<Rightarrow> string) \<Rightarrow> prog \<Rightarrow> updater \<Rightarrow> release \<Rightarrow> reply \<Rightarrow> instant \<Rightarrow> blob disk \<Rightarrow>
    err option \<times> blob disk" where
  "install sha prog u r rep now d =
     (let staged = new_path u in
      case download sha r rep staged d of
        (Some e, d1) \<Rightarrow> (Some e, snd (fs_remove staged d1))
      | (None, d1) \<Rightarrow>
      (case smoke_test prog staged (rel_version r) d1 of
        (Some e, d2) \<Rightarrow> (Some e, snd (fs_remove staged d2))
      | (None, d2) \<Rightarrow>
      (case swap_in u staged d2 of
        (Some e, d3) \<Rightarrow> (Some e, snd (fs_remove staged d3))
      | (None, d3) \<Rightarrow>
          (None, snd (fs_remove staged
            (snd (begin_probation u (rel_version r) (upd_current u) now d3)))))))"

text \<open>What \<open>Apply\<close> reports: nothing to do, the release it installed, or an error.\<close>

definition apply_update ::
  "(string \<Rightarrow> string) \<Rightarrow> prog \<Rightarrow> updater \<Rightarrow> release res option \<Rightarrow> reply \<Rightarrow> instant \<Rightarrow> blob disk \<Rightarrow>
    release option res \<times> blob disk" where
  "apply_update sha prog u source rep now d =
     (case source of
        None \<Rightarrow> (Inl (Sentinel ''selfupdate: no source configured''), d)
      | Some (Inl e) \<Rightarrow> (Inl e, d)
      | Some (Inr r) \<Rightarrow>
          if rel_sha256 r = [] \<or> rel_url r = [] then (Inl ErrNoRelease, d)
          else if \<not> newer (upd_current u) (rel_version r) then (Inr None, d)
          else case refuses u (rel_version r) d of
              (True, d1) \<Rightarrow> (Inr None, d1)
            | (False, d1) \<Rightarrow>
              (case writable u d1 of
                 (Some e, d2) \<Rightarrow> (Inl e, d2)
               | (None, d2) \<Rightarrow>
                 (case install sha prog u r rep now d2 of
                    (Some e, d3) \<Rightarrow> (Inl e, d3)
                  | (None, d3) \<Rightarrow> (Inr (Some r), d3))))"

section \<open>Which version is newer\<close>

lemma newer_iff:
  "newer a b \<longleftrightarrow> (\<exists>x y. parse_version a = Some x \<and> parse_version b = Some y \<and> x < y)"
  by (cases "parse_version a"; cases "parse_version b") (auto simp: newer_def less_prod_def)

definition version_tag :: "int \<Rightarrow> int \<Rightarrow> int \<Rightarrow> string" where
  "version_tag a b c = ''v'' @ itoa a @ ''.'' @ itoa b @ ''.'' @ itoa c"

lemma itoa_no_dot: "0 \<le> n \<Longrightarrow> CHR ''.'' \<notin> set (itoa n)"
proof
  assume "0 \<le> n" and "CHR ''.'' \<in> set (itoa n)"
  then obtain d where "d < 10" "CHR ''.'' = digit_char d"
    using nat_text_digits by (auto simp: itoa_def)
  then show False using digit_char_not_sign(4) by metis
qed

lemma itoa_last_graph: "0 \<le> n \<Longrightarrow> itoa n \<noteq> [] \<and> ascii_graph (last (itoa n))"
proof -
  assume "0 \<le> n"
  then have i: "itoa n = nat_text (nat n)" by (simp add: itoa_def)
  have "last (nat_text (nat n)) \<in> set (nat_text (nat n))" by simp
  then show ?thesis using nat_text_digits digit_char_graph i by fastforce
qed

lemma parse_version_tag:
  assumes "0 \<le> a" "0 \<le> b" "0 \<le> c" and "in_int64 a" "in_int64 b" "in_int64 c"
  shows "parse_version (version_tag a b c) = Some (a, b, c)"
proof -
  have "ascii_graph (CHR ''v'')" by code_simp
  then have "trim_space (version_tag a b c) = version_tag a b c"
    using itoa_last_graph [OF assms(3)] by (intro trim_space_graph) (simp add: version_tag_def)
  moreover have "split_on (CHR ''.'') (itoa a @ ''.'' @ itoa b @ ''.'' @ itoa c) = [itoa a, itoa b, itoa c]"
    using itoa_no_dot assms(1-3) by (simp add: split_on_append split_on_no_sep)
  ultimately show ?thesis
    using assms by (simp add: parse_version_def trim_prefix_def version_tag_def atoi_itoa)
qed

text \<open>versions are compared by number. The tag of a release is read as its three numbers, one tag is
  newer than another exactly when its numbers come later, the first one that differs deciding, and a
  version that is not three numbers is neither newer nor older than anything.\<close>

theorem newer_compares_numbers:
  assumes "0 \<le> a" "0 \<le> b" "0 \<le> c" and "in_int64 a" "in_int64 b" "in_int64 c"
    and "0 \<le> x" "0 \<le> y" "0 \<le> z" and "in_int64 x" "in_int64 y" "in_int64 z"
  shows "newer (version_tag a b c) (version_tag x y z) = ((a, b, c) < (x, y, z)) \<and>
    (parse_version v = None \<longrightarrow>
      \<not> newer v (version_tag x y z) \<and> \<not> newer (version_tag x y z) v)"
  using parse_version_tag [OF assms(1-6)] parse_version_tag [OF assms(7-12)]
  by (auto simp: newer_iff)

theorem newer_compares_numbers_witness:
  "newer (version_tag 1 9 3) (version_tag 1 10 0) \<and> \<not> newer ''dev'' (version_tag 1 10 0)"
proof -
  have d: "parse_version ''dev'' = None" by code_simp
  have "newer (version_tag 1 9 3) (version_tag 1 10 0) = ((1::int, 9::int, 3::int) < (1, 10, 0)) \<and>
    (parse_version ''dev'' = None \<longrightarrow>
      \<not> newer ''dev'' (version_tag 1 10 0) \<and> \<not> newer (version_tag 1 10 0) ''dev'')"
    by (rule newer_compares_numbers) (simp_all add: int64_defs)
  with d show ?thesis by simp
qed

end
