(* ===== verification/UpdateSafety.thy ===== *)
theory UpdateSafety
  imports SelfUpdate
begin

text \<open>
  What holds of the updater (theory \<open>SelfUpdate\<close>) over sequences of its operations: which files an
  operation leaves alone, the two swaps with every failure of the disk, and that one failure never
  leaves the machine without a program.
\<close>

section \<open>Sequences of operations\<close>

datatype up_event =
    EvStart
  | EvSettle
  | EvForget
  | EvApply string "release res option" reply instant

fun up_step :: "(string \<Rightarrow> string) \<Rightarrow> prog \<Rightarrow> updater \<Rightarrow> up_event \<Rightarrow> blob disk \<Rightarrow> blob disk" where
  "up_step sha prog u EvStart d = snd (start_up prog u d)"
| "up_step sha prog u EvSettle d = settle_probation u d"
| "up_step sha prog u EvForget d = snd (forget u d)"
| "up_step sha prog u (EvApply current source rep now) d =
     snd (apply_update sha prog (u\<lparr>upd_current := current\<rparr>) source rep now d)"

fun up_run :: "(string \<Rightarrow> string) \<Rightarrow> prog \<Rightarrow> updater \<Rightarrow> up_event list \<Rightarrow> blob disk \<Rightarrow> blob disk" where
  "up_run sha prog u [] d = d"
| "up_run sha prog u (e # es) d = up_run sha prog u es (up_step sha prog u e d)"

lemma path_current [simp]:
  "probation_path (u\<lparr>upd_current := c\<rparr>) = probation_path u"
  "refused_path (u\<lparr>upd_current := c\<rparr>) = refused_path u"
  "old_path (u\<lparr>upd_current := c\<rparr>) = old_path u" "back_path (u\<lparr>upd_current := c\<rparr>) = back_path u"
  "new_path (u\<lparr>upd_current := c\<rparr>) = new_path u" "probe_path (u\<lparr>upd_current := c\<rparr>) = probe_path u"
  by (simp_all add: path_defs)

section \<open>What an operation leaves alone\<close>

definition frame :: "string set \<Rightarrow> blob disk \<Rightarrow> blob disk \<Rightarrow> bool" where
  "frame P d d' \<longleftrightarrow> (\<forall>p. p \<notin> P \<longrightarrow> files d' p = files d p) \<and> failures d' \<le> failures d"

lemma frame_refl: "frame P d d"
  by (simp add: frame_def)

lemma frame_trans: "frame P d d1 \<Longrightarrow> frame P d1 d2 \<Longrightarrow> frame P d d2"
  by (auto simp: frame_def intro: order_trans)

lemma frame_mono: "frame P d d1 \<Longrightarrow> P \<subseteq> Q \<Longrightarrow> frame Q d d1"
  by (auto simp: frame_def)

lemma frame_at: "frame P d d1 \<Longrightarrow> p \<notin> P \<Longrightarrow> files d1 p = files d p"
  by (simp add: frame_def)

lemma frame_failures: "frame P d d1 \<Longrightarrow> failures d1 \<le> failures d"
  by (simp add: frame_def)

lemma remove_frame: "frame {p} d (snd (fs_remove p d))"
proof -
  obtain e d1 where r: "fs_remove p d = (e, d1)" by fastforce
  then have "frame {p} d d1" by (cases rule: fs_remove_cases) (auto simp: frame_def)
  then show ?thesis by (simp add: r)
qed

lemma write_frame: "frame {p} d (snd (fs_write t p x d))"
proof -
  obtain e d1 where r: "fs_write t p x d = (e, d1)" by fastforce
  then have "frame {p} d d1" by (cases rule: fs_write_cases) (auto simp: frame_def)
  then show ?thesis by (simp add: r)
qed

lemma rename_frame: "frame {a, b} d (snd (fs_rename a b d))"
proof -
  obtain e d1 where r: "fs_rename a b d = (e, d1)" by fastforce
  then have "frame {a, b} d d1" by (cases rule: fs_rename_cases) (auto simp: frame_def)
  then show ?thesis by (simp add: r)
qed

lemma create_new_frame: "frame {p} d (snd (fs_create_new p x d))"
proof -
  obtain e d1 where r: "fs_create_new p x d = (e, d1)" by fastforce
  then have "frame {p} d d1" by (cases rule: fs_create_new_cases) (auto simp: frame_def)
  then show ?thesis by (simp add: r)
qed

lemma read_frame: "frame {} d (snd (fs_read p d))"
  using fs_read_frame [of p d "fst (fs_read p d)" "snd (fs_read p d)"] by (simp add: frame_def)

lemma stat_frame: "frame {} d (snd (fs_stat p d))"
  using fs_stat_frame [of p d "fst (fs_stat p d)" "snd (fs_stat p d)"] by (simp add: frame_def)

lemma smoke_frame: "frame {} d (snd (smoke_test prog p want d))"
proof -
  obtain bad d1 where 1: "disk_step d = (bad, d1)" by fastforce
  then show ?thesis using disk_step_failures [OF 1]
    by (auto simp: smoke_test_def frame_def Let_def split: prod.splits)
qed

lemma refused_frame: "frame {} d (snd (refused u d))"
  using read_frame [of d "refused_path u"]
  by (auto simp: refused_def split: prod.splits sum.splits blob.splits)

lemma refuses_frame: "frame {} d (snd (refuses u v d))"
  using refused_frame [of d u] by (auto simp: refuses_def split: prod.splits)

lemma refuse_frame: "frame {refused_path u} d (snd (refuse u v d))"
proof -
  obtain vs d1 where r: "refused u d = (vs, d1)" by fastforce
  have "frame {refused_path u} d d1" using refused_frame [of d u] r by (auto intro: frame_mono)
  then show ?thesis using write_frame by (auto simp: refuse_def r intro: frame_trans)
qed

lemma probation_frame: "frame {} d (snd (read_probation u d))"
  using read_frame [of d "probation_path u"]
  by (auto simp: read_probation_def split: prod.splits sum.splits blob.splits)

lemma remove_old_frame: "frame {old_path u} d (remove_old u d)"
  by (simp add: remove_old_def remove_frame)

lemma writable_frame: "frame {probe_path u} d (snd (writable u d))"
proof -
  obtain e d1 where c: "fs_create_new (probe_path u) (Bytes []) d = (e, d1)" by fastforce
  then have "frame {probe_path u} d d1" using create_new_frame by (metis snd_conv)
  then show ?thesis using remove_frame [of "probe_path u" d1] c
    by (auto simp: writable_def split: option.splits intro: frame_trans)
qed

lemma begin_frame: "frame {probation_path u} d (snd (begin_probation u v w t d))"
proof -
  let ?p = "State \<lparr>pr_installed = v, pr_previous = w, pr_starts = 0, pr_began = t\<rparr>"
  obtain e d1 where r: "fs_write (Bytes []) (probation_path u) ?p d = (e, d1)" by fastforce
  then have "frame {probation_path u} d d1" using write_frame by (metis snd_conv)
  then show ?thesis by (simp add: begin_probation_def r split: option.splits)
qed

lemma download_frame: "frame {p} d (snd (download sha r rep p d))"
proof (cases rep)
  case (NoReply e)
  then show ?thesis by (simp add: download_def frame_refl)
next
  case (Reply status line body)
  then show ?thesis using write_frame [of p d "Bytes []" "Bytes body"]
    by (auto simp: download_def frame_refl split: option.splits prod.splits)
qed

lemma settle_frame: "frame {probation_path u, old_path u} d (settle_probation u d)"
proof -
  obtain r d1 where r: "read_probation u d = (r, d1)" by fastforce
  obtain e d2 where e: "fs_remove (probation_path u) d1 = (e, d2)" by fastforce
  let ?P = "{probation_path u, old_path u}"
  have 1: "frame ?P d d1" using probation_frame [of d u] r by (auto intro: frame_mono)
  have 2: "frame ?P d1 d2" using remove_frame [of "probation_path u" d1] e by (auto intro: frame_mono)
  have 3: "frame ?P d2 (remove_old u d2)" by (rule frame_mono [OF remove_old_frame]) simp
  show ?thesis using 1 frame_trans [OF 1 2] frame_trans [OF frame_trans [OF 1 2] 3]
    by (auto simp: settle_probation_def r e split: option.splits)
qed

lemma forget_frame: "frame {refused_path u} d (snd (forget u d))"
  using remove_frame [of "refused_path u" d] by (auto simp: forget_def split: option.splits prod.splits)

section \<open>The two swaps\<close>

lemma swap_in_cases:
  assumes "swap_in u (new_path u) d = (e, d')" and exe: "files d (upd_exe u) = Some b"
    and new: "files d (new_path u) = Some n"
  shows "frame {upd_exe u, old_path u, new_path u} d d' \<and>
    (e = None \<longrightarrow> files d' (upd_exe u) = Some n \<and> files d' (old_path u) = Some b) \<and>
    (e \<noteq> None \<longrightarrow> files d' (upd_exe u) = Some b \<or>
      files d' (upd_exe u) = None \<and> files d' (old_path u) = Some b \<and> failures d' + 2 \<le> failures d)"
proof -
  let ?exe = "upd_exe u" and ?old = "old_path u" and ?new = "new_path u"
  obtain d1 where d1: "snd (fs_remove ?old d) = d1" by simp
  have f1: "frame {?old} d d1" using remove_frame d1 by blast
  then have at1: "files d1 ?exe = Some b" "files d1 ?new = Some n"
    using frame_at [OF f1] exe new by simp_all
  obtain e2 d2 where r2: "fs_rename ?exe ?old d1 = (e2, d2)" by fastforce
  obtain e3 d3 where r3: "fs_rename ?new ?exe d2 = (e3, d3)" by fastforce
  obtain e4 d4 where r4: "fs_rename ?old ?exe d3 = (e4, d4)" by fastforce
  have P: "frame {?exe, ?old, ?new} d d1" "frame {?exe, ?old, ?new} d1 d2"
    "frame {?exe, ?old, ?new} d2 d3" "frame {?exe, ?old, ?new} d3 d4"
    using f1 rename_frame [of ?exe ?old d1] rename_frame [of ?new ?exe d2]
      rename_frame [of ?old ?exe d3] r2 r3 r4 by (auto intro: frame_mono)
  show ?thesis
  proof (cases e2)
    case (Some x)
    then have "d' = d2" "e \<noteq> None" using assms(1) d1 r2 by (auto simp: swap_in_def Let_def)
    moreover have "files d2 ?exe = Some b" using r2 Some at1 by (cases rule: fs_rename_cases) auto
    ultimately show ?thesis using frame_trans [OF P(1,2)] by auto
  next
    case None
    have at2: "files d2 ?old = Some b" "files d2 ?new = Some n" "files d2 ?exe = None"
      using r2 None at1 by (cases rule: fs_rename_cases; simp)+
    show ?thesis
    proof (cases e3)
      case no: None
      then have "d' = d3" "e = None" using assms(1) d1 r2 r3 None by (auto simp: swap_in_def Let_def)
      moreover have "files d3 ?exe = Some n" "files d3 ?old = Some b"
        using r3 no at2 by (cases rule: fs_rename_cases; simp)+
      ultimately show ?thesis using frame_trans [OF frame_trans [OF P(1,2)] P(3)] by simp
    next
      case (Some x)
      then have d': "d' = d4" "e \<noteq> None"
        using assms(1) d1 r2 r3 r4 None by (auto simp: swap_in_def Let_def split: option.splits)
      have at3: "files d3 = files d2" "failures d3 < failures d2"
        using r3 Some at2 by (cases rule: fs_rename_cases; simp)+
      have "files d4 ?exe = Some b \<or>
          files d4 ?exe = None \<and> files d4 ?old = Some b \<and> failures d4 < failures d3"
        using r4 at3 at2 by (cases rule: fs_rename_cases) auto
      then show ?thesis
        using d' at3 frame_trans [OF frame_trans [OF frame_trans [OF P(1,2)] P(3)] P(4)]
          frame_failures [OF frame_trans [OF P(1,2)]] by auto
    qed
  qed
qed

lemma smoke_test_ok:
  assumes "smoke_test prog p want d = (None, d')"
  shows "\<exists>b out. files d p = Some (Bytes b) \<and> prog b = (True, out) \<and> contains_str want out"
  using assms disk_step_failures(1) [of d]
  by (auto simp: smoke_test_def Let_def split: prod.splits if_splits option.splits blob.splits)

lemma roll_back_cases:
  assumes "roll_back prog u p d = (r, d')" and exe: "files d (upd_exe u) = Some b"
  shows "frame {upd_exe u, old_path u, back_path u, refused_path u} d d' \<and>
    (\<forall>v. r = Inr v \<longrightarrow> v = pr_previous p \<and> files d' (upd_exe u) = files d (old_path u) \<and>
      files d' (old_path u) = Some b \<and>
      (\<exists>c out. files d (old_path u) = Some (Bytes c) \<and> prog c = (True, out) \<and>
        contains_str (pr_previous p) out)) \<and>
    (\<forall>x. r = Inl x \<longrightarrow> files d' (upd_exe u) = Some b \<or>
      files d' (upd_exe u) = None \<and> files d' (old_path u) = Some b \<and> failures d' + 2 \<le> failures d)"
proof -
  let ?exe = "upd_exe u" and ?old = "old_path u" and ?bk = "back_path u"
  let ?P = "{?exe, ?old, ?bk, refused_path u}"
  obtain e1 d1 where r1: "fs_stat ?old d = (e1, d1)" by fastforce
  obtain e2 d2 where r2: "smoke_test prog ?old (pr_previous p) d1 = (e2, d2)" by fastforce
  obtain d3 where r3: "snd (refuse u (pr_installed p) d2) = d3" by simp
  obtain e4 d4 where r4: "fs_rename ?old ?bk d3 = (e4, d4)" by fastforce
  obtain e5 d5 where r5: "fs_rename ?exe ?old d4 = (e5, d5)" by fastforce
  obtain d5' where r5': "snd (fs_rename ?bk ?old d5) = d5'" by simp
  obtain e6 d6 where r6: "fs_rename ?bk ?exe d5 = (e6, d6)" by fastforce
  obtain e7 d7 where r7: "fs_rename ?old ?exe d6 = (e7, d7)" by fastforce
  note eqs = r1 r2 r3 r4 r5 r5' r6 r7
  have f1: "frame {} d d1" using stat_frame [of d ?old] r1 by simp
  have f2: "frame {} d1 d2" using smoke_frame [of d1 prog ?old] r2 by (metis snd_conv)
  have f3: "frame {refused_path u} d2 d3" using refuse_frame r3 by blast
  have F3: "frame ?P d d3"
    by (rule frame_trans [OF frame_trans]) (rule frame_mono [OF f1] frame_mono [OF f2] frame_mono [OF f3], simp)+
  have f4: "frame ?P d3 d4" using rename_frame [of ?old ?bk d3] r4 by (auto intro: frame_mono)
  have f5: "frame ?P d4 d5" using rename_frame [of ?exe ?old d4] r5 by (auto intro: frame_mono)
  have f5': "frame ?P d5 d5'" using rename_frame [of ?bk ?old d5] r5' by (auto intro: frame_mono)
  have f6: "frame ?P d5 d6" using rename_frame [of ?bk ?exe d5] r6 by (auto intro: frame_mono)
  have f7: "frame ?P d6 d7" using rename_frame [of ?old ?exe d6] r7 by (auto intro: frame_mono)
  note F4 = frame_trans [OF F3 f4]
  note F5 = frame_trans [OF F4 f5]
  have at1: "files d1 = files d" "files d2 = files d" using f1 f2 by (auto simp: frame_def)
  have at3: "files d3 ?exe = Some b" "files d3 ?old = files d ?old"
    using frame_at [OF f3] at1 exe by simp_all
  note D = roll_back_def Let_def eqs
  show ?thesis
  proof (cases "e1 = None \<and> e2 = None \<and> e4 = None")
    case False
    have g: "frame ?P d d1" "frame ?P d d2"
      using f1 frame_trans [OF f1 f2] by (auto intro: frame_mono)
    have x4: "e4 \<noteq> None \<Longrightarrow> files d4 ?exe = Some b"
      using r4 at3 by (cases rule: fs_rename_cases) simp_all
    consider (a) x where "e1 = Some x" | (b) x where "e1 = None" "e2 = Some x"
      | (c) x where "e1 = None" "e2 = None" "e4 = Some x"
      using False by (cases e1; cases e2; cases e4) auto
    then show ?thesis
    proof cases
      case a
      then have "d' = d1" "\<exists>y. r = Inl y" using assms(1) [symmetric] by (simp_all add: D)
      moreover have "files d1 ?exe = Some b" using at1 exe by simp
      ultimately show ?thesis using g(1) by (elim exE) simp
    next
      case b
      then have "d' = d2" "\<exists>y. r = Inl y" using assms(1) [symmetric] by (simp_all add: D)
      moreover have "files d2 ?exe = Some b" using at1 exe by simp
      ultimately show ?thesis using g(2) by (elim exE) simp
    next
      case c
      then have "d' = d4" "\<exists>y. r = Inl y" using assms(1) [symmetric] by (simp_all add: D)
      moreover have "files d4 ?exe = Some b" using x4 c by simp
      ultimately show ?thesis using F4 by (elim exE) simp
    qed
  next
    case ok: True
    obtain c where c: "files d3 ?old = Some c" "files d4 = (files d3)(?old := None, ?bk := Some c)"
      using r4 ok by (cases rule: fs_rename_cases) auto
    then have at4: "files d4 ?exe = Some b" "files d4 ?bk = files d ?old" "files d ?old \<noteq> None"
      using at3 by auto
    show ?thesis
    proof (cases e5)
      case (Some x)
      then have "r = Inl (Wrap ''moving the failed binary aside: '' x [])" "d' = d5'"
        using assms(1) [symmetric] ok by (simp_all add: D)
      moreover have "files d5 ?exe = Some b"
        using r5 Some at4 by (cases rule: fs_rename_cases) auto
      then have "files d5' ?exe = Some b"
        using r5' frame_at [OF rename_frame [of ?bk ?old d5], of ?exe] by simp
      ultimately show ?thesis using frame_trans [OF F5 f5'] by simp
    next
      case None
      have at5: "files d5 ?old = Some b" "files d5 ?exe = None" "files d5 ?bk = files d ?old"
        using r5 None at4 by (cases rule: fs_rename_cases; simp)+
      show ?thesis
      proof (cases e6)
        case n6: None
        then have "r = Inr (pr_previous p)" "d' = d6" using assms(1) [symmetric] ok None by (simp_all add: D)
        moreover have "files d6 ?exe = files d ?old" "files d6 ?old = Some b"
          using r6 n6 at5 by (cases rule: fs_rename_cases; simp)+
        ultimately show ?thesis
          using frame_trans [OF F5 f6] smoke_test_ok [of prog ?old "pr_previous p" d1 d2] r2 ok at1
          by auto
      next
        case (Some x)
        then have d': "\<exists>y. r = Inl y" "d' = d7"
          using assms(1) [symmetric] ok None by (cases e7; simp add: D)+
        have at6: "files d6 = files d5" "failures d6 < failures d5"
          using r6 Some at5 at4 by (cases rule: fs_rename_cases; simp)+
        have "files d7 ?exe = Some b \<or>
            files d7 ?exe = None \<and> files d7 ?old = Some b \<and> failures d7 < failures d6"
          using r7 at6 at5 by (cases rule: fs_rename_cases) auto
        then show ?thesis
          using d' at6 frame_trans [OF frame_trans [OF F5 f6] f7] frame_failures [OF F5] by auto
      qed
    qed
  qed
qed

lemma roll_back_frame:
  "frame {upd_exe u, old_path u, back_path u, refused_path u} d (snd (roll_back prog u p d))"
proof -
  let ?exe = "upd_exe u" and ?old = "old_path u" and ?bk = "back_path u"
  let ?P = "{?exe, ?old, ?bk, refused_path u}"
  obtain e1 d1 where r1: "fs_stat ?old d = (e1, d1)" by fastforce
  obtain e2 d2 where r2: "smoke_test prog ?old (pr_previous p) d1 = (e2, d2)" by fastforce
  obtain d3 where r3: "snd (refuse u (pr_installed p) d2) = d3" by simp
  obtain e4 d4 where r4: "fs_rename ?old ?bk d3 = (e4, d4)" by fastforce
  obtain e5 d5 where r5: "fs_rename ?exe ?old d4 = (e5, d5)" by fastforce
  obtain e6 d6 where r6: "fs_rename ?bk ?exe d5 = (e6, d6)" by fastforce
  obtain e7 d7 where r7: "fs_rename ?old ?exe d6 = (e7, d7)" by fastforce
  have R: "frame ?P x (snd (fs_rename a b x))" if "a \<in> ?P" "b \<in> ?P" for a b x
    by (rule frame_mono [OF rename_frame]) (use that in auto)
  have f1: "frame ?P d d1" using frame_mono [OF stat_frame [of d ?old], of ?P] r1 by simp
  have f2: "frame ?P d d2"
    using frame_trans [OF f1 frame_mono [OF smoke_frame [of d1 prog ?old "pr_previous p"], of ?P]] r2 by simp
  have f3: "frame ?P d d3"
    using frame_trans [OF f2 frame_mono [OF refuse_frame [of u d2 "pr_installed p"], of ?P]] r3 by simp
  have f4: "frame ?P d d4" using frame_trans [OF f3 R [of ?old ?bk d3]] r4 by simp
  have f5: "frame ?P d d5" using frame_trans [OF f4 R [of ?exe ?old d4]] r5 by simp
  have f5': "frame ?P d (snd (fs_rename ?bk ?old d5))" using frame_trans [OF f5 R [of ?bk ?old d5]] by simp
  have f6: "frame ?P d d6" using frame_trans [OF f5 R [of ?bk ?exe d5]] r6 by simp
  have f7: "frame ?P d d7" using frame_trans [OF f6 R [of ?old ?exe d6]] r7 by simp
  show ?thesis
    using f1 f2 f4 f5' f6 f7
    by (cases e1; cases e2; cases e4; cases e5; cases e6; cases e7)
      (simp_all add: roll_back_def Let_def r1 r2 r3 r4 r5 r6 r7)
qed

section \<open>One failure never leaves the machine without a program\<close>

definition keeps :: "updater \<Rightarrow> blob disk \<Rightarrow> blob disk \<Rightarrow> bool" where
  "keeps u d d' \<longleftrightarrow> failures d' \<le> failures d \<and>
     (files d (upd_exe u) \<noteq> None \<and> failures d \<le> 1 \<longrightarrow> files d' (upd_exe u) \<noteq> None)"

lemma keeps_frame: "frame P d d' \<Longrightarrow> upd_exe u \<notin> P \<Longrightarrow> keeps u d d'"
  by (simp add: keeps_def frame_def)

lemma keeps_trans: "keeps u d d1 \<Longrightarrow> keeps u d1 d2 \<Longrightarrow> keeps u d d2"
  by (auto simp: keeps_def)

lemma roll_back_keeps: "keeps u d (snd (roll_back prog u p d))"
proof (cases "files d (upd_exe u)")
  case None
  obtain r d' where r: "roll_back prog u p d = (r, d')" by fastforce
  show ?thesis using frame_failures [OF roll_back_frame [of u d prog p]] None by (simp add: keeps_def r)
next
  case (Some b)
  obtain r d' where r: "roll_back prog u p d = (r, d')" by fastforce
  from roll_back_cases [OF r Some] show ?thesis
    by (cases r) (auto simp: keeps_def r Some frame_def)
qed

lemma start_keeps: "keeps u d (snd (start_up prog u d))"
proof -
  obtain q d1 where q: "read_probation u d = (q, d1)" by fastforce
  have 1: "keeps u d d1" using probation_frame [of d u] q by (auto intro: keeps_frame)
  show ?thesis
  proof (cases q)
    case None
    have "keeps u d1 (remove_old u d1)" by (rule keeps_frame [OF remove_old_frame]) simp
    with 1 show ?thesis using keeps_trans by (simp add: start_up_def q None)
  next
    case (Some p0)
    let ?p = "p0\<lparr>pr_starts := pr_starts p0 + 1\<rparr>"
    obtain r d2 where r: "roll_back prog u ?p d1 = (r, d2)" by fastforce
    have 2: "keeps u d1 d2" using roll_back_keeps [of u d1 prog ?p] r by simp
    have 3: "keeps u d2 (snd (fs_remove (probation_path u) d2))"
      by (rule keeps_frame [OF remove_frame]) simp
    have 4: "keeps u d1 (snd (fs_write (Bytes []) (probation_path u) (State ?p) d1))"
      by (rule keeps_frame [OF write_frame]) simp
    have "snd (start_up prog u d) = (if pr_starts ?p \<le> probation_starts
        then snd (fs_write (Bytes []) (probation_path u) (State ?p) d1)
        else snd (fs_remove (probation_path u) d2))"
      by (simp add: start_up_def q Some r Let_def split: sum.splits)
    then show ?thesis using keeps_trans [OF 1 4] keeps_trans [OF keeps_trans [OF 1 2] 3] by presburger
  qed
qed

lemma download_ok:
  assumes "download sha r rep p d = (None, d')"
  shows "\<exists>line body. rep = Reply 200 line body \<and> equal_fold (sha body) (rel_sha256 r) \<and>
    files d' = (files d)(p := Some (Bytes body))"
proof (cases rep)
  case (NoReply e)
  with assms show ?thesis by (simp add: download_def)
next
  case (Reply status line body)
  obtain e d1 where w: "fs_write (Bytes []) p (Bytes body) d = (e, d1)" by fastforce
  have "e = None \<and> status = 200 \<and> equal_fold (sha body) (rel_sha256 r) \<and> d' = d1"
    using assms Reply w by (auto simp: download_def split: option.splits if_splits)
  moreover have "e = None \<Longrightarrow> files d1 = (files d)(p := Some (Bytes body))"
    using w by (cases rule: fs_write_cases) auto
  ultimately show ?thesis using Reply by auto
qed

lemma swap_in_frame: "frame {upd_exe u, old_path u, staged} d (snd (swap_in u staged d))"
proof -
  let ?exe = "upd_exe u" and ?old = "old_path u"
  let ?P = "{?exe, ?old, staged}"
  obtain d1 where r1: "snd (fs_remove ?old d) = d1" by simp
  obtain e2 d2 where r2: "fs_rename ?exe ?old d1 = (e2, d2)" by fastforce
  obtain e3 d3 where r3: "fs_rename staged ?exe d2 = (e3, d3)" by fastforce
  obtain e4 d4 where r4: "fs_rename ?old ?exe d3 = (e4, d4)" by fastforce
  have R: "frame ?P x (snd (fs_rename a b x))" if "a \<in> ?P" "b \<in> ?P" for a b x
    by (rule frame_mono [OF rename_frame]) (use that in auto)
  have f1: "frame ?P d d1" using frame_mono [OF remove_frame [of ?old d], of ?P] r1 by simp
  have f2: "frame ?P d d2" using frame_trans [OF f1 R [of ?exe ?old d1]] r2 by simp
  have f3: "frame ?P d d3" using frame_trans [OF f2 R [of staged ?exe d2]] r3 by simp
  have f4: "frame ?P d d4" using frame_trans [OF f3 R [of ?old ?exe d3]] r4 by simp
  show ?thesis
    using f2 f3 f4
    by (cases e2; cases e3; cases e4) (simp_all add: swap_in_def Let_def r1 r2 r3 r4)
qed

lemma install_frame:
  "frame {upd_exe u, old_path u, new_path u, probation_path u} d (snd (install sha prog u r rep now d))"
proof -
  let ?P = "{upd_exe u, old_path u, new_path u, probation_path u}"
  obtain e1 d1 where r1: "download sha r rep (new_path u) d = (e1, d1)" by fastforce
  obtain e2 d2 where r2: "smoke_test prog (new_path u) (rel_version r) d1 = (e2, d2)" by fastforce
  obtain e3 d3 where r3: "swap_in u (new_path u) d2 = (e3, d3)" by fastforce
  obtain d4 where r4: "snd (begin_probation u (rel_version r) (upd_current u) now d3) = d4" by simp
  have f1: "frame ?P d d1"
    using frame_mono [OF download_frame [of "new_path u" d sha r rep], of ?P] r1 by simp
  have f2: "frame ?P d1 d2"
    using frame_mono [OF smoke_frame [of d1 prog "new_path u" "rel_version r"], of ?P] r2 by simp
  have f3: "frame ?P d2 d3" using frame_mono [OF swap_in_frame [of u "new_path u" d2], of ?P] r3 by auto
  have f4: "frame ?P d3 d4" using frame_mono [OF begin_frame, of u ?P] r4 by blast
  have rm: "frame ?P x (snd (fs_remove (new_path u) x))" for x
    by (rule frame_mono [OF remove_frame]) simp
  note f12 = frame_trans [OF f1 f2]
  note f13 = frame_trans [OF f12 f3]
  show ?thesis
    using frame_trans [OF f1 rm] frame_trans [OF f12 rm] frame_trans [OF f13 rm]
      frame_trans [OF frame_trans [OF f13 f4] rm]
    by (simp add: install_def Let_def r1 r2 r3 r4 split: option.splits)
qed

text \<open>An installation, step by step: what was put in place and what is left when it failed.\<close>

lemma install_cases:
  assumes "install sha prog u r rep now d = (e, d')" and exe: "files d (upd_exe u) = Some b"
  shows "failures d' \<le> failures d \<and>
    (e = None \<longrightarrow> (\<exists>line body out. rep = Reply 200 line body \<and>
      equal_fold (sha body) (rel_sha256 r) \<and> prog body = (True, out) \<and>
      contains_str (rel_version r) out \<and>
      files d' (upd_exe u) = Some (Bytes body) \<and> files d' (old_path u) = Some b)) \<and>
    (e \<noteq> None \<longrightarrow> files d' (upd_exe u) = Some b \<or>
      files d' (upd_exe u) = None \<and> files d' (old_path u) = Some b \<and> failures d' + 2 \<le> failures d)"
proof -
  let ?exe = "upd_exe u" and ?old = "old_path u" and ?new = "new_path u"
  obtain e1 d1 where r1: "download sha r rep ?new d = (e1, d1)" by fastforce
  obtain e2 d2 where r2: "smoke_test prog ?new (rel_version r) d1 = (e2, d2)" by fastforce
  obtain e3 d3 where r3: "swap_in u ?new d2 = (e3, d3)" by fastforce
  obtain d4 where r4: "snd (begin_probation u (rel_version r) (upd_current u) now d3) = d4" by simp
  have f1: "frame {?new} d d1" using download_frame r1 by (metis snd_conv)
  have f2: "frame {} d1 d2" using smoke_frame r2 by (metis snd_conv)
  have f4: "frame {probation_path u} d3 d4" using begin_frame r4 by blast
  have rm: "\<And>x. frame {?new} x (snd (fs_remove ?new x))" by (rule remove_frame)
  have at2: "files d2 ?exe = Some b" "failures d2 \<le> failures d" "files d2 = files d1"
    using frame_at [OF f1, of ?exe] f2 f1 exe by (auto simp: frame_def)
  note D = install_def Let_def r1 r2 r3 r4
  show ?thesis
  proof (cases e1)
    case (Some x)
    then have "d' = snd (fs_remove ?new d1)" "e = Some x" using assms(1) [symmetric] by (simp_all add: D)
    then show ?thesis
      using frame_at [OF frame_trans [OF f1 rm [of d1]], of ?exe] frame_failures [OF frame_trans [OF f1 rm [of d1]]] exe
      by simp
  next
    case n1: None
    obtain line body where body: "rep = Reply 200 line body" "equal_fold (sha body) (rel_sha256 r)"
      "files d1 ?new = Some (Bytes body)" using download_ok r1 n1 by fastforce
    show ?thesis
    proof (cases e2)
      case (Some x)
      then have "d' = snd (fs_remove ?new d2)" "e = Some x"
        using assms(1) [symmetric] n1 by (simp_all add: D)
      then show ?thesis
        using frame_at [OF rm [of d2], of ?exe] frame_failures [OF rm [of d2]] at2 by simp
    next
      case n2: None
      obtain out where out: "prog body = (True, out)" "contains_str (rel_version r) out"
        using smoke_test_ok r2 [unfolded n2] body(3) by fastforce
      have new2: "files d2 ?new = Some (Bytes body)" using at2 body(3) by simp
      note sw = swap_in_cases [OF r3 at2(1) new2]
      show ?thesis
      proof (cases e3)
        case (Some x)
        then have d': "d' = snd (fs_remove ?new d3)" "e = Some x"
          using assms(1) [symmetric] n1 n2 by (simp_all add: D)
        have "files d' ?exe = files d3 ?exe" "files d' ?old = files d3 ?old" "failures d' \<le> failures d3"
          using frame_at [OF rm [of d3], of ?exe] frame_at [OF rm [of d3], of ?old] frame_failures [OF rm [of d3]] d'
          by simp_all
        then show ?thesis using sw Some d'(2) at2(2) by (auto simp: frame_def)
      next
        case n3: None
        then have d': "d' = snd (fs_remove ?new d4)" "e = None"
          using assms(1) [symmetric] n1 n2 by (simp_all add: D)
        have "files d' ?exe = files d3 ?exe" "files d' ?old = files d3 ?old" "failures d' \<le> failures d3"
          using frame_at [OF rm [of d4], of ?exe] frame_at [OF rm [of d4], of ?old] frame_failures [OF rm [of d4]] d'
            frame_at [OF f4, of ?exe] frame_at [OF f4, of ?old] frame_failures [OF f4] by simp_all
        then show ?thesis using sw n3 d'(2) at2(2) body out by (auto simp: frame_def)
      qed
    qed
  qed
qed

lemma install_failures: "failures (snd (install sha prog u r rep now d)) \<le> failures d"
  using frame_failures [OF install_frame] by blast

text \<open>What \<open>Apply\<close> comes to.\<close>

lemma apply_shape:
  obtains (idle) r where "apply_update sha prog u source rep now d = (r, d)" "\<And>x. r \<noteq> Inr (Some x)"
  | (run) x q d1 e2 d2 e3 d3 where "source = Some (Inr x)" "newer (upd_current u) (rel_version x)"
    "rel_sha256 x \<noteq> []" "refuses u (rel_version x) d = (q, d1)" "writable u d1 = (e2, d2)"
    "install sha prog u x rep now d2 = (e3, d3)"
    "apply_update sha prog u source rep now d = (if q then (Inr None, d1) else case e2 of
       Some e \<Rightarrow> (Inl e, d2)
     | None \<Rightarrow> (case e3 of Some e \<Rightarrow> (Inl e, d3) | None \<Rightarrow> (Inr (Some x), d3)))"
proof (cases "\<exists>x. source = Some (Inr x) \<and> rel_sha256 x \<noteq> [] \<and> rel_url x \<noteq> [] \<and>
    newer (upd_current u) (rel_version x)")
  case True
  then obtain x where x: "source = Some (Inr x)" "rel_sha256 x \<noteq> []" "rel_url x \<noteq> []"
    "newer (upd_current u) (rel_version x)" by blast
  obtain q d1 where q: "refuses u (rel_version x) d = (q, d1)" by fastforce
  obtain e2 d2 where w: "writable u d1 = (e2, d2)" by fastforce
  obtain e3 d3 where i: "install sha prog u x rep now d2 = (e3, d3)" by fastforce
  show thesis
  proof (rule run [OF x(1,4,2) q w i])
    show "apply_update sha prog u source rep now d = (if q then (Inr None, d1) else case e2 of
       Some e \<Rightarrow> (Inl e, d2)
     | None \<Rightarrow> (case e3 of Some e \<Rightarrow> (Inl e, d3) | None \<Rightarrow> (Inr (Some x), d3)))"
      by (cases q; cases e2; cases e3) (simp_all add: apply_update_def x q w i)
  qed
next
  case False
  then have "snd (apply_update sha prog u source rep now d) = d \<and>
      (\<forall>x. fst (apply_update sha prog u source rep now d) \<noteq> Inr (Some x))"
    by (auto simp: apply_update_def split: option.splits sum.splits)
  then show thesis by (intro idle [of "fst (apply_update sha prog u source rep now d)"])
      (auto simp: prod_eq_iff)
qed

lemma apply_cases:
  assumes "apply_update sha prog u source rep now d = (r, d')" and exe: "files d (upd_exe u) = Some b"
  shows "failures d' \<le> failures d \<and>
    (\<forall>x. r = Inr (Some x) \<longrightarrow> (\<exists>line body out d1. source = Some (Inr x) \<and>
      newer (upd_current u) (rel_version x) \<and> rel_sha256 x \<noteq> [] \<and> refuses u (rel_version x) d = (False, d1) \<and>
      rep = Reply 200 line body \<and> equal_fold (sha body) (rel_sha256 x) \<and>
      prog body = (True, out) \<and> contains_str (rel_version x) out \<and>
      files d' (upd_exe u) = Some (Bytes body) \<and> files d' (old_path u) = Some b)) \<and>
    (r = Inr None \<longrightarrow> files d' = files d) \<and>
    (\<forall>e. r = Inl e \<longrightarrow> files d' (upd_exe u) = Some b \<or>
      files d' (upd_exe u) = None \<and> files d' (old_path u) = Some b \<and> failures d' + 2 \<le> failures d)"
proof (rule apply_shape [of sha prog u source rep now d])
  fix r' assume "apply_update sha prog u source rep now d = (r', d)" "\<And>x. r' \<noteq> Inr (Some x)"
  with assms show ?thesis by auto
next
  fix x q d1 e2 d2 e3 d3
  assume x: "source = Some (Inr x)" "newer (upd_current u) (rel_version x)" "rel_sha256 x \<noteq> []"
    and q: "refuses u (rel_version x) d = (q, d1)" and w: "writable u d1 = (e2, d2)"
    and i: "install sha prog u x rep now d2 = (e3, d3)"
    and out: "apply_update sha prog u source rep now d = (if q then (Inr None, d1) else case e2 of
       Some e \<Rightarrow> (Inl e, d2)
     | None \<Rightarrow> (case e3 of Some e \<Rightarrow> (Inl e, d3) | None \<Rightarrow> (Inr (Some x), d3)))"
  have f1: "files d1 = files d" "failures d1 \<le> failures d"
    using refuses_frame [of d u "rel_version x"] q by (auto simp: frame_def)
  have f2: "files d2 (upd_exe u) = Some b" "failures d2 \<le> failures d"
    using frame_at [OF writable_frame [of u d1], of "upd_exe u"]
      frame_failures [OF writable_frame [of u d1]] w f1 exe by simp_all
  note I = install_cases [OF i f2(1)]
  note out' = out [unfolded assms(1)]
  show ?thesis
  proof (cases q)
    case True
    with out' f1 exe show ?thesis by simp
  next
    case nq: False
    show ?thesis
    proof (cases e2)
      case (Some e)
      with out' nq f2 show ?thesis by auto
    next
      case n2: None
      show ?thesis
      proof (cases e3)
        case (Some e)
        with out' nq n2 have "r = Inl e" "d' = d3" by simp_all
        with I Some f2(2) show ?thesis by auto
      next
        case None
        with out' nq n2 have "r = Inr (Some x)" "d' = d3" by simp_all
        with I None f2(2) q nq x show ?thesis by auto
      qed
    qed
  qed
qed

lemma apply_failures: "failures (snd (apply_update sha prog u source rep now d)) \<le> failures d"
proof (rule apply_shape [of sha prog u source rep now d])
  fix x q d1 e2 d2 e3 d3
  assume q: "refuses u (rel_version x) d = (q, d1)" and w: "writable u d1 = (e2, d2)"
    and i: "install sha prog u x rep now d2 = (e3, d3)"
    and out: "apply_update sha prog u source rep now d = (if q then (Inr None, d1) else case e2 of
       Some e \<Rightarrow> (Inl e, d2)
     | None \<Rightarrow> (case e3 of Some e \<Rightarrow> (Inl e, d3) | None \<Rightarrow> (Inr (Some x), d3)))"
  have "failures d1 \<le> failures d" "failures d2 \<le> failures d1" "failures d3 \<le> failures d2"
    using frame_failures [OF refuses_frame [of d u "rel_version x"]]
      frame_failures [OF writable_frame [of u d1]] install_failures [of sha prog u x rep now d2] q w i
    by simp_all
  then show ?thesis unfolding out by (cases q; cases e2; cases e3) simp_all
qed simp

lemma step_keeps: "keeps u d (up_step sha prog u ev d)"
proof (cases ev)
  case EvStart
  then show ?thesis by (simp add: start_keeps)
next
  case EvSettle
  then show ?thesis by (simp add: keeps_frame [OF settle_frame])
next
  case EvForget
  then show ?thesis by (simp add: keeps_frame [OF forget_frame])
next
  case (EvApply current source rep now)
  let ?u = "u\<lparr>upd_current := current\<rparr>"
  obtain r d' where r: "apply_update sha prog ?u source rep now d = (r, d')" by fastforce
  show ?thesis
  proof (cases "files d (upd_exe u)")
    case None
    then show ?thesis using apply_failures [of sha prog ?u source rep now d] EvApply by (simp add: keeps_def)
  next
    case (Some b)
    with apply_cases [OF r, of b] show ?thesis
      by (cases r) (auto simp: keeps_def EvApply r split: option.splits)
  qed
qed

text \<open>C12: a single failure never leaves the machine without a program. However many starts, settled
  probations, cleared lists and updates follow each other, and whatever the server and the binaries
  answer, as long as at most one operation on the disk fails there is a program at the path the service
  manager starts.\<close>

theorem always_a_program:
  assumes "files d (upd_exe u) \<noteq> None" and "failures d \<le> 1"
  shows "files (up_run sha prog u evs d) (upd_exe u) \<noteq> None"
  using assms
proof (induction evs arbitrary: d)
  case Nil
  then show ?case by simp
next
  case (Cons ev evs)
  let ?d = "up_step sha prog u ev d"
  have "files ?d (upd_exe u) \<noteq> None" "failures ?d \<le> 1"
    using step_keeps [of u d sha prog ev] Cons.prems by (auto simp: keeps_def)
  from Cons.IH [OF this] show ?case by simp
qed

definition sample_updater :: updater where
  "sample_updater = \<lparr>upd_exe = ''/b/s'', upd_current = ''v1.0.0''\<rparr>"

definition sample_release :: release where
  "sample_release = \<lparr>rel_version = ''v1.1.0'', rel_url = ''https://h/s'', rel_sha256 = ''AB''\<rparr>"

text \<open>A machine where a binary reports the version its bytes are named after.\<close>

definition sample_prog :: prog where
  "sample_prog b = (b \<noteq> ''broken'', ''sion-backup '' @ b)"

definition sample_update :: up_event where
  "sample_update = EvApply ''v1.0.0'' (Some (Inr sample_release)) (Reply 200 ''200 OK'' ''v1.1.0'') 0"

definition installed_disk :: "faults \<Rightarrow> blob disk" where
  "installed_disk fs = \<lparr>files = [''/b/s'' \<mapsto> Bytes ''v1.0.0''], disk_faults = fs\<rparr>"

theorem always_a_program_witness:
  "files (up_run (\<lambda>_. ''ab'') sample_prog sample_updater [sample_update, EvStart, EvStart]
     (installed_disk [False, False, False, False, False, False, False, False, True])) ''/b/s'' \<noteq> None"
proof -
  let ?d = "installed_disk [False, False, False, False, False, False, False, False, True]"
  have "files ?d (upd_exe sample_updater) \<noteq> None" "failures ?d \<le> 1" by code_simp+
  from always_a_program [OF this, of "\<lambda>_. ''ab''" sample_prog "[sample_update, EvStart, EvStart]"]
  show ?thesis by (simp add: sample_updater_def)
qed



section \<open>Two ways an update goes wrong\<close>

text \<open>A probe that could not be removed stays, and from then on the program counts as not writable: no
  release is installed any more, and every attempt reports a directory that may not be written.\<close>

theorem leftover_probe_blocks_updates:
  assumes "works d" and "files d (probe_path u) \<noteq> None"
    and "rel_sha256 r \<noteq> []" "rel_url r \<noteq> []" "newer (upd_current u) (rel_version r)"
    and "\<not> fst (refuses u (rel_version r) d)"
  shows "\<exists>e. apply_update sha prog u (Some (Inr r)) rep now d = (Inl e, d) \<and> err_is ErrNotWritable e"
proof -
  have "snd (refuses u (rel_version r) d) = d"
    using assms(1) by (auto simp: refuses_def refused_def works_ops split: option.splits blob.splits)
  with assms(6) have "refuses u (rel_version r) d = (False, d)" by (metis prod.collapse)
  with assms show ?thesis
    by (auto simp: apply_update_def writable_def works_ops ErrNotWritable_def)
qed

text \<open>After an installation whose two renames both failed, the program is only at the name it was put
  aside under, and the next update begins by removing it: no copy is left.\<close>

theorem second_update_deletes_last_copy:
  "(let d1 = up_step (\<lambda>_. ''ab'') sample_prog sample_updater sample_update
       (installed_disk [False, False, False, False, False, False, False, False, True, True]);
     d2 = up_step (\<lambda>_. ''ab'') sample_prog sample_updater sample_update d1
   in files d1 ''/b/s'' = None \<and> files d1 ''/b/s.old'' = Some (Bytes ''v1.0.0'') \<and> disk_faults d1 = [] \<and>
      files d2 ''/b/s'' = None \<and> files d2 ''/b/s.old'' = None \<and> files d2 ''/b/s.new'' = None)"
  by code_simp

end
