(* ===== verification/UpdateSpec.thy ===== *)
theory UpdateSpec
  imports UpdateSafety
begin

text \<open>
  What the updater promises, as a machine that knows nothing of files: the program, the one beside it,
  the trial it is on and the versions that were given up on. On a disk that works the operations of
  theory \<open>SelfUpdate\<close> refine the steps of this machine; that the third failed start is the last and that
  a version given up on stays away are proved of the machine and hold of the updater.
\<close>

section \<open>The machine\<close>

record watch =
  w_program :: "blob option"
  w_back :: "blob option"
  w_trial :: "probation option"
  w_refused :: "string list"

definition runs_as :: "prog \<Rightarrow> string \<Rightarrow> blob option \<Rightarrow> bool" where
  "runs_as prog v b =
     (case b of Some (Bytes c) \<Rightarrow> fst (prog c) \<and> contains_str v (snd (prog c)) | _ \<Rightarrow> False)"

definition add_refused :: "string \<Rightarrow> string list \<Rightarrow> string list" where
  "add_refused v vs = (if v \<in> set vs then vs else last_refused (vs @ [v]))"

definition a_start :: "prog \<Rightarrow> watch \<Rightarrow> up_outcome \<times> watch" where
  "a_start prog w =
     (case w_trial w of
        None \<Rightarrow> (Nothing, w\<lparr>w_back := None\<rparr>)
      | Some p \<Rightarrow>
          if pr_starts p < 3 then (OnProbation, w\<lparr>w_trial := Some (p\<lparr>pr_starts := pr_starts p + 1\<rparr>)\<rparr>)
          else if runs_as prog (pr_previous p) (w_back w)
          then (RolledBack, \<lparr>w_program = w_back w, w_back = w_program w, w_trial = None,
                  w_refused = add_refused (pr_installed p) (w_refused w)\<rparr>)
          else (Stuck, w\<lparr>w_trial := None\<rparr>))"

definition a_settle :: "watch \<Rightarrow> watch" where
  "a_settle w = (if w_trial w = None then w else w\<lparr>w_back := None, w_trial := None\<rparr>)"

definition a_forget :: "watch \<Rightarrow> watch" where
  "a_forget w = w\<lparr>w_refused := []\<rparr>"

text \<open>What a download comes to: its bytes when they are the release's and run as it, and the release an
  update installs.\<close>

definition fetched :: "(string \<Rightarrow> string) \<Rightarrow> prog \<Rightarrow> release \<Rightarrow> reply \<Rightarrow> string option" where
  "fetched sha prog r rep =
     (case rep of
        Reply status line body \<Rightarrow>
          if status = 200 \<and> equal_fold (sha body) (rel_sha256 r) \<and>
            runs_as prog (rel_version r) (Some (Bytes body))
          then Some body else None
      | NoReply e \<Rightarrow> None)"

definition to_install ::
  "(string \<Rightarrow> string) \<Rightarrow> prog \<Rightarrow> string \<Rightarrow> release res option \<Rightarrow> reply \<Rightarrow> watch \<Rightarrow> (release \<times> string) option" where
  "to_install sha prog current source rep w =
     (case source of
        Some (Inr r) \<Rightarrow>
          if rel_sha256 r \<noteq> [] \<and> rel_url r \<noteq> [] \<and> newer current (rel_version r) \<and>
            rel_version r \<notin> set (w_refused w)
          then map_option (Pair r) (fetched sha prog r rep) else None
      | _ \<Rightarrow> None)"

fun a_step :: "(string \<Rightarrow> string) \<Rightarrow> prog \<Rightarrow> up_event \<Rightarrow> watch \<Rightarrow> watch" where
  "a_step sha prog EvStart w = snd (a_start prog w)"
| "a_step sha prog EvSettle w = a_settle w"
| "a_step sha prog EvForget w = a_forget w"
| "a_step sha prog (EvApply current source rep now) w =
     (case to_install sha prog current source rep w of
        None \<Rightarrow> w
      | Some (r, body) \<Rightarrow>
          w\<lparr>w_program := Some (Bytes body), w_back := w_program w,
            w_trial := Some \<lparr>pr_installed = rel_version r, pr_previous = current, pr_starts = 0,
              pr_began = now\<rparr>\<rparr>)"

section \<open>The list of versions given up on\<close>

definition plain :: "string \<Rightarrow> bool" where
  "plain v \<longleftrightarrow> v \<noteq> [] \<and> newline \<notin> set v \<and> trim_space v = v"

lemma trim_space_Nil [simp]: "trim_space [] = []"
  by (rule trim_space_graph) simp

lemma refused_lines_join:
  assumes "\<forall>v\<in>set vs. plain v"
  shows "refused_lines (join_with [newline] vs @ [newline]) = vs"
proof (cases "vs = []")
  case True
  then show ?thesis by (simp add: refused_lines_def)
next
  case False
  have split: "split_on newline (join_with [newline] vs @ [newline]) = vs @ [[]]"
    using False assms
  proof (induction vs)
    case Nil
    then show ?case by simp
  next
    case (Cons v vs)
    then have v: "newline \<notin> set v" by (simp add: plain_def)
    show ?case
    proof (cases vs)
      case Nil
      then show ?thesis using v by (simp add: split_on_append [of newline v "[]", simplified])
    next
      case (Cons y ys)
      then show ?thesis
        using v Cons.IH Cons.prems split_on_append [OF v, of "join_with [newline] vs @ [newline]"] by simp
    qed
  qed
  have "map trim_space vs = vs" using assms by (simp add: plain_def map_idI)
  moreover have "filter (\<lambda>v. v \<noteq> []) vs = vs" using assms by (simp add: plain_def filter_id_conv)
  ultimately show ?thesis by (simp add: refused_lines_def split)
qed

lemma plain_add_refused: "\<forall>v\<in>set vs. plain v \<Longrightarrow> plain v \<Longrightarrow> \<forall>x\<in>set (add_refused v vs). plain x"
  by (auto simp: add_refused_def last_refused_def dest: in_set_dropD)

section \<open>The abstraction\<close>

definition trial_of :: "updater \<Rightarrow> blob disk \<Rightarrow> probation option" where
  "trial_of u d =
     (case files d (probation_path u) of
        Some (State p) \<Rightarrow> if pr_installed p \<noteq> [] then Some p else None
      | _ \<Rightarrow> None)"

definition refused_of :: "updater \<Rightarrow> blob disk \<Rightarrow> string list" where
  "refused_of u d = (case files d (refused_path u) of Some (Bytes t) \<Rightarrow> refused_lines t | _ \<Rightarrow> [])"

definition abs_watch :: "updater \<Rightarrow> blob disk \<Rightarrow> watch" where
  "abs_watch u d =
     \<lparr>w_program = files d (upd_exe u), w_back = files d (old_path u), w_trial = trial_of u d,
      w_refused = refused_of u d\<rparr>"

definition watch_ok :: "updater \<Rightarrow> blob disk \<Rightarrow> bool" where
  "watch_ok u d \<longleftrightarrow> works d \<and> files d (upd_exe u) \<noteq> None \<and> files d (probe_path u) = None \<and>
     (\<forall>v\<in>set (refused_of u d). plain v) \<and>
     (case trial_of u d of None \<Rightarrow> True | Some p \<Rightarrow> plain (pr_installed p))"

lemma read_probation_works: "works d \<Longrightarrow> read_probation u d = (trial_of u d, d)"
  by (auto simp: read_probation_def trial_of_def works_ops split: option.splits blob.splits)

lemma refused_works: "works d \<Longrightarrow> refused u d = (refused_of u d, d)"
  by (auto simp: refused_def refused_of_def works_ops split: option.splits blob.splits)

lemma smoke_works:
  "works d \<Longrightarrow> \<exists>e. smoke_test prog p want d = (e, d) \<and> (e = None \<longleftrightarrow> runs_as prog want (files d p))"
  by (auto simp: smoke_test_def works_step runs_as_def Let_def split: option.splits blob.splits prod.splits)

lemma refuse_works:
  assumes "works d" and "\<forall>v\<in>set (refused_of u d). plain v" and "plain v"
  shows "\<exists>x. snd (refuse u v d) = d\<lparr>files := (files d)(refused_path u := x)\<rparr> \<and>
    refused_of u (snd (refuse u v d)) = add_refused v (refused_of u d)"
proof (cases "v \<in> set (refused_of u d)")
  case True
  then have "refuse u v d = (None, d)" using assms(1) by (simp add: refuse_def refused_works)
  then show ?thesis using True
    by (intro exI [of _ "files d (refused_path u)"]) (simp add: add_refused_def)
next
  case False
  let ?vs = "last_refused (refused_of u d @ [v])"
  have "\<forall>x\<in>set ?vs. plain x" using plain_add_refused [OF assms(2,3)] False by (simp add: add_refused_def)
  then have "refused_lines (join_with [newline] ?vs @ [newline]) = ?vs" by (rule refused_lines_join)
  then show ?thesis using False assms(1)
    by (intro exI [of _ "Some (Bytes (join_with [newline] ?vs @ [newline]))"])
      (simp add: refuse_def refused_works works_ops refused_of_def [of u "_\<lparr>files := _\<rparr>"] add_refused_def)
qed

lemma of_files:
  "trial_of u (d\<lparr>files := f\<rparr>) = (case f (probation_path u) of
     Some (State p) \<Rightarrow> if pr_installed p \<noteq> [] then Some p else None | _ \<Rightarrow> None)"
  "refused_of u (d\<lparr>files := f\<rparr>) = (case f (refused_path u) of Some (Bytes t) \<Rightarrow> refused_lines t | _ \<Rightarrow> [])"
  by (simp_all add: trial_of_def refused_of_def)

section \<open>Each operation refines its step\<close>

lemma roll_back_works:
  assumes "works d" and "files d (upd_exe u) = Some b" and "\<forall>v\<in>set (refused_of u d). plain v"
    and "plain (pr_installed p)" and "roll_back prog u p d = (r, d')"
  shows "works d' \<and> files d' (probe_path u) = files d (probe_path u) \<and>
    (if runs_as prog (pr_previous p) (files d (old_path u))
     then r = Inr (pr_previous p) \<and> files d' (upd_exe u) = files d (old_path u) \<and>
       files d' (old_path u) = Some b \<and> refused_of u d' = add_refused (pr_installed p) (refused_of u d)
     else is_ok r = False \<and> d' = d)"
proof (cases "runs_as prog (pr_previous p) (files d (old_path u))")
  case False
  obtain e where "smoke_test prog (old_path u) (pr_previous p) d = (e, d)" "e \<noteq> None"
    using smoke_works [OF assms(1)] False by blast
  then show ?thesis using assms(1,5) False
    by (auto simp: roll_back_def Let_def works_ops split: if_splits)
next
  case True
  obtain c where c: "files d (old_path u) = Some c" using True by (auto simp: runs_as_def split: option.splits)
  have sm: "smoke_test prog (old_path u) (pr_previous p) d = (None, d)"
    using smoke_works [OF assms(1)] True by blast
  obtain x where x: "snd (refuse u (pr_installed p) d) = d\<lparr>files := (files d)(refused_path u := x)\<rparr>"
    "refused_of u (snd (refuse u (pr_installed p) d)) = add_refused (pr_installed p) (refused_of u d)"
    using refuse_works [OF assms(1,3,4)] by blast
  have "(r, d') = (Inr (pr_previous p), d\<lparr>files := (files d)(refused_path u := x, old_path u := Some b,
      upd_exe u := Some c, back_path u := None)\<rparr>)"
    using assms(5) [symmetric] assms(1,2) c
    by (simp add: roll_back_def Let_def works_ops sm x(1) fun_upd_twist fun_eq_iff)
  then show ?thesis using True assms(1) c x by (simp add: of_files)
qed

lemma remove_old_works:
  "works d \<Longrightarrow> remove_old u d = d\<lparr>files := (files d)(old_path u := None)\<rparr>"
  by (cases "files d (old_path u) = None") (simp_all add: remove_old_def works_ops fun_upd_idem)

lemma start_refines:
  assumes "watch_ok u d" and "start_up prog u d = (s, d')"
  shows "(st_outcome s, abs_watch u d') = a_start prog (abs_watch u d) \<and> watch_ok u d'"
proof (cases "trial_of u d")
  case None
  then have "s = \<lparr>st_outcome = Nothing, st_version = [], st_failed = [], st_starts = 0\<rparr>"
    "d' = d\<lparr>files := (files d)(old_path u := None)\<rparr>"
    using assms(1) assms(2) [symmetric]
    by (simp_all add: watch_ok_def start_up_def read_probation_works remove_old_works)
  moreover from this have "trial_of u d' = trial_of u d" "refused_of u d' = refused_of u d"
    by (simp_all add: trial_of_def refused_of_def)
  ultimately show ?thesis using assms(1) None
    by (simp add: a_start_def abs_watch_def watch_ok_def)
next
  case (Some p)
  let ?q = "p\<lparr>pr_starts := pr_starts p + 1\<rparr>"
  have w: "works d" and pl: "plain (pr_installed p)" and rf: "\<forall>v\<in>set (refused_of u d). plain v"
    and pb: "files d (probe_path u) = None" and pn: "pr_installed p \<noteq> []"
    using assms(1) Some by (auto simp: watch_ok_def plain_def)
  obtain b where b: "files d (upd_exe u) = Some b" using assms(1) by (auto simp: watch_ok_def)
  show ?thesis
  proof (cases "pr_starts p < 3")
    case True
    then have "st_outcome s = OnProbation"
      "d' = d\<lparr>files := (files d)(probation_path u := Some (State ?q))\<rparr>"
      using assms(2) [symmetric] w Some
      by (simp_all add: start_up_def read_probation_works works_ops probation_starts_def Let_def)
    then show ?thesis using True w pl rf pb b Some pn
      by (simp add: a_start_def abs_watch_def watch_ok_def of_files refused_of_def)
  next
    case False
    obtain r d2 where r: "roll_back prog u ?q d = (r, d2)" by fastforce
    have q: "plain (pr_installed ?q)" "pr_installed ?q = pr_installed p" "pr_previous ?q = pr_previous p"
      using pl by simp_all
    note R = roll_back_works [OF w b rf q(1) r, unfolded q(2,3)]
    have out: "st_outcome s = (if is_ok r then RolledBack else Stuck) \<and>
        d' = snd (fs_remove (probation_path u) d2)"
      using assms(2) [symmetric] w Some False r
      by (cases r) (simp_all add: start_up_def read_probation_works probation_starts_def Let_def)
    have w2: "works d2" using R by blast
    have d': "d' = d2\<lparr>files := (files d2)(probation_path u := None)\<rparr>"
      using out w2 by (cases "files d2 (probation_path u) = None") (simp_all add: works_ops fun_upd_idem)
    have t': "trial_of u d' = None" "refused_of u d' = refused_of u d2"
      "files d' (upd_exe u) = files d2 (upd_exe u)" "files d' (old_path u) = files d2 (old_path u)"
      "files d' (probe_path u) = files d2 (probe_path u)" "works d'"
      using w2 by (simp_all add: d' of_files refused_of_def)
    show ?thesis
    proof (cases "runs_as prog (pr_previous p) (files d (old_path u))")
      case True
      have pl': "\<forall>v\<in>set (add_refused (pr_installed p) (refused_of u d)). plain v"
        by (rule plain_add_refused [OF rf pl])
      have "files d (old_path u) \<noteq> None" using True by (cases "files d (old_path u)") (simp_all add: runs_as_def)
      with True R False Some out t' pb b pl' show ?thesis
        by (simp add: a_start_def abs_watch_def watch_ok_def)
    next
      case no: False
      with R False Some out t' pb b rf show ?thesis
        by (simp add: a_start_def abs_watch_def watch_ok_def)
    qed
  qed
qed

lemma settle_refines:
  assumes "watch_ok u d"
  shows "abs_watch u (settle_probation u d) = a_settle (abs_watch u d) \<and> watch_ok u (settle_probation u d)"
proof (cases "trial_of u d")
  case None
  then show ?thesis using assms
    by (simp add: settle_probation_def read_probation_works watch_ok_def a_settle_def abs_watch_def)
next
  case (Some p)
  then obtain y where y: "files d (probation_path u) = Some y" by (auto simp: trial_of_def split: option.splits)
  then have "settle_probation u d =
      d\<lparr>files := (files d)(probation_path u := None, old_path u := None)\<rparr>"
    using assms Some
    by (simp add: settle_probation_def read_probation_works watch_ok_def works_ops remove_old_works)
  then show ?thesis using assms Some
    by (simp add: watch_ok_def a_settle_def abs_watch_def of_files refused_of_def)
qed

lemma forget_refines:
  assumes "watch_ok u d"
  shows "abs_watch u (snd (forget u d)) = a_forget (abs_watch u d) \<and> watch_ok u (snd (forget u d))"
proof -
  have "snd (forget u d) = d\<lparr>files := (files d)(refused_path u := None)\<rparr>"
    using assms by (cases "files d (refused_path u) = None")
      (simp_all add: forget_def works_ops watch_ok_def fun_upd_idem)
  then show ?thesis using assms
    by (simp add: watch_ok_def a_forget_def abs_watch_def of_files trial_of_def)
qed

lemma writable_works:
  "works d \<Longrightarrow> files d (probe_path u) = None \<Longrightarrow> writable u d = (None, d)"
  by (simp add: writable_def works_ops fun_upd_idem)

lemma swap_works:
  assumes "works d" and "files d (upd_exe u) = Some b" and "files d (new_path u) = Some n"
  shows "swap_in u (new_path u) d =
    (None, d\<lparr>files := (files d)(old_path u := Some b, upd_exe u := Some n, new_path u := None)\<rparr>)"
  using assms
  by (cases "files d (old_path u) = None")
    (simp_all add: swap_in_def Let_def works_ops fun_upd_twist fun_eq_iff)

lemma install_works:
  assumes "works d" and "files d (upd_exe u) = Some b" and "install sha prog u r rep now d = (e, d')"
  shows "(e = None \<longleftrightarrow> fetched sha prog r rep \<noteq> None) \<and> (case fetched sha prog r rep of
      None \<Rightarrow> works d' \<and> (\<forall>p. p \<noteq> new_path u \<longrightarrow> files d' p = files d p)
    | Some body \<Rightarrow> works d' \<and> (\<forall>p. p \<noteq> new_path u \<longrightarrow> files d' p =
        ((files d)(old_path u := Some b, upd_exe u := Some (Bytes body),
          probation_path u := Some (State \<lparr>pr_installed = rel_version r, pr_previous = upd_current u,
            pr_starts = 0, pr_began = now\<rparr>))) p))"
proof (cases rep)
  case (NoReply x)
  have "d' = snd (fs_remove (new_path u) d) \<and> e \<noteq> None" using assms(3) [symmetric] NoReply
    by (simp add: install_def download_def Let_def)
  then show ?thesis using assms(1) NoReply by (simp add: fetched_def works_ops)
next
  case (Reply status line body)
  let ?d1 = "d\<lparr>files := (files d)(new_path u := Some (Bytes body))\<rparr>"
  obtain e2 where sm: "smoke_test prog (new_path u) (rel_version r) ?d1 = (e2, ?d1)"
    "e2 = None \<longleftrightarrow> runs_as prog (rel_version r) (Some (Bytes body))"
    using smoke_works [of ?d1 prog "new_path u" "rel_version r"] assms(1) by auto
  have sw: "swap_in u (new_path u) ?d1 = (None, d\<lparr>files := (files d)(old_path u := Some b,
      upd_exe u := Some (Bytes body), new_path u := None)\<rparr>)"
    using swap_works [of ?d1 u b "Bytes body"] assms(1,2) by (simp add: fun_upd_twist)
  consider (a) "status \<noteq> 200" | (b) "status = 200" "\<not> equal_fold (sha body) (rel_sha256 r)"
    | (c) x where "status = 200" "equal_fold (sha body) (rel_sha256 r)" "e2 = Some x"
    | (d) "status = 200" "equal_fold (sha body) (rel_sha256 r)" "e2 = None" by blast
  then show ?thesis
  proof cases
    case a
    have "d' = snd (fs_remove (new_path u) d) \<and> e \<noteq> None" using assms(3) [symmetric] Reply a
      by (simp add: install_def download_def Let_def)
    then show ?thesis using assms(1) Reply a by (simp add: fetched_def works_ops)
  next
    case b
    have "d' = d\<lparr>files := (files d)(new_path u := None)\<rparr> \<and> e \<noteq> None" using assms(3) [symmetric] Reply b assms(1)
      by (simp add: install_def download_def Let_def works_ops)
    then show ?thesis using assms(1) Reply b by (simp add: fetched_def)
  next
    case c
    have "d' = d\<lparr>files := (files d)(new_path u := None)\<rparr> \<and> e \<noteq> None" using assms(3) [symmetric] Reply c assms(1)
      by (simp add: install_def download_def Let_def works_ops sm(1))
    then show ?thesis using assms(1) Reply c sm(2) by (simp add: fetched_def)
  next
    case d
    have "e = None \<and> works d' \<and> (\<forall>p. p \<noteq> new_path u \<longrightarrow> files d' p =
        ((files d)(old_path u := Some b, upd_exe u := Some (Bytes body),
          probation_path u := Some (State \<lparr>pr_installed = rel_version r, pr_previous = upd_current u,
            pr_starts = 0, pr_began = now\<rparr>))) p)"
      using assms(3) [symmetric] Reply d assms(1)
      by (simp add: install_def download_def Let_def works_ops sm(1) sw begin_probation_def)
    then show ?thesis using Reply d sm(2) by (simp add: fetched_def)
  qed
qed

lemma apply_refines:
  assumes "watch_ok u d" and "\<And>r. source = Some (Inr r) \<Longrightarrow> plain (rel_version r)"
    and "apply_update sha prog (u\<lparr>upd_current := current\<rparr>) source rep now d = (out, d')"
  shows "abs_watch u d' = a_step sha prog (EvApply current source rep now) (abs_watch u d) \<and>
    watch_ok u d' \<and>
    (\<forall>r. out = Inr (Some r) \<longleftrightarrow>
      (\<exists>body. to_install sha prog current source rep (abs_watch u d) = Some (r, body)))"
proof -
  let ?u = "u\<lparr>upd_current := current\<rparr>"
  have w: "works d" "files d (probe_path u) = None" using assms(1) by (simp_all add: watch_ok_def)
  obtain b where b: "files d (upd_exe u) = Some b" using assms(1) by (auto simp: watch_ok_def)
  show ?thesis
  proof (cases "\<exists>r. source = Some (Inr r) \<and> rel_sha256 r \<noteq> [] \<and> rel_url r \<noteq> [] \<and>
      newer current (rel_version r) \<and> rel_version r \<notin> set (refused_of u d)")
    case False
    then have "to_install sha prog current source rep (abs_watch u d) = None"
      by (auto simp: to_install_def abs_watch_def split: option.splits sum.splits)
    moreover have "d' = d \<and> (\<forall>r. out \<noteq> Inr (Some r))"
      using assms(3) False w(1)
      by (auto simp: apply_update_def refuses_def refused_works refused_of_def
          split: option.splits sum.splits if_splits)
    ultimately show ?thesis using assms(1) by simp
  next
    case True
    then obtain r where r: "source = Some (Inr r)" "rel_sha256 r \<noteq> []" "rel_url r \<noteq> []"
      "newer current (rel_version r)" "rel_version r \<notin> set (refused_of u d)" by blast
    obtain e d2 where i: "install sha prog ?u r rep now d = (e, d2)" by fastforce
    have rf: "refused_of ?u d = refused_of u d" by (simp add: refused_of_def)
    have out: "d' = d2" "\<And>x. out = Inr (Some x) \<longleftrightarrow> x = r \<and> e = None"
      using assms(3) [symmetric] r w i
      by (cases e; auto simp: apply_update_def refuses_def refused_works rf writable_works)+
    have ti: "to_install sha prog current source rep (abs_watch u d) =
        map_option (Pair r) (fetched sha prog r rep)"
      using r by (simp add: to_install_def abs_watch_def)
    note I = install_works [of d ?u b sha prog r rep now e d2, simplified, OF w(1) b i]
    have e: "e = None \<longleftrightarrow> fetched sha prog r rep \<noteq> None" using I by blast
    show ?thesis
    proof (cases "fetched sha prog r rep")
      case None
      with I have I': "works d2" "\<And>p. p \<noteq> new_path u \<Longrightarrow> files d2 p = files d p" by simp_all
      then have "abs_watch u d2 = abs_watch u d" "watch_ok u d2 = watch_ok u d"
        using w(1) by (simp_all add: abs_watch_def watch_ok_def trial_of_def refused_of_def)
      then show ?thesis using assms(1) out ti None e by simp
    next
      case (Some body)
      let ?p = "\<lparr>pr_installed = rel_version r, pr_previous = current, pr_starts = 0, pr_began = now\<rparr>"
      have I': "works d2" "\<And>p. p \<noteq> new_path u \<Longrightarrow> files d2 p = ((files d)(old_path u := Some b,
          upd_exe u := Some (Bytes body), probation_path u := Some (State ?p))) p"
        using I Some by simp_all
      have pl: "plain (rel_version r)" "rel_version r \<noteq> []" using assms(2) r(1) by (auto simp: plain_def)
      have "trial_of u d2 = Some ?p" "refused_of u d2 = refused_of u d"
        "files d2 (upd_exe u) = Some (Bytes body)" "files d2 (old_path u) = Some b"
        "files d2 (probe_path u) = None"
        using I'(2) pl w(2) by (simp_all add: trial_of_def refused_of_def)
      then show ?thesis using assms(1) out ti Some e I'(1) pl b
        by (auto simp: abs_watch_def watch_ok_def)
    qed
  qed
qed

section \<open>The updater refines the machine\<close>

fun a_run :: "(string \<Rightarrow> string) \<Rightarrow> prog \<Rightarrow> up_event list \<Rightarrow> watch \<Rightarrow> watch" where
  "a_run sha prog [] w = w"
| "a_run sha prog (e # es) w = a_run sha prog es (a_step sha prog e w)"

text \<open>A git tag has no space in it.\<close>

fun plain_event :: "up_event \<Rightarrow> bool" where
  "plain_event (EvApply current source rep now) =
     (case source of Some (Inr r) \<Rightarrow> plain (rel_version r) | _ \<Rightarrow> True)"
| "plain_event _ = True"

lemma step_refines:
  assumes "watch_ok u d" and "plain_event ev"
  shows "abs_watch u (up_step sha prog u ev d) = a_step sha prog ev (abs_watch u d) \<and>
    watch_ok u (up_step sha prog u ev d)"
proof (cases ev)
  case EvStart
  then show ?thesis using start_refines [OF assms(1), of prog "fst (start_up prog u d)" "snd (start_up prog u d)"]
    by (metis a_step.simps(1) prod.collapse snd_conv up_step.simps(1))
next
  case EvSettle
  then show ?thesis using settle_refines [OF assms(1)] by simp
next
  case EvForget
  then show ?thesis using forget_refines [OF assms(1)] by simp
next
  case (EvApply current source rep now)
  obtain out d' where o1: "apply_update sha prog (u\<lparr>upd_current := current\<rparr>) source rep now d = (out, d')"
    by fastforce
  have "\<And>r. source = Some (Inr r) \<Longrightarrow> plain (rel_version r)" using assms(2) EvApply by simp
  from apply_refines [OF assms(1) this o1] show ?thesis by (simp add: EvApply o1)
qed

lemma run_refines:
  assumes "watch_ok u d" and "list_all plain_event evs"
  shows "abs_watch u (up_run sha prog u evs d) = a_run sha prog evs (abs_watch u d) \<and>
    watch_ok u (up_run sha prog u evs d)"
  using assms
proof (induction evs arbitrary: d)
  case Nil
  then show ?case by simp
next
  case (Cons ev evs)
  then show ?case using step_refines [of u d ev sha prog] by simp
qed

text \<open>C14: the updater is the machine. On a disk that works, whatever the order of starts, settled
  probations, cleared lists and updates, the files of the updater stand for the machine's program, way
  back, trial and list of versions given up on, each operation doing its step; the next start decides
  what the machine decides, and the next update installs exactly what the machine would install.\<close>

theorem updater_refines_machine:
  assumes "watch_ok u d" and "list_all plain_event evs"
    and "\<And>r. source = Some (Inr r) \<Longrightarrow> plain (rel_version r)"
  shows "(let d1 = up_run sha prog u evs d; w1 = a_run sha prog evs (abs_watch u d)
    in abs_watch u d1 = w1 \<and> st_outcome (fst (start_up prog u d1)) = fst (a_start prog w1) \<and>
       (\<forall>r. fst (apply_update sha prog (u\<lparr>upd_current := current\<rparr>) source rep now d1) = Inr (Some r) \<longleftrightarrow>
         (\<exists>body. to_install sha prog current source rep w1 = Some (r, body))))"
proof -
  let ?d = "up_run sha prog u evs d"
  note R = run_refines [OF assms(1,2), of sha prog]
  have "st_outcome (fst (start_up prog u ?d)) = fst (a_start prog (abs_watch u ?d))"
    using start_refines [OF conjunct2 [OF R], of prog "fst (start_up prog u ?d)" "snd (start_up prog u ?d)"]
    by (metis fst_conv prod.collapse)
  moreover have "\<forall>r. fst (apply_update sha prog (u\<lparr>upd_current := current\<rparr>) source rep now ?d) = Inr (Some r) \<longleftrightarrow>
      (\<exists>body. to_install sha prog current source rep (abs_watch u ?d) = Some (r, body))"
    using apply_refines [OF conjunct2 [OF R] assms(3) prod.collapse [symmetric]] by blast
  ultimately show ?thesis using R by (simp add: Let_def)
qed

theorem updater_refines_machine_witness:
  "abs_watch sample_updater (up_run (\<lambda>_. ''ab'') sample_prog sample_updater
      [sample_update, EvStart, EvSettle] (installed_disk [])) =
    a_run (\<lambda>_. ''ab'') sample_prog [sample_update, EvStart, EvSettle]
      (abs_watch sample_updater (installed_disk []))"
proof -
  have "watch_ok sample_updater (installed_disk [])"
    "list_all plain_event [sample_update, EvStart, EvSettle]" by code_simp+
  from updater_refines_machine [OF this, of None "\<lambda>_. ''ab''" sample_prog] show ?thesis
    by (simp add: Let_def)
qed

section \<open>Three attempts, and then the way back\<close>

lemma a_run_starts:
  assumes "w_trial w = Some p" and "pr_starts p + int k \<le> 3"
  shows "a_run sha prog (replicate k EvStart) w = w\<lparr>w_trial := Some (p\<lparr>pr_starts := pr_starts p + int k\<rparr>)\<rparr>"
  using assms
proof (induction k arbitrary: w p)
  case 0
  then show ?case by simp
next
  case (Suc k)
  let ?p = "p\<lparr>pr_starts := pr_starts p + 1\<rparr>"
  have "a_step sha prog EvStart w = w\<lparr>w_trial := Some ?p\<rparr>"
    using Suc.prems by (simp add: a_start_def)
  moreover have "a_run sha prog (replicate k EvStart) (w\<lparr>w_trial := Some ?p\<rparr>) =
      w\<lparr>w_trial := Some (p\<lparr>pr_starts := pr_starts p + 1 + int k\<rparr>)\<rparr>"
    using Suc.IH [of "w\<lparr>w_trial := Some ?p\<rparr>" ?p] Suc.prems(2) by simp
  ultimately show ?case by (simp add: add.assoc)
qed

lemma add_refused_self: "v \<in> set (add_refused v vs)"
  by (simp add: add_refused_def last_refused_def max_refused_def)

lemma starts_plain: "list_all plain_event (replicate k EvStart)"
  by (induction k) simp_all

text \<open>C15: a version on probation is decided by its fourth start. On a disk that works, a version that is
  never settled is tried three times, each start saying so; the start after that ends the probation for
  good, and it puts the previous program back and lists the version as given up on when the program kept
  beside it still runs as the previous version, and otherwise leaves the program as it is.\<close>

theorem fourth_start_decides:
  assumes "watch_ok u d" and "trial_of u d = Some p" and "int n = 3 - pr_starts p"
    and "start_up prog u (up_run sha prog u (replicate n EvStart) d) = (s, d')"
  shows "(\<forall>k<n. st_outcome (fst (start_up prog u (up_run sha prog u (replicate k EvStart) d))) = OnProbation) \<and>
    trial_of u d' = None \<and>
    (if runs_as prog (pr_previous p) (files d (old_path u))
     then st_outcome s = RolledBack \<and> files d' (upd_exe u) = files d (old_path u) \<and>
       pr_installed p \<in> set (refused_of u d')
     else st_outcome s = Stuck \<and> files d' (upd_exe u) = files d (upd_exe u))"
proof -
  let ?w = "abs_watch u d"
  have t: "w_trial ?w = Some p" using assms(2) by (simp add: abs_watch_def)
  have at: "abs_watch u (up_run sha prog u (replicate k EvStart) d) =
      ?w\<lparr>w_trial := Some (p\<lparr>pr_starts := pr_starts p + int k\<rparr>)\<rparr>"
    "watch_ok u (up_run sha prog u (replicate k EvStart) d)" if "k \<le> n" for k
    using run_refines [OF assms(1) starts_plain [of k], of sha prog]
      a_run_starts [OF t, of k sha prog] assms(3) that by simp_all
  have "st_outcome (fst (start_up prog u (up_run sha prog u (replicate k EvStart) d))) = OnProbation"
    if "k < n" for k
  proof -
    obtain s1 d1 where s1: "start_up prog u (up_run sha prog u (replicate k EvStart) d) = (s1, d1)" by fastforce
    have "(st_outcome s1, abs_watch u d1) =
        a_start prog (?w\<lparr>w_trial := Some (p\<lparr>pr_starts := pr_starts p + int k\<rparr>)\<rparr>)"
      using start_refines [OF at(2) s1] at(1) that by simp
    then show ?thesis using that assms(3) s1 by (simp add: a_start_def)
  qed
  moreover have "(st_outcome s, abs_watch u d') = a_start prog (?w\<lparr>w_trial := Some (p\<lparr>pr_starts := 3\<rparr>)\<rparr>)"
    using start_refines [OF at(2) assms(4)] at(1) [of n] assms(3) by simp
  ultimately show ?thesis
    by (auto simp: a_start_def abs_watch_def add_refused_self)
qed

theorem fourth_start_decides_witness:
  "files (snd (start_up sample_prog sample_updater (up_run (\<lambda>_. ''ab'') sample_prog sample_updater
      [EvStart, EvStart, EvStart]
      (up_step (\<lambda>_. ''ab'') sample_prog sample_updater sample_update (installed_disk []))))) ''/b/s'' =
    Some (Bytes ''v1.0.0'')"
proof -
  let ?p = "\<lparr>pr_installed = ''v1.1.0'', pr_previous = ''v1.0.0'', pr_starts = 0, pr_began = 0\<rparr>"
  let ?d = "up_step (\<lambda>_. ''ab'') sample_prog sample_updater sample_update (installed_disk [])"
  let ?out = "start_up sample_prog sample_updater
    (up_run (\<lambda>_. ''ab'') sample_prog sample_updater (replicate 3 EvStart) ?d)"
  have h: "watch_ok sample_updater ?d" "trial_of sample_updater ?d = Some ?p"
    "runs_as sample_prog ''v1.0.0'' (files ?d (old_path sample_updater))"
    "files ?d (old_path sample_updater) = Some (Bytes ''v1.0.0'')" by code_simp+
  have "files (snd ?out) (upd_exe sample_updater) = Some (Bytes ''v1.0.0'')"
    using fourth_start_decides [OF h(1,2), of 3 sample_prog "\<lambda>_. ''ab''" "fst ?out" "snd ?out"] h(3,4)
    by simp
  then show ?thesis by (simp add: numeral_3_eq_3 sample_updater_def)
qed

section \<open>A version given up on stays away\<close>

lemma a_step_refused:
  assumes "ev \<noteq> EvForget" and "v \<in> set (w_refused w)"
    and "length (w_refused w) + (if ev = EvStart then 1 else 0) \<le> 10"
  shows "v \<in> set (w_refused (a_step sha prog ev w)) \<and>
    length (w_refused (a_step sha prog ev w)) \<le> length (w_refused w) + (if ev = EvStart then 1 else 0)"
  using assms
  by (cases ev) (auto simp: a_start_def a_settle_def add_refused_def last_refused_def max_refused_def
      split: option.splits)

lemma a_run_refused:
  assumes "EvForget \<notin> set evs" and "v \<in> set (w_refused w)"
    and "length (w_refused w) + count_list evs EvStart \<le> 10"
  shows "v \<in> set (w_refused (a_run sha prog evs w))"
  using assms
proof (induction evs arbitrary: w)
  case Nil
  then show ?case by simp
next
  case (Cons ev evs)
  have "v \<in> set (w_refused (a_step sha prog ev w)) \<and>
    length (w_refused (a_step sha prog ev w)) \<le> length (w_refused w) + (if ev = EvStart then 1 else 0)"
    by (rule a_step_refused) (use Cons.prems in \<open>auto split: if_splits\<close>)
  then show ?case using Cons.IH [of "a_step sha prog ev w"] Cons.prems by (auto split: if_splits)
qed

text \<open>a version this machine gave up on is not installed again. While the list is not cleared and has
  room for every start that could add to it, whatever starts and updates come in between, an update that
  is offered a version of the list installs nothing and changes neither the program nor the probation.\<close>

theorem given_up_stays_away:
  assumes "watch_ok u d" and "list_all plain_event evs" and "EvForget \<notin> set evs"
    and "rel_version r \<in> set (refused_of u d)"
    and "length (refused_of u d) + count_list evs EvStart \<le> 10"
    and "apply_update sha prog (u\<lparr>upd_current := current\<rparr>) (Some (Inr r)) rep now
      (up_run sha prog u evs d) = (out, d')"
  shows "out \<noteq> Inr (Some x) \<and> abs_watch u d' = abs_watch u (up_run sha prog u evs d)"
proof -
  let ?d = "up_run sha prog u evs d"
  note R = run_refines [OF assms(1,2), of sha prog]
  have "rel_version r \<in> set (w_refused (a_run sha prog evs (abs_watch u d)))"
    by (rule a_run_refused) (use assms(3-5) in \<open>simp_all add: abs_watch_def\<close>)
  then have v: "rel_version r \<in> set (w_refused (abs_watch u ?d))" using R by simp
  then have pl: "plain (rel_version r)" using R by (simp add: watch_ok_def abs_watch_def)
  have "to_install sha prog current (Some (Inr r)) rep (abs_watch u ?d) = None"
    using v by (simp add: to_install_def)
  moreover have "\<And>q. Some (Inr r) = Some (Inr q) \<Longrightarrow> plain (rel_version q)" using pl by simp
  ultimately show ?thesis using apply_refines [OF conjunct2 [OF R] _ assms(6)] by fastforce
qed

definition refusing_disk :: "blob disk" where
  "refusing_disk =
     \<lparr>files = [''/b/s'' \<mapsto> Bytes ''v1.0.0'', ''/b/s.refused'' \<mapsto> Bytes (''v1.1.0'' @ [newline])],
      disk_faults = []\<rparr>"

theorem given_up_stays_away_witness:
  "\<exists>out d'. apply_update (\<lambda>_. ''ab'') sample_prog (sample_updater\<lparr>upd_current := ''v1.0.0''\<rparr>)
      (Some (Inr sample_release)) (Reply 200 ''200 OK'' ''v1.1.0'') 0
      (up_run (\<lambda>_. ''ab'') sample_prog sample_updater [EvStart, sample_update] refusing_disk) = (out, d') \<and>
    out \<noteq> Inr (Some sample_release)"
proof -
  have h: "watch_ok sample_updater refusing_disk" "list_all plain_event [EvStart, sample_update]"
    "rel_version sample_release \<in> set (refused_of sample_updater refusing_disk)"
    "length (refused_of sample_updater refusing_disk) = 1" by code_simp+
  have ev: "EvForget \<notin> set [EvStart, sample_update]" "count_list [EvStart, sample_update] EvStart = 1"
    by (simp_all add: sample_update_def)
  let ?x = "apply_update (\<lambda>_. ''ab'') sample_prog (sample_updater\<lparr>upd_current := ''v1.0.0''\<rparr>)
      (Some (Inr sample_release)) (Reply 200 ''200 OK'' ''v1.1.0'') 0
      (up_run (\<lambda>_. ''ab'') sample_prog sample_updater [EvStart, sample_update] refusing_disk)"
  obtain out d' where x: "?x = (out, d')" by fastforce
  from given_up_stays_away [OF h(1,2) ev(1) h(3) _ x, of sample_release] h(4) ev(2) x show ?thesis by auto
qed

end
