(* ===== verification/Disclosure.thy ===== *)
theory Disclosure
  imports Errors GoTime
begin

text \<open>
  The log of every occasion the password left the server, and the machine's own check of it:
  \<open>business/domain/disclosure/disclosurebus/disclosurebus.go\<close>. The heads the machine wrote down are kept
  in a store, whose laws are the locale \<open>head_store\<close>; theory \<open>DisclosureDb\<close> interprets it.
\<close>

section \<open>Entries, heads and logs\<close>

type_synonym entry_kind = string

definition KindMinted :: entry_kind where "KindMinted = ''minted''"
definition KindAdopted :: entry_kind where "KindAdopted = ''adopted''"
definition KindEnrolled :: entry_kind where "KindEnrolled = ''enrolled''"
definition KindFetched :: entry_kind where "KindFetched = ''fetched''"
definition KindRevealed :: entry_kind where "KindRevealed = ''revealed''"
definition KindExported :: entry_kind where "KindExported = ''exported''"
definition KindKeysGranted :: entry_kind where "KindKeysGranted = ''keys-granted''"
definition KindKeysRetired :: entry_kind where "KindKeysRetired = ''keys-retired''"
definition KindKeysForeign :: entry_kind where "KindKeysForeign = ''keys-foreign''"

definition about_bucket :: "entry_kind \<Rightarrow> bool" where
  "about_bucket k \<longleftrightarrow> k = KindKeysGranted \<or> k = KindKeysRetired \<or> k = KindKeysForeign"

definition known_kind :: "entry_kind \<Rightarrow> bool" where
  "known_kind k \<longleftrightarrow> k \<in> set [KindMinted, KindAdopted, KindEnrolled, KindFetched, KindRevealed,
     KindExported, KindKeysGranted, KindKeysRetired, KindKeysForeign]"

record entry =
  en_seq :: int
  en_at :: instant
  en_kind :: entry_kind
  en_actor :: string
  en_from_ip :: string
  en_version :: int
  en_by_machine :: bool
  en_describe :: string
  en_detail :: string
  en_prev :: string
  en_hash :: string

record witness =
  wi_count :: int
  wi_hash :: string
  wi_at :: instant

record keep = witness +
  kp_seen :: instant

definition witness_zero :: "'a witness_scheme \<Rightarrow> bool" where
  "witness_zero w \<longleftrightarrow> wi_count w = 0 \<and> wi_hash w = []"

record dlog =
  lg_count :: int
  lg_head :: string
  lg_entries :: "entry list"
  lg_chained_since :: instant

definition witness_of :: "dlog \<Rightarrow> witness" where
  "witness_of l =
     \<lparr>wi_count = lg_count l, wi_hash = lg_head l,
      wi_at = (case lg_entries l of [] \<Rightarrow> zero_time | e # _ \<Rightarrow> en_at e)\<rparr>"

section \<open>Verdicts\<close>

datatype verdict = FirstLook | Agrees | Unproven | Shrunk | Rewritten | Broken

fun verdict_text :: "verdict \<Rightarrow> string" where
  "verdict_text FirstLook = ''first-look''"
| "verdict_text Agrees = ''agrees''"
| "verdict_text Unproven = ''unproven''"
| "verdict_text Shrunk = ''shrunk''"
| "verdict_text Rewritten = ''rewritten''"
| "verdict_text Broken = ''broken''"

definition wrong :: "verdict \<Rightarrow> bool" where
  "wrong v \<longleftrightarrow> v = Shrunk \<or> v = Rewritten \<or> v = Broken"

text \<open>The entries that claim to be adjacent link.\<close>

fun links_up :: "entry list \<Rightarrow> bool" where
  "links_up (this # prev # rest) =
     ((en_seq this \<noteq> en_seq prev + 1 \<or> en_prev this = en_hash prev) \<and> links_up (prev # rest))"
| "links_up _ = True"

definition linked :: "dlog \<Rightarrow> verdict option" where
  "linked l =
     (case lg_entries l of
        [] \<Rightarrow> if lg_count l \<noteq> 0 \<or> lg_head l \<noteq> [] then Some Broken else None
      | newest # _ \<Rightarrow>
          if en_seq newest = lg_count l \<and> en_hash newest \<noteq> lg_head l then Some Broken
          else if links_up (lg_entries l) then None else Some Broken)"

definition entry_at :: "entry list \<Rightarrow> int \<Rightarrow> entry option" where
  "entry_at es seq = first_such (\<lambda>e. en_seq e = seq) es"

text \<open>The loop over the kept heads: the head it could vouch from, or the verdict that ends it.\<close>

fun test_heads :: "dlog \<Rightarrow> keep list \<Rightarrow> keep option \<Rightarrow> verdict + keep option" where
  "test_heads l [] against = Inr against"
| "test_heads l (k # ks) against =
     (if witness_zero k then test_heads l ks against
      else if lg_count l < wi_count k then Inl Shrunk
      else case entry_at (lg_entries l) (wi_count k) of
          None \<Rightarrow> test_heads l ks against
        | Some e \<Rightarrow>
            if en_hash e \<noteq> wi_hash k then Inl Rewritten
            else test_heads l ks (case against of None \<Rightarrow> Some k | Some a \<Rightarrow> Some a))"

definition check :: "dlog \<Rightarrow> keep list \<Rightarrow> verdict \<times> keep option" where
  "check l kept =
     (case linked l of
        Some v \<Rightarrow> (v, None)
      | None \<Rightarrow>
          (case test_heads l kept None of
             Inl v \<Rightarrow> (v, None)
           | Inr (Some k) \<Rightarrow> (Agrees, Some k)
           | Inr None \<Rightarrow> (if kept = [] then FirstLook else Unproven, None)))"

section \<open>The report\<close>

record dreport = dlog +
  dr_people :: "entry list"
  dr_machines :: "entry list"
  dr_keys :: "entry list"
  dr_foreign :: "entry list"
  dr_people_count :: int
  dr_machine_count :: int
  dr_key_count :: int
  dr_capped :: bool
  dr_verdict :: verdict
  dr_against :: "keep option"
  dr_kept :: int

text \<open>Where an entry goes: one column of three, and the gravest of one column again by itself.\<close>

fun sort_entry :: "entry list \<times> entry list \<times> entry list \<times> entry list \<Rightarrow> entry \<Rightarrow>
    entry list \<times> entry list \<times> entry list \<times> entry list" where
  "sort_entry (people, machines, keys, foreign) e =
     (if about_bucket (en_kind e)
      then (people, machines, keys @ [e], if en_kind e = KindKeysForeign then foreign @ [e] else foreign)
      else if en_by_machine e then (people, machines @ [e], keys, foreign)
      else (people @ [e], machines, keys, foreign))"

definition split_log :: "dlog \<Rightarrow> verdict \<Rightarrow> keep option \<Rightarrow> int \<Rightarrow> dreport" where
  "split_log l v against kept =
     (case foldl sort_entry ([], [], [], []) (lg_entries l) of (people, machines, keys, foreign) \<Rightarrow>
        \<lparr>lg_count = lg_count l, lg_head = lg_head l, lg_entries = lg_entries l,
         lg_chained_since = lg_chained_since l,
         dr_people = people, dr_machines = machines, dr_keys = keys, dr_foreign = foreign,
         dr_people_count = int (length people), dr_machine_count = int (length machines),
         dr_key_count = int (length keys),
         dr_capped = (int (length (lg_entries l)) < lg_count l),
         dr_verdict = v, dr_against = against, dr_kept = kept\<rparr>)"

section \<open>Reading the trail\<close>

definition ErrNotEnrolled :: err where
  "ErrNotEnrolled = Sentinel ''disclosurebus: this machine is not enrolled''"

definition ErrUnsupported :: err where
  "ErrUnsupported = Sentinel ''disclosurebus: this Eumaeus serves no disclosure trail''"

record 's head_storer =
  hs_remember :: "witness \<Rightarrow> instant \<Rightarrow> 's \<Rightarrow> err option \<times> 's"
  hs_kept :: "'s \<Rightarrow> keep list res \<times> 's"

text \<open>\<open>source\<close> is what the source answers for the limit, \<open>None\<close> on a machine that is not enrolled.\<close>

definition read_trail ::
  "'s head_storer \<Rightarrow> dlog res option \<Rightarrow> instant \<Rightarrow> 's \<Rightarrow> dreport res \<times> 's" where
  "read_trail st source now s =
     (case source of
        None \<Rightarrow> (Inl ErrNotEnrolled, s)
      | Some (Inl e) \<Rightarrow> (Inl (Wrap ''disclosurebus: reading the trail: '' e []), s)
      | Some (Inr l) \<Rightarrow>
          (case hs_kept st s of
             (Inl e, s1) \<Rightarrow> (Inl (Wrap ''disclosurebus: reading the kept heads: '' e []), s1)
           | (Inr kept, s1) \<Rightarrow>
               (case check l kept of (v, against) \<Rightarrow>
                  (case hs_remember st (witness_of l) now s1 of
                     (Some e, s2) \<Rightarrow> (Inl (Wrap ''disclosurebus: keeping the head: '' e []), s2)
                   | (None, s2) \<Rightarrow> (Inr (split_log l v against (int (length kept))), s2)))))"

record glance =
  gl_known :: bool
  gl_count :: int
  gl_at :: instant

definition no_glance :: glance where
  "no_glance = \<lparr>gl_known = False, gl_count = 0, gl_at = zero_time\<rparr>"

definition glance_heads :: "'s head_storer \<Rightarrow> bool \<Rightarrow> 's \<Rightarrow> glance res \<times> 's" where
  "glance_heads st available s =
     (if \<not> available then (Inr no_glance, s)
      else case hs_kept st s of
          (Inl e, s1) \<Rightarrow> (Inl (Wrap ''disclosurebus: reading the kept heads: '' e []), s1)
        | (Inr [], s1) \<Rightarrow> (Inr no_glance, s1)
        | (Inr (k # ks), s1) \<Rightarrow>
            (let newest = last (k # ks) in
             (Inr \<lparr>gl_known = True, gl_count = wi_count newest, gl_at = wi_at newest\<rparr>, s1)))"

section \<open>What a verdict says\<close>

text \<open>A head does not contradict a log: the log is long enough, and has the head's hash where it reaches.\<close>

definition contradicts :: "dlog \<Rightarrow> keep \<Rightarrow> bool" where
  "contradicts l k \<longleftrightarrow> \<not> witness_zero k \<and>
     (lg_count l < wi_count k \<or>
      (\<exists>e. entry_at (lg_entries l) (wi_count k) = Some e \<and> en_hash e \<noteq> wi_hash k))"

definition tests :: "dlog \<Rightarrow> keep \<Rightarrow> bool" where
  "tests l k \<longleftrightarrow> \<not> witness_zero k \<and> entry_at (lg_entries l) (wi_count k) \<noteq> None"

lemma test_heads_spec:
  "(\<exists>v. test_heads l ks a = Inl v \<and> wrong v) \<longleftrightarrow> (\<exists>k\<in>set ks. contradicts l k)"
  "\<not> (\<exists>k\<in>set ks. contradicts l k) \<Longrightarrow>
    test_heads l ks a = Inr (case a of None \<Rightarrow> first_such (tests l) ks | Some x \<Rightarrow> Some x)"
  by (induction ks arbitrary: a) (auto simp: contradicts_def tests_def wrong_def split: option.splits)

lemma test_heads_wrong: "test_heads l ks a = Inl v \<Longrightarrow> wrong v"
  by (induction ks arbitrary: a) (auto simp: wrong_def split: if_splits option.splits)

lemma check_wrong: "wrong (fst (check l kept)) \<longleftrightarrow> linked l \<noteq> None \<or> (\<exists>k\<in>set kept. contradicts l k)"
proof (cases "linked l")
  case (Some v)
  then have "wrong v" by (auto simp: linked_def wrong_def split: list.splits if_splits)
  then show ?thesis by (simp add: check_def Some)
next
  case None
  show ?thesis
  proof (cases "\<exists>k\<in>set kept. contradicts l k")
    case True
    then obtain v where "test_heads l kept None = Inl v" "wrong v" using test_heads_spec(1) by blast
    then show ?thesis using True None by (simp add: check_def)
  next
    case False
    then show ?thesis using None test_heads_spec(2) [OF False, of None]
      by (auto simp: check_def wrong_def split: option.splits)
  qed
qed



section \<open>The server that keeps its word\<close>

text \<open>
  What the check rests on: the trail is a chain that only grows, an entry's place is its sequence number,
  its hash covers the entry before it, and a reading is its newest entries. These are definitions of the
  specification, not of the code.
\<close>

definition chain_ok :: "entry list \<Rightarrow> bool" where
  "chain_ok c \<longleftrightarrow> (\<forall>i<length c. en_seq (c ! i) = int i + 1 \<and> en_hash (c ! i) \<noteq> [] \<and>
     (0 < i \<longrightarrow> en_prev (c ! i) = en_hash (c ! (i - 1))))"

definition shown :: "nat \<Rightarrow> entry list \<Rightarrow> dlog" where
  "shown n c =
     \<lparr>lg_count = int (length c), lg_head = (if c = [] then [] else en_hash (last c)),
      lg_entries = take n (rev c), lg_chained_since = zero_time\<rparr>"

definition on_chain :: "entry list \<Rightarrow> 'a witness_scheme \<Rightarrow> bool" where
  "on_chain c k \<longleftrightarrow> witness_zero k \<or>
     (\<exists>i<length c. wi_count k = int i + 1 \<and> wi_hash k = en_hash (c ! i))"

lemma chain_at:
  assumes "chain_ok c" and "e \<in> set c" and "en_seq e = int i + 1"
  shows "i < length c \<and> e = c ! i"
proof -
  obtain j where j: "j < length c" "e = c ! j" using assms(2) by (metis in_set_conv_nth)
  then have "en_seq e = int j + 1" using assms(1) by (simp add: chain_ok_def)
  with assms(3) j show ?thesis by simp
qed

lemma entry_at_shown:
  assumes "chain_ok c"
  shows "entry_at (take n (rev c)) (int i + 1) = Some e \<Longrightarrow> i < length c \<and> e = c ! i"
    and "i < length c \<Longrightarrow> length c \<le> i + n \<Longrightarrow> entry_at (take n (rev c)) (int i + 1) = Some (c ! i)"
proof -
  show 1: "i < length c \<and> e = c ! i" if "entry_at (take n (rev c)) (int i + 1) = Some e" for e
  proof -
    have "e \<in> set (take n (rev c))" "en_seq e = int i + 1"
      using first_such_SomeD that by (force simp: entry_at_def)+
    then show ?thesis using chain_at [OF assms] by (metis in_set_takeD set_rev)
  qed
  assume i: "i < length c" "length c \<le> i + n"
  have "take n (rev c) = rev (drop (length c - n) c)" by (simp add: take_rev)
  moreover have "drop (length c - n) c ! (i - (length c - n)) = c ! i" using i by simp
  then have "c ! i \<in> set (drop (length c - n) c)" using i by (metis nth_mem length_drop diff_less_mono le_diff_conv)
  ultimately have "c ! i \<in> set (take n (rev c))" by simp
  moreover have "en_seq (c ! i) = int i + 1" using assms i by (simp add: chain_ok_def)
  ultimately have "entry_at (take n (rev c)) (int i + 1) \<noteq> None"
    unfolding entry_at_def first_such_None by blast
  with 1 show "entry_at (take n (rev c)) (int i + 1) = Some (c ! i)" by blast
qed

lemma links_up_nth:
  "links_up es \<longleftrightarrow> (\<forall>j. Suc j < length es \<longrightarrow>
     en_seq (es ! j) \<noteq> en_seq (es ! Suc j) + 1 \<or> en_prev (es ! j) = en_hash (es ! Suc j))"
proof (induction es rule: links_up.induct)
  case (1 this prev rest)
  have all_nat: "(\<forall>j. P j) \<longleftrightarrow> P 0 \<and> (\<forall>j. P (Suc j))" for P :: "nat \<Rightarrow> bool" by (metis not0_implies_Suc)
  show ?case by (subst all_nat) (simp add: "1")
qed simp_all

lemma linked_shown:
  assumes "chain_ok c" and "0 < n"
  shows "linked (shown n c) = None"
proof (cases "c = []")
  case True
  then show ?thesis by (simp add: linked_def shown_def)
next
  case False
  define es where "es = take n (rev c)"
  have len: "length es = min n (length c)" by (simp add: es_def)
  have at: "es ! j = c ! (length c - Suc j)" if "j < length es" for j
    using that by (simp add: es_def rev_nth)
  have links: "links_up es"
    unfolding links_up_nth
  proof (intro allI impI)
    fix j assume j: "Suc j < length es"
    then have "length c - Suc j < length c" "0 < length c - Suc j" "length c - Suc j - 1 = length c - Suc (Suc j)"
      using len by auto
    then have "en_prev (es ! j) = en_hash (es ! Suc j)"
      using assms(1) at [of j] at [of "Suc j"] j unfolding chain_ok_def by (metis Suc_lessD)
    then show "en_seq (es ! j) \<noteq> en_seq (es ! Suc j) + 1 \<or> en_prev (es ! j) = en_hash (es ! Suc j)" by blast
  qed
  have "es \<noteq> []" "hd es = last c" using False assms(2) by (auto simp: es_def hd_rev)
  then obtain rest where "es = last c # rest" by (cases es) auto
  then show ?thesis using links False by (simp add: linked_def shown_def es_def [symmetric])
qed

lemma honest_not_wrong:
  assumes "chain_ok c" and "0 < n" and "\<forall>k\<in>set kept. on_chain c k"
  shows "\<not> wrong (fst (check (shown n c) kept))"
proof -
  have "\<not> contradicts (shown n c) k" if k: "k \<in> set kept" for k
  proof (cases "witness_zero k")
    case True
    then show ?thesis by (simp add: contradicts_def)
  next
    case False
    then obtain i where i: "i < length c" "wi_count k = int i + 1" "wi_hash k = en_hash (c ! i)"
      using assms(3) k by (auto simp: on_chain_def)
    have "e = c ! i" if "entry_at (take n (rev c)) (wi_count k) = Some e" for e
      using entry_at_shown(1) [OF assms(1)] that i(2) by simp
    then show ?thesis using i by (auto simp: contradicts_def shown_def)
  qed
  then show ?thesis using linked_shown [OF assms(1,2)] by (simp add: check_wrong)
qed

lemma on_chain_witness:
  assumes "chain_ok c"
  shows "on_chain c (witness_of (shown n c))"
proof (cases "c = []")
  case True
  then show ?thesis by (simp add: on_chain_def witness_of_def shown_def witness_zero_def)
next
  case False
  have "\<exists>i<length c. int (length c) = int i + 1 \<and> en_hash (last c) = en_hash (c ! i)"
    using False by (intro exI [of _ "length c - 1"]) (simp add: last_conv_nth of_nat_diff Suc_leI)
  then show ?thesis using False by (simp add: on_chain_def witness_of_def shown_def)
qed

lemma on_chain_prefix:
  assumes "on_chain c k" and "prefix c c'"
  shows "on_chain c' k"
proof (cases "witness_zero k")
  case True
  then show ?thesis by (simp add: on_chain_def)
next
  case False
  obtain i where i: "i < length c" "wi_count k = int i + 1" "wi_hash k = en_hash (c ! i)"
    using assms(1) False by (auto simp: on_chain_def)
  moreover obtain zs where "c' = c @ zs" using assms(2) by (auto simp: prefix_def)
  ultimately have "i < length c'" "wi_hash k = en_hash (c' ! i)" by (simp_all add: nth_append)
  with i(2) show ?thesis unfolding on_chain_def by blast
qed

text \<open>Two chains whose hashes do not collide and agree at one place agree before it.\<close>

definition no_collision :: "entry list \<Rightarrow> entry list \<Rightarrow> bool" where
  "no_collision c c' \<longleftrightarrow> (\<forall>e\<in>set c. \<forall>e'\<in>set c'. en_hash e = en_hash e' \<longrightarrow> e = e')"

lemma agree_before:
  assumes "chain_ok c" and "chain_ok c'" and "no_collision c c'"
    and "i < length c" and "i < length c'" and "en_hash (c ! i) = en_hash (c' ! i)"
  shows "take (Suc i) c = take (Suc i) c'"
  using assms(4-6)
proof (induction i)
  case 0
  then have "c ! 0 = c' ! 0" using assms(3) nth_mem unfolding no_collision_def by blast
  with 0 show ?case by (simp add: take_Suc_conv_app_nth)
next
  case (Suc i)
  then have e: "c ! Suc i = c' ! Suc i" using assms(3) nth_mem unfolding no_collision_def by blast
  have "en_prev (c ! Suc i) = en_hash (c ! i)" "en_prev (c' ! Suc i) = en_hash (c' ! i)"
    using assms(1,2) Suc.prems unfolding chain_ok_def by (metis diff_Suc_1 zero_less_Suc)+
  then have "take (Suc i) c = take (Suc i) c'" using Suc.IH Suc.prems e by simp
  then show ?case using e Suc.prems by (simp add: take_Suc_conv_app_nth [of "Suc i"])
qed

lemma rewritten_contradicts:
  assumes "chain_ok c" and "chain_ok c'" and "no_collision c c'" and "\<not> prefix c c'" and "c \<noteq> []"
    and "length c' < m + length c" and "wi_count k = int (length c)" and "wi_hash k = en_hash (last c)"
  shows "contradicts (shown m c') k"
proof -
  let ?i = "length c - 1"
  have i: "?i < length c" "wi_count k = int ?i + 1" "last c = c ! ?i"
    using assms(5,7) by (simp_all add: of_nat_diff Suc_leI last_conv_nth)
  have nz: "\<not> witness_zero k" using assms(5,7) by (simp add: witness_zero_def)
  show ?thesis
  proof (cases "length c' < length c")
    case True
    then show ?thesis using nz assms(7) by (simp add: contradicts_def shown_def)
  next
    case False
    then have i': "?i < length c'" using i(1) by linarith
    have "length c' \<le> ?i + m" using assms(6) i(1) by linarith
    then have e: "entry_at (take m (rev c')) (int ?i + 1) = Some (c' ! ?i)"
      by (rule entry_at_shown(2) [OF assms(2) i'])
    have "en_hash (c' ! ?i) \<noteq> en_hash (c ! ?i)"
    proof
      assume "en_hash (c' ! ?i) = en_hash (c ! ?i)"
      then have "take (Suc ?i) c = take (Suc ?i) c'"
        using agree_before [OF assms(1-3) i(1) i'] by simp
      then have "c = take (Suc ?i) c'" using i(1) by simp
      then have "prefix c c'" by (metis take_is_prefix)
      with assms(4) show False by simp
    qed
    then show ?thesis using nz e i(2,3) assms(8) by (auto simp: contradicts_def shown_def)
  qed
qed

section \<open>The store of heads\<close>

definition keep_of :: "witness \<Rightarrow> instant \<Rightarrow> keep" where
  "keep_of w now =
     \<lparr>wi_count = wi_count w, wi_hash = wi_hash w, wi_at = whole_second (wi_at w), kp_seen = whole_second now\<rparr>"

lemma keep_of_simps [simp]: "wi_count (keep_of w now) = wi_count w" "wi_hash (keep_of w now) = wi_hash w"
  by (simp_all add: keep_of_def)

locale head_store =
  fixes st :: "'s head_storer"
    and heads :: "'s \<Rightarrow> keep list"
    and inv :: "'s \<Rightarrow> bool"
  assumes kept_view: "inv s \<Longrightarrow> hs_kept st s = (r, s') \<Longrightarrow>
      inv s' \<and> heads s' = heads s \<and> (\<forall>ks. r = Inr ks \<longrightarrow> ks = heads s)"
    and remember_ok: "inv s \<Longrightarrow> hs_remember st w now s = (None, s') \<Longrightarrow>
      inv s' \<and> set (heads s') = (if wi_count w \<in> wi_count ` set (heads s) then set (heads s)
        else insert (keep_of w now) (set (heads s)))"
    and remember_err: "inv s \<Longrightarrow> hs_remember st w now s = (Some e, s') \<Longrightarrow> inv s' \<and> heads s' = heads s"
    and ordered: "inv s \<Longrightarrow> sorted_wrt (\<lambda>a b. wi_count a < wi_count b) (heads s)"
begin

lemma read_keeps:
  assumes "inv s" and "read_trail st source now s = (r, s')"
  shows "inv s' \<and> set (heads s) \<subseteq> set (heads s')"
proof -
  obtain rk s1 where k: "hs_kept st s = (rk, s1)" by fastforce
  have 1: "inv s1" "heads s1 = heads s" using kept_view [OF assms(1) k] by blast+
  have 2: "inv s2 \<and> set (heads s) \<subseteq> set (heads s2)" if "hs_remember st w t s1 = (e, s2)" for w t e s2
    using that remember_ok [OF 1(1), of w t s2] remember_err [OF 1(1), of w t _ s2] 1(2)
    by (cases e) (auto split: if_splits)
  have "s' = s \<or> s' = s1 \<or> (\<exists>w t e. hs_remember st w t s1 = (e, s'))"
    using assms(2) k by (auto simp: read_trail_def split: option.splits sum.splits prod.splits)
  then show ?thesis
  proof (elim disjE exE)
    fix w t e assume "hs_remember st w t s1 = (e, s')"
    from 2 [OF this] show ?thesis .
  qed (use assms(1) 1 in simp_all)
qed

lemma read_report:
  assumes "inv s" and "read_trail st source now s = (Inr rep, s')"
  shows "\<exists>l. source = Some (Inr l) \<and> (dr_verdict rep, dr_against rep) = check l (heads s) \<and> inv s' \<and>
    set (heads s') = (if lg_count l \<in> wi_count ` set (heads s) then set (heads s)
      else insert (keep_of (witness_of l) now) (set (heads s)))"
proof -
  obtain l where src: "source = Some (Inr l)"
    using assms(2) by (auto simp: read_trail_def split: option.splits sum.splits)
  obtain rk s1 where k: "hs_kept st s = (rk, s1)" by fastforce
  obtain ks where ks: "rk = Inr ks"
    using assms(2) k src by (cases rk) (simp_all add: read_trail_def)
  have 1: "inv s1" "heads s1 = heads s" "ks = heads s" using kept_view [OF assms(1) k] ks by blast+
  obtain e s2 where m: "hs_remember st (witness_of l) now s1 = (e, s2)" by fastforce
  have "e = None \<and> s' = s2 \<and> rep = split_log l (fst (check l ks)) (snd (check l ks)) (int (length ks))"
    using assms(2) k src ks m by (auto simp: read_trail_def split: option.splits prod.splits)
  moreover have "wi_count (witness_of l) = lg_count l" by (simp add: witness_of_def)
  ultimately show ?thesis
    using src m 1 remember_ok [OF 1(1), of "witness_of l" now s2]
    by (auto simp: split_log_def split: prod.splits)
qed

lemma honest_read:
  assumes "inv s" and "chain_ok c" and "0 < n" and "\<forall>k\<in>set (heads s). on_chain c k"
    and "read_trail st (Some (Inr (shown n c))) now s = (r, s')"
  shows "inv s' \<and> (\<forall>k\<in>set (heads s'). on_chain c k) \<and> (\<forall>rep. r = Inr rep \<longrightarrow> \<not> wrong (dr_verdict rep))"
proof (cases r)
  case (Inl e)
  obtain rk s1 where k: "hs_kept st s = (rk, s1)" by fastforce
  have 1: "inv s1" "heads s1 = heads s" using kept_view [OF assms(1) k] by blast+
  have "s' = s1 \<or> (\<exists>w t e. hs_remember st w t s1 = (Some e, s'))"
    using assms(5) k Inl by (auto simp: read_trail_def split: option.splits sum.splits prod.splits)
  then show ?thesis using 1 remember_err [OF 1(1)] assms(4) Inl by auto
next
  case (Inr rep)
  have w: "on_chain c (keep_of (witness_of (shown n c)) now)"
    using on_chain_witness [OF assms(2), of n] by (simp add: on_chain_def witness_zero_def)
  have "fst (check (shown n c) (heads s)) = dr_verdict rep"
    using read_report [OF assms(1) assms(5) [unfolded Inr]] by (metis fst_conv option.inject sum.inject(2))
  moreover have "\<not> wrong (fst (check (shown n c) (heads s)))" by (rule honest_not_wrong [OF assms(2-4)])
  ultimately show ?thesis
    using read_report [OF assms(1) assms(5) [unfolded Inr]] w assms(4) Inr by (auto split: if_splits)
qed

end

end
