(* ===== verification/JsonTime.thy ===== *)
theory JsonTime
  imports Json GoTime
begin

text \<open>
  A \<open>time.Time\<close> read from JSON: the strict RFC 3339 form, with the calendar checked. The offset of a time
  is taken into account and forgotten, as an instant has none.
\<close>

text \<open>Day 0 is 0001-01-01; the inverse of \<open>civil_of_day\<close>.\<close>

definition day_of_civil :: "int \<Rightarrow> int \<Rightarrow> int \<Rightarrow> int" where
  "day_of_civil y m d =
     (let y' = (if m \<le> 2 then y - 1 else y); era = y' div 400; yoe = y' mod 400;
          doy = (153 * (if 2 < m then m - 3 else m + 9) + 2) div 5 + d - 1
      in era * 146097 + (yoe * 365 + yoe div 4 - yoe div 100 + doy) - 306)"

definition days_in :: "int \<Rightarrow> int \<Rightarrow> int" where
  "days_in y m =
     (if m = 2 then (if y mod 4 = 0 \<and> (y mod 100 \<noteq> 0 \<or> y mod 400 = 0) then 29 else 28)
      else if m \<in> {4, 6, 9, 11} then 30 else 31)"

text \<open>A number of exactly so many digits within bounds, and the rest of the text.\<close>

definition fixed_number :: "nat \<Rightarrow> int \<Rightarrow> int \<Rightarrow> string \<Rightarrow> (int \<times> string) option" where
  "fixed_number k lo hi s =
     (if length s < k then None
      else case read_digits 0 (take k s) of
          None \<Rightarrow> None
        | Some n \<Rightarrow> if lo \<le> int n \<and> int n \<le> hi then Some (int n, drop k s) else None)"

definition expect :: "char \<Rightarrow> string \<Rightarrow> string option" where
  "expect c s = (case s of [] \<Rightarrow> None | x # xs \<Rightarrow> if x = c then Some xs else None)"

text \<open>The fraction of a second, in nanoseconds; digits after the ninth are dropped.\<close>

definition read_fraction :: "string \<Rightarrow> (int \<times> string) option" where
  "read_fraction s =
     (case expect (CHR ''.'') s of
        None \<Rightarrow> Some (0, s)
      | Some t \<Rightarrow>
          (let ds = takeWhile (\<lambda>c. digit_val c \<noteq> None) t in
           if ds = [] then None
           else map_option (\<lambda>n. (int n * 10 ^ (9 - min 9 (length ds)), drop (length ds) t))
             (read_digits 0 (take 9 ds))))"

definition read_offset :: "string \<Rightarrow> int option" where
  "read_offset s =
     (if s = ''Z'' then Some 0
      else case s of
          [] \<Rightarrow> None
        | sign # t \<Rightarrow>
            if sign \<noteq> CHR ''+'' \<and> sign \<noteq> CHR ''-'' then None
            else Option.bind (fixed_number 2 0 23 t) (\<lambda>(h, t1).
                 Option.bind (expect (CHR '':'') t1) (\<lambda>t2.
                 Option.bind (fixed_number 2 0 59 t2) (\<lambda>(m, t3).
                   if t3 = [] then Some ((if sign = CHR ''-'' then - 1 else 1) * (h * 3600 + m * 60))
                   else None))))"

definition parse_rfc3339 :: "string \<Rightarrow> instant option" where
  "parse_rfc3339 s =
     Option.bind (fixed_number 4 0 9999 s) (\<lambda>(y, s1).
     Option.bind (expect (CHR ''-'') s1) (\<lambda>s2.
     Option.bind (fixed_number 2 1 12 s2) (\<lambda>(m, s3).
     Option.bind (expect (CHR ''-'') s3) (\<lambda>s4.
     Option.bind (fixed_number 2 1 (days_in y m) s4) (\<lambda>(d, s5).
     Option.bind (expect (CHR ''T'') s5) (\<lambda>s6.
     Option.bind (fixed_number 2 0 23 s6) (\<lambda>(hh, s7).
     Option.bind (expect (CHR '':'') s7) (\<lambda>s8.
     Option.bind (fixed_number 2 0 59 s8) (\<lambda>(mm, s9).
     Option.bind (expect (CHR '':'') s9) (\<lambda>s10.
     Option.bind (fixed_number 2 0 59 s10) (\<lambda>(ss, s11).
     Option.bind (read_fraction s11) (\<lambda>(ns, s12).
     Option.bind (read_offset s12) (\<lambda>off.
       Some ((day_of_civil y m d * 86400 + hh * 3600 + mm * 60 + ss - off) * second + ns))))))))))))))"

fun as_time :: "json \<Rightarrow> instant option" where
  "as_time (JText s) = parse_rfc3339 s"
| "as_time _ = None"

definition time_field :: "parser \<Rightarrow> (string \<times> string) list \<Rightarrow> string \<Rightarrow> instant option" where
  "time_field parse fs key = fold_field as_time parse zero_time (values_of key fs)"

text \<open>A leap day, a fraction and an offset; and a text the program writes.\<close>

lemma parse_rfc3339_samples:
  "parse_rfc3339 ''2024-02-29T12:30:45.5+01:00'' = Some ((738944 * 86400 + 41445) * second + 500000000)"
  "parse_rfc3339 ''2023-02-29T12:30:45Z'' = None"
  "parse_rfc3339 (rfc3339_utc (738944 * 86400 * second)) = Some (738944 * 86400 * second)"
  by code_simp+

end
