(* ===== verification/DisclosureDb.thy ===== *)
theory DisclosureDb
  imports Disclosure Api JsonTime
begin

text \<open>
  Where the heads are written down, \<open>business/domain/disclosure/stores/disclosuredb/disclosuredb.go\<close> with
  its schema, and where the trail comes from, \<open>sources/eumaeusdisclosure/eumaeusdisclosure.go\<close>.
\<close>

section \<open>The table of heads\<close>

record head_row =
  hr_count :: int
  hr_hash :: string
  hr_at :: time_text
  hr_seen :: time_text

record headdb =
  hd_ready :: bool
  hd_rows :: "head_row list"
  hd_faults :: faults

definition head_statement :: "headdb \<Rightarrow> bool \<times> headdb" where
  "head_statement db = (fails_next (hd_faults db), db\<lparr>hd_faults := tl (hd_faults db)\<rparr>)"

definition head_migrate :: "headdb \<Rightarrow> err option \<times> headdb" where
  "head_migrate db =
     (case head_statement db of (bad, db1) \<Rightarrow>
        if bad then (Some (Wrap ''disclosuredb: applying the schema: '' (Sentinel ''sql'') []), db1)
        else (None, db1\<lparr>hd_ready := True\<rparr>))"

definition head_remember :: "witness \<Rightarrow> instant \<Rightarrow> headdb \<Rightarrow> err option \<times> headdb" where
  "head_remember w seen db =
     (case head_statement db of (bad, db1) \<Rightarrow>
        if bad \<or> \<not> hd_ready db1
        then (Some (Wrap (''disclosuredb: remembering head at '' @ itoa (wi_count w) @ '': '')
               (Sentinel ''sql'') []), db1)
        else if wi_count w \<in> hr_count ` set (hd_rows db1) then (None, db1)
        else (None, db1\<lparr>hd_rows := hd_rows db1 @
               [\<lparr>hr_count = wi_count w, hr_hash = wi_hash w,
                 hr_at = (if is_zero (wi_at w) then NoTime else TimeText (whole_second (wi_at w))),
                 hr_seen = TimeText (whole_second seen)\<rparr>]\<rparr>))"

fun parse_stored :: "time_text \<Rightarrow> instant" where
  "parse_stored NoTime = zero_time"
| "parse_stored BadTime = zero_time"
| "parse_stored (TimeText t) = t"

definition keep_of_row :: "head_row \<Rightarrow> keep" where
  "keep_of_row r =
     \<lparr>wi_count = hr_count r, wi_hash = hr_hash r, wi_at = parse_stored (hr_at r),
      kp_seen = parse_stored (hr_seen r)\<rparr>"

definition head_kept :: "headdb \<Rightarrow> keep list res \<times> headdb" where
  "head_kept db =
     (case head_statement db of (bad, db1) \<Rightarrow>
        if bad \<or> \<not> hd_ready db1
        then (Inl (Wrap ''disclosuredb: reading the kept heads: '' (Sentinel ''sql'') []), db1)
        else (Inr (map keep_of_row (sort_key hr_count (hd_rows db1))), db1))"

definition head_storage :: "headdb head_storer" where
  "head_storage = \<lparr>hs_remember = head_remember, hs_kept = head_kept\<rparr>"

section \<open>The trail from the server\<close>

definition max_limit :: int where
  "max_limit = 500"

definition decode_entry :: "parser \<Rightarrow> string \<Rightarrow> entry option" where
  "decode_entry parse raw =
     Option.bind (struct_fields parse raw) (\<lambda>f.
     Option.bind (int_field parse f ''seq'') (\<lambda>seq.
     Option.bind (time_field parse f ''at'') (\<lambda>at'.
     Option.bind (text_field parse f ''kind'') (\<lambda>kind.
     Option.bind (text_field parse f ''actor'') (\<lambda>actor.
     Option.bind (text_field parse f ''from_ip'') (\<lambda>ip.
     Option.bind (int_field parse f ''credentials_version'') (\<lambda>version.
     Option.bind (bool_field parse f ''by_machine'') (\<lambda>machine.
     Option.bind (text_field parse f ''describe'') (\<lambda>describe.
     Option.bind (text_field parse f ''detail'') (\<lambda>detail.
     Option.bind (text_field parse f ''prev_hash'') (\<lambda>prev.
     Option.bind (text_field parse f ''hash'') (\<lambda>hash.
     Some \<lparr>en_seq = seq, en_at = at', en_kind = kind, en_actor = actor, en_from_ip = ip,
       en_version = version, en_by_machine = machine, en_describe = describe, en_detail = detail,
       en_prev = prev, en_hash = hash\<rparr>))))))))))))"

fun decode_entries :: "parser \<Rightarrow> string list \<Rightarrow> entry list option" where
  "decode_entries parse [] = Some []"
| "decode_entries parse (raw # raws) =
     Option.bind (decode_entry parse raw) (\<lambda>e. map_option ((#) e) (decode_entries parse raws))"

fun as_entries :: "parser \<Rightarrow> json \<Rightarrow> entry list option" where
  "as_entries parse (JArray raws) = decode_entries parse raws"
| "as_entries parse _ = None"

definition decode_trail :: "parser \<Rightarrow> string \<Rightarrow> dlog option" where
  "decode_trail parse body =
     Option.bind (struct_fields parse body) (\<lambda>f.
     Option.bind (int_field parse f ''count'') (\<lambda>count.
     Option.bind (text_field parse f ''head'') (\<lambda>head.
     Option.bind (fold_field (as_entries parse) parse [] (values_of ''entries'' f)) (\<lambda>entries.
     Option.bind (time_field parse f ''chained_since'') (\<lambda>since.
     Some \<lparr>lg_count = count, lg_head = head, lg_entries = entries, lg_chained_since = since\<rparr>)))))"

definition list_trail :: "parser \<Rightarrow> int \<Rightarrow> unit net \<Rightarrow> dlog res \<times> unit net" where
  "list_trail parse limit0 n =
     (let limit = (if limit0 < 1 then 1 else if max_limit < limit0 then max_limit else limit0);
          path = ''/machines/me/disclosures?limit='' @ itoa limit in
      case api_do parse ''GET'' path () n of
        (Inl e, n1) \<Rightarrow>
          (if err_is ErrUnauthorised e
           then Inl (Wrap2 ''eumaeusdisclosure: '' ErrNotEnrolled '': '' e [])
           else if err_is ErrNotFound e
           then Inl (Wrap ''eumaeusdisclosure: this Eumaeus does not serve a disclosure trail: ''
             ErrUnsupported [])
           else Inl (Wrap ''eumaeusdisclosure: fetching the trail: '' e []), n1)
      | (Inr body, n1) \<Rightarrow>
          (case decode_trail parse body of
             None \<Rightarrow> (Inl (Wrap ''eumaeusdisclosure: fetching the trail: ''
               (Sentinel ''eumaeusapi: reading the reply'') []), n1)
           | Some l \<Rightarrow> (Inr l, n1)))"

section \<open>The table keeps the laws of the store\<close>

definition head_inv :: "headdb \<Rightarrow> bool" where
  "head_inv db \<longleftrightarrow> distinct (map hr_count (hd_rows db))"

definition heads_of :: "headdb \<Rightarrow> keep list" where
  "heads_of db = map keep_of_row (sort_key hr_count (hd_rows db))"

lemma count_of_row [simp]: "wi_count (keep_of_row r) = hr_count r"
  by (simp add: keep_of_row_def)

lemma set_heads: "set (heads_of db) = keep_of_row ` set (hd_rows db)"
  by (simp add: heads_of_def)

lemma heads_ordered:
  assumes "head_inv db"
  shows "sorted_wrt (\<lambda>a b. wi_count a < wi_count b) (heads_of db)"
proof -
  let ?c = "map hr_count (sort_key hr_count (hd_rows db))"
  have "distinct ?c" using assms by (simp add: head_inv_def distinct_map inj_on_def)
  moreover have "sorted ?c" by simp
  ultimately have "sorted_wrt (<) ?c" by (simp add: strict_sorted_iff)
  then show ?thesis by (simp add: heads_of_def sorted_wrt_map)
qed

lemma head_statement_frame:
  "head_statement db = (bad, db1) \<Longrightarrow> hd_rows db1 = hd_rows db \<and> hd_ready db1 = hd_ready db"
  by (auto simp: head_statement_def)

interpretation hdb: head_store head_storage heads_of head_inv
proof unfold_locales
  fix s s' r assume "head_inv s" "hs_kept head_storage s = (r, s')"
  then show "head_inv s' \<and> heads_of s' = heads_of s \<and> (\<forall>ks. r = Inr ks \<longrightarrow> ks = heads_of s)"
    using head_statement_frame [of s]
    by (auto simp: head_storage_def head_kept_def head_inv_def heads_of_def split: prod.splits if_splits)
next
  fix s s' w now assume "head_inv s" "hs_remember head_storage w now s = (None, s')"
  then show "head_inv s' \<and> set (heads_of s') = (if wi_count w \<in> wi_count ` set (heads_of s) then set (heads_of s)
      else insert (keep_of w now) (set (heads_of s)))"
    using head_statement_frame [of s]
    by (auto simp: head_storage_def head_remember_def head_inv_def set_heads image_image keep_of_def
        keep_of_row_def split: prod.splits if_splits)
next
  fix s s' w now e assume "head_inv s" "hs_remember head_storage w now s = (Some e, s')"
  then show "head_inv s' \<and> heads_of s' = heads_of s"
    using head_statement_frame [of s]
    by (auto simp: head_storage_def head_remember_def head_inv_def heads_of_def split: prod.splits if_splits)
next
  fix s assume "head_inv s"
  then show "sorted_wrt (\<lambda>a b. wi_count a < wi_count b) (heads_of s)" by (rule heads_ordered)
qed

section \<open>Reading again and again\<close>

fun read_all :: "'s head_storer \<Rightarrow> (dlog res option \<times> instant) list \<Rightarrow> 's \<Rightarrow> dreport res list \<times> 's" where
  "read_all st [] s = ([], s)"
| "read_all st ((source, now) # xs) s =
     (case read_trail st source now s of (r, s1) \<Rightarrow>
        (case read_all st xs s1 of (rs, s2) \<Rightarrow> (r # rs, s2)))"

lemma read_all_keeps:
  "head_inv db \<Longrightarrow> head_inv (snd (read_all head_storage xs db)) \<and>
    set (heads_of db) \<subseteq> set (heads_of (snd (read_all head_storage xs db)))"
proof (induction head_storage xs db rule: read_all.induct)
  case (1 s)
  then show ?case by simp
next
  case (2 source now xs s)
  obtain r s1 where r: "read_trail head_storage source now s = (r, s1)" by fastforce
  note k = hdb.read_keeps [OF 2(2) r]
  have "head_inv (snd (read_all head_storage xs s1)) \<and>
      set (heads_of s1) \<subseteq> set (heads_of (snd (read_all head_storage xs s1)))"
    using 2(1) [OF r [symmetric] conjunct1 [OF k]] .
  then show ?case using k r by (auto split: prod.splits)
qed

text \<open>What an honest server shows at each reading: its chain so far, cut to a limit.\<close>

fun honest_source :: "entry list \<times> nat \<times> instant \<Rightarrow> dlog res option \<times> instant" where
  "honest_source (c, n, t) = (Some (Inr (shown n c)), t)"

lemma honest_reads:
  assumes "head_inv db" and "\<forall>k\<in>set (heads_of db). on_chain c0 k"
    and "\<forall>(c, n, t)\<in>set xs. chain_ok c \<and> 0 < n \<and> prefix c0 c"
    and "sorted_wrt (\<lambda>a b. prefix (fst a) (fst b)) xs"
    and "Inr rep \<in> set (fst (read_all head_storage (map honest_source xs) db))"
  shows "\<not> wrong (dr_verdict rep)"
  using assms
proof (induction xs arbitrary: db c0)
  case Nil
  then show ?case by simp
next
  case (Cons x xs)
  obtain c n t where x: "x = (c, n, t)" by (metis prod_cases3)
  obtain r s1 where r: "read_trail head_storage (Some (Inr (shown n c))) t db = (r, s1)" by fastforce
  obtain rs s2 where rs: "read_all head_storage (map honest_source xs) s1 = (rs, s2)" by fastforce
  have c: "chain_ok c" "0 < n" "prefix c0 c" using Cons.prems(3) x by auto
  have on: "\<forall>k\<in>set (heads_of db). on_chain c k" using Cons.prems(2) c(3) on_chain_prefix by blast
  note h = hdb.honest_read [OF Cons.prems(1) c(1,2) on r]
  have "Inr rep \<in> insert r (set rs)" using Cons.prems(5) by (simp add: x r rs)
  then show ?case
  proof
    assume "Inr rep = r"
    then show ?thesis using h by blast
  next
    assume m: "Inr rep \<in> set rs"
    show ?thesis
    proof (rule Cons.IH [of s1 c])
      show "head_inv s1" "\<forall>k\<in>set (heads_of s1). on_chain c k" using h by blast+
      show "\<forall>(c', n, t)\<in>set xs. chain_ok c' \<and> 0 < n \<and> prefix c c'" using Cons.prems(3,4) x by fastforce
      show "sorted_wrt (\<lambda>a b. prefix (fst a) (fst b)) xs" using Cons.prems(4) by simp
      show "Inr rep \<in> set (fst (read_all head_storage (map honest_source xs) s1))" using m rs by simp
    qed
  qed
qed

section \<open>What the owner can rely on\<close>

text \<open>C17: an honest server is never accused. While the server's chain only grows, a machine that starts
  with no head written down never reads a wrong verdict, however often it reads, whatever limits it
  asks for and whichever statements of its own database fail.\<close>

theorem honest_server_never_accused:
  assumes "hd_rows db = []" and "\<forall>(c, n, t)\<in>set xs. chain_ok c \<and> 0 < n"
    and "sorted_wrt (\<lambda>a b. prefix (fst a) (fst b)) xs"
    and "Inr rep \<in> set (fst (read_all head_storage (map honest_source xs) db))"
  shows "\<not> wrong (dr_verdict rep)"
proof (rule honest_reads [of db "[]" xs])
  show "head_inv db" "\<forall>k\<in>set (heads_of db). on_chain [] k"
    using assms(1) by (simp_all add: head_inv_def heads_of_def)
  show "\<forall>(c, n, t)\<in>set xs. chain_ok c \<and> 0 < n \<and> prefix [] c" using assms(2) by auto
qed (rule assms)+

definition sample_entry :: "int \<Rightarrow> string \<Rightarrow> string \<Rightarrow> entry" where
  "sample_entry i prev hash =
     \<lparr>en_seq = i, en_at = i * second, en_kind = KindFetched, en_actor = [], en_from_ip = [], en_version = 1,
      en_by_machine = True, en_describe = ''collected to run a backup'', en_detail = [],
      en_prev = prev, en_hash = hash\<rparr>"

definition sample_chain :: "entry list" where
  "sample_chain = [sample_entry 1 [] ''a1'', sample_entry 2 ''a1'' ''a2'', sample_entry 3 ''a2'' ''a3'']"

definition empty_heads :: headdb where
  "empty_heads = \<lparr>hd_ready = True, hd_rows = [], hd_faults = []\<rparr>"

lemma chain_ok_code:
  "chain_ok c \<longleftrightarrow> list_all (\<lambda>i. en_seq (c ! i) = int i + 1 \<and> en_hash (c ! i) \<noteq> [] \<and>
     (0 < i \<longrightarrow> en_prev (c ! i) = en_hash (c ! (i - 1)))) [0..<length c]"
  by (auto simp: chain_ok_def list_all_iff)

lemma sample_chain_ok: "chain_ok sample_chain" "chain_ok (take 2 sample_chain)"
  unfolding chain_ok_code by code_simp+

theorem honest_server_never_accused_witness:
  "\<exists>rep db. read_all head_storage (map honest_source [(take 2 sample_chain, 9, 0), (sample_chain, 9, 0)])
      empty_heads = ([Inr rep, Inr db], snd (read_all head_storage
        (map honest_source [(take 2 sample_chain, 9, 0), (sample_chain, 9, 0)]) empty_heads)) \<and>
    \<not> wrong (dr_verdict rep) \<and> \<not> wrong (dr_verdict db) \<and> dr_verdict db = Agrees"
proof -
  let ?xs = "[(take 2 sample_chain, 9, 0), (sample_chain, 9, 0)] :: (entry list \<times> nat \<times> instant) list"
  let ?out = "read_all head_storage (map honest_source ?xs) empty_heads"
  have "list_all is_ok (fst ?out)" "length (fst ?out) = 2"
    "map (map_sum (\<lambda>e. e) dr_verdict) (fst ?out) = [Inr FirstLook, Inr Agrees]" by code_simp+
  then obtain r1 r2 where r: "fst ?out = [Inr r1, Inr r2]" "dr_verdict r2 = Agrees"
    by (cases "fst ?out"; cases "tl (fst ?out)"; cases "hd (fst ?out)"; cases "hd (tl (fst ?out))") auto
  have pre: "hd_rows empty_heads = []" "\<forall>(c, n, t)\<in>set ?xs. chain_ok c \<and> 0 < n"
    "sorted_wrt (\<lambda>a b. prefix (fst a) (fst b)) ?xs"
    using sample_chain_ok by (simp_all add: empty_heads_def take_is_prefix)
  have "\<not> wrong (dr_verdict r1)" "\<not> wrong (dr_verdict r2)"
    using honest_server_never_accused [OF pre, of r1] honest_server_never_accused [OF pre, of r2] r(1) by simp_all
  then show ?thesis using r by (metis prod.collapse)
qed

text \<open>C18: rewriting the trail is noticed. Once the machine has read a trail that was not wrong, a later
  reading of a chain that does not continue it is wrong, if its hashes do not collide with the first
  one's and the list it shows reaches back to where the first one ended: whatever was read in between,
  the head that was written down is still there.\<close>

theorem rewriting_is_noticed:
  assumes "head_inv db" and "chain_ok c" and "c \<noteq> []" and "0 < n"
    and "read_trail head_storage (Some (Inr (shown n c))) t db = (Inr rep, db1)" and "\<not> wrong (dr_verdict rep)"
    and "chain_ok c'" and "no_collision c c'" and "\<not> prefix c c'" and "length c' < m + length c"
    and "read_trail head_storage (Some (Inr (shown m c'))) t' (snd (read_all head_storage xs db1)) = (Inr rep', db2)"
  shows "wrong (dr_verdict rep')"
proof -
  let ?L = "int (length c)"
  have R: "(dr_verdict rep, dr_against rep) = check (shown n c) (heads_of db)" "head_inv db1"
    "set (heads_of db1) = (if ?L \<in> wi_count ` set (heads_of db) then set (heads_of db)
      else insert (keep_of (witness_of (shown n c)) t) (set (heads_of db)))"
    using hdb.read_report [OF assms(1,5)] by (auto simp: shown_def)
  have "\<exists>k\<in>set (heads_of db1). wi_count k = ?L \<and> wi_hash k = en_hash (last c)"
  proof (cases "?L \<in> wi_count ` set (heads_of db)")
    case False
    then have "keep_of (witness_of (shown n c)) t \<in> set (heads_of db1)" using R(3) by simp
    then show ?thesis using assms(3)
      by (intro bexI [of _ "keep_of (witness_of (shown n c)) t"]) (simp_all add: witness_of_def shown_def)
  next
    case True
    then obtain k where k: "k \<in> set (heads_of db)" "wi_count k = ?L" by auto
    have "\<not> wrong (fst (check (shown n c) (heads_of db)))" using R(1) assms(6) by (metis fst_conv)
    then have nc: "\<not> contradicts (shown n c) k" using k(1) check_wrong by blast
    have i: "length c - 1 < length c" "length c \<le> length c - 1 + n" "int (length c - 1) + 1 = ?L"
      "last c = c ! (length c - 1)"
      using assms(3,4) by (simp_all add: last_conv_nth of_nat_diff Suc_leI)
    have "entry_at (take n (rev c)) ?L = Some (last c)"
      using entry_at_shown(2) [OF assms(2) i(1,2)] i(3,4) by simp
    then have "wi_hash k = en_hash (last c)" using nc k(2) assms(3)
      by (auto simp: contradicts_def shown_def witness_zero_def)
    then show ?thesis using k R(3) True by auto
  qed
  then obtain k where k: "k \<in> set (heads_of db1)" "wi_count k = ?L" "wi_hash k = en_hash (last c)" by blast
  let ?db = "snd (read_all head_storage xs db1)"
  note K = read_all_keeps [OF R(2), of xs]
  have "k \<in> set (heads_of ?db)" using K k(1) by blast
  moreover have "contradicts (shown m c') k"
    by (rule rewritten_contradicts [OF assms(2,7,8,9,3,10) k(2,3)])
  ultimately have "wrong (fst (check (shown m c') (heads_of ?db)))" using check_wrong by blast
  moreover have "(dr_verdict rep', dr_against rep') = check (shown m c') (heads_of ?db)"
    using hdb.read_report [OF conjunct1 [OF K] assms(11)] by auto
  ultimately show ?thesis by (metis fst_conv)
qed

definition rewritten_chain :: "entry list" where
  "rewritten_chain = [sample_entry 1 [] ''a1'', sample_entry 2 ''a1'' ''b2'', sample_entry 3 ''b2'' ''b3'']"

theorem rewriting_is_noticed_witness:
  "\<exists>rep db. read_trail head_storage (Some (Inr (shown 200 rewritten_chain))) 0
      (snd (read_trail head_storage (Some (Inr (shown 200 (take 2 sample_chain)))) 0 empty_heads)) = (Inr rep, db) \<and>
    wrong (dr_verdict rep)"
proof -
  let ?one = "read_trail head_storage (Some (Inr (shown 200 (take 2 sample_chain)))) 0 empty_heads"
  let ?two = "read_trail head_storage (Some (Inr (shown 200 rewritten_chain))) 0 (snd ?one)"
  have c: "chain_ok rewritten_chain" unfolding chain_ok_code by code_simp
  have r1: "is_ok (fst ?one)" "map_sum (\<lambda>e. e) dr_verdict (fst ?one) = Inr FirstLook" "is_ok (fst ?two)"
    by code_simp+
  then obtain rep1 rep2 where o1: "?one = (Inr rep1, snd ?one)" "dr_verdict rep1 = FirstLook"
    and o2: "?two = (Inr rep2, snd ?two)"
    by (cases ?one; cases "fst ?one"; cases ?two; cases "fst ?two") auto
  have h: "head_inv empty_heads" by (simp add: head_inv_def empty_heads_def)
  have nc: "no_collision (take 2 sample_chain) rewritten_chain" "\<not> prefix (take 2 sample_chain) rewritten_chain"
    "length rewritten_chain < 200 + length (take 2 sample_chain)" "take 2 sample_chain \<noteq> []"
    by (simp_all add: no_collision_def sample_chain_def rewritten_chain_def sample_entry_def)
  have o2': "read_trail head_storage (Some (Inr (shown 200 rewritten_chain))) 0
      (snd (read_all head_storage [] (snd ?one))) = (Inr rep2, snd ?two)" using o2 by simp
  have "wrong (dr_verdict rep2)"
    by (rule rewriting_is_noticed [OF h sample_chain_ok(2) nc(4) _ o1(1) _ c nc(1-3) o2'])
      (simp_all add: o1(2) wrong_def)
  then show ?thesis using o2 by blast
qed

text \<open>no entry is hidden. Every entry of a reading is in exactly one of the three columns, in the order
  it was shown, whatever its kind: those about the storage keys in the third, and of the others those the
  server says went to the machine in the second and all the rest, of a kind this build has never heard
  of too, in the first; the foreign keys are those of the third column.\<close>

theorem no_entry_hidden:
  "dr_people (split_log l v k m) =
     filter (\<lambda>e. \<not> about_bucket (en_kind e) \<and> \<not> en_by_machine e) (lg_entries l) \<and>
   dr_machines (split_log l v k m) =
     filter (\<lambda>e. \<not> about_bucket (en_kind e) \<and> en_by_machine e) (lg_entries l) \<and>
   dr_keys (split_log l v k m) = filter (\<lambda>e. about_bucket (en_kind e)) (lg_entries l) \<and>
   dr_foreign (split_log l v k m) = filter (\<lambda>e. en_kind e = KindKeysForeign) (lg_entries l) \<and>
   dr_people_count (split_log l v k m) + dr_machine_count (split_log l v k m) +
     dr_key_count (split_log l v k m) = int (length (lg_entries l))"
proof -
  let ?p = "\<lambda>e. \<not> about_bucket (en_kind e) \<and> \<not> en_by_machine e"
  let ?m = "\<lambda>e. \<not> about_bucket (en_kind e) \<and> en_by_machine e"
  let ?k = "\<lambda>e. about_bucket (en_kind e)" and ?f = "\<lambda>e. en_kind e = KindKeysForeign"
  have "foldl sort_entry (a, b, c, d) es =
      (a @ filter ?p es, b @ filter ?m es, c @ filter ?k es, d @ filter ?f es)" for a b c d es
    by (induction es arbitrary: a b c d) (auto simp: about_bucket_def)
  moreover have "length (filter ?p es) + length (filter ?m es) + length (filter ?k es) = length es" for es
    by (induction es) auto
  ultimately show ?thesis by (simp add: split_log_def flip: of_nat_add)
qed

section \<open>What the check lets through\<close>

text \<open>A list that leaves out the newest entry agrees: the head is compared only with an entry that claims
  the last place. So does the list in the wrong order, of which no two neighbours claim to be adjacent.\<close>

definition kept_first :: "keep list" where
  "kept_first = [\<lparr>wi_count = 1, wi_hash = ''a1'', wi_at = second, kp_seen = second\<rparr>]"

theorem truncated_list_agrees:
  "fst (check ((shown 200 sample_chain)\<lparr>lg_entries := tl (rev sample_chain)\<rparr>) kept_first) = Agrees \<and>
   fst (check ((shown 200 sample_chain)\<lparr>lg_entries := sample_chain\<rparr>) kept_first) = Agrees"
  by code_simp

end
