(* ===== verification/Machine.thy ===== *)
theory Machine
  imports PlanDb Api JsonTime
begin

text \<open>
  What the server knows about this machine: \<open>business/domain/machine/machinebus\<close> and its client
  \<open>sources/eumaeusmachine\<close>, and the daemon's poll of it in \<open>cmd/sion-backup/rotate.go\<close> and
  \<open>recover.go\<close>. A machine without a token has no source: \<open>available\<close> says whether there is one. The
  network logs what was asked for.
\<close>

section \<open>What the server says\<close>

definition ErrMachineNotEnrolled :: err where
  "ErrMachineNotEnrolled = Sentinel ''machinebus: this machine is not enrolled''"

definition ErrNoRepository :: err where
  "ErrNoRepository = Sentinel ''machinebus: Eumaeus has no repository for this machine''"

definition ErrNothingOffered :: err where
  "ErrNothingOffered = Sentinel ''machinebus: no bucket has been offered to this machine''"

definition ErrAlreadyAsked :: err where
  "ErrAlreadyAsked = Sentinel ''machinebus: this machine has already asked, or has a bucket waiting''"

definition ErrNotCuttingOver :: err where
  "ErrNotCuttingOver = Sentinel (''machinebus: this machine is not cutting over, '' @
     ''or nothing verified has landed in the new bucket yet'')"

lemmas machine_sentinels = ErrMachineNotEnrolled_def ErrNoRepository_def ErrNothingOffered_def
  ErrAlreadyAsked_def ErrNotCuttingOver_def ErrNotFound_def ErrUnauthorised_def ErrForbidden_def
  ErrConflict_def

record standing =
  so_url :: string
  so_provider :: string
  so_region :: string
  so_bucket :: string
  so_offered_at :: instant
  so_adopted :: bool

record server_card =
  sc_state :: string
  sc_issued_at :: instant

text \<open>\<open>Routes\<close> is nil from a server that did not say, which is not the empty list.\<close>

record server_state =
  sv_node_id :: string
  sv_repository_url :: string
  sv_created_at :: instant
  sv_routes :: "string list option"
  sv_owner_name :: string
  sv_owner_email :: string
  sv_repository_state :: string
  sv_adopted :: bool
  sv_offer :: "standing option"
  sv_card :: server_card

definition server_cutting_over :: "server_state \<Rightarrow> bool" where
  "server_cutting_over s \<longleftrightarrow> sv_repository_state s = StateCuttingOver"

definition server_card_owed :: "server_card \<Rightarrow> bool" where
  "server_card_owed c \<longleftrightarrow> sc_state c = CardNever \<or> sc_state c = CardSuperseded"

definition server_destroy_the_old :: "server_card \<Rightarrow> bool" where
  "server_destroy_the_old c \<longleftrightarrow> sc_state c = CardSuperseded"

definition knows_what_it_serves :: "server_state \<Rightarrow> bool" where
  "knows_what_it_serves s \<longleftrightarrow> sv_routes s \<noteq> None"

definition serves :: "server_state \<Rightarrow> string \<Rightarrow> string \<Rightarrow> bool" where
  "serves s meth path \<longleftrightarrow>
     (case sv_routes s of None \<Rightarrow> False | Some rs \<Rightarrow> list_ex ((=) (meth @ '' '' @ path)) rs)"

definition usable :: "server_state \<Rightarrow> bool" where
  "usable s \<longleftrightarrow> sv_node_id s \<noteq> [] \<and> sv_repository_url s \<noteq> []"

section \<open>Decoding the answer\<close>

definition decode_offer :: "parser \<Rightarrow> (string \<times> string) list \<Rightarrow> standing option" where
  "decode_offer parse f =
     Option.bind (text_field parse f ''url'') (\<lambda>url.
     Option.bind (text_field parse f ''provider'') (\<lambda>provider.
     Option.bind (text_field parse f ''region'') (\<lambda>region.
     Option.bind (text_field parse f ''bucket'') (\<lambda>bucket.
     Option.bind (time_field parse f ''offered_at'') (\<lambda>since.
     Option.bind (bool_field parse f ''adopted'') (\<lambda>adopted.
     Some \<lparr>so_url = url, so_provider = provider, so_region = region, so_bucket = bucket,
       so_offered_at = since, so_adopted = adopted\<rparr>))))))"

definition decode_offer_field :: "parser \<Rightarrow> (string \<times> string) list \<Rightarrow> standing option option" where
  "decode_offer_field parse f =
     (case pointer_field parse f ''offer'' of
        None \<Rightarrow> None
      | Some None \<Rightarrow> Some None
      | Some (Some g) \<Rightarrow> map_option Some (decode_offer parse g))"

definition decode_state :: "parser \<Rightarrow> string \<Rightarrow> server_state option" where
  "decode_state parse body =
     Option.bind (struct_fields parse body) (\<lambda>f.
     Option.bind (text_field parse f ''node_id'') (\<lambda>node.
     Option.bind (object_field parse f ''owner'') (\<lambda>owner.
     Option.bind (text_field parse owner ''name'') (\<lambda>name.
     Option.bind (text_field parse owner ''email'') (\<lambda>email.
     Option.bind (object_field parse f ''repository'') (\<lambda>repo.
     Option.bind (text_field parse repo ''url'') (\<lambda>url.
     Option.bind (text_field parse repo ''state'') (\<lambda>state.
     Option.bind (bool_field parse repo ''adopted'') (\<lambda>adopted.
     Option.bind (time_field parse repo ''created_at'') (\<lambda>created.
     Option.bind (decode_offer_field parse f) (\<lambda>ofr.
     Option.bind (object_field parse f ''card'') (\<lambda>card.
     Option.bind (text_field parse card ''state'') (\<lambda>cstate.
     Option.bind (fold_nilable as_time parse None (values_of ''issued_at'' card)) (\<lambda>issued.
     Option.bind (object_field parse f ''api'') (\<lambda>api.
     Option.bind (fold_nilable (as_texts parse) parse None (values_of ''serves'' api)) (\<lambda>routes.
     Some \<lparr>sv_node_id = node, sv_repository_url = url, sv_created_at = created, sv_routes = routes,
       sv_owner_name = name, sv_owner_email = email, sv_repository_state = state, sv_adopted = adopted,
       sv_offer = ofr,
       sv_card = \<lparr>sc_state = cstate, sc_issued_at = (case issued of None \<Rightarrow> zero_time | Some t \<Rightarrow> t)\<rparr>\<rparr>))))))))))))))))"

section \<open>The calls\<close>

datatype machine_body =
    NoBody
  | RotationBody string int int instant
  | UrlBody string
  | CardBody string instant

record measured =
  md_repository_url :: string
  md_reclaimable :: int
  md_fresh :: int
  md_measured_at :: instant

record released =
  rl_bucket :: string
  rl_url :: string
  rl_asked_at :: instant

type_synonym machine_net = "machine_body net"

definition reading_reply :: err where
  "reading_reply = Sentinel ''eumaeusapi: reading the reply''"

definition source_state :: "parser \<Rightarrow> machine_net \<Rightarrow> server_state res \<times> machine_net" where
  "source_state parse n =
     (case api_do parse ''GET'' ''/machines/me'' NoBody n of
        (Inl e, n1) \<Rightarrow>
          (if err_is ErrUnauthorised e
           then Inl (Wrap2 ''eumaeusmachine: '' ErrMachineNotEnrolled '': '' e [])
           else if err_is ErrNotFound e then Inl (Wrap ''eumaeusmachine: '' ErrNoRepository [])
           else Inl (Wrap ''eumaeusmachine: reading machine state: '' e []), n1)
      | (Inr body, n1) \<Rightarrow>
          (case decode_state parse body of
             None \<Rightarrow> (Inl (Wrap ''eumaeusmachine: reading machine state: '' reading_reply []), n1)
           | Some s \<Rightarrow> (Inr s, n1)))"

definition not_enrolled :: "string \<Rightarrow> err \<Rightarrow> err" where
  "not_enrolled doing e = Wrap2 (''eumaeusmachine: '' @ doing @ '': '') ErrMachineNotEnrolled '': '' e []"

definition source_request_rotation :: "parser \<Rightarrow> measured \<Rightarrow> machine_net \<Rightarrow> unit res \<times> machine_net" where
  "source_request_rotation parse m n =
     (case api_do parse ''POST'' ''/machines/me/rotation-request''
        (RotationBody (md_repository_url m) (md_reclaimable m) (md_fresh m) (md_measured_at m)) n of
        (Inr _, n1) \<Rightarrow> (Inr (), n1)
      | (Inl e, n1) \<Rightarrow>
          (if err_is ErrUnauthorised e then Inl (not_enrolled ''asking for a fresh bucket'' e)
           else if err_is ErrConflict e then Inl ErrAlreadyAsked
           else if err_is ErrNotFound e then Inl (Wrap ''eumaeusmachine: '' ErrNoRepository [])
           else Inl (Wrap ''eumaeusmachine: asking for a fresh bucket: '' e []), n1))"

definition source_cutover :: "parser \<Rightarrow> string \<Rightarrow> machine_net \<Rightarrow> unit res \<times> machine_net" where
  "source_cutover parse url n =
     (case api_do parse ''POST'' ''/machines/me/cutover'' (UrlBody url) n of
        (Inr _, n1) \<Rightarrow> (Inr (), n1)
      | (Inl e, n1) \<Rightarrow>
          (if err_is ErrUnauthorised e then Inl (not_enrolled ''accepting the offered bucket'' e)
           else if err_is ErrConflict e then Inl ErrNothingOffered
           else if err_is ErrNotFound e then Inl (Wrap ''eumaeusmachine: '' ErrNoRepository [])
           else Inl (Wrap ''eumaeusmachine: accepting the offered bucket: '' e []), n1))"

definition decode_released :: "parser \<Rightarrow> string \<Rightarrow> released option" where
  "decode_released parse body =
     Option.bind (struct_fields parse body) (\<lambda>f.
     Option.bind (text_field parse f ''bucket'') (\<lambda>bucket.
     Option.bind (text_field parse f ''url'') (\<lambda>url.
     Option.bind (time_field parse f ''release_asked_at'') (\<lambda>asked.
     Some \<lparr>rl_bucket = bucket, rl_url = url, rl_asked_at = asked\<rparr>))))"

definition source_release_old_bucket :: "parser \<Rightarrow> string \<Rightarrow> machine_net \<Rightarrow> released res \<times> machine_net" where
  "source_release_old_bucket parse url n =
     (case api_do parse ''POST'' ''/machines/me/old-bucket'' (UrlBody url) n of
        (Inl e, n1) \<Rightarrow>
          (if err_is ErrUnauthorised e then Inl (not_enrolled ''letting go of the old bucket'' e)
           else if err_is ErrConflict e then Inl ErrNotCuttingOver
           else if err_is ErrNotFound e then Inl (Wrap ''eumaeusmachine: '' ErrNoRepository [])
           else Inl (Wrap ''eumaeusmachine: letting go of the old bucket: '' e []), n1)
      | (Inr body, n1) \<Rightarrow>
          (case decode_released parse body of
             None \<Rightarrow> (Inl (Wrap ''eumaeusmachine: letting go of the old bucket: '' reading_reply []), n1)
           | Some r \<Rightarrow> (Inr r, n1)))"

definition source_card_issued :: "parser \<Rightarrow> string \<Rightarrow> instant \<Rightarrow> machine_net \<Rightarrow> unit res \<times> machine_net" where
  "source_card_issued parse url printed n =
     (case api_do parse ''POST'' ''/machines/me/card-issued'' (CardBody url printed) n of
        (Inr _, n1) \<Rightarrow> (Inr (), n1)
      | (Inl e, n1) \<Rightarrow>
          (if err_is ErrUnauthorised e then Inl (not_enrolled ''recording the printed card'' e)
           else if err_is ErrNotFound e
           then Inl (Wrap (''eumaeusmachine: the card does not name this machine's '' @
             ''current repository, so it cannot mark it as covered: '') ErrNoRepository [])
           else Inl (Wrap ''eumaeusmachine: recording the printed card: '' e []), n1))"

section \<open>The domain\<close>

definition biz_state :: "parser \<Rightarrow> bool \<Rightarrow> machine_net \<Rightarrow> server_state res \<times> machine_net" where
  "biz_state parse available n =
     (if \<not> available then (Inl ErrMachineNotEnrolled, n)
      else case source_state parse n of
          (Inl e, n1) \<Rightarrow> (Inl e, n1)
        | (Inr s, n1) \<Rightarrow>
            if usable s then (Inr s, n1)
            else (Inl (Sentinel
              ''machinebus: the server named neither a node nor a repository for this machine''), n1))"

definition biz_request_rotation ::
  "parser \<Rightarrow> bool \<Rightarrow> measured \<Rightarrow> machine_net \<Rightarrow> unit res \<times> machine_net" where
  "biz_request_rotation parse available m n =
     (if \<not> available then (Inl ErrMachineNotEnrolled, n)
      else if md_repository_url m = []
      then (Inl (Sentinel ''machinebus: a rotation request must name the repository to replace''), n)
      else source_request_rotation parse m n)"

definition biz_cutover :: "parser \<Rightarrow> bool \<Rightarrow> string \<Rightarrow> machine_net \<Rightarrow> unit res \<times> machine_net" where
  "biz_cutover parse available url n =
     (if \<not> available then (Inl ErrMachineNotEnrolled, n)
      else if url = []
      then (Inl (Sentinel ''machinebus: a cutover must name the repository being accepted''), n)
      else source_cutover parse url n)"

definition biz_release_old_bucket ::
  "parser \<Rightarrow> bool \<Rightarrow> string \<Rightarrow> machine_net \<Rightarrow> released res \<times> machine_net" where
  "biz_release_old_bucket parse available url n =
     (if \<not> available then (Inl ErrMachineNotEnrolled, n)
      else if url = []
      then (Inl (Sentinel
        ''machinebus: releasing the old bucket must name the bucket this machine is on now''), n)
      else source_release_old_bucket parse url n)"

definition biz_card_issued ::
  "parser \<Rightarrow> bool \<Rightarrow> string \<Rightarrow> instant \<Rightarrow> machine_net \<Rightarrow> unit res \<times> machine_net" where
  "biz_card_issued parse available url printed n =
     (if \<not> available then (Inl ErrMachineNotEnrolled, n)
      else if url = []
      then (Inl (Sentinel ''machinebus: recording a printed card must name the repository it opens''), n)
      else case source_card_issued parse url printed n of
          (Inl e, n1) \<Rightarrow> (Inl (Wrap ''machinebus: recording the printed card: '' e []), n1)
        | (Inr _, n1) \<Rightarrow> (Inr (), n1))"

section \<open>The daemon's poll\<close>

definition offered_from :: "standing \<Rightarrow> offered" where
  "offered_from s =
     \<lparr>offered_url = so_url s, offered_provider = so_provider s, offered_region = so_region s,
      offered_bucket = so_bucket s, offered_at = so_offered_at s, offered_adopted = so_adopted s\<rparr>"

definition machine_state_from :: "server_state \<Rightarrow> instant \<Rightarrow> machine_state" where
  "machine_state_from s now =
     \<lparr>asked_at = now, ms_node_id = sv_node_id s, owner_name = sv_owner_name s,
      owner_email = sv_owner_email s,
      ms_bucket = \<lparr>bucket_url = sv_repository_url s, bucket_created_at = sv_created_at s,
        bucket_state = sv_repository_state s, bucket_adopted = sv_adopted s\<rparr>,
      ms_offer = map_option offered_from (sv_offer s),
      ms_card = \<lparr>card_state = sc_state (sv_card s), issued_at = sc_issued_at (sv_card s)\<rparr>,
      ms_error = []\<rparr>"

definition card_owed_text :: "string \<Rightarrow> string \<Rightarrow> bool \<times> string" where
  "card_owed_text state page =
     (if state = CardNever
      then (True, ''Nobody has printed the page that lets this computer's files be '' @
        ''restored without us. Print it at '' @ page @ ''/card.'')
      else if state = CardSuperseded
      then (True, ''The printed page this computer's owner is holding no longer opens '' @
        ''anything: the bucket it names has been retired. Print a new one at '' @ page @
        ''/card, and destroy the old.'')
      else (False, []))"

text \<open>The lines of the log that say what changed.\<close>

datatype notice =
    BucketOffered offered
  | BeingMoved string
  | CardNeedsPrinting string string
  | PlanNamesAnother string string

definition something_changed ::
  "string \<Rightarrow> machine_state \<Rightarrow> machine_state \<Rightarrow> plandb \<Rightarrow> notice list \<times> plandb" where
  "something_changed page old new db =
     (let offers = (case ms_offer new of None \<Rightarrow> []
             | Some o' \<Rightarrow>
                 (case ms_offer old of None \<Rightarrow> [BucketOffered o']
                  | Some p \<Rightarrow> if offered_url p \<noteq> offered_url o' then [BucketOffered o'] else []));
          moved = (if cutting_over (ms_bucket new) \<and> \<not> cutting_over (ms_bucket old)
             then [BeingMoved (bucket_url (ms_bucket new))] else []);
          cards = (case card_owed_text (card_state (ms_card new)) page of (owed, say) \<Rightarrow>
             if owed \<and> card_state (ms_card old) \<noteq> card_state (ms_card new)
             then [CardNeedsPrinting (card_state (ms_card new)) say] else [])
      in case plandb_get db of
          (Inl _, db1) \<Rightarrow> (offers @ moved @ cards, db1)
        | (Inr p, db1) \<Rightarrow>
            (offers @ moved @ cards @
              (if repository p \<noteq> [] \<and> bucket_url (ms_bucket new) \<noteq> [] \<and>
                  repository p \<noteq> bucket_url (ms_bucket new)
               then [PlanNamesAnother (repository p) (bucket_url (ms_bucket new))] else []), db1))"

definition poll_state ::
  "parser \<Rightarrow> bool \<Rightarrow> string \<Rightarrow> instant \<Rightarrow> plandb \<Rightarrow> machine_net \<Rightarrow> notice list \<times> plandb \<times> machine_net" where
  "poll_state parse available page now db n =
     (if \<not> available then ([], db, n)
      else case biz_machine_state plandb db of
        (before, db1) \<Rightarrow>
          (case biz_state parse available n of
             (Inl e, n1) \<Rightarrow> ([], snd (biz_record_state_failure plandb (err_text e) db1), n1)
           | (Inr s, n1) \<Rightarrow>
               (case biz_record_machine_state plandb (machine_state_from s now) db1 of
                  (Inl _, db2) \<Rightarrow> ([], db2, n1)
                | (Inr _, db2) \<Rightarrow>
                    (case something_changed page
                        (case before of Inl _ \<Rightarrow> zero_machine_state | Inr m \<Rightarrow> m)
                        (machine_state_from s now) db2 of
                       (said, db3) \<Rightarrow> (said, db3, n1)))))"

text \<open>The repair of a machine that has a token and no plan.\<close>

definition recovered_plan :: "server_state \<Rightarrow> plan" where
  "recovered_plan s =
     \<lparr>node_id = sv_node_id s, repository = sv_repository_url s, targets = [], excludes = [],
      plan_schedule = default_schedule, pack_size_mib = 0, read_concurrency = 0,
      use_fs_snapshot = False, allow_vss_fallback = False, one_file_system = False, paused = False,
      skip_on_metered = False, skip_larger_than_gb = 0, style = [], confirmed_at = zero_time,
      updated_at = zero_time\<rparr>"

definition recover_plan ::
  "parser \<Rightarrow> bool \<Rightarrow> instant \<Rightarrow> plandb \<Rightarrow> machine_net \<Rightarrow> bool \<times> plandb \<times> machine_net" where
  "recover_plan parse available now db n =
     (if \<not> available then (False, db, n)
      else case plandb_get db of
        (Inr _, db1) \<Rightarrow> (False, db1, n)
      | (Inl e, db1) \<Rightarrow>
          if \<not> err_is ErrNoPlan e then (False, db1, n)
          else (case biz_state parse available n of
              (Inl _, n1) \<Rightarrow> (False, db1, n1)
            | (Inr s, n1) \<Rightarrow>
                (case biz_put plandb (recovered_plan s) now db1 of
                   (Inl _, db2) \<Rightarrow> (False, db2, n1)
                 | (Inr _, db2) \<Rightarrow> (True, db2, n1))))"

section \<open>Which refusal is which\<close>

lemma api_do_log:
  "api_do parse meth path body n = (r, n1) \<Longrightarrow>
    made n1 = made n @ [\<lparr>req_method = meth, req_path = path, req_body = body\<rparr>] \<and> replies n1 = tl (replies n)"
  by (auto simp: api_do_def)

text \<open>The five calls, and the error of each.\<close>

datatype server_call = AskState | AskRotation measured | AcceptOffer string | LetGo string
  | RecordCard string instant

definition call_path :: "server_call \<Rightarrow> string \<times> string" where
  "call_path c = (case c of AskState \<Rightarrow> (''GET'', ''/machines/me'')
     | AskRotation _ \<Rightarrow> (''POST'', ''/machines/me/rotation-request'')
     | AcceptOffer _ \<Rightarrow> (''POST'', ''/machines/me/cutover'')
     | LetGo _ \<Rightarrow> (''POST'', ''/machines/me/old-bucket'')
     | RecordCard _ _ \<Rightarrow> (''POST'', ''/machines/me/card-issued''))"

definition names_repository :: "server_call \<Rightarrow> bool" where
  "names_repository c = (case c of AskState \<Rightarrow> True | AskRotation m \<Rightarrow> md_repository_url m \<noteq> []
     | AcceptOffer u \<Rightarrow> u \<noteq> [] | LetGo u \<Rightarrow> u \<noteq> [] | RecordCard u _ \<Rightarrow> u \<noteq> [])"

definition drop_value :: "'a res \<times> 'b \<Rightarrow> err option \<times> 'b" where
  "drop_value x = (case x of (Inl e, b) \<Rightarrow> (Some e, b) | (Inr _, b) \<Rightarrow> (None, b))"

definition call_server ::
  "parser \<Rightarrow> bool \<Rightarrow> server_call \<Rightarrow> machine_net \<Rightarrow> err option \<times> machine_net" where
  "call_server parse available c n =
     (case c of
        AskState \<Rightarrow> drop_value (biz_state parse available n)
      | AskRotation m \<Rightarrow> drop_value (biz_request_rotation parse available m n)
      | AcceptOffer u \<Rightarrow> drop_value (biz_cutover parse available u n)
      | LetGo u \<Rightarrow> drop_value (biz_release_old_bucket parse available u n)
      | RecordCard u t \<Rightarrow> drop_value (biz_card_issued parse available u t n))"

definition conflict_of :: "server_call \<Rightarrow> err option" where
  "conflict_of c = (case c of AskRotation _ \<Rightarrow> Some ErrAlreadyAsked | AcceptOffer _ \<Rightarrow> Some ErrNothingOffered
     | LetGo _ \<Rightarrow> Some ErrNotCuttingOver | _ \<Rightarrow> None)"

lemmas machine_calls = biz_state_def biz_request_rotation_def biz_cutover_def biz_release_old_bucket_def
  biz_card_issued_def source_state_def source_request_rotation_def source_cutover_def
  source_release_old_bucket_def source_card_issued_def

lemma call_server_log:
  "call_server parse available c n = (r, n1) \<Longrightarrow>
    n1 = n \<or> (available \<and> names_repository c \<and> replies n1 = tl (replies n) \<and>
      (\<exists>b. made n1 = made n @ [\<lparr>req_method = fst (call_path c), req_path = snd (call_path c), req_body = b\<rparr>]))"
  by (cases c) (auto simp: call_server_def machine_calls drop_value_def call_path_def names_repository_def
      dest!: api_do_log split: sum.splits prod.splits if_splits option.splits)


lemma refusal_cases:
  assumes "read_reply parse meth path (Reply st line body) = Inl e" and "meth \<in> {''GET'', ''POST''}"
  shows "(err_is ErrUnauthorised e \<longleftrightarrow> st = 401) \<and> (err_is ErrNotFound e \<longleftrightarrow> st = 404) \<and>
    (err_is ErrConflict e \<longleftrightarrow> st = 409) \<and>
    \<not> err_is ErrMachineNotEnrolled e \<and> \<not> err_is ErrNoRepository e \<and> \<not> err_is ErrNothingOffered e \<and>
    \<not> err_is ErrAlreadyAsked e \<and> \<not> err_is ErrNotCuttingOver e"
proof -
  have b: "(err_is ErrUnauthorised (new_bad_request parse st meth path body) \<longleftrightarrow> False)"
    "(err_is ErrNotFound (new_bad_request parse st meth path body) \<longleftrightarrow> False)"
    "(err_is ErrConflict (new_bad_request parse st meth path body) \<longleftrightarrow> False)"
    "(err_is ErrMachineNotEnrolled (new_bad_request parse st meth path body) \<longleftrightarrow> False)"
    "(err_is ErrNoRepository (new_bad_request parse st meth path body) \<longleftrightarrow> False)"
    "(err_is ErrNothingOffered (new_bad_request parse st meth path body) \<longleftrightarrow> False)"
    "(err_is ErrAlreadyAsked (new_bad_request parse st meth path body) \<longleftrightarrow> False)"
    "(err_is ErrNotCuttingOver (new_bad_request parse st meth path body) \<longleftrightarrow> False)"
    by (simp_all add: new_bad_request_def refusal_class_def machine_sentinels ErrBadRequest_def
        ErrUnprocessable_def split: option.splits list.splits)
  consider "st = 404" | "st = 400 \<or> st = 422" | "st = 401" | "st = 403" | "st = 409"
    | "300 \<le> st" "st \<notin> {404, 400, 422, 401, 403, 409}"
    using assms(1) by (auto simp: read_reply_def split: if_splits)
  then show ?thesis
  proof cases
    case 2
    then have "e = new_bad_request parse st meth path body"
      using assms(1) by (auto simp: read_reply_def)
    then show ?thesis using 2 b by auto
  next
    case 6
    then have "e = Sentinel (''eumaeusapi: '' @ meth @ '' '' @ path @ '': '' @ line @ '': '' @ trim_space body)"
      using assms(1) by (auto simp: read_reply_def)
    then show ?thesis using 6 assms(2) by (auto simp: machine_sentinels)
  qed (use assms(1) in \<open>auto simp: read_reply_def machine_sentinels\<close>)
qed

lemma conflict_distinct [simp]:
  "ErrMachineNotEnrolled \<noteq> ErrNoRepository" "ErrNoRepository \<noteq> ErrMachineNotEnrolled"
  by (simp_all add: machine_sentinels)

text \<open>the server's refusals are never confused. Whichever of the five calls is made, a token that was
  refused, a repository that is not there and a conflict each arrive as their own error and nothing else
  does: only a 401 reads as a machine that is not enrolled, only a 404 as one without a repository, and
  only a 409 as the one thing the call documents for it.\<close>

theorem refusals_told_apart:
  assumes "replies n = Reply st line body # rest" and "names_repository c"
    and "call_server parse True c n = (Some e, n1)"
  shows "(err_is ErrMachineNotEnrolled e \<longleftrightarrow> st = 401) \<and> (err_is ErrNoRepository e \<longleftrightarrow> st = 404) \<and>
    (\<forall>s. conflict_of c = Some s \<longrightarrow> (err_is s e \<longleftrightarrow> st = 409))"
proof -
  obtain meth path where cp: "call_path c = (meth, path)" by fastforce
  have m: "meth \<in> {''GET'', ''POST''}" using cp by (auto simp: call_path_def split: server_call.splits)
  show ?thesis
  proof (cases "read_reply parse meth path (Reply st line body)")
    case (Inl x)
    note k = refusal_cases [OF Inl m]
    show ?thesis using assms cp Inl k
      by (cases c) (auto simp: call_server_def machine_calls drop_value_def api_do_def call_path_def
        names_repository_def conflict_of_def not_enrolled_def machine_sentinels split: if_splits)
  next
    case (Inr x)
    then have st: "st \<notin> {401, 404, 409}" by (auto simp: read_reply_def split: if_splits)
    show ?thesis using assms cp Inr st
      by (cases c) (auto simp: call_server_def machine_calls drop_value_def api_do_def call_path_def
        names_repository_def conflict_of_def reading_reply_def machine_sentinels split: if_splits option.splits)
  qed
qed

section \<open>What a poll leaves\<close>

text \<open>Everything but the coming faults.\<close>

definition same_data :: "plandb \<Rightarrow> plandb \<Rightarrow> bool" where
  "same_data db db' \<longleftrightarrow> has_table db' = has_table db \<and> plan_cols db' = plan_cols db \<and>
     plan_rows db' = plan_rows db \<and> plan_meta db' = plan_meta db"

lemma same_data_refl [simp]: "same_data db db"
  by (simp add: same_data_def)

lemma same_data_trans: "same_data a b \<Longrightarrow> same_data b c \<Longrightarrow> same_data a c"
  by (simp add: same_data_def)

lemma same_data_held:
  "same_data db db' \<Longrightarrow> held_plan db' = held_plan db \<and> held_state db' = held_state db \<and>
    held_measurement db' = held_measurement db \<and> held_integrity db' = held_integrity db"
  by (simp add: same_data_def held_defs db_ready_def)

lemma get_same: "plandb_get db = (r, db') \<Longrightarrow> same_data db db'"
  by (auto simp: plandb_get_def next_statement_def same_data_def split: if_splits option.splits)

lemma machine_state_same: "biz_machine_state plandb db = (r, db') \<Longrightarrow> same_data db db'"
  by (auto simp: biz_machine_state_def plandb_defs same_data_def split: if_splits)

lemma record_state_cases:
  assumes "biz_record_machine_state plandb m db = (r, db')"
  shows "held_plan db' = held_plan db \<and> held_state db' = (if is_ok r then m else held_state db)"
  using assms pdb.put_state_frame [of m db r db'] pdb.put_state_ok [of m db _ db'] pdb.put_state_err [of m db _ db']
  by (cases r) (auto simp: biz_record_machine_state_def)

lemma something_changed_same: "something_changed page old new db = (said, db') \<Longrightarrow> same_data db db'"
  by (auto simp: something_changed_def Let_def dest!: get_same split: prod.splits sum.splits)

lemma biz_state_usable: "biz_state parse av n = (Inr s, n') \<Longrightarrow> usable s"
  by (auto simp: biz_state_def split: if_splits sum.splits prod.splits)

lemma poll_cases:
  assumes "poll_state parse av page now db n = (said, db', n')" and av
  obtains (failed) e where "biz_state parse True n = (Inl e, n')" "said = []" "held_plan db' = held_plan db"
      "held_state db' = held_state db \<or> held_state db' = (held_state db)\<lparr>ms_error := err_text e\<rparr>"
  | (not_kept) s where "biz_state parse True n = (Inr s, n')" "said = []" "held_plan db' = held_plan db"
      "held_state db' = held_state db"
  | (kept) s where "biz_state parse True n = (Inr s, n')" "usable s" "held_plan db' = held_plan db"
      "held_state db' = machine_state_from s now"
proof -
  obtain bef db1 where g: "biz_machine_state plandb db = (bef, db1)" by fastforce
  note h1 = same_data_held [OF machine_state_same [OF g]]
  have av: "av = True" using assms(2) by simp
  obtain r n1 where a: "biz_state parse True n = (r, n1)" by fastforce
  show ?thesis
  proof (cases r)
    case (Inl e)
    obtain r2 db2 where f: "biz_record_state_failure plandb (err_text e) db1 = (r2, db2)" by fastforce
    then have k: "said = []" "db' = db2" "n' = n1" using assms(1) g a Inl by (simp_all add: av poll_state_def)
    note v = pdb.failure_view [OF f]
    show ?thesis by (rule failed [of e]) (use k a Inl h1 v in simp_all)
  next
    case (Inr s)
    obtain r2 db2 where f: "biz_record_machine_state plandb (machine_state_from s now) db1 = (r2, db2)"
      by fastforce
    note h2 = record_state_cases [OF f]
    show ?thesis
    proof (cases r2)
      case (Inl e)
      then have k: "said = []" "db' = db2" "n' = n1" using assms(1) g a Inr f by (simp_all add: av poll_state_def)
      show ?thesis by (rule not_kept [of s]) (use k a Inr h1 h2 Inl in simp_all)
    next
      case okc: (Inr u)
      obtain said3 db3 where sc: "something_changed page (case bef of Inl _ \<Rightarrow> zero_machine_state | Inr m \<Rightarrow> m)
          (machine_state_from s now) db2 = (said3, db3)" by fastforce
      then have k: "db' = db3" "n' = n1" using assms(1) g a Inr f okc by (simp_all add: av poll_state_def)
      note h3 = same_data_held [OF something_changed_same [OF sc]]
      show ?thesis
        by (rule kept [of s]) (use k a Inr h1 h2 h3 okc biz_state_usable [of parse True n s n1] in simp_all)
    qed
  qed
qed

text \<open>a poll asks once and records what it was told, the whole of it. The plan is never touched; a machine
  without a token asks nothing and changes nothing; an answer is either stored whole, with the instant
  it was given and no error, or, when the database fails, not at all; a question that fails leaves the
  answer that was there, and at most its error is new.\<close>

theorem poll_records_the_answer:
  "case poll_state parse available page now db n of (said, db', n') \<Rightarrow>
     held_plan db' = held_plan db \<and>
     n' = snd (biz_state parse available n) \<and>
     held_state db' \<in> (if available
       then case fst (biz_state parse True n) of
           Inl e \<Rightarrow> {held_state db, (held_state db)\<lparr>ms_error := err_text e\<rparr>}
         | Inr s \<Rightarrow> {held_state db, machine_state_from s now}
       else {held_state db})"
proof -
  obtain said db' n' where p: "poll_state parse available page now db n = (said, db', n')"
    by (metis prod.collapse)
  show ?thesis
  proof (cases available)
    case True
    show ?thesis unfolding p using True by (cases rule: poll_cases [OF p True]) auto
  next
    case False
    then show ?thesis using p by (auto simp: poll_state_def biz_state_def)
  qed
qed

text \<open>Polls and repairs, one after another, with whatever failures and answers.\<close>

inductive poll_step :: "plandb \<Rightarrow> plandb \<Rightarrow> bool" where
  step_poll: "poll_state parse av page now db n = (said, db', n') \<Longrightarrow> poll_step db db'"
| step_recover: "recover_plan parse av now db n = (done_it, db', n') \<Longrightarrow> poll_step db db'"
| step_faults: "poll_step db (db\<lparr>db_faults := fs\<rparr>)"

definition state_whole :: "machine_state \<Rightarrow> bool" where
  "state_whole m \<longleftrightarrow> (ms_node_id m = []) = (bucket_url (ms_bucket m) = [])"

lemma recover_cases:
  assumes "recover_plan parse av now db n = (done_it, db', n')"
  shows "plan_meta db' = plan_meta db \<and>
    (held_plan db \<noteq> None \<longrightarrow> \<not> done_it \<and> held_plan db' = held_plan db) \<and>
    (done_it \<longrightarrow> (\<exists>s. biz_state parse True n = (Inr s, n') \<and>
      held_plan db' = Some (stored_plan (recovered_plan s\<lparr>updated_at := now\<rparr>))))"
proof -
  obtain r db1 where g: "plandb_get db = (r, db1)" by fastforce
  note h = same_data_held [OF get_same [OF g]] get_same [OF g, unfolded same_data_def]
  have some: "held_plan db \<noteq> None \<Longrightarrow> r \<noteq> Inl ErrNoPlan"
    using g by (auto simp: plandb_get_def next_statement_def held_plan_def ErrNoPlan_def split: if_splits option.splits)
  show ?thesis
  proof (cases "av \<and> (\<exists>e. r = Inl e \<and> err_is ErrNoPlan e)")
    case False
    then have "done_it = False \<and> (db' = db \<or> db' = db1)"
      using assms g by (auto simp: recover_plan_def split: if_splits sum.splits)
    then show ?thesis using h by auto
  next
    case True
    then obtain e where e: "r = Inl e" "err_is ErrNoPlan e" and av by blast
    then have "e = ErrNoPlan"
      using g by (auto simp: plandb_get_def next_statement_def ErrNoPlan_def sql_error_def decode_row_def
          on_ok_def need_def parse_time_def split: if_splits option.splits sum.splits time_text.splits)
    then have none: "held_plan db = None" using some e by blast
    obtain q n1 where a: "biz_state parse True n = (q, n1)" by fastforce
    show ?thesis
    proof (cases q)
      case (Inl x)
      then show ?thesis using assms g e \<open>av\<close> a h none by (simp add: recover_plan_def)
    next
      case (Inr s)
      obtain r2 db2 where b: "biz_put plandb (recovered_plan s) now db1 = (r2, db2)" by fastforce
      have "db' = db2" "n' = n1" "done_it = is_ok r2"
        using assms g e \<open>av\<close> a Inr b by (auto simp: recover_plan_def split: sum.splits)
      moreover have "plan_meta db2 = plan_meta db1 \<and>
          (is_ok r2 \<longrightarrow> held_plan db2 = Some (stored_plan (recovered_plan s\<lparr>updated_at := now\<rparr>)))"
        using b put_row [of "recovered_plan s\<lparr>updated_at := now\<rparr>" db1 r2 db2]
          held_stored(1) [of db2 "recovered_plan s\<lparr>updated_at := now\<rparr>"]
        by (auto simp: biz_put_def plandb_def split: option.splits)
      ultimately show ?thesis using h none a Inr by auto
    qed
  qed
qed

lemma poll_step_whole: "poll_step db db' \<Longrightarrow> state_whole (held_state db) \<Longrightarrow> state_whole (held_state db')"
proof (induction rule: poll_step.induct)
  case (step_poll parse av page now db n said db' n')
  show ?case
  proof (cases av)
    case True
    show ?thesis using step_poll(2)
      by (cases rule: poll_cases [OF step_poll(1) True])
        (auto simp: state_whole_def machine_state_from_def usable_def)
  next
    case False
    then show ?thesis using step_poll by (simp add: poll_state_def)
  qed
next
  case (step_recover parse av now db n done_it db' n')
  then show ?case using recover_cases [OF step_recover(1)] by (simp add: held_state_def)
next
  case (step_faults db fs)
  then show ?case by (simp add: held_state_def)
qed

text \<open>C19: the stored answer is never half of one. From a database in which the server was never asked,
  whatever polls and repairs follow and whatever the server and the database do, the answer names both
  the node and the repository or neither.\<close>

theorem stored_answer_is_whole:
  assumes "poll_step\<^sup>*\<^sup>* db db'" and "held_state db = zero_machine_state"
  shows "(ms_node_id (held_state db') = []) = (bucket_url (ms_bucket (held_state db')) = [])"
proof -
  have "state_whole (held_state db)" using assms(2) by (simp add: state_whole_def zero_machine_state_def)
  with assms(1) have "state_whole (held_state db')"
    by (induction rule: rtranclp_induct) (auto intro: poll_step_whole)
  then show ?thesis by (simp add: state_whole_def)
qed

text \<open>A reader of a few words, for the examples.\<close>

definition word_parse :: parser where
  "word_parse w =
     (if w = ''B'' then Some (JObject [(''node_id'', ''N''), (''repository'', ''R'')])
      else if w = ''R'' then Some (JObject [(''url'', ''U'')])
      else if w = ''N'' then Some (JText ''leto'')
      else if w = ''U'' then Some (JText ''s3:b2/leto'')
      else None)"

definition good_answer :: machine_net where
  "good_answer = \<lparr>replies = [Reply 200 ''200 OK'' ''B''], made = []\<rparr>"

lemma good_answer_usable:
  "\<exists>s. biz_state word_parse True good_answer = (Inr s, good_answer\<lparr>replies := [],
      made := [\<lparr>req_method = ''GET'', req_path = ''/machines/me'', req_body = NoBody\<rparr>]\<rparr>) \<and>
    sv_node_id s = ''leto'' \<and> sv_repository_url s = ''s3:b2/leto''"
proof -
  have "map_option (\<lambda>s. (sv_node_id s, sv_repository_url s)) (decode_state word_parse ''B'') = Some (''leto'', ''s3:b2/leto'')"
    by code_simp
  then obtain s where "decode_state word_parse ''B'' = Some s" "sv_node_id s = ''leto''"
    "sv_repository_url s = ''s3:b2/leto''" by auto
  then show ?thesis
    by (simp add: biz_state_def source_state_def api_do_def read_reply_def good_answer_def usable_def)
qed

theorem stored_answer_is_whole_witness:
  "let db = fst (snd (poll_state word_parse True [] 7 fresh_db good_answer)) in
    ms_node_id (held_state db) = ''leto'' \<and> bucket_url (ms_bucket (held_state db)) \<noteq> []"
proof -
  let ?r = "poll_state word_parse True [] 7 fresh_db good_answer"
  obtain said db n where r: "?r = (said, db, n)" by (metis prod.collapse)
  have z: "held_state fresh_db = zero_machine_state" by (simp add: held_state_def fresh_db_def as_machine_state_def)
  have "ms_node_id (held_state (fst (snd ?r))) = ''leto''" by code_simp
  moreover have st: "poll_step\<^sup>*\<^sup>* fresh_db db" using step_poll [OF r] by (rule r_into_rtranclp)
  ultimately show ?thesis using stored_answer_is_whole [OF st z] r by auto
qed

text \<open>the repair of a lost plan cannot start a backup and cannot lose one. A plan that is there is never
  overwritten; the plan that is written names the node and the repository the server named, has no
  targets and is not confirmed, so that it is not runnable.\<close>

theorem recovered_plan_waits:
  assumes "recover_plan parse available now db n = (done_it, db', n')"
  shows "(held_plan db \<noteq> None \<longrightarrow> \<not> done_it \<and> held_plan db' = held_plan db) \<and>
    (done_it \<longrightarrow> (\<exists>s p. biz_state parse True n = (Inr s, n') \<and> held_plan db' = Some p \<and>
       node_id p = sv_node_id s \<and> repository p = sv_repository_url s \<and> runnable p \<noteq> None \<and> \<not> confirmed p))"
proof -
  note c = recover_cases [OF assms]
  have "runnable (stored_plan (recovered_plan s\<lparr>updated_at := now\<rparr>)) \<noteq> None"
    "\<not> confirmed (stored_plan (recovered_plan s\<lparr>updated_at := now\<rparr>))"
    "node_id (stored_plan (recovered_plan s\<lparr>updated_at := now\<rparr>)) = sv_node_id s"
    "repository (stored_plan (recovered_plan s\<lparr>updated_at := now\<rparr>)) = sv_repository_url s" for s
    by (auto simp: runnable_def recovered_plan_def stored_plan_def confirmed_def stored_time_def is_zero_def
        split: option.splits)
  with c show ?thesis by blast
qed

theorem recovered_plan_waits_witness:
  "let r = recover_plan word_parse True 7 fresh_db good_answer in
    fst r \<and> (\<exists>p. held_plan (fst (snd r)) = Some p \<and> node_id p = ''leto'' \<and> runnable p \<noteq> None)"
proof -
  let ?r = "recover_plan word_parse True 7 fresh_db good_answer"
  obtain done_it db n where r: "?r = (done_it, db, n)" by (metis prod.collapse)
  obtain s n1 where s: "biz_state word_parse True good_answer = (Inr s, n1)" "sv_node_id s = ''leto''"
    "sv_repository_url s = ''s3:b2/leto''" using good_answer_usable by blast
  have v: "validate_plan (recovered_plan s) = None"
    using s by (simp add: validate_plan_def recovered_plan_def) code_simp
  have "plandb_get fresh_db = (Inl ErrNoPlan, fresh_db)"
    by (simp add: plandb_get_def next_statement_def fresh_db_def db_ready_def added_columns_def)
  then have "done_it" using r s v
    by (auto simp: recover_plan_def biz_put_def plandb_defs fresh_db_def db_ready_def added_columns_def
        split: if_splits)
  then show ?thesis using recovered_plan_waits [OF r] r s by fastforce
qed

theorem refusals_told_apart_witness:
  "\<exists>e. fst (call_server word_parse True (AcceptOffer ''s3:b2/new'')
      \<lparr>replies = [Reply 409 ''409 Conflict'' []], made = []\<rparr>) = Some e \<and>
    err_is ErrNothingOffered e \<and> \<not> err_is ErrMachineNotEnrolled e \<and> \<not> err_is ErrNoRepository e"
proof -
  let ?n = "\<lparr>replies = [Reply 409 ''409 Conflict'' []], made = []\<rparr> :: machine_net"
  obtain e n1 where c: "call_server word_parse True (AcceptOffer ''s3:b2/new'') ?n = (Some e, n1)"
    by (simp add: call_server_def machine_calls drop_value_def api_do_def read_reply_def machine_sentinels)
  have n: "names_repository (AcceptOffer ''s3:b2/new'')" by (simp add: names_repository_def)
  show ?thesis
    using refusals_told_apart [OF _ n c, of 409 "''409 Conflict''" "[]" "[]"] c
    by (simp add: conflict_of_def)
qed

end
