(* ===== verification/Token.thy ===== *)
theory Token
  imports Disk
begin

text \<open>
  The one secret this machine keeps: \<open>foundation/token/token.go\<close>. The file is one of a disk of texts whose
  operations may fail; \<open>tmp\<close> is the name the system gives the temporary file, and \<open>part\<close> is how much of it
  is written when writing it fails. Modes and directories are not modelled: making the directory,
  setting the mode, flushing and closing are steps that can fail.
\<close>

definition ErrTokenNotEnrolled :: err where
  "ErrTokenNotEnrolled = Sentinel ''token: this machine is not enrolled''"

definition cr_lf :: "char set" where
  "cr_lf = {CHR 0x0D, CHR 0x0A}"

definition load_token :: "string \<Rightarrow> string disk \<Rightarrow> string res \<times> string disk" where
  "load_token path d =
     (case fs_read path d of
        (Inl e, d1) \<Rightarrow>
          (if err_is ErrNotExist e then Inl ErrTokenNotEnrolled
           else Inl (Wrap (''token: reading '' @ path @ '': '') e []), d1)
      | (Inr raw, d1) \<Rightarrow>
          (let tok = trim_right_set cr_lf raw in
           (if tok = [] then Inl ErrTokenNotEnrolled else Inr tok, d1)))"

text \<open>A step that changes no file, and may fail.\<close>

definition silent_step :: "string \<Rightarrow> string disk \<Rightarrow> err option \<times> string disk" where
  "silent_step msg d =
     (case disk_step d of (bad, d1) \<Rightarrow> (if bad then Some (Wrap msg ErrDisk []) else None, d1))"

text \<open>The old file goes first and the new one takes its name.\<close>

definition install_token :: "string \<Rightarrow> string \<Rightarrow> string disk \<Rightarrow> err option \<times> string disk" where
  "install_token path tmp d =
     (case fs_remove path d of (e, d1) \<Rightarrow>
        if e \<noteq> None \<and> \<not> err_is ErrNotExist (the e)
        then (Some (Wrap (''token: replacing '' @ path @ '': '') (the e) []), d1)
        else case fs_rename tmp path d1 of
            (Some e2, d2) \<Rightarrow> (Some (Wrap (''token: installing '' @ path @ '': '') e2 []), d2)
          | (None, d2) \<Rightarrow> (None, d2))"

text \<open>What is done to the temporary file before it is installed.\<close>

definition fill_token :: "bool \<Rightarrow> string \<Rightarrow> nat \<Rightarrow> string \<Rightarrow> string disk \<Rightarrow> err option \<times> string disk" where
  "fill_token has_modes tmp part tok d =
     (case (if has_modes then silent_step (''token: setting the mode on '' @ tmp @ '': '') d else (None, d)) of
        (Some e, d1) \<Rightarrow> (Some e, d1)
      | (None, d1) \<Rightarrow>
          (case fs_write (take part (tok @ [CHR 0x0A])) tmp (tok @ [CHR 0x0A]) d1 of
             (Some e, d2) \<Rightarrow> (Some (Wrap (''token: writing '' @ tmp @ '': '') e []), d2)
           | (None, d2) \<Rightarrow>
               (case silent_step (''token: flushing '' @ tmp @ '': '') d2 of
                  (Some e, d3) \<Rightarrow> (Some e, d3)
                | (None, d3) \<Rightarrow> silent_step (''token: closing '' @ tmp @ '': '') d3)))"

definition save_token ::
  "bool \<Rightarrow> string \<Rightarrow> nat \<Rightarrow> string \<Rightarrow> string \<Rightarrow> string disk \<Rightarrow> err option \<times> string disk" where
  "save_token has_modes tmp part path tok d =
     (if tok = [] then (Some (Sentinel ''token: refusing to store an empty token''), d)
      else case silent_step ''token: creating the directory: '' d of
        (Some e, d1) \<Rightarrow> (Some e, d1)
      | (None, d1) \<Rightarrow>
          (case fs_create_new tmp [] d1 of
             (Some e, d2) \<Rightarrow> (Some (Wrap ''token: creating a temporary file: '' e []), d2)
           | (None, d2) \<Rightarrow>
               (case (case fill_token has_modes tmp part tok d2 of
                     (Some e, d3) \<Rightarrow> (Some e, d3)
                   | (None, d3) \<Rightarrow> install_token path tmp d3) of
                  (r, d4) \<Rightarrow> (r, snd (fs_remove tmp d4)))))"

definition delete_token :: "string \<Rightarrow> string disk \<Rightarrow> err option \<times> string disk" where
  "delete_token path d =
     (case fs_remove path d of (e, d1) \<Rightarrow>
        (if e \<noteq> None \<and> \<not> err_is ErrNotExist (the e)
         then Some (Wrap (''token: removing '' @ path @ '': '') (the e) []) else None, d1))"

text \<open>\<open>Wipe\<close> overwrites the array the slice stands on.\<close>

fun wipe :: "string \<Rightarrow> string" where
  "wipe [] = []"
| "wipe (b # bs) = CHR 0x00 # wipe bs"

section \<open>What a save leaves\<close>

lemma silent_step_files: "silent_step msg d = (e, d') \<Longrightarrow> files d' = files d"
  using disk_step_failures(1) [of d] by (auto simp: silent_step_def split: prod.splits)

lemma fill_token_files:
  assumes "fill_token has_modes tmp part tok d = (e, d')"
  shows "(\<forall>p. p \<noteq> tmp \<longrightarrow> files d' p = files d p) \<and> (e = None \<longrightarrow> files d' tmp = Some (tok @ [CHR 0x0A]))"
proof -
  obtain e1 d1 where 1: "(if has_modes then silent_step (''token: setting the mode on '' @ tmp @ '': '') d
      else (None, d)) = (e1, d1)" by fastforce
  have f1: "files d1 = files d" using 1 silent_step_files by (auto split: if_splits)
  obtain e2 d2 where 2: "fs_write (take part (tok @ [CHR 0x0A])) tmp (tok @ [CHR 0x0A]) d1 = (e2, d2)"
    by fastforce
  have f2: "(\<forall>p. p \<noteq> tmp \<longrightarrow> files d2 p = files d1 p) \<and> (e2 = None \<longrightarrow> files d2 tmp = Some (tok @ [CHR 0x0A]))"
    using 2 by (cases rule: fs_write_cases) auto
  obtain e3 d3 where 3: "silent_step (''token: flushing '' @ tmp @ '': '') d2 = (e3, d3)" by fastforce
  obtain e4 d4 where 4: "silent_step (''token: closing '' @ tmp @ '': '') d3 = (e4, d4)" by fastforce
  have f3: "files d3 = files d2" and f4: "files d4 = files d3"
    using silent_step_files [OF 3] silent_step_files [OF 4] .
  have "fill_token has_modes tmp part tok d = (case e1 of Some x \<Rightarrow> (Some x, d1) | None \<Rightarrow>
      (case e2 of Some x \<Rightarrow> (Some (Wrap (''token: writing '' @ tmp @ '': '') x []), d2) | None \<Rightarrow>
        (case e3 of Some x \<Rightarrow> (Some x, d3) | None \<Rightarrow> (e4, d4))))"
    unfolding fill_token_def 1 prod.case 2 3 4 by (simp split: option.splits)
  then have u: "(e, d') = (case e1 of Some x \<Rightarrow> (Some x, d1) | None \<Rightarrow>
      (case e2 of Some x \<Rightarrow> (Some (Wrap (''token: writing '' @ tmp @ '': '') x []), d2) | None \<Rightarrow>
        (case e3 of Some x \<Rightarrow> (Some x, d3) | None \<Rightarrow> (e4, d4))))"
    using assms by simp
  show ?thesis
  proof (cases e1)
    case (Some x)
    then show ?thesis using u f1 by simp
  next
    case n1: None
    show ?thesis
    proof (cases e2)
      case (Some x)
      then show ?thesis using u n1 f1 f2 by simp
    next
      case None
      then show ?thesis using u n1 f1 f2 f3 f4 by (cases e3) simp_all
    qed
  qed
qed

lemma install_token_files:
  assumes "install_token path tmp d = (e, d')" and "tmp \<noteq> path" and "files d tmp = Some x"
  shows "(if e = None then files d' path = Some x else files d' path = files d path \<or> files d' path = None) \<and>
    (\<forall>p. p \<noteq> tmp \<and> p \<noteq> path \<longrightarrow> files d' p = files d p)"
proof -
  obtain e1 d1 where 1: "fs_remove path d = (e1, d1)" by fastforce
  have f1: "(files d1 path = files d path \<or> files d1 path = None) \<and> (\<forall>p. p \<noteq> path \<longrightarrow> files d1 p = files d p)"
    using 1 by (cases rule: fs_remove_cases) auto
  obtain e2 d2 where 2: "fs_rename tmp path d1 = (e2, d2)" by fastforce
  have f2: "(if e2 = None then files d2 path = files d1 tmp else files d2 = files d1) \<and>
      (\<forall>p. p \<noteq> tmp \<and> p \<noteq> path \<longrightarrow> files d2 p = files d1 p)"
    using 2 by (cases rule: fs_rename_cases) auto
  show ?thesis
    using assms 1 2 f1 f2 by (cases e2) (auto simp: install_token_def split: if_splits)
qed

lemma save_token_files:
  assumes "save_token has_modes tmp part path tok d = (e, d')" and "tmp \<noteq> path"
  shows "files d' path \<in> {files d path, None, Some (tok @ [CHR 0x0A])} \<and>
    (\<forall>p. p \<noteq> tmp \<and> p \<noteq> path \<longrightarrow> files d' p = files d p) \<and>
    (e = None \<longrightarrow> tok \<noteq> [] \<and> files d' path = Some (tok @ [CHR 0x0A]))"
proof (cases "tok = []")
  case True
  then have "e \<noteq> None" "d' = d" using assms by (auto simp: save_token_def)
  then show ?thesis by blast
next
  case False
  obtain e1 d1 where 1: "silent_step ''token: creating the directory: '' d = (e1, d1)" by fastforce
  note f1 = silent_step_files [OF 1]
  obtain e2 d2 where 2: "fs_create_new tmp [] d1 = (e2, d2)" by fastforce
  have f2: "\<forall>p. p \<noteq> tmp \<longrightarrow> files d2 p = files d1 p" using 2 by (cases rule: fs_create_new_cases) auto
  obtain e3 d3 where 3: "fill_token has_modes tmp part tok d2 = (e3, d3)" by fastforce
  note f3 = fill_token_files [OF 3]
  obtain e4 d4 where 4: "install_token path tmp d3 = (e4, d4)" by fastforce
  have rm: "p \<noteq> tmp \<Longrightarrow> files (snd (fs_remove tmp x)) p = files x p" for x p
    by (cases "fs_remove tmp x") (auto elim!: fs_remove_cases)
  have e1: "e1 = Some x \<Longrightarrow> e = Some x \<and> d' = d1" for x using assms(1) 1 False by (simp add: save_token_def)
  show ?thesis
  proof (cases e1)
    case (Some x)
    then show ?thesis using e1 f1 by simp
  next
    case n1: None
    show ?thesis
    proof (cases e2)
      case (Some x)
      then have "e \<noteq> None" "d' = d2" using assms(1) 1 2 n1 False by (auto simp: save_token_def)
      then show ?thesis using f1 f2 assms(2) by auto
    next
      case n2: None
      show ?thesis
      proof (cases e3)
        case (Some x)
        then have "e = Some x" "d' = snd (fs_remove tmp d3)"
          using assms(1) 1 2 3 n1 n2 False by (auto simp: save_token_def)
        then show ?thesis using f1 f2 f3 assms(2) by (auto simp: rm)
      next
        case None
        then have r: "e = e4" "d' = snd (fs_remove tmp d4)"
          using assms(1) 1 2 3 4 n1 n2 False by (auto simp: save_token_def)
        note f4 = install_token_files [OF 4 assms(2), of "tok @ [CHR 0x0A]"]
        have "files d' path = files d4 path" using r assms(2) by (simp add: rm)
        then show ?thesis using f1 f2 f3 f4 assms(2) None r False by (cases e4) (auto simp: rm)
      qed
    qed
  qed
qed

text \<open>C20: the token is never half of one. Whatever fails while it is saved, the file holds the old token,
  the new one or nothing, and no other file but the temporary one is touched; a save that succeeds is
  read back as the one that was saved, if that does not end in a line break.\<close>

theorem token_never_torn:
  assumes "save_token has_modes tmp part path tok d = (e, d')" and "tmp \<noteq> path"
  shows "files d' path \<in> {files d path, None, Some (tok @ [CHR 0x0A])} \<and>
    (\<forall>p. p \<noteq> tmp \<and> p \<noteq> path \<longrightarrow> files d' p = files d p) \<and>
    (e = None \<longrightarrow> files d' path = Some (tok @ [CHR 0x0A]) \<and>
      (last tok \<notin> cr_lf \<longrightarrow> fst (load_token path (d'\<lparr>disk_faults := []\<rparr>)) = Inr tok))"
proof -
  have tr: "tok \<noteq> [] \<Longrightarrow> last tok \<notin> cr_lf \<Longrightarrow> trim_right_set cr_lf (tok @ [CHR 0x0A]) = tok"
    by (cases tok rule: rev_cases) (auto simp: trim_right_set_def cr_lf_def)
  have ld: "tok \<noteq> [] \<Longrightarrow> last tok \<notin> cr_lf \<Longrightarrow> files d' path = Some (tok @ [CHR 0x0A]) \<Longrightarrow>
      fst (load_token path (d'\<lparr>disk_faults := []\<rparr>)) = Inr tok"
    using tr by (simp add: load_token_def fs_read_def disk_step_def)
  show ?thesis using save_token_files [OF assms] ld by auto
qed

theorem token_never_torn_witness:
  "let d = snd (save_token True ''.t1'' 0 ''token'' ''abc'' \<lparr>files = Map.empty, disk_faults = []\<rparr>) in
    fst (load_token ''token'' (d\<lparr>disk_faults := []\<rparr>)) = Inr ''abc'' \<and> files d ''.t1'' = None"
proof -
  let ?r = "save_token True ''.t1'' 0 ''token'' ''abc'' \<lparr>files = Map.empty, disk_faults = []\<rparr>"
  obtain e d where r: "?r = (e, d)" by fastforce
  have ok: "fst ?r = None" "files (snd ?r) ''.t1'' = None" by code_simp+
  have "''.t1'' \<noteq> ''token''" by simp
  from token_never_torn [OF r this] r ok show ?thesis by (simp add: cr_lf_def)
qed

text \<open>The comment on \<open>Save\<close> says that what goes wrong leaves the old token or the new one. The old file is
  removed before the rename, so that a rename that fails, or a machine that stops between the two,
  leaves neither: the machine is not enrolled any more.\<close>

theorem failed_rename_loses_token:
  "let d = \<lparr>files = [''token'' \<mapsto> ''old'' @ [CHR 0x0A]], disk_faults = replicate 8 False @ [True]\<rparr>;
       r = save_token True ''.t1'' 0 ''token'' ''new'' d
   in fst (load_token ''token'' (d\<lparr>disk_faults := []\<rparr>)) = Inr ''old'' \<and> fst r \<noteq> None \<and>
     fst (load_token ''token'' ((snd r)\<lparr>disk_faults := []\<rparr>)) = Inl ErrTokenNotEnrolled"
  by code_simp

end
