(* ===== verification/Credential.thy ===== *)
theory Credential
  imports Restic Api JsonTime Token
begin

text \<open>
  The secrets of a backup: \<open>business/domain/credential/credentialbus\<close> and its client
  \<open>sources/eumaeuscreds\<close>, with the claim of an enrolment code. Secrets are texts; the network logs what
  was asked for. A machine that is not enrolled has no source.
\<close>

section \<open>Credentials\<close>

definition ErrCredsNotEnrolled :: err where
  "ErrCredsNotEnrolled = Sentinel ''credentialbus: this machine is not enrolled''"

record credentials =
  cr_key_id :: string
  cr_secret :: string
  cr_password :: string

definition wipe_credentials :: "credentials \<Rightarrow> credentials" where
  "wipe_credentials c =
     \<lparr>cr_key_id = wipe (cr_key_id c), cr_secret = wipe (cr_secret c), cr_password = wipe (cr_password c)\<rparr>"

definition complete :: "credentials \<Rightarrow> bool" where
  "complete c \<longleftrightarrow> 0 < length (cr_key_id c) \<and> 0 < length (cr_secret c) \<and> 0 < length (cr_password c)"

definition creds_repository :: "credentials \<Rightarrow> string \<Rightarrow> int \<Rightarrow> int \<Rightarrow> repository" where
  "creds_repository c url pack conc =
     \<lparr>repo_url = url, password = cr_password c, access_key_id = cr_key_id c,
      secret_access_key = cr_secret c, repo_pack_size = pack, repo_read_concurrency = conc\<rparr>"

record restore_key =
  rk_key_id :: string
  rk_secret :: string

definition restore_complete :: "restore_key \<Rightarrow> bool" where
  "restore_complete r \<longleftrightarrow> 0 < length (rk_key_id r) \<and> 0 < length (rk_secret r)"

definition wipe_restore :: "restore_key \<Rightarrow> restore_key" where
  "wipe_restore r = \<lparr>rk_key_id = wipe (rk_key_id r), rk_secret = wipe (rk_secret r)\<rparr>"

record creds_set =
  cs_url :: string
  cs_version :: int
  cs_credentials :: credentials
  cs_state :: string
  cs_expect_empty :: bool
  cs_restore :: restore_key

definition wipe_set :: "creds_set \<Rightarrow> creds_set" where
  "wipe_set s = s\<lparr>cs_credentials := wipe_credentials (cs_credentials s),
     cs_restore := wipe_restore (cs_restore s)\<rparr>"

text \<open>\<open>Unauthorised\<close> is an error that wraps the refusal and is told apart by its type.\<close>

definition revoked_text :: string where
  "revoked_text = ''this machine has been de-enrolled from Eumaeus: ''"

definition Unauthorised :: "err \<Rightarrow> err" where
  "Unauthorised e = Wrap revoked_text e []"

fun as_unauthorised :: "err \<Rightarrow> bool" where
  "as_unauthorised (Wrap p e q) \<longleftrightarrow> p = revoked_text \<or> as_unauthorised e"
| "as_unauthorised (Wrap2 p e q f r) \<longleftrightarrow> as_unauthorised e \<or> as_unauthorised f"
| "as_unauthorised _ \<longleftrightarrow> False"

section \<open>The credentials of one run\<close>

definition key_pair :: "parser \<Rightarrow> (string \<times> string) list \<Rightarrow> string \<Rightarrow> (string \<times> string) option" where
  "key_pair parse f name =
     Option.bind (object_field parse f name) (\<lambda>g.
     Option.bind (text_field parse g ''access_key_id'') (\<lambda>i.
     Option.bind (text_field parse g ''secret_access_key'') (\<lambda>s. Some (i, s))))"

definition decode_creds :: "parser \<Rightarrow> string \<Rightarrow> creds_set option" where
  "decode_creds parse body =
     Option.bind (struct_fields parse body) (\<lambda>f.
     Option.bind (int_field parse f ''credentials_version'') (\<lambda>version.
     Option.bind (object_field parse f ''repository'') (\<lambda>repo.
     Option.bind (text_field parse repo ''url'') (\<lambda>url.
     Option.bind (text_field parse repo ''state'') (\<lambda>state.
     Option.bind (bool_field parse repo ''expect_empty'') (\<lambda>empty.
     Option.bind (object_field parse f ''credentials'') (\<lambda>creds.
     Option.bind (text_field parse creds ''restic_password'') (\<lambda>pw.
     Option.bind (key_pair parse creds ''machine'') (\<lambda>(mi, ms).
     Option.bind (key_pair parse creds ''restore'') (\<lambda>(ri, rs).
     Some \<lparr>cs_url = url, cs_version = version,
       cs_credentials = \<lparr>cr_key_id = mi, cr_secret = ms, cr_password = pw\<rparr>, cs_state = state,
       cs_expect_empty = empty, cs_restore = \<lparr>rk_key_id = ri, rk_secret = rs\<rparr>\<rparr>))))))))))"

definition creds_reply_unread :: err where
  "creds_reply_unread = Wrap ''eumaeuscreds: fetching credentials: '' (Sentinel ''eumaeusapi: reading the reply'') []"

text \<open>A body the request carries: nothing, or a claim.\<close>

record legacy_install =
  li_url :: string
  li_snapshots :: int
  li_oldest :: instant

record claimant =
  cm_hostname :: string
  cm_os :: string
  cm_account :: string
  cm_agent :: string
  cm_legacy :: "legacy_install option"

datatype creds_body = NoClaim | Claim string claimant

type_synonym creds_net = "creds_body net"

definition fetch_creds :: "parser \<Rightarrow> creds_net \<Rightarrow> creds_set res \<times> creds_net" where
  "fetch_creds parse n =
     (case api_do parse ''GET'' ''/machines/me/credentials'' NoClaim n of
        (Inl e, n1) \<Rightarrow>
          (if err_is ErrUnauthorised e then Inl (Unauthorised e)
           else if err_is ErrNotFound e
           then Inl (Wrap ''eumaeuscreds: Eumaeus has no record of this machine: '' ErrCredsNotEnrolled [])
           else Inl (Wrap ''eumaeuscreds: fetching credentials: '' e []), n1)
      | (Inr body, n1) \<Rightarrow>
          (case decode_creds parse body of None \<Rightarrow> (Inl creds_reply_unread, n1) | Some s \<Rightarrow> (Inr s, n1)))"

definition ErrIncompleteSet :: err where
  "ErrIncompleteSet = Sentinel (''credentialbus: Eumaeus returned an incomplete credential set; '' @
     ''the machine's record on the server needs fixing before it can back up'')"

definition ErrNoUrl :: err where
  "ErrNoUrl = Sentinel ''credentialbus: Eumaeus returned credentials with no repository URL''"

definition for_run :: "parser \<Rightarrow> bool \<Rightarrow> creds_net \<Rightarrow> creds_set res \<times> creds_net" where
  "for_run parse is_enrolled n =
     (if \<not> is_enrolled then (Inl ErrCredsNotEnrolled, n)
      else case fetch_creds parse n of
          (Inl e, n1) \<Rightarrow> (Inl e, n1)
        | (Inr s, n1) \<Rightarrow>
            if \<not> complete (cs_credentials s) then (Inl ErrIncompleteSet, n1)
            else if cs_url s = [] then (Inl ErrNoUrl, n1)
            else (Inr s, n1))"

definition describe_creds :: "bool \<Rightarrow> string" where
  "describe_creds is_enrolled =
     (if \<not> is_enrolled
      then ''This machine is not enrolled, so it has no way to obtain credentials. '' @
        ''Enrolling it needs a code from Eumaeus, which is good for fifteen '' @
        ''minutes and can be used once.''
      else ''Fetched from Eumaeus at the start of every backup and discarded when it ends. '' @
        ''Nothing is stored on this computer except the token that identifies it.'')"

section \<open>Claiming an enrolment code\<close>

definition ErrCodeUsed :: err where
  "ErrCodeUsed = Sentinel ''eumaeuscreds: that enrollment code has already been used''"

definition ErrCodeUnknown :: err where
  "ErrCodeUnknown = Sentinel (''eumaeuscreds: that enrollment code is not valid, or has '' @
     ''expired. A code is good for fifteen minutes and can be used once '' @
     [CHR 0xE2, CHR 0x80, CHR 0x94] @ '' ask Eumaeus for another'')"

fun as_bad_request :: "err \<Rightarrow> err option" where
  "as_bad_request (BadRequest st m p msg f b) = Some (BadRequest st m p msg f b)"
| "as_bad_request (Wrap p e q) = as_bad_request e"
| "as_bad_request (Wrap2 p e q f r) =
     (case as_bad_request e of None \<Rightarrow> as_bad_request f | Some x \<Rightarrow> Some x)"
| "as_bad_request _ = None"

definition repository_mismatch :: "err \<Rightarrow> bool" where
  "repository_mismatch e \<longleftrightarrow>
     (case as_bad_request e of None \<Rightarrow> False | Some x \<Rightarrow> br_field x = ''legacy.repository_url'')"

record enrollment =
  er_token :: string
  er_node_id :: string
  er_owner_name :: string
  er_owner_email :: string
  er_warn_after :: int
  er_url :: string
  er_provider :: string
  er_region :: string
  er_bucket :: string
  er_created_at :: instant
  er_adopted :: bool
  er_snapshots :: int
  er_password :: string
  er_machine_key :: "string \<times> string"
  er_restore_key :: "string \<times> string"

definition decode_claim :: "parser \<Rightarrow> string \<Rightarrow> enrollment option" where
  "decode_claim parse body =
     Option.bind (struct_fields parse body) (\<lambda>f.
     Option.bind (text_field parse f ''machine_token'') (\<lambda>tok.
     Option.bind (text_field parse f ''node_id'') (\<lambda>node.
     Option.bind (object_field parse f ''owner'') (\<lambda>owner.
     Option.bind (text_field parse owner ''name'') (\<lambda>name.
     Option.bind (text_field parse owner ''email'') (\<lambda>email.
     Option.bind (int_field parse f ''warn_after_hours'') (\<lambda>warn.
     Option.bind (object_field parse f ''repository'') (\<lambda>repo.
     Option.bind (text_field parse repo ''url'') (\<lambda>url.
     Option.bind (text_field parse repo ''provider'') (\<lambda>provider.
     Option.bind (text_field parse repo ''region'') (\<lambda>region.
     Option.bind (text_field parse repo ''bucket'') (\<lambda>bucket.
     Option.bind (time_field parse repo ''created_at'') (\<lambda>created.
     Option.bind (bool_field parse repo ''adopted'') (\<lambda>adopted.
     Option.bind (int_field parse repo ''snapshots'') (\<lambda>snaps.
     Option.bind (object_field parse f ''credentials'') (\<lambda>creds.
     Option.bind (text_field parse creds ''restic_password'') (\<lambda>pw.
     Option.bind (key_pair parse creds ''machine'') (\<lambda>mk.
     Option.bind (key_pair parse creds ''restore'') (\<lambda>rk.
     Some \<lparr>er_token = tok, er_node_id = node, er_owner_name = name, er_owner_email = email,
       er_warn_after = warn, er_url = url, er_provider = provider, er_region = region,
       er_bucket = bucket, er_created_at = created, er_adopted = adopted, er_snapshots = snaps,
       er_password = pw, er_machine_key = mk, er_restore_key = rk\<rparr>)))))))))))))))))))"

definition claim :: "parser \<Rightarrow> string \<Rightarrow> claimant \<Rightarrow> creds_net \<Rightarrow> enrollment res \<times> creds_net" where
  "claim parse code m n =
     (case api_do parse ''POST'' ''/enrollments/claim'' (Claim code m) n of
        (Inl e, n1) \<Rightarrow>
          (if err_is ErrNotFound e then Inl ErrCodeUnknown
           else if err_is ErrConflict e then Inl ErrCodeUsed
           else (case as_bad_request e of
              Some x \<Rightarrow> Inl x
            | None \<Rightarrow> Inl (Wrap ''eumaeuscreds: claiming the enrollment code: '' e [])), n1)
      | (Inr body, n1) \<Rightarrow>
          (case decode_claim parse body of
             None \<Rightarrow> (Inl (Wrap ''eumaeuscreds: claiming the enrollment code: ''
               (Sentinel ''eumaeusapi: reading the reply'') []), n1)
           | Some g \<Rightarrow>
               if er_token g = [] \<or> er_node_id g = [] \<or> er_url g = []
               then (Inl (Sentinel
                 ''eumaeuscreds: the server accepted the code but returned an incomplete enrollment''), n1)
               else if er_password g = []
               then (Inl (Sentinel (''eumaeuscreds: the server returned no repository password; '' @
                 ''the machine's record in Eumaeus needs fixing before it can be enrolled'')), n1)
               else (Inr g, n1)))"

section \<open>What a fetch and a claim give\<close>

lemma wipe_zero: "wipe s = replicate (length s) CHR 0x00"
  by (induction s) auto

lemma for_run_ok:
  assumes "for_run parse av n = (Inr s, n')"
  shows "complete (cs_credentials s) \<and> cs_url s \<noteq> [] \<and> fetch_creds parse n = (Inr s, n')"
  using assms by (auto simp: for_run_def split: if_splits sum.splits prod.splits)

lemmas creds_sentinels = ErrCredsNotEnrolled_def ErrNotFound_def ErrUnauthorised_def ErrForbidden_def
  ErrConflict_def ErrIncompleteSet_def ErrNoUrl_def ErrCodeUnknown_def ErrCodeUsed_def
  creds_reply_unread_def

text \<open>What each status is read as; the third class is every other refusal.\<close>

lemma reply_cases:
  assumes "read_reply parse meth path (Reply st line body) = r" and "meth = ''GET'' \<or> meth = ''POST''"
  obtains (found) b where "r = Inr b" "st < 300"
  | (gone) "r = Inl ErrNotFound" "st = 404"
  | (refused) "r = Inl ErrUnauthorised" "st = 401"
  | (conflict) "r = Inl ErrConflict" "st = 409"
  | (explained) "r = Inl (new_bad_request parse st meth path body)" "st = 400 \<or> st = 422"
  | (other) e where "r = Inl e" "st \<notin> {404, 401, 409, 400, 422}" "300 \<le> st"
      "e = ErrForbidden \<or> (\<exists>t. e = Sentinel (''eumaeusapi: '' @ meth @ t))"
  using assms unfolding read_reply_def by (auto split: if_splits)

lemma bad_request_shape:
  "\<exists>msg f b. new_bad_request parse st meth path body = BadRequest st meth path msg f b"
  by (auto simp: new_bad_request_def split: option.splits list.splits)

lemma bad_request_facts [simp]:
  "err_is ErrNotFound (new_bad_request parse st meth path body) = False"
  "err_is ErrUnauthorised (new_bad_request parse st meth path body) = False"
  "err_is ErrConflict (new_bad_request parse st meth path body) = False"
  "err_is ErrCredsNotEnrolled (new_bad_request parse st meth path body) = False"
  "as_unauthorised (new_bad_request parse st meth path body) = False"
  "as_bad_request (new_bad_request parse st meth path body) = Some (new_bad_request parse st meth path body)"
  using bad_request_shape [of parse st meth path body]
  by (auto simp: refusal_class_def creds_sentinels ErrBadRequest_def ErrUnprocessable_def split: if_splits)

lemmas bad_request_unfolded = bad_request_facts [unfolded creds_sentinels]

lemma fetch_error:
  assumes "replies n = Reply st line body # rest" and "fetch_creds parse n = (r, n')"
  shows "(case r of Inl e \<Rightarrow> (as_unauthorised e \<longleftrightarrow> st = 401) \<and> (err_is ErrCredsNotEnrolled e \<longleftrightarrow> st = 404)
     | Inr s \<Rightarrow> st < 300)"
  using assms
  by (cases rule: reply_cases [of parse "''GET''" "''/machines/me/credentials''" st line body, OF refl])
    (auto simp: fetch_creds_def api_do_def creds_sentinels revoked_text_def Unauthorised_def
      bad_request_unfolded split: option.splits)

text \<open>C21: what a run is given to back up with is whole. Credentials that are handed out have all three
  secrets and name a repository, so that they are ones restic accepts, and they are what the server
  answered to this very fetch; a machine that is enrolled asks exactly once each time, one that is not
  asks nobody; and a refused token is told apart from every other failure and from a machine the server
  does not know.\<close>

theorem credentials_are_whole:
  "case for_run parse is_enrolled n of (r, n') \<Rightarrow>
     length (made n') = length (made n) + (if is_enrolled then 1 else 0) \<and>
     (case r of
        Inr s \<Rightarrow> fst (fetch_creds parse n) = Inr s \<and>
          validate_repo (creds_repository (cs_credentials s) (cs_url s) pack conc) = None
      | Inl e \<Rightarrow> is_enrolled \<longrightarrow> (\<forall>st line body rest. replies n = Reply st line body # rest \<longrightarrow>
          (as_unauthorised e \<longleftrightarrow> st = 401) \<and> (err_is ErrCredsNotEnrolled e \<longleftrightarrow> st = 404)))"
proof -
  obtain r n' where f: "for_run parse is_enrolled n = (r, n')" by fastforce
  obtain r1 n1 where g: "fetch_creds parse n = (r1, n1)" by fastforce
  have len: "length (made n1) = length (made n) + 1"
    using g by (auto simp: fetch_creds_def api_do_def split: sum.splits option.splits if_splits)
  have "case r of Inr s \<Rightarrow> fst (fetch_creds parse n) = Inr s \<and>
      validate_repo (creds_repository (cs_credentials s) (cs_url s) pack conc) = None
    | Inl e \<Rightarrow> is_enrolled \<longrightarrow> (\<forall>st line body rest. replies n = Reply st line body # rest \<longrightarrow>
        (as_unauthorised e \<longleftrightarrow> st = 401) \<and> (err_is ErrCredsNotEnrolled e \<longleftrightarrow> st = 404))"
  proof (cases r)
    case (Inr s)
    with for_run_ok [OF f [unfolded Inr]] show ?thesis
      by (simp add: complete_def validate_repo_def creds_repository_def)
  next
    case (Inl e)
    {
      fix st line body rest assume en: is_enrolled and rep: "replies n = Reply st line body # rest"
      note k = fetch_error [OF rep g]
      have "(as_unauthorised e \<longleftrightarrow> st = 401) \<and> (err_is ErrCredsNotEnrolled e \<longleftrightarrow> st = 404)"
        using f g k Inl en
        by (cases r1) (auto simp: for_run_def creds_sentinels split: if_splits)
    }
    then show ?thesis using Inl by simp
  qed
  moreover have "length (made n') = length (made n) + (if is_enrolled then 1 else 0)"
    using f g len by (cases r1) (auto simp: for_run_def split: if_splits)
  ultimately show ?thesis by (simp add: f)
qed

text \<open>C22: a claim that succeeds is whole, and a refusal says what it has to. An enrolment has a token, a
  node, a repository and its password; a code that was used and one that is unknown are told apart from
  all else; and a refusal with an explanation is passed on as the server wrote it, with nothing in front
  of it, so that one for the wrong repository is recognised by the field it names.\<close>

theorem claim_is_whole:
  "case fst (claim parse code m n) of
     Inr g \<Rightarrow> er_token g \<noteq> [] \<and> er_node_id g \<noteq> [] \<and> er_url g \<noteq> [] \<and> er_password g \<noteq> []
   | Inl e \<Rightarrow> (\<forall>st line body rest. replies n = Reply st line body # rest \<longrightarrow>
       (e = ErrCodeUnknown \<longleftrightarrow> st = 404) \<and> (e = ErrCodeUsed \<longleftrightarrow> st = 409) \<and>
       (st = 400 \<or> st = 422 \<longrightarrow>
          e = new_bad_request parse st ''POST'' ''/enrollments/claim'' body \<and>
          (repository_mismatch e \<longleftrightarrow> br_field e = ''legacy.repository_url'')))"
proof -
  obtain r n' where f: "claim parse code m n = (r, n')" by fastforce
  show ?thesis
  proof (cases r)
    case (Inr g)
    then show ?thesis using f
      by (auto simp: claim_def split: sum.splits option.splits if_splits prod.splits)
  next
    case (Inl e)
    {
      fix st line body rest assume rep: "replies n = Reply st line body # rest"
      note shape = bad_request_shape [of parse st "''POST''" "''/enrollments/claim''" body]
      have "(e = ErrCodeUnknown \<longleftrightarrow> st = 404) \<and> (e = ErrCodeUsed \<longleftrightarrow> st = 409) \<and>
         (st = 400 \<or> st = 422 \<longrightarrow> e = new_bad_request parse st ''POST'' ''/enrollments/claim'' body \<and>
          (repository_mismatch e \<longleftrightarrow> br_field e = ''legacy.repository_url''))"
      proof (cases rule: reply_cases [of parse "''POST''" "''/enrollments/claim''" st line body, OF refl])
        case 1
        then show ?case by simp
      next
        case (2 b)
        then show ?thesis using f rep Inl
          by (auto simp: claim_def api_do_def ErrCodeUnknown_def ErrCodeUsed_def split: option.splits if_splits)
      next
        case 3
        then show ?thesis using f rep Inl
          by (simp add: claim_def api_do_def) (auto simp: ErrCodeUnknown_def ErrCodeUsed_def)
      next
        case 4
        then show ?thesis using f rep Inl
          by (simp add: claim_def api_do_def) (auto simp: creds_sentinels)
      next
        case 5
        then have "e = ErrCodeUsed" using f rep Inl
          by (simp add: claim_def api_do_def) (auto simp: creds_sentinels)
        then show ?thesis using 5 by (simp add: ErrCodeUnknown_def ErrCodeUsed_def)
      next
        case 6
        then have "e = new_bad_request parse st ''POST'' ''/enrollments/claim'' body" using f rep Inl
          by (auto simp: claim_def api_do_def)
        then show ?thesis using 6 shape by (auto simp: repository_mismatch_def creds_sentinels)
      next
        case (7 x)
        then have "e = Wrap ''eumaeuscreds: claiming the enrollment code: '' x []" using f rep Inl
          by (auto simp: claim_def api_do_def creds_sentinels)
        then show ?thesis using 7 by (auto simp: creds_sentinels)
      qed
    }
    note k = this
    show ?thesis unfolding f fst_conv Inl sum.case by (intro allI impI, rule k)
  qed
qed

text \<open>A reader of a few words, for the examples.\<close>

definition creds_parse :: parser where
  "creds_parse w =
     (if w = ''B'' then Some (JObject [(''repository'', ''R''), (''credentials'', ''C'')])
      else if w = ''R'' then Some (JObject [(''url'', ''U''), (''expect_empty'', ''T'')])
      else if w = ''C'' then Some (JObject [(''restic_password'', ''P''), (''machine'', ''K'')])
      else if w = ''K'' then Some (JObject [(''access_key_id'', ''P''), (''secret_access_key'', ''P'')])
      else if w = ''F'' then Some (JObject [(''error'', ''P''), (''field'', ''L'')])
      else if w = ''T'' then Some (JBool True)
      else if w = ''U'' then Some (JText ''s3:b2/leto'')
      else if w = ''P'' then Some (JText ''secret'')
      else if w = ''L'' then Some (JText ''legacy.repository_url'')
      else None)"

theorem credentials_are_whole_witness:
  "let r = for_run creds_parse True \<lparr>replies = [Reply 200 ''200 OK'' ''B''], made = []\<rparr> in
     (\<exists>s. fst r = Inr s \<and> cs_expect_empty s \<and>
       validate_repo (creds_repository (cs_credentials s) (cs_url s) 0 0) = None) \<and>
   (\<exists>e. fst (for_run creds_parse True \<lparr>replies = [Reply 401 [] []], made = []\<rparr>) = Inl e \<and> as_unauthorised e)"
proof -
  let ?n = "\<lparr>replies = [Reply 200 ''200 OK'' ''B''], made = []\<rparr> :: creds_net"
  let ?m = "\<lparr>replies = [Reply 401 [] []], made = []\<rparr> :: creds_net"
  have "map_option cs_expect_empty (case fst (for_run creds_parse True ?n) of Inr s \<Rightarrow> Some s | Inl e \<Rightarrow> None) = Some True"
    by code_simp
  then obtain s n' where s: "for_run creds_parse True ?n = (Inr s, n')" "cs_expect_empty s"
    by (cases "for_run creds_parse True ?n") (auto split: sum.splits)
  have "\<not> is_ok (fst (for_run creds_parse True ?m))" by code_simp
  then obtain e m' where e: "for_run creds_parse True ?m = (Inl e, m')"
    by (cases "for_run creds_parse True ?m") (auto simp: is_ok_def split: sum.splits)
  show ?thesis
    using credentials_are_whole [where parse = creds_parse and is_enrolled = True and n = ?n and pack = 0 and conc = 0]
      credentials_are_whole [where parse = creds_parse and is_enrolled = True and n = ?m and pack = 0 and conc = 0] s e
    by simp
qed

theorem claim_is_whole_witness:
  "let m = \<lparr>cm_hostname = ''leto'', cm_os = ''linux'', cm_account = ''ana'', cm_agent = ''1'', cm_legacy = None\<rparr>;
       r = fst (claim creds_parse ''c'' m \<lparr>replies = [Reply 422 [] ''F''], made = []\<rparr>)
   in \<exists>e. r = Inl e \<and> repository_mismatch e \<and> e \<noteq> ErrCodeUsed"
proof -
  let ?m = "\<lparr>cm_hostname = ''leto'', cm_os = ''linux'', cm_account = ''ana'', cm_agent = ''1'', cm_legacy = None\<rparr>"
  let ?n = "\<lparr>replies = [Reply 422 [] ''F''], made = []\<rparr> :: creds_net"
  have "\<not> is_ok (fst (claim creds_parse ''c'' ?m ?n))" by code_simp
  then obtain e where e: "fst (claim creds_parse ''c'' ?m ?n) = Inl e"
    by (cases "fst (claim creds_parse ''c'' ?m ?n)") auto
  have "br_field (new_bad_request creds_parse 422 ''POST'' ''/enrollments/claim'' ''F'') = ''legacy.repository_url''"
    by code_simp
  with claim_is_whole [where parse = creds_parse and code = "''c''" and m = ?m and n = ?n] e
  show ?thesis unfolding Let_def by (intro exI [of _ e] conjI) auto
qed

end
