(* ===== verification/Daemon.thy ===== *)
theory Daemon
  imports Fleet Diag Credential Machine SelfUpdate
begin

text \<open>
  The daemon's own steps: \<open>cmd/sion-backup/daemon.go\<close>, with the end of a run in \<open>rotate.go\<close>,
  \<open>restic.go\<close>, \<open>setup.go\<close> and \<open>update.go\<close>. They put the components together: the plan, the run history,
  restic, the reports of failures and the program's own update are each where their theory has them, and
  every request goes through one client, whose log is in the order the requests were made.

  What happens at the same time is taken one after the other: a backup that is asked for is carried out
  before the next step. \<open>busy\<close> says that another backup is running all the while.
\<close>

section \<open>The state of the daemon\<close>

datatype traffic = AboutCreds creds_body | AboutRun event | AboutMachine machine_body

record daemon =
  dm_plan :: plandb
  dm_runs :: rundb
  dm_box :: machine
  dm_net :: "traffic net"
  dm_diag :: "diagdir option"
  dm_disk :: "blob disk"
  dm_checked :: instant
  dm_waiting :: instant
  dm_clock :: "instant list"
  dm_ids :: "string list"
  dm_asked_system :: nat

text \<open>
  What does not change while it runs. \<open>en_pinned\<close> is why restic could not be made ready, if it could not;
  \<open>en_updater\<close> is there when updates are on, with what the source and the download answer.
\<close>

record env =
  en_settings :: settings
  en_zone :: zone
  en_agent :: string
  en_os :: string
  en_host :: string
  en_enrolled :: bool
  en_busy :: bool
  en_cancel :: cancellation
  en_override :: "bool option"
  en_metered :: bool
  en_pinned :: "err option"
  en_updater :: "updater option"
  en_sha :: "string \<Rightarrow> string"
  en_prog :: prog
  en_release :: "release res"
  en_download :: reply

abbreviation en_parse :: "env \<Rightarrow> parser" where
  "en_parse v \<equiv> cfg_parse (en_settings v)"

text \<open>The clock and the names the machine makes up are the next of a list; a clock stops at its last time.\<close>

definition read_clock :: "daemon \<Rightarrow> instant \<times> daemon" where
  "read_clock d =
     (case dm_clock d of
        [] \<Rightarrow> (zero_time, d)
      | [t] \<Rightarrow> (t, d)
      | t # ts \<Rightarrow> (t, d\<lparr>dm_clock := ts\<rparr>))"

definition new_id :: "daemon \<Rightarrow> string \<times> daemon" where
  "new_id d = (case dm_ids d of [] \<Rightarrow> ([], d) | i # is \<Rightarrow> (i, d\<lparr>dm_ids := is\<rparr>))"

text \<open>A part of the state handed to the component it belongs to.\<close>

definition with_plan :: "(plandb \<Rightarrow> 'a \<times> plandb) \<Rightarrow> daemon \<Rightarrow> 'a \<times> daemon" where
  "with_plan f d = (case f (dm_plan d) of (r, x) \<Rightarrow> (r, d\<lparr>dm_plan := x\<rparr>))"

definition with_runs :: "(rundb \<Rightarrow> 'a \<times> rundb) \<Rightarrow> daemon \<Rightarrow> 'a \<times> daemon" where
  "with_runs f d = (case f (dm_runs d) of (r, x) \<Rightarrow> (r, d\<lparr>dm_runs := x\<rparr>))"

definition with_restic :: "(world \<Rightarrow> 'a \<times> world) \<Rightarrow> daemon \<Rightarrow> 'a \<times> daemon" where
  "with_restic f d = (case f (world (dm_box d)) of (r, w) \<Rightarrow> (r, d\<lparr>dm_box := (dm_box d)\<lparr>world := w\<rparr>\<rparr>))"

definition with_net :: "('b \<Rightarrow> traffic) \<Rightarrow> ('b net \<Rightarrow> 'a \<times> 'b net) \<Rightarrow> daemon \<Rightarrow> 'a \<times> daemon" where
  "with_net tag f d =
     (case f \<lparr>replies = replies (dm_net d), made = []\<rparr> of
        (r, n) \<Rightarrow> (r, d\<lparr>dm_net := \<lparr>replies = replies n,
          made = made (dm_net d) @
            map (\<lambda>q. \<lparr>req_method = req_method q, req_path = req_path q, req_body = tag (req_body q)\<rparr>)
              (made n)\<rparr>\<rparr>))"

section \<open>Reports and the network's price\<close>

definition bare_report :: "diag_kind \<Rightarrow> string \<Rightarrow> string \<Rightarrow> report" where
  "bare_report k step what =
     \<lparr>d_kind = k, d_occurred = zero_time, d_agent = [], d_os = [], d_install = [], d_node = [],
      d_step = step, d_prior = [], d_rollback = [], d_restored = [], d_detail = what\<rparr>"

definition note_failure :: "env \<Rightarrow> diag_kind \<Rightarrow> string \<Rightarrow> string \<Rightarrow> daemon \<Rightarrow> daemon" where
  "note_failure v k step what d =
     (case read_clock d of (now, d1) \<Rightarrow>
      case new_id d1 of (i, d2) \<Rightarrow>
        d2\<lparr>dm_diag := snd (record_report (en_agent v) (en_os v) now i (bare_report k step what) (dm_diag d2))\<rparr>)"

definition metered :: "env \<Rightarrow> daemon \<Rightarrow> bool \<times> daemon" where
  "metered v d =
     (case en_override v of
        Some m \<Rightarrow> (m, d)
      | None \<Rightarrow> (en_metered v, d\<lparr>dm_asked_system := dm_asked_system d + 1\<rparr>))"

definition waiting_every :: duration where
  "waiting_every = hour"

definition say_waiting :: "daemon \<Rightarrow> bool \<times> daemon" where
  "say_waiting d =
     (case read_clock d of (now, d1) \<Rightarrow>
        if time_sub now (dm_waiting d1) < waiting_every then (False, d1)
        else (True, d1\<lparr>dm_waiting := now\<rparr>))"

section \<open>Before a backup\<close>

definition ensure_restic :: "env \<Rightarrow> daemon \<Rightarrow> err option \<times> daemon" where
  "ensure_restic v d =
     (case en_pinned v of
        None \<Rightarrow> (None, d)
      | Some e \<Rightarrow>
          (Some (Wrap (''this machine has no usable restic and one could not be '' @ ''installed: '') e []),
           note_failure v KindInstallFailed ''fetch-restic'' (err_text e) d))"

definition backup_options_of :: "env \<Rightarrow> plan \<Rightarrow> backup_options" where
  "backup_options_of v p =
     \<lparr>o_targets = targets p, o_exclude_file = [], o_excludes = excludes p, o_tags = [''sion-backup''],
      o_host = en_host v, o_use_fs_snapshot = use_fs_snapshot p,
      o_allow_vss_fallback = allow_vss_fallback p, o_one_file_system = one_file_system p,
      o_exclude_larger_than = wrap64 (skip_larger_than_gb p * 2 ^ 30)\<rparr>"

definition plan_repository :: "plan \<Rightarrow> creds_set \<Rightarrow> repository" where
  "plan_repository p s =
     creds_repository (cs_credentials s) (repository p) (pack_size_mib p) (read_concurrency p)"

definition open_repository :: "plan \<Rightarrow> creds_set \<Rightarrow> daemon \<Rightarrow> err option \<times> daemon" where
  "open_repository p s d =
     (if \<not> cs_expect_empty s then (None, d)
      else case with_restic (ensure_repo (plan_repository p s) True) d of
          ((_, None), d1) \<Rightarrow> (None, d1)
        | ((_, Some e), d1) \<Rightarrow>
            if err_is ErrAbsent e
            then (Some (Wrap (''the server permitted this machine to create the repository at '' @
                repository p @ '' and it was not created: '') e []), d1)
            else (Some e, d1))"

text \<open>What the server says now is where this machine writes, and the plan is brought up to date.\<close>

definition reconcile :: "plan \<Rightarrow> creds_set \<Rightarrow> daemon \<Rightarrow> plan \<times> daemon" where
  "reconcile p s d =
     (if cs_url s = repository p then (p, d)
      else let p1 = p\<lparr>repository := cs_url s\<rparr> in
        case read_clock d of (now, d1) \<Rightarrow> (p1, snd (with_plan (biz_put plandb p1 now) d1)))"

definition tell_fleet :: "env \<Rightarrow> event \<Rightarrow> daemon \<Rightarrow> err option \<times> daemon" where
  "tell_fleet v e d =
     (if en_enrolled v then with_net AboutRun (report_event (en_parse v) e) d else (None, d))"

section \<open>After a backup\<close>

definition release_old_bucket :: "env \<Rightarrow> string \<Rightarrow> daemon \<Rightarrow> daemon" where
  "release_old_bucket v url d =
     snd (with_net AboutMachine (biz_release_old_bucket (en_parse v) (en_enrolled v) url) d)"

definition measure_every :: duration where
  "measure_every = 7 * 24 * hour"

definition measure_step :: "env \<Rightarrow> plan \<Rightarrow> creds_set \<Rightarrow> daemon \<Rightarrow> daemon" where
  "measure_step v p s d =
     (case read_clock d of (now, d0) \<Rightarrow>
      case with_plan (biz_measurement plandb (repository p) now) d0 of
        (Inl _, d1) \<Rightarrow> d1
      | (Inr m, d1) \<Rightarrow>
          if \<not> measurement_stale m now measure_every then d1
          else (case with_restic (measure_repo (en_parse v) (plan_repository p s)) d1 of
              (Inl _, d2) \<Rightarrow> d2
            | (Inr z, d2) \<Rightarrow>
                snd (with_plan (biz_record_measurement plandb (repository p) now (since m)
                  \<lparr>s_now = rs_now z, s_fresh = rs_fresh z, s_snapshots = rs_snapshots z\<rparr>) d2)))"

definition retryable_error :: "unit res \<Rightarrow> bool" where
  "retryable_error r =
     (case r of Inr _ \<Rightarrow> False
      | Inl e \<Rightarrow> (case as_restic e of None \<Rightarrow> False | Some x \<Rightarrow> retryable x))"

text \<open>What is written down of a check; each record has the repository and the time it began.\<close>

definition note_check :: "string \<Rightarrow> instant \<Rightarrow> bool \<Rightarrow> string \<Rightarrow> string \<Rightarrow> string \<Rightarrow> daemon \<Rightarrow> daemon" where
  "note_check url now ok part skipped what d =
     snd (with_plan (biz_record_integrity plandb
       (zero_integrity\<lparr>i_repository_url := url, checked_at := now, check_ok := ok, subset_read := part,
          skipped_reason := skipped, detail := what\<rparr>)) d)"

text \<open>The check itself: once, and once more when a lock stood in the way and was cleared.\<close>

datatype checked = Sound | Damaged err | Skipped string

definition check_once_or_twice :: "repository \<Rightarrow> string \<Rightarrow> daemon \<Rightarrow> checked \<times> daemon" where
  "check_once_or_twice repo part d =
     (let judge = (\<lambda>(r, d'). if retryable_error r
            then (Skipped ''the repository was locked by something still running'', d')
            else (case r of Inr _ \<Rightarrow> (Sound, d') | Inl e \<Rightarrow> (Damaged e, d')))
      in case with_restic (check_repo repo part) d of (r, d1) \<Rightarrow>
        if retryable_error r
        then (case with_restic (unlock repo) d1 of
            (Inl _, d2) \<Rightarrow> (Skipped ''the repository was locked and the lock could not be cleared'', d2)
          | (Inr _, d2) \<Rightarrow> judge (with_restic (check_repo repo part) d2))
        else judge (r, d1))"

definition check_repository :: "env \<Rightarrow> plan \<Rightarrow> creds_set \<Rightarrow> daemon \<Rightarrow> daemon" where
  "check_repository v p s d =
     (case read_clock d of (now, d0) \<Rightarrow>
      case with_plan (biz_integrity plandb (repository p)) d0 of
        (Inl _, d1) \<Rightarrow> d1
      | (Inr last_check, d1) \<Rightarrow>
          if \<not> integrity_due last_check (repository p) now then d1
          else case metered v d1 of
            (True, d2) \<Rightarrow> note_check (repository p) now False [] ''metered connection'' [] d2
          | (False, d2) \<Rightarrow>
              (case with_plan (biz_measurement plandb (repository p) now) d2 of (m, d3) \<Rightarrow>
                let part = check_subset (case m of Inl _ \<Rightarrow> 0 | Inr x \<Rightarrow> size_now x) in
                case check_once_or_twice (plan_repository p s) part d3 of
                  (Skipped why, d4) \<Rightarrow> note_check (repository p) now False part why [] d4
                | (Damaged e, d4) \<Rightarrow>
                    note_failure v KindRepositoryDamaged ''repository-check'' (err_text e)
                      (note_check (repository p) now False part [] (err_text e) d4)
                | (Sound, d4) \<Rightarrow> note_check (repository p) now True part [] [] d4))"

definition update_check_every :: duration where
  "update_check_every = hour"

definition self_update :: "env \<Rightarrow> daemon \<Rightarrow> bool \<times> daemon" where
  "self_update v d =
     (case en_updater v of
        None \<Rightarrow> (False, d)
      | Some u \<Rightarrow>
          if en_busy v then (False, d)
          else case read_clock d of (now, d1) \<Rightarrow>
            if time_sub now (dm_checked d1) < update_check_every then (False, d1)
            else case read_clock (d1) of (now2, d2) \<Rightarrow>
              case apply_update (en_sha v) (en_prog v) u (Some (en_release v)) (en_download v) now2 (dm_disk d2) of
                (r, k) \<Rightarrow>
                  let d3 = d2\<lparr>dm_checked := now2, dm_disk := k\<rparr> in
                  (case r of
                     Inl e \<Rightarrow>
                       if err_is ErrNotWritable e then (False, d3)
                       else (False, note_failure v KindUpdateFailed ''self-update'' (err_text e) d3)
                   | Inr None \<Rightarrow> (False, d3)
                   | Inr (Some _) \<Rightarrow> (True, d3)))"

section \<open>One backup\<close>

text \<open>
  The end of a run that was recorded: the dashboard is told, the repository is measured and checked when
  a snapshot was written, the old bucket is let go when a verified snapshot is in the new one, and the
  program is brought up to date. It answers whether the program was replaced.
\<close>

definition tell_finished :: "env \<Rightarrow> run \<Rightarrow> daemon \<Rightarrow> daemon" where
  "tell_finished v r d =
     (case tell_fleet v (event_for (en_agent v) (en_os v) r) d of
        (Some _, d1) \<Rightarrow> d1
      | (None, d1) \<Rightarrow>
          (case read_clock d1 of (now, d2) \<Rightarrow> snd (with_runs (rs_mark_reported rundb (run_id r) now) d2)))"

definition after_run :: "env \<Rightarrow> plan \<Rightarrow> creds_set \<Rightarrow> run \<Rightarrow> daemon \<Rightarrow> bool \<times> daemon" where
  "after_run v p s r d =
     (let d1 = tell_finished v r d;
          d2 = (if run_snapshot r \<noteq> [] then check_repository v p s (measure_step v p s d1) else d1);
          d3 = (if run_snapshot r \<noteq> [] \<and> verified r \<and> cs_state s = StateCuttingOver
                then release_old_bucket v (repository p) d2 else d2)
      in self_update v d3)"

record attempt =
  at_request :: request
  at_started :: bool
  at_error :: "err option"
  at_updated :: bool

definition bare_request :: "plan \<Rightarrow> request" where
  "bare_request p =
     \<lparr>req_node = node_id p, req_uuid = [], req_seeding = False,
      req_repository = \<lparr>repo_url = [], password = [], access_key_id = [], secret_access_key = [],
        repo_pack_size = 0, repo_read_concurrency = 0\<rparr>,
      req_options = \<lparr>o_targets = [], o_exclude_file = [], o_excludes = [], o_tags = [], o_host = [],
        o_use_fs_snapshot = False, o_allow_vss_fallback = False, o_one_file_system = False,
        o_exclude_larger_than = 0\<rparr>\<rparr>"

definition not_begun :: "request \<Rightarrow> err \<Rightarrow> attempt" where
  "not_begun req e = \<lparr>at_request = req, at_started = False, at_error = Some e, at_updated = False\<rparr>"

text \<open>From the announcement of the start to the end of the run.\<close>

definition carry_out :: "env \<Rightarrow> plan \<Rightarrow> creds_set \<Rightarrow> request \<Rightarrow> daemon \<Rightarrow> attempt \<times> daemon" where
  "carry_out v p s req d =
     (case read_clock d of (now, d1) \<Rightarrow>
      case tell_fleet v (start_event (en_agent v) (en_os v) (node_id p) (repository p) (req_uuid req)
          (req_seeding req) now) d1 of (_, d2) \<Rightarrow>
      case read_clock d2 of (t0, d3) \<Rightarrow>
      case read_clock d3 of (t1, d4) \<Rightarrow>
      case read_clock d4 of (t2, d5) \<Rightarrow>
      case run_job (en_settings v) rundb (en_busy v) (en_cancel v) t0 t1 t2 req (dm_runs d5) (dm_box d5) of
        ((ro, e), runs, box) \<Rightarrow>
          let d6 = d5\<lparr>dm_runs := runs, dm_box := box\<rparr> in
          (case e of
             Some x \<Rightarrow>
               (\<lparr>at_request = req, at_started = \<not> err_is ErrAlreadyRunning x, at_error = Some x,
                 at_updated = False\<rparr>, d6)
           | None \<Rightarrow>
               (case after_run v p s (the ro) d6 of (replaced, d7) \<Rightarrow>
                  (\<lparr>at_request = req, at_started = True, at_error = None, at_updated = replaced\<rparr>, d7))))"

definition run_one_backup :: "env \<Rightarrow> plan \<Rightarrow> daemon \<Rightarrow> attempt \<times> daemon" where
  "run_one_backup v p0 d =
     (case runnable p0 of
        Some e \<Rightarrow> (not_begun (bare_request p0) e, d)
      | None \<Rightarrow>
        case ensure_restic v d of
          (Some e, d1) \<Rightarrow> (not_begun (bare_request p0) e, d1)
        | (None, d1) \<Rightarrow>
          (case with_net AboutCreds (for_run (en_parse v) (en_enrolled v)) d1 of
             (Inl e, d2) \<Rightarrow> (not_begun (bare_request p0) e, d2)
           | (Inr s, d2) \<Rightarrow>
             (case reconcile p0 s d2 of (p, d3) \<Rightarrow>
              case new_id d3 of (i, d4) \<Rightarrow>
              case with_runs (seeding rundb (repository p)) d4 of (q, d5) \<Rightarrow>
                let req = \<lparr>req_node = node_id p, req_uuid = i,
                      req_seeding = (case q of Inl _ \<Rightarrow> False | Inr b \<Rightarrow> b),
                      req_repository = plan_repository p s, req_options = backup_options_of v p\<rparr> in
                (case open_repository p s d5 of
                   (Some e, d6) \<Rightarrow> (not_begun req e, d6)
                 | (None, d6) \<Rightarrow> carry_out v p s req d6))))"

definition backup :: "env \<Rightarrow> plan \<Rightarrow> daemon \<Rightarrow> attempt \<times> daemon" where
  "backup v p d =
     (case run_one_backup v p d of (a, d1) \<Rightarrow>
        (case at_error a of
           None \<Rightarrow> (a, d1)
         | Some e \<Rightarrow>
             if \<not> at_started a \<and> \<not> err_is ErrAlreadyRunning e
             then (case read_clock d1 of (now, d2) \<Rightarrow>
                 (a, snd (with_runs (record_failed_start rundb (at_request a) (err_text e) now) d2)))
             else (a, d1)))"

section \<open>When a backup is started\<close>

text \<open>The plan of the backup that is started, if one is.\<close>

definition maybe_run :: "env \<Rightarrow> daemon \<Rightarrow> plan option \<times> daemon" where
  "maybe_run v d =
     (case with_plan plandb_get d of
        (Inl _, d1) \<Rightarrow> (None, d1)
      | (Inr p, d1) \<Rightarrow>
          if paused p then (None, d1)
          else if \<not> confirmed p then (None, snd (say_waiting d1))
          else if en_busy v then (None, d1)
          else case (if skip_on_metered p then metered v d1 else (False, d1)) of
            (True, d2) \<Rightarrow> (None, d2)
          | (False, d2) \<Rightarrow>
              (case with_runs rundb_last d2 of (r, d3) \<Rightarrow>
                case (case r of Inr x \<Rightarrow> Some (started_at x)
                      | Inl e \<Rightarrow> if err_is ErrNoRuns e then Some zero_time else None) of
                  None \<Rightarrow> (None, d3)
                | Some last_run \<Rightarrow>
                    (case read_clock d3 of (now, d4) \<Rightarrow>
                       (if due (en_zone v) (plan_schedule p) (node_id p) now last_run then Some p else None, d4))))"

definition start_run :: "env \<Rightarrow> daemon \<Rightarrow> plan res \<times> daemon" where
  "start_run v d =
     (case with_plan plandb_get d of
        (Inl e, d1) \<Rightarrow> (Inl e, d1)
      | (Inr p, d1) \<Rightarrow> if en_busy v then (Inl ErrAlreadyRunning, d1) else (Inr p, d1))"

definition tick :: "env \<Rightarrow> daemon \<Rightarrow> daemon" where
  "tick v d = (case maybe_run v d of (None, d1) \<Rightarrow> d1 | (Some p, d1) \<Rightarrow> snd (backup v p d1))"

end
