(* ===== verification/DaemonSteps.thy ===== *)
theory DaemonSteps
  imports Daemon
begin

text \<open>
  What the daemon's steps do to the parts of its state: which parts each leaves alone, what each asks the
  server, which commands each has restic run, and how far a backup gets.
\<close>

section \<open>What each step leaves alone\<close>

lemma read_clock_frame [simp]:
  "dm_plan (snd (read_clock d)) = dm_plan d" "dm_runs (snd (read_clock d)) = dm_runs d"
  "dm_box (snd (read_clock d)) = dm_box d" "dm_net (snd (read_clock d)) = dm_net d"
  "dm_diag (snd (read_clock d)) = dm_diag d" "dm_disk (snd (read_clock d)) = dm_disk d"
  "dm_asked_system (snd (read_clock d)) = dm_asked_system d" "dm_ids (snd (read_clock d)) = dm_ids d"
  by (simp_all add: read_clock_def split: list.split)

lemma new_id_frame [simp]:
  "dm_plan (snd (new_id d)) = dm_plan d" "dm_runs (snd (new_id d)) = dm_runs d"
  "dm_box (snd (new_id d)) = dm_box d" "dm_net (snd (new_id d)) = dm_net d"
  "dm_diag (snd (new_id d)) = dm_diag d" "dm_disk (snd (new_id d)) = dm_disk d"
  "dm_clock (snd (new_id d)) = dm_clock d"
  "dm_asked_system (snd (new_id d)) = dm_asked_system d"
  by (simp_all add: new_id_def split: list.split)

lemma with_plan_frame [simp]:
  "dm_plan (snd (with_plan f d)) = snd (f (dm_plan d))" "fst (with_plan f d) = fst (f (dm_plan d))"
  "dm_runs (snd (with_plan f d)) = dm_runs d" "dm_clock (snd (with_plan f d)) = dm_clock d"
  "dm_box (snd (with_plan f d)) = dm_box d" "dm_net (snd (with_plan f d)) = dm_net d"
  "dm_diag (snd (with_plan f d)) = dm_diag d" "dm_asked_system (snd (with_plan f d)) = dm_asked_system d"
  "dm_ids (snd (with_plan f d)) = dm_ids d"
  by (simp_all add: with_plan_def split: prod.split)

lemma with_runs_frame [simp]:
  "dm_runs (snd (with_runs f d)) = snd (f (dm_runs d))" "fst (with_runs f d) = fst (f (dm_runs d))"
  "dm_plan (snd (with_runs f d)) = dm_plan d" "dm_clock (snd (with_runs f d)) = dm_clock d"
  "dm_box (snd (with_runs f d)) = dm_box d" "dm_net (snd (with_runs f d)) = dm_net d"
  "dm_diag (snd (with_runs f d)) = dm_diag d" "dm_asked_system (snd (with_runs f d)) = dm_asked_system d"
  "dm_ids (snd (with_runs f d)) = dm_ids d"
  by (simp_all add: with_runs_def split: prod.split)

lemma with_restic_frame [simp]:
  "world (dm_box (snd (with_restic f d))) = snd (f (world (dm_box d)))"
  "fst (with_restic f d) = fst (f (world (dm_box d)))"
  "dm_plan (snd (with_restic f d)) = dm_plan d" "dm_clock (snd (with_restic f d)) = dm_clock d"
  "dm_runs (snd (with_restic f d)) = dm_runs d" "dm_net (snd (with_restic f d)) = dm_net d"
  "dm_diag (snd (with_restic f d)) = dm_diag d" "dm_asked_system (snd (with_restic f d)) = dm_asked_system d"
  "dm_ids (snd (with_restic f d)) = dm_ids d"
  by (simp_all add: with_restic_def split: prod.split)

lemma with_net_frame [simp]:
  "dm_plan (snd (with_net tag f d)) = dm_plan d" "dm_clock (snd (with_net tag f d)) = dm_clock d"
  "dm_runs (snd (with_net tag f d)) = dm_runs d" "dm_box (snd (with_net tag f d)) = dm_box d"
  "dm_diag (snd (with_net tag f d)) = dm_diag d" "dm_asked_system (snd (with_net tag f d)) = dm_asked_system d"
  "dm_ids (snd (with_net tag f d)) = dm_ids d"
  "fst (with_net tag f d) = fst (f \<lparr>replies = replies (dm_net d), made = []\<rparr>)"
  by (simp_all add: with_net_def split: prod.split)

text \<open>What a step asked the server, in order.\<close>

definition asked :: "daemon \<Rightarrow> traffic request_made list" where
  "asked d = made (dm_net d)"

definition tagged :: "('b \<Rightarrow> traffic) \<Rightarrow> 'b request_made list \<Rightarrow> traffic request_made list" where
  "tagged tag qs = map (\<lambda>q. \<lparr>req_method = req_method q, req_path = req_path q, req_body = tag (req_body q)\<rparr>) qs"

lemma tagged_simps [simp]:
  "tagged tag [] = []"
  "tagged tag (q # qs) = \<lparr>req_method = req_method q, req_path = req_path q, req_body = tag (req_body q)\<rparr> # tagged tag qs"
  by (simp_all add: tagged_def)

lemma with_net_asked:
  "asked (snd (with_net tag f d)) =
    asked d @ tagged tag (made (snd (f \<lparr>replies = replies (dm_net d), made = []\<rparr>)))"
  by (simp add: asked_def with_net_def tagged_def split: prod.split)

lemma note_failure_frame [simp]:
  "dm_plan (note_failure v k step what d) = dm_plan d" "dm_runs (note_failure v k step what d) = dm_runs d"
  "dm_box (note_failure v k step what d) = dm_box d" "dm_net (note_failure v k step what d) = dm_net d"
  "dm_asked_system (note_failure v k step what d) = dm_asked_system d"
  by (simp_all add: note_failure_def case_prod_unfold)

lemma metered_frame [simp]:
  "dm_plan (snd (metered v d)) = dm_plan d" "dm_runs (snd (metered v d)) = dm_runs d"
  "dm_box (snd (metered v d)) = dm_box d" "dm_net (snd (metered v d)) = dm_net d"
  "dm_clock (snd (metered v d)) = dm_clock d"
  by (simp_all add: metered_def split: option.split)

lemma ensure_restic_frame [simp]:
  "fst (ensure_restic v d) = None \<longleftrightarrow> en_pinned v = None"
  "dm_plan (snd (ensure_restic v d)) = dm_plan d" "dm_runs (snd (ensure_restic v d)) = dm_runs d"
  "dm_box (snd (ensure_restic v d)) = dm_box d" "dm_net (snd (ensure_restic v d)) = dm_net d"
  by (simp_all add: ensure_restic_def split: option.split)

lemma reconcile_frame [simp]:
  "dm_runs (snd (reconcile p s d)) = dm_runs d" "dm_box (snd (reconcile p s d)) = dm_box d"
  "dm_net (snd (reconcile p s d)) = dm_net d"
  by (simp_all add: reconcile_def Let_def case_prod_unfold)

lemma reconcile_plan [simp]:
  "repository (fst (reconcile p s d)) = cs_url s" "node_id (fst (reconcile p s d)) = node_id p"
  "targets (fst (reconcile p s d)) = targets p"
  by (simp_all add: reconcile_def Let_def case_prod_unfold)

lemma open_repository_frame [simp]:
  "dm_plan (snd (open_repository p s d)) = dm_plan d" "dm_runs (snd (open_repository p s d)) = dm_runs d"
  "dm_net (snd (open_repository p s d)) = dm_net d"
  by (simp_all add: open_repository_def case_prod_unfold split: option.split)

lemma measure_step_frame [simp]:
  "dm_runs (measure_step v p s d) = dm_runs d" "dm_net (measure_step v p s d) = dm_net d"
  by (simp_all add: measure_step_def case_prod_unfold split: sum.split)

lemma note_check_frame [simp]:
  "dm_runs (note_check url now ok part skipped what d) = dm_runs d"
  "dm_net (note_check url now ok part skipped what d) = dm_net d"
  "dm_box (note_check url now ok part skipped what d) = dm_box d"
  "dm_diag (note_check url now ok part skipped what d) = dm_diag d"
  by (simp_all add: note_check_def)

lemma check_once_or_twice_frame [simp]:
  "dm_runs (snd (check_once_or_twice repo part d)) = dm_runs d"
  "dm_net (snd (check_once_or_twice repo part d)) = dm_net d"
  "dm_plan (snd (check_once_or_twice repo part d)) = dm_plan d"
  "dm_diag (snd (check_once_or_twice repo part d)) = dm_diag d"
  by (simp_all add: check_once_or_twice_def Let_def case_prod_unfold split: sum.split)

lemma check_repository_frame [simp]:
  "dm_runs (check_repository v p s d) = dm_runs d" "dm_net (check_repository v p s d) = dm_net d"
  by (simp_all add: check_repository_def Let_def case_prod_unfold split: sum.split checked.split bool.split)

lemma release_old_bucket_frame [simp]:
  "dm_runs (release_old_bucket v url d) = dm_runs d" "dm_box (release_old_bucket v url d) = dm_box d"
  by (simp_all add: release_old_bucket_def)

lemma self_update_frame [simp]:
  "dm_runs (snd (self_update v d)) = dm_runs d" "dm_net (snd (self_update v d)) = dm_net d"
  "dm_box (snd (self_update v d)) = dm_box d" "dm_plan (snd (self_update v d)) = dm_plan d"
  by (simp_all add: self_update_def Let_def case_prod_unfold split: option.split sum.split)

text \<open>A clock that has something to say, and never an instant of the first second of 1970.\<close>

definition clock_ok :: "daemon \<Rightarrow> bool" where
  "clock_ok d \<longleftrightarrow> dm_clock d \<noteq> [] \<and> list_all (\<lambda>t. second \<le> t) (dm_clock d)"

lemma clock_ok_read [simp]: "clock_ok d \<Longrightarrow> clock_ok (snd (read_clock d))"
  by (auto simp: clock_ok_def read_clock_def split: list.split)

lemma clock_ok_now: "clock_ok d \<Longrightarrow> read_clock d = (now, d') \<Longrightarrow> second \<le> now \<and> clock_ok d'"
  by (auto simp: clock_ok_def read_clock_def split: list.splits)

lemma clock_ok_frame [simp]:
  "clock_ok (snd (new_id d)) = clock_ok d" "clock_ok (snd (with_plan f d)) = clock_ok d"
  "clock_ok (snd (with_runs g d)) = clock_ok d" "clock_ok (snd (with_restic h d)) = clock_ok d"
  "clock_ok (snd (with_net tag j d)) = clock_ok d" "clock_ok (snd (open_repository p s d)) = clock_ok d"
  by (simp_all add: clock_ok_def open_repository_def case_prod_unfold split: option.split)

lemma clock_ok_steps [simp]:
  assumes "clock_ok d"
  shows "clock_ok (snd (ensure_restic v d))" "clock_ok (snd (reconcile p s d))" "clock_ok (snd (tell_fleet v e d))"
proof -
  have "clock_ok (d'\<lparr>dm_diag := x\<rparr>) = clock_ok d'" for d' x by (simp add: clock_ok_def)
  then show "clock_ok (snd (ensure_restic v d))"
    using assms by (simp add: ensure_restic_def note_failure_def case_prod_unfold split: option.split)
  show "clock_ok (snd (reconcile p s d))" "clock_ok (snd (tell_fleet v e d))"
    using assms by (simp_all add: reconcile_def tell_fleet_def Let_def case_prod_unfold)
qed

section \<open>Which commands restic is given\<close>

text \<open>The commands between two states of restic all begin with a word of the set.\<close>

definition adds :: "string set \<Rightarrow> world \<Rightarrow> world \<Rightarrow> bool" where
  "adds H w w' \<longleftrightarrow> (\<exists>xs. ran w' = ran w @ xs \<and> hd ` set xs \<subseteq> H)"

lemma adds_refl [simp]: "adds H w w"
  unfolding adds_def by (intro exI [of _ "[]"]) simp

lemma adds_trans: "adds H w1 w2 \<Longrightarrow> adds H w2 w3 \<Longrightarrow> adds H w1 w3"
  unfolding adds_def by (elim exE conjE, rule exI [of _ "xs @ ys" for xs ys]) auto

lemma adds_mono: "adds H w w' \<Longrightarrow> H \<subseteq> K \<Longrightarrow> adds K w w'"
  unfolding adds_def by blast

lemma adds_same [simp]: "ran w' = ran w \<Longrightarrow> adds H w w'"
  by (simp add: adds_def)

lemma adds_invoke: "hd args \<in> H \<Longrightarrow> adds H w (snd (invoke args w))"
  unfolding adds_def invoke_def by (intro exI [of _ "[args]"]) simp

lemma adds_run_restic: "hd args \<in> H \<Longrightarrow> adds H w (snd (run_restic repo args w))"
  using adds_invoke [of args H w]
  by (auto simp: run_restic_def split: option.split prod.split proc.split ended.split)

lemma hd_backup_args [simp]: "hd (backup_args goos opts) = ''backup''"
  by (simp add: backup_args_def)

lemma adds_backup_once: "''backup'' \<in> H \<Longrightarrow> adds H w (snd (backup_once parse goos bin repo opts w))"
  using adds_invoke [of "backup_args goos opts" H w]
  by (auto simp: backup_once_def Let_def split: option.split prod.split proc.split ended.split)

lemma adds_run_backup:
  assumes "''backup'' \<in> H"
  shows "adds H w (snd (run_backup parse goos bin repo opts w))"
proof -
  obtain s seen e w1 where 1: "backup_once parse goos bin repo opts w = (((s, seen), e), w1)"
    by (metis prod.collapse)
  obtain s2 seen2 e2 w2 where
    2: "backup_once parse goos bin repo (opts\<lparr>o_use_fs_snapshot := False\<rparr>) w1 = (((s2, seen2), e2), w2)"
    by (metis prod.collapse)
  have a1: "adds H w w1" using adds_backup_once [OF assms, of w parse goos bin repo opts] 1 by simp
  have "adds H w1 w2"
    using adds_backup_once [OF assms, of w1 parse goos bin repo "opts\<lparr>o_use_fs_snapshot := False\<rparr>"] 2 by simp
  then have "adds H w w2" using a1 adds_trans by blast
  then show ?thesis using a1 1 2 by (cases e) (auto simp: run_backup_def)
qed

lemma snd_case_pair: "snd (case x of (a, b) \<Rightarrow> (f a b, b)) = snd x"
  by (cases x) simp

lemma adds_unlock: "''unlock'' \<in> H \<Longrightarrow> adds H w (snd (unlock repo w))"
  using adds_run_restic [of "[''unlock'']" H w repo] by (simp add: unlock_def case_prod_unfold)

lemma adds_check: "''check'' \<in> H \<Longrightarrow> adds H w (snd (check_repo repo part w))"
  using adds_run_restic [of "''check'' # x" H w repo for x] by (simp add: check_repo_def case_prod_unfold)

lemma adds_stats: "''stats'' \<in> H \<Longrightarrow> adds H w (snd (repo_stats parse repo mode snap w))"
  using adds_run_restic [of "''stats'' # x" H w repo for x]
  by (simp add: repo_stats_def case_prod_unfold split: option.split)

lemma adds_measure: "''stats'' \<in> H \<Longrightarrow> adds H w (snd (measure_repo parse repo w))"
  using adds_stats [of H w parse repo "''raw-data''" "[]"]
    adds_stats [of H "snd (repo_stats parse repo ''raw-data'' [] w)" parse repo "''raw-data''" "''latest''"]
  by (auto simp: measure_repo_def case_prod_unfold split: sum.split intro: adds_trans)

lemma adds_restore: "''restore'' \<in> H \<Longrightarrow> adds H w (snd (restore repo snap target incs w))"
  using adds_run_restic [of "restore_args snap target incs" H w repo]
  by (simp add: restore_def restore_args_def case_prod_unfold)

lemma adds_ensure:
  assumes "''cat'' \<in> H" "''init'' \<in> H"
  shows "adds H w (snd (ensure_repo repo may w))"
proof -
  have ex: "adds H u (snd (exists_repo repo u))" for u
    using adds_run_restic [of "[''cat'', ''config'']" H u repo] assms(1)
    by (auto simp: exists_repo_def case_prod_unfold split: option.split)
  have ini: "adds H u (snd (init_repo repo u))" for u
    using adds_run_restic [of "[''init'']" H u repo] assms(2) by (simp add: init_repo_def case_prod_unfold)
  let ?w1 = "snd (exists_repo repo w)" and ?w2 = "snd (init_repo repo (snd (exists_repo repo w)))"
  have "adds H w ?w2" "adds H w (snd (exists_repo repo ?w2))"
    using ex [of w] ini [of ?w1] ex [of ?w2] adds_trans by blast+
  then show ?thesis using ex [of w] by (auto simp: ensure_repo_def case_prod_unfold split: sum.split)
qed

lemma next_disk_world [simp]: "world (snd (next_disk m)) = world m"
  by (simp add: next_disk_def)

lemma clear_scratch_world [simp]: "world (snd (clear_scratch cfg m)) = world m"
  by (simp add: clear_scratch_def Let_def case_prod_unfold remove_all_def)

lemma write_nonce_world [simp]: "world (snd (write_nonce cfg now m)) = world m"
  by (simp add: write_nonce_def Let_def case_prod_unfold split: list.split)

lemma adds_verify_close:
  assumes "''restore'' \<in> H"
  shows "adds H (world m) (world (snd (verify_and_close cfg repo body file r m)))"
proof -
  have v: "adds H (world m) (world (snd (verify cfg repo body file m)))"
    using adds_restore [OF assms, of "world m" repo "''latest''"]
    by (simp add: verify_def restore_files_def Let_def case_prod_unfold split: option.split sum.split)
  then show ?thesis by (simp add: verify_and_close_def Let_def case_prod_unfold split: option.split)
qed

lemma adds_settle:
  assumes "''restore'' \<in> H" "''unlock'' \<in> H"
  shows "adds H (world m) (world (snd (settle cfg repo body file s e r m)))"
  using adds_verify_close [OF assms(1)] adds_unlock [OF assms(2)]
  by (simp add: settle_def Let_def case_prod_unfold split: option.split sum.split)

lemma adds_execute:
  assumes "''backup'' \<in> H" "''restore'' \<in> H" "''unlock'' \<in> H"
  shows "adds H (world m) (world (snd (execute cfg cancel now req r m)))"
proof -
  obtain c m1 where c: "clear_scratch cfg m = (c, m1)" by fastforce
  obtain x m2 where n: "write_nonce cfg now m1 = (x, m2)" by fastforce
  obtain s seen e w where b: "job_backup cfg req (world m2) = (((s, seen), e), w)" by (metis prod.collapse)
  have w: "world m1 = world m" "world m2 = world m"
    using clear_scratch_world [of cfg m] write_nonce_world [of cfg now m1] c n by simp_all
  have a: "adds H (world m) w"
    using adds_run_backup [OF assms(1)] b w unfolding job_backup_def by (metis snd_conv)
  let ?m3 = "m2\<lparr>world := w\<rparr>"
  have k: "adds H w (world (snd (record_cancelled repo reason r ?m3)))" for repo reason
    using adds_unlock [OF assms(3), of w repo] by (simp add: record_cancelled_def case_prod_unfold split: sum.split)
  have st: "adds H w (world (snd (settle cfg repo body pth s e r ?m3)))" for repo body pth
    using adds_settle [OF assms(2,3), of ?m3] by simp
  show ?thesis
  proof (cases c)
    case (Inl y)
    then show ?thesis using c w by (simp add: execute_def)
  next
    case (Inr u)
    show ?thesis
    proof (cases x)
      case (Inl y)
      then show ?thesis using c Inr n w by (simp add: execute_def)
    next
      case ok: (Inr y)
      obtain body pth where y: "y = (body, pth)" by fastforce
      have "execute cfg cancel now req r m =
          (case cancelled_by cancel (processes_of m ?m3) of
             Some reason \<Rightarrow> record_cancelled (req_repository req) reason r ?m3
           | None \<Rightarrow> settle cfg (req_repository req) body pth s e r ?m3)"
        using c Inr n ok y b by (simp add: execute_def job_backup_def Let_def)
      then show ?thesis using a k st adds_trans by (auto split: option.split)
    qed
  qed
qed

lemma adds_run_job:
  assumes "''backup'' \<in> H" "''restore'' \<in> H" "''unlock'' \<in> H"
  shows "adds H (world m) (world (snd (snd (run_job cfg st running cancel t0 t1 t2 req s m))))"
  using adds_execute [OF assms, of m]
  by (simp add: run_job_def Let_def case_prod_unfold split: sum.split)

lemma adds_measure_step:
  "''stats'' \<in> H \<Longrightarrow> adds H (world (dm_box d)) (world (dm_box (measure_step v p s d)))"
  using adds_measure [of H "world (dm_box d)" "en_parse v" "plan_repository p s"]
  by (simp add: measure_step_def case_prod_unfold split: sum.split)

lemma adds_check_once_or_twice:
  assumes "''check'' \<in> H" "''unlock'' \<in> H"
  shows "adds H (world (dm_box d)) (world (dm_box (snd (check_once_or_twice repo part d))))"
proof -
  let ?c = "\<lambda>w. snd (check_repo repo part w)" and ?u = "\<lambda>w. snd (unlock repo w)"
  note c = adds_check [OF assms(1)] and u = adds_unlock [OF assms(2)]
  have "adds H w (?u (?c w))" "adds H w (?c (?u (?c w)))" for w
    using c u adds_trans by blast+
  then show ?thesis using c
    by (auto simp: check_once_or_twice_def Let_def case_prod_unfold split: sum.split)
qed

lemma adds_check_repository:
  assumes "''check'' \<in> H" "''unlock'' \<in> H"
  shows "adds H (world (dm_box d)) (world (dm_box (check_repository v p s d)))"
proof -
  note a = adds_check_once_or_twice [OF assms]
  obtain now d0 where 0: "read_clock d = (now, d0)" by fastforce
  obtain x d1 where 1: "with_plan (biz_integrity plandb (repository p)) d0 = (x, d1)" by fastforce
  obtain b d2 where 2: "metered v d1 = (b, d2)" by fastforce
  obtain m d3 where 3: "with_plan (biz_measurement plandb (repository p) now) d2 = (m, d3)" by fastforce
  let ?part = "check_subset (case m of Inl _ \<Rightarrow> 0 | Inr x \<Rightarrow> size_now x)"
  obtain c d4 where 4: "check_once_or_twice (plan_repository p s) ?part d3 = (c, d4)" by fastforce
  have f: "dm_box d0 = dm_box d" "dm_box d1 = dm_box d0" "dm_box d2 = dm_box d1" "dm_box d3 = dm_box d2"
    using read_clock_frame(3) [of d] with_plan_frame(5) [of "biz_integrity plandb (repository p)" d0]
      metered_frame(3) [of v d1] with_plan_frame(5) [of "biz_measurement plandb (repository p) now" d2] 0 1 2 3
    by simp_all
  have "adds H (world (dm_box d3)) (world (dm_box d4))" using a [of d3 "plan_repository p s" ?part] 4 by simp
  then show ?thesis using 0 1 2 3 4 f
    by (simp add: check_repository_def Let_def split: sum.split checked.split bool.split)
qed

section \<open>What the server hears of a backup\<close>

definition creds_request :: "traffic request_made" where
  "creds_request =
     \<lparr>req_method = ''GET'', req_path = ''/machines/me/credentials'', req_body = AboutCreds NoClaim\<rparr>"

definition run_request :: "event \<Rightarrow> traffic request_made" where
  "run_request e = \<lparr>req_method = ''POST'', req_path = ''/runs'', req_body = AboutRun e\<rparr>"

definition let_go_request :: "string \<Rightarrow> traffic request_made" where
  "let_go_request url =
     \<lparr>req_method = ''POST'', req_path = ''/machines/me/old-bucket'', req_body = AboutMachine (UrlBody url)\<rparr>"

text \<open>The answer a backup gets when it asks for its credentials.\<close>

definition creds_of :: "env \<Rightarrow> daemon \<Rightarrow> creds_set res" where
  "creds_of v d = fst (for_run (en_parse v) (en_enrolled v) \<lparr>replies = replies (dm_net d), made = []\<rparr>)"

lemma asked_frame [simp]:
  "asked (snd (read_clock d)) = asked d" "asked (snd (new_id d)) = asked d"
  "asked (snd (with_plan f d)) = asked d" "asked (snd (with_runs g d)) = asked d"
  "asked (snd (with_restic h d)) = asked d" "asked (note_failure v k step what d) = asked d"
  "asked (snd (metered v d)) = asked d" "asked (snd (ensure_restic v d)) = asked d"
  "asked (snd (reconcile p s d)) = asked d" "asked (snd (open_repository p s d)) = asked d"
  "asked (measure_step v p s d) = asked d" "asked (check_repository v p s d) = asked d"
  "asked (snd (self_update v d)) = asked d"
  by (simp_all add: asked_def)

lemma report_event_log:
  "made (snd (report_event parse e n)) = made n @ [\<lparr>req_method = ''POST'', req_path = ''/runs'', req_body = e\<rparr>]"
  by (simp add: report_event_def api_do_def Let_def case_prod_unfold split: sum.split)

lemma tell_fleet_frame [simp]:
  "dm_runs (snd (tell_fleet v e d)) = dm_runs d" "dm_box (snd (tell_fleet v e d)) = dm_box d"
  "dm_plan (snd (tell_fleet v e d)) = dm_plan d"
  by (simp_all add: tell_fleet_def)

lemma tell_fleet_asked:
  "asked (snd (tell_fleet v e d)) = asked d @ (if en_enrolled v then [run_request e] else [])"
  by (simp add: tell_fleet_def with_net_asked report_event_log run_request_def)

lemma release_asked:
  "asked (release_old_bucket v url d) =
    asked d @ (if en_enrolled v \<and> url \<noteq> [] then [let_go_request url] else [])"
  by (simp add: release_old_bucket_def with_net_asked biz_release_old_bucket_def
      source_release_old_bucket_def api_do_def case_prod_unfold let_go_request_def
      split: sum.split option.split)

lemma for_run_log:
  "made (snd (for_run parse av n)) =
    made n @ (if av then [\<lparr>req_method = ''GET'', req_path = ''/machines/me/credentials'', req_body = NoClaim\<rparr>] else [])"
  by (simp add: for_run_def fetch_creds_def api_do_def case_prod_unfold split: sum.split option.split)

lemma tell_finished_asked:
  "asked (tell_finished v r d) =
    asked d @ (if en_enrolled v then [run_request (event_for (en_agent v) (en_os v) r)] else [])"
  using tell_fleet_asked [of v "event_for (en_agent v) (en_os v) r" d]
  by (simp add: tell_finished_def case_prod_unfold split: option.split)

lemma after_run_asked:
  assumes "en_enrolled v" and "repository p \<noteq> []"
  shows "asked (snd (after_run v p s r d)) = asked d @ [run_request (event_for (en_agent v) (en_os v) r)] @
    (if run_snapshot r \<noteq> [] \<and> verified r \<and> cs_state s = StateCuttingOver
     then [let_go_request (repository p)] else [])"
  using assms by (simp add: after_run_def Let_def tell_finished_asked release_asked)

lemma run_job_done:
  assumes "run_job cfg st running cancel t0 t1 t2 req s m = ((ro, None), s', m')"
  obtains r where "ro = Some r" "run_node r = req_node req" "run_uuid r = req_uuid req"
    "run_repository r = repo_url (req_repository req)" "run_seeding r = req_seeding req"
proof -
  obtain rc s1 where c: "rs_create st (opened_run req t0) s = (rc, s1)" by fastforce
  show thesis
  proof (cases rc)
    case (Inl e)
    then show ?thesis using assms c by (simp add: run_job_def split: if_splits)
  next
    case (Inr i)
    obtain r0 m1 where x: "execute cfg cancel t1 req ((opened_run req t0)\<lparr>run_id := i\<rparr>) m = (r0, m1)" by fastforce
    obtain rf s2 where f: "rs_finish st (r0\<lparr>finished_at := t2\<rparr>) s1 = (rf, s2)" by fastforce
    have "ro = Some (r0\<lparr>finished_at := t2\<rparr>)"
      using assms c Inr x f by (auto simp: run_job_def Let_def split: if_splits sum.splits)
    moreover have "identity r0 = identity ((opened_run req t0)\<lparr>run_id := i\<rparr>)" by (rule execute_identity [OF x])
    ultimately show ?thesis using that by (simp add: identity_def opened_run_def)
  qed
qed

text \<open>Two events of one run.\<close>

definition same_run :: "event \<Rightarrow> event \<Rightarrow> bool" where
  "same_run b f \<longleftrightarrow> ev_node b = ev_node f \<and> ev_uuid b = ev_uuid f \<and>
     ev_repository b = ev_repository f \<and> ev_seeding b = ev_seeding f"

text \<open>The steps of a run: the start is announced, the job is run, and what follows a recorded one.\<close>

lemma carry_out_steps:
  assumes "carry_out v p s req d = (a, d')"
  obtains now t0 t1 t2 d5 ro e runs box where
    "run_job (en_settings v) rundb (en_busy v) (en_cancel v) t0 t1 t2 req (dm_runs d) (dm_box d) = ((ro, e), runs, box)"
    "asked d5 = asked d @ (if en_enrolled v then [run_request (start_event (en_agent v) (en_os v) (node_id p)
      (repository p) (req_uuid req) (req_seeding req) now)] else [])"
    "clock_ok d \<longrightarrow> second \<le> t2"
    "case e of Some x \<Rightarrow> d' = d5\<lparr>dm_runs := runs, dm_box := box\<rparr> \<and>
        a = \<lparr>at_request = req, at_started = \<not> err_is ErrAlreadyRunning x, at_error = Some x, at_updated = False\<rparr>
      | None \<Rightarrow> \<exists>replaced. after_run v p s (the ro) (d5\<lparr>dm_runs := runs, dm_box := box\<rparr>) = (replaced, d') \<and>
        a = \<lparr>at_request = req, at_started = True, at_error = None, at_updated = replaced\<rparr>"
proof -
  obtain now d1 where 1: "read_clock d = (now, d1)" by fastforce
  let ?b = "start_event (en_agent v) (en_os v) (node_id p) (repository p) (req_uuid req) (req_seeding req) now"
  obtain q d2 where 2: "tell_fleet v ?b d1 = (q, d2)" by fastforce
  obtain t0 d3 where 3: "read_clock d2 = (t0, d3)" by fastforce
  obtain t1 d4 where 4: "read_clock d3 = (t1, d4)" by fastforce
  obtain t2 d5 where 5: "read_clock d4 = (t2, d5)" by fastforce
  obtain ro e runs box where
    j: "run_job (en_settings v) rundb (en_busy v) (en_cancel v) t0 t1 t2 req (dm_runs d5) (dm_box d5) = ((ro, e), runs, box)"
    by (metis prod.collapse)
  obtain r d7 where 7: "after_run v p s (the ro) (d5\<lparr>dm_runs := runs, dm_box := box\<rparr>) = (r, d7)" by fastforce
  have f: "dm_runs d5 = dm_runs d" "dm_box d5 = dm_box d" "asked d5 = asked d2" "asked d1 = asked d"
    using read_clock_frame(2,3) [of d] tell_fleet_frame(1,2) [of v ?b d1] read_clock_frame(2,3) [of d2]
      read_clock_frame(2,3) [of d3] read_clock_frame(2,3) [of d4] asked_frame(1) [of d] asked_frame(1) [of d2]
      asked_frame(1) [of d3] asked_frame(1) [of d4] 1 2 3 4 5 by simp_all
  have c: "clock_ok d \<longrightarrow> second \<le> t2"
    using clock_ok_read [of d] clock_ok_steps(3) [of d1 v ?b] clock_ok_read [of d2] clock_ok_read [of d3]
      clock_ok_now [of d4] 1 2 3 4 5 by simp
  have "carry_out v p s req d = (case e of
       Some x \<Rightarrow> (\<lparr>at_request = req, at_started = \<not> err_is ErrAlreadyRunning x, at_error = Some x,
           at_updated = False\<rparr>, d5\<lparr>dm_runs := runs, dm_box := box\<rparr>)
     | None \<Rightarrow> (\<lparr>at_request = req, at_started = True, at_error = None, at_updated = r\<rparr>, d7))"
    using 7 by (cases e) (simp_all add: carry_out_def 1 2 3 4 5 j)
  then show ?thesis
    using that [of t0 t1 t2 ro e runs box d5 now] assms 7 j f c tell_fleet_asked [of v ?b d1] 2
    by (auto split: option.splits)
qed

lemma carry_out_cases:
  assumes "carry_out v p s req d = (a, d')" and "en_enrolled v" and "repository p \<noteq> []"
    and "req_node req = node_id p" and "repo_url (req_repository req) = repository p"
  shows "\<exists>b. ev_phase b = PhaseStarted \<and>
    ((at_error a \<noteq> None \<and> asked d' = asked d @ [run_request b]) \<or>
     (\<exists>f. at_error a = None \<and> at_started a \<and> ev_phase f = PhaseFinished \<and> same_run b f \<and>
        ev_repository f = repository p \<and>
        asked d' = asked d @ [run_request b, run_request f] @
          (if ev_snapshot f \<noteq> [] \<and> ev_verified f \<and> cs_state s = StateCuttingOver
           then [let_go_request (ev_repository f)] else [])))"
  using assms(1)
proof (cases rule: carry_out_steps)
  case (1 now t0 t1 t2 d5 ro e runs box)
  define b where "b = start_event (en_agent v) (en_os v) (node_id p) (repository p) (req_uuid req) (req_seeding req) now"
  let ?d6 = "d5\<lparr>dm_runs := runs, dm_box := box\<rparr>"
  have a6: "asked ?d6 = asked d @ [run_request b]" using 1(2) assms(2) by (simp add: asked_def b_def)
  have b: "ev_phase b = PhaseStarted" by (simp add: b_def start_event_def)
  show ?thesis
  proof (cases e)
    case (Some x)
    then show ?thesis using a6 b 1(4) by auto
  next
    case None
    obtain r where r: "ro = Some r" "run_node r = req_node req" "run_uuid r = req_uuid req"
      "run_repository r = repo_url (req_repository req)" "run_seeding r = req_seeding req"
      using run_job_done 1(1) unfolding None by metis
    obtain replaced where 7: "after_run v p s r ?d6 = (replaced, d')" and a: "at_error a = None" "at_started a"
      using 1(4) None r(1) by auto
    define f where "f = event_for (en_agent v) (en_os v) r"
    have "asked d' = asked ?d6 @ [run_request f] @ (if run_snapshot r \<noteq> [] \<and> verified r \<and> cs_state s = StateCuttingOver
        then [let_go_request (repository p)] else [])"
      using after_run_asked [OF assms(2,3), of s r ?d6] 7 by (simp add: f_def)
    moreover have "ev_phase f = PhaseFinished" "ev_snapshot f = run_snapshot r" "ev_verified f = verified r"
      "ev_repository f = repository p" "same_run b f"
      using r assms(4,5) by (simp_all add: f_def event_for_def b_def start_event_def same_run_def)
    ultimately have "at_error a = None \<and> at_started a \<and> ev_phase f = PhaseFinished \<and> same_run b f \<and>
        ev_repository f = repository p \<and>
        asked d' = asked d @ [run_request b, run_request f] @
          (if ev_snapshot f \<noteq> [] \<and> ev_verified f \<and> cs_state s = StateCuttingOver
           then [let_go_request (ev_repository f)] else [])"
      using a a6 by simp
    then show ?thesis using b by blast
  qed
qed

lemma adds_carry_out:
  assumes "carry_out v p s req d = (a, d')" and "{''backup'', ''restore'', ''unlock'', ''stats'', ''check''} \<subseteq> H"
  shows "adds H (world (dm_box d)) (world (dm_box d'))"
  using assms(1)
proof (cases rule: carry_out_steps)
  case (1 now t0 t1 t2 d5 ro e runs box)
  let ?d6 = "d5\<lparr>dm_runs := runs, dm_box := box\<rparr>"
  have b: "adds H (world (dm_box d)) (world box)"
    using adds_run_job [of H "dm_box d" "en_settings v" rundb "en_busy v" "en_cancel v" t0 t1 t2 req "dm_runs d"]
      assms(2) 1(1) by simp
  have tf: "dm_box (tell_finished v r d) = dm_box d" for r d
    by (simp add: tell_finished_def case_prod_unfold split: option.split)
  have "adds H (world (dm_box d)) (world (dm_box (snd (after_run v p s r d))))" for r d
    using adds_measure_step [of H "tell_finished v r d" v p s]
      adds_check_repository [of H "measure_step v p s (tell_finished v r d)" v p s] assms(2)
    by (auto simp: after_run_def Let_def tf intro: adds_trans)
  from this [of ?d6 "the ro"] b
  have "adds H (world (dm_box d)) (world (dm_box (snd (after_run v p s (the ro) ?d6))))"
    by (auto intro: adds_trans)
  then show ?thesis using 1(4) b by (auto split: option.splits)
qed

text \<open>How far a backup gets: no further than the credentials, no further than the repository, or to the run.\<close>

lemma run_one_backup_cases:
  assumes "run_one_backup v p0 d = (a, d')"
  obtains (unready) "\<not> at_started a" "at_error a \<noteq> None" "asked d' = asked d"
      "dm_runs d' = dm_runs d" "dm_box d' = dm_box d" "at_request a = bare_request p0"
      "runnable p0 \<noteq> None \<or> en_pinned v \<noteq> None" "clock_ok d \<longrightarrow> clock_ok d'"
  | (no_creds) e where "creds_of v d = Inl e" "\<not> at_started a" "at_error a = Some e"
      "asked d' = asked d @ (if en_enrolled v then [creds_request] else [])"
      "dm_runs d' = dm_runs d" "dm_box d' = dm_box d" "at_request a = bare_request p0"
      "runnable p0 = None" "en_pinned v = None" "clock_ok d \<longrightarrow> clock_ok d'"
  | (begun) s p d2 req k where "creds_of v d = Inr s" "complete (cs_credentials s)" "repository p = cs_url s" "cs_url s \<noteq> []"
      "node_id p = node_id p0" "runnable p0 = None" "en_pinned v = None"
      "req_node req = node_id p" "repo_url (req_repository req) = repository p"
      "asked d2 = asked d @ (if en_enrolled v then [creds_request] else [])"
      "dm_runs d2 = (dm_runs d)\<lparr>run_faults := k\<rparr>" "run_faults (dm_runs d) = [] \<longrightarrow> k = []"
      "adds (if cs_expect_empty s then {''cat'', ''init''} else {}) (world (dm_box d)) (world (dm_box d2))"
      "clock_ok d \<longrightarrow> clock_ok d2"
      "(\<exists>e. a = not_begun req e \<and> d' = d2) \<or> carry_out v p s req d2 = (a, d')"
proof (cases "runnable p0")
  case (Some e)
  then have "a = not_begun (bare_request p0) e" "d' = d" using assms by (simp_all add: run_one_backup_def)
  then show ?thesis using unready Some by (simp add: not_begun_def)
next
  case r: None
  obtain x d1 where 1: "ensure_restic v d = (x, d1)" by fastforce
  have f1: "dm_runs d1 = dm_runs d" "dm_box d1 = dm_box d" "dm_net d1 = dm_net d" "asked d1 = asked d"
    "x = None \<longleftrightarrow> en_pinned v = None" "clock_ok d \<longrightarrow> clock_ok d1"
    using ensure_restic_frame [of v d] asked_frame [where d = d] clock_ok_steps(1) [of d v] 1
    by (auto simp: asked_def)
  show ?thesis
  proof (cases x)
    case (Some e)
    then have "a = not_begun (bare_request p0) e" "d' = d1" using assms r 1 by (simp_all add: run_one_backup_def)
    then show ?thesis using unready f1 Some by (simp add: not_begun_def)
  next
    case x: None
    obtain q d2 where 2: "with_net AboutCreds (for_run (en_parse v) (en_enrolled v)) d1 = (q, d2)" by fastforce
    have q: "q = creds_of v d" using with_net_frame(8) [of AboutCreds "for_run (en_parse v) (en_enrolled v)" d1] 2 f1
      by (simp add: creds_of_def)
    have f2: "dm_runs d2 = dm_runs d" "dm_box d2 = dm_box d"
      "asked d2 = asked d @ (if en_enrolled v then [creds_request] else [])" "clock_ok d \<longrightarrow> clock_ok d2"
      using with_net_frame [of AboutCreds "for_run (en_parse v) (en_enrolled v)" d1]
        with_net_asked [of AboutCreds "for_run (en_parse v) (en_enrolled v)" d1]
        clock_ok_frame(5) [of AboutCreds "for_run (en_parse v) (en_enrolled v)" d1] 2 f1
      by (simp_all add: for_run_log creds_request_def)
    show ?thesis
    proof (cases q)
      case (Inl e)
      then have "a = not_begun (bare_request p0) e" "d' = d2" using assms r 1 x 2 by (simp_all add: run_one_backup_def)
      then show ?thesis using no_creds [of e] f2 q Inl r f1 x by (simp add: not_begun_def)
    next
      case (Inr s)
      then have s: "complete (cs_credentials s)" "cs_url s \<noteq> []"
        using for_run_ok q unfolding creds_of_def by (metis prod.collapse)+
      obtain p d3 where 3: "reconcile p0 s d2 = (p, d3)" by fastforce
      obtain i d4 where 4: "new_id d3 = (i, d4)" by fastforce
      obtain sd d5 where 5: "with_runs (seeding rundb (repository p)) d4 = (sd, d5)" by fastforce
      define req where "req = \<lparr>req_node = node_id p, req_uuid = i,
          req_seeding = (case sd of Inl _ \<Rightarrow> False | Inr b \<Rightarrow> b),
          req_repository = plan_repository p s, req_options = backup_options_of v p\<rparr>"
      obtain oe d6 where 6: "open_repository p s d5 = (oe, d6)" by fastforce
      have p: "repository p = cs_url s" "node_id p = node_id p0" using reconcile_plan [of p0 s d2] 3 by simp_all
      have f3: "dm_runs d4 = dm_runs d" "dm_box d4 = dm_box d" "asked d4 = asked d2" "clock_ok d \<longrightarrow> clock_ok d4"
        using reconcile_frame [of p0 s d2] new_id_frame [of d3] clock_ok_steps(2) [of d2 p0 s]
          clock_ok_frame(1) [of d3] 3 4 f2 by (simp_all add: asked_def)
      have k: "\<exists>k. snd (seeding rundb (repository p) db) = db\<lparr>run_faults := k\<rparr> \<and> (run_faults db = [] \<longrightarrow> k = [])" for db
        by (auto simp: seeding_def rundb_defs rundb_seen_def case_prod_unfold split: sum.split)
      then obtain k where k: "snd (seeding rundb (repository p) (dm_runs d)) = (dm_runs d)\<lparr>run_faults := k\<rparr>"
        "run_faults (dm_runs d) = [] \<longrightarrow> k = []" by blast
      have f5: "dm_runs d5 = (dm_runs d)\<lparr>run_faults := k\<rparr>" "dm_box d5 = dm_box d" "asked d5 = asked d2"
        "clock_ok d \<longrightarrow> clock_ok d5"
        using with_runs_frame [of "seeding rundb (repository p)" d4]
          clock_ok_frame(3) [of "seeding rundb (repository p)" d4] 5 f3 k(1) by (simp_all add: asked_def)
      have f6: "dm_runs d6 = dm_runs d5" "asked d6 = asked d5" "clock_ok d \<longrightarrow> clock_ok d6"
        using open_repository_frame [of p s d5] clock_ok_frame(6) [of p s d5] 6 f5 by (simp_all add: asked_def)
      have w: "adds (if cs_expect_empty s then {''cat'', ''init''} else {}) (world (dm_box d)) (world (dm_box d6))"
        using 6 f5 adds_ensure [of "{''cat'', ''init''}" "world (dm_box d5)" "plan_repository p s" True]
        by (auto simp: open_repository_def split: if_splits prod.splits option.splits
            dest: arg_cong [of _ _ "\<lambda>x. world (dm_box (snd x))"])
      have t: "run_one_backup v p0 d = (case oe of Some e \<Rightarrow> (not_begun req e, d6) | None \<Rightarrow> carry_out v p s req d6)"
        unfolding req_def run_one_backup_def Let_def using r 1 x 2 Inr 3 4 5 6 by simp
      have "(\<exists>e. a = not_begun req e \<and> d' = d6) \<or> carry_out v p s req d6 = (a, d')"
        using t assms by (cases oe) auto
      then show ?thesis
        using begun [of s p req d6 k] q Inr s p r f1 x f2 f5 f6 k(2) w
        by (simp add: req_def plan_repository_def creds_repository_def)
    qed
  qed
qed

lemma backup_run_one:
  assumes "backup v p d = (a, d')"
  obtains d1 where "run_one_backup v p d = (a, d1)" "asked d' = asked d1" "dm_box d' = dm_box d1"
    "at_error a = None \<longrightarrow> d' = d1"
proof -
  obtain a1 d1 where 1: "run_one_backup v p d = (a1, d1)" by fastforce
  have "a = a1" "asked d' = asked d1" "dm_box d' = dm_box d1" "at_error a = None \<longrightarrow> d' = d1"
    using assms 1 by (auto simp: backup_def case_prod_unfold split: option.splits if_splits)
  then show ?thesis using that 1 by simp
qed

end
