(* ===== verification/DaemonSafety.thy ===== *)
theory DaemonSafety
  imports DaemonSteps
begin

text \<open>
  What holds of a whole backup of the daemon: what the server hears of it, what restic is given to run,
  the row it leaves, when one is started, and how a check of the repository ends.
\<close>

section \<open>Rows, logs and rounds\<close>

text \<open>On a history that works nothing is lost: the row is opened, and it is closed.\<close>

lemma create_works:
  assumes "run_inv s" and "run_faults s = []"
  obtains i s1 where "rs_create rundb r s = (Inr i, s1)" "run_faults s1 = []"
  using assms by (auto simp: rundb_defs run_inv_def)

lemma finish_works:
  assumes "run_inv s" and "run_faults s = []" and "rs_create rundb r s = (Inr i, s1)" and "run_id q = i"
    and "rs_finish rundb q s1 = (rf, s2)"
  shows "is_ok rf \<and> run_faults s2 = []"
  using assms by (auto simp: rundb_defs run_inv_def split: if_splits)

lemma failed_start_works:
  assumes "run_inv s" and "run_faults s = []" and "record_failed_start rundb req reason now s = (res, s')"
  shows "is_ok res"
proof -
  let ?r = "(opened_run req now)\<lparr>finished_at := now, run_message := reason\<rparr>"
  obtain i s1 where c: "rs_create rundb ?r s = (Inr i, s1)" by (rule create_works [OF assms(1,2)])
  obtain rf s2 where f: "rs_finish rundb (?r\<lparr>run_id := i\<rparr>) s1 = (rf, s2)" by fastforce
  have "is_ok rf" using finish_works [OF assms(1,2) c _ f] by simp
  then show ?thesis using assms(3) c f by (auto simp: record_failed_start_def Let_def split: sum.splits)
qed

lemma job_works:
  assumes "run_inv s" and "run_faults s = []"
    and "run_job cfg rundb running cancel t0 t1 t2 req s m = ((ro, e), s', m')"
  shows "e = (if running then Some ErrAlreadyRunning else None)"
proof (cases running)
  case False
  obtain i s1 where c: "rs_create rundb (opened_run req t0) s = (Inr i, s1)" by (rule create_works [OF assms(1,2)])
  obtain r m1 where x: "execute cfg cancel t1 req ((opened_run req t0)\<lparr>run_id := i\<rparr>) m = (r, m1)" by fastforce
  obtain rf s2 where f: "rs_finish rundb (r\<lparr>finished_at := t2\<rparr>) s1 = (rf, s2)" by fastforce
  have "run_id r = i" using execute_id [OF x] by simp
  then have "is_ok rf" using finish_works [OF assms(1,2) c _ f] by simp
  then show ?thesis using False assms(3) c x f by (auto simp: run_job_def Let_def split: sum.splits)
qed (use assms(3) in \<open>simp add: run_job_def\<close>)

text \<open>Telling the dashboard of the last row changes only when it was reported.\<close>

lemma mark_last:
  assumes "run_inv s" and "history s = h @ [x]" and "\<forall>y\<in>set h. run_id y < run_id x"
    and "rs_mark_reported rundb (run_id x) t s = (r, s')"
  shows "run_inv s' \<and> history s' = h @ [if is_ok r then x\<lparr>reported_at := Some (whole_second t)\<rparr> else x]"
proof (cases r)
  case (Inl e)
  then show ?thesis using rdb.mark_err [OF assms(1)] assms(2,4) by auto
next
  case (Inr u)
  note m = rdb.mark_ok [OF assms(1) assms(4) [unfolded Inr]]
  have "map (\<lambda>y. if run_id y = run_id x then y\<lparr>reported_at := Some (whole_second t)\<rparr> else y) h = h"
    using assms(3) by (intro map_idI) auto
  then show ?thesis using m assms(2) Inr by simp
qed

lemma after_run_runs: "dm_runs (snd (after_run v p s r d)) = dm_runs (tell_finished v r d)"
  by (simp add: after_run_def Let_def)

text \<open>Two rows that differ in nothing but the time they were reported.\<close>

definition same_row :: "run \<Rightarrow> run \<Rightarrow> bool" where
  "same_row x y \<longleftrightarrow> y\<lparr>reported_at := None\<rparr> = x\<lparr>reported_at := None\<rparr>"

lemma after_run_rows:
  assumes "run_inv (dm_runs d)" and "history (dm_runs d) = h @ [x]" and "\<forall>y\<in>set h. run_id y < run_id x"
    and "run_id r = run_id x"
  shows "run_inv (dm_runs (snd (after_run v p s r d))) \<and>
    (\<exists>y. history (dm_runs (snd (after_run v p s r d))) = h @ [y] \<and> same_row x y)"
proof -
  obtain q d1 where 1: "tell_fleet v (event_for (en_agent v) (en_os v) r) d = (q, d1)" by fastforce
  have f: "dm_runs d1 = dm_runs d" using tell_fleet_frame(1) [of v _ d] 1 by (metis snd_conv)
  show ?thesis
  proof (cases q)
    case (Some e)
    then show ?thesis using assms 1 f by (auto simp: after_run_runs tell_finished_def same_row_def)
  next
    case None
    obtain now d2 where 2: "read_clock d1 = (now, d2)" by fastforce
    obtain rm s2 where 3: "rs_mark_reported rundb (run_id x) now (dm_runs d) = (rm, s2)" by fastforce
    have "dm_runs d2 = dm_runs d" using read_clock_frame(2) [of d1] 2 f by simp
    then have "dm_runs (tell_finished v r d) = s2" using 1 2 3 None assms(4) by (simp add: tell_finished_def)
    then show ?thesis using mark_last [OF assms(1-3) 3] by (auto simp: after_run_runs same_row_def)
  qed
qed

lemma carry_out_rows:
  assumes "carry_out v p s req d = (a, d')" and "run_inv (dm_runs d)" and "clock_ok d"
  shows "run_inv (dm_runs d') \<and>
    (\<forall>e. at_error a = Some e \<longrightarrow> (at_started a \<longleftrightarrow> \<not> err_is ErrAlreadyRunning e) \<and>
       (run_faults (dm_runs d) = [] \<longrightarrow> err_is ErrAlreadyRunning e)) \<and>
    (history (dm_runs d') = history (dm_runs d) \<and> at_error a \<noteq> None \<or>
     (\<exists>x. history (dm_runs d') = history (dm_runs d) @ [x] \<and> (at_error a = None \<longleftrightarrow> \<not> unfinished x) \<and>
       (unfinished x \<longrightarrow> run_outcome x = OutcomeFailed) \<and>
       (verified x \<longleftrightarrow> run_outcome x \<in> {OutcomeSuccess, OutcomeDegraded, OutcomeIncomplete})))"
  using assms(1)
proof (cases rule: carry_out_steps)
  case (1 now t0 t1 t2 d5 ro e runs box)
  have t2: "second \<le> t2" using 1(3) assms(3) by simp
  let ?d6 = "d5\<lparr>dm_runs := runs, dm_box := box\<rparr>"
  note j = job_row [OF assms(2) t2 1(1)]
  have busy: "\<forall>e. at_error a = Some e \<longrightarrow> (at_started a \<longleftrightarrow> \<not> err_is ErrAlreadyRunning e) \<and>
       (run_faults (dm_runs d) = [] \<longrightarrow> err_is ErrAlreadyRunning e)"
    using 1(4) job_works [OF assms(2) _ 1(1)]
    by (auto simp: ErrAlreadyRunning_def split: option.splits if_splits)
  show ?thesis using conjunct2 [OF j]
  proof (elim disjE exE conjE)
    assume "ro = None" "e \<noteq> None" "history runs = history (dm_runs d)"
    then show ?thesis using 1(4) j busy by auto
  next
    fix x
    assume x: "history runs = history (dm_runs d) @ [x]" "\<forall>y\<in>set (history (dm_runs d)). run_id y < run_id x"
      "run_id (the ro) = run_id x" "(e = None) = (\<not> unfinished x)"
      "unfinished x \<longrightarrow> run_outcome x = OutcomeFailed \<and> \<not> verified x"
      "verified x = (run_outcome x \<in> {OutcomeSuccess, OutcomeDegraded, OutcomeIncomplete})"
    show ?thesis
    proof (cases e)
      case (Some y)
      then show ?thesis using 1(4) j x busy by auto
    next
      case None
      have "run_inv (dm_runs ?d6)" "history (dm_runs ?d6) = history (dm_runs d) @ [x]" using j x by simp_all
      from after_run_rows [OF this x(2,3), of v p s] None 1(4)
      obtain y where y: "run_inv (dm_runs d')" "history (dm_runs d') = history (dm_runs d) @ [y]" "same_row x y"
        by auto
      have "unfinished y = unfinished x" "run_outcome y = run_outcome x" "verified y = verified x"
        using y(3) unfolding same_row_def unfinished_def by (cases x; cases y; simp)+
      then show ?thesis using y x None 1(4) by auto
    qed
  qed
qed

text \<open>The end of a backup: an early failure is written down, anything else is as the run left it.\<close>

lemma backup_end:
  assumes "backup v p d = (a, d')" and "run_one_backup v p d = (a, d1)"
  obtains (as_it_is) "d' = d1" "at_error a = None \<or> at_started a \<or> (\<exists>e. at_error a = Some e \<and> err_is ErrAlreadyRunning e)"
  | (early) e now d2 res where "at_error a = Some e" "\<not> at_started a" "\<not> err_is ErrAlreadyRunning e" "read_clock d1 = (now, d2)"
      "record_failed_start rundb (at_request a) (err_text e) now (dm_runs d1) = (res, dm_runs d')"
proof (cases "at_error a")
  case None
  then show ?thesis using assms as_it_is by (simp add: backup_def)
next
  case (Some e)
  obtain now d2 where 2: "read_clock d1 = (now, d2)" by fastforce
  obtain res s where 3: "record_failed_start rundb (at_request a) (err_text e) now (dm_runs d1) = (res, s)" by fastforce
  show ?thesis
  proof (cases "\<not> at_started a \<and> \<not> err_is ErrAlreadyRunning e")
    case True
    have "dm_runs d2 = dm_runs d1" using read_clock_frame(2) [of d1] 2 by simp
    then have "dm_runs d' = s" using assms Some True 2 3 by (auto simp: backup_def with_runs_def)
    then show ?thesis using early Some True 2 3 by simp
  next
    case False
    then have "d' = d1" using assms Some unfolding backup_def by (auto split: if_splits)
    then show ?thesis using as_it_is Some False by auto
  qed
qed

lemma early_row:
  assumes "backup v p d = (a, d')" and "run_one_backup v p d = (a, d1)" and "at_error a = Some e"
    and "\<not> at_started a" and "clock_ok d1" and "dm_runs d1 = s\<lparr>run_faults := k\<rparr>" and "run_inv s"
    and "run_faults s = [] \<longrightarrow> k = []"
  shows "run_inv (dm_runs d') \<and>
    (history (dm_runs d') = history s \<and> (err_is ErrAlreadyRunning e \<or> run_faults s \<noteq> []) \<or>
     (\<exists>x. history (dm_runs d') = history s @ [x] \<and> run_outcome x = OutcomeFailed \<and> run_message x = err_text e))"
proof -
  have s: "run_inv (dm_runs d1)" "history (dm_runs d1) = history s" "run_faults s = [] \<longrightarrow> run_faults (dm_runs d1) = []"
    using assms(6-8) by simp_all
  from assms(1,2) show ?thesis
  proof (cases rule: backup_end)
    case as_it_is
    then show ?thesis using s assms(3,4) by auto
  next
    case (early e2 now d2 res)
    have e2: "e2 = e" and "second \<le> now" using early(1,4) assms(3) clock_ok_now [OF assms(5)] by auto
    from rdb.failed_start_rows [OF s(1) this(2) early(5)] failed_start_works [OF s(1) _ early(5)] s show ?thesis
      unfolding e2 by auto
  qed
qed

definition check_args :: "string \<Rightarrow> string list" where
  "check_args part = [''check''] @ (if part \<noteq> [] then [''--read-data-subset='' @ part] else [])"

lemma run_restic_logs:
  "ran (snd (run_restic repo args w)) = ran w @ (if validate_repo repo = None then [args] else [])"
  by (simp add: run_restic_def invoke_def split: option.split proc.split ended.split)

lemma check_repo_logs:
  "ran (snd (check_repo repo part w)) = ran w @ (if validate_repo repo = None then [check_args part] else [])"
  using run_restic_logs [of repo "check_args part" w] by (simp add: check_repo_def check_args_def case_prod_unfold)

lemma unlock_logs:
  "ran (snd (unlock repo w)) = ran w @ (if validate_repo repo = None then [[''unlock'']] else [])"
  using run_restic_logs [of repo "[''unlock'']" w] by (simp add: unlock_def case_prod_unfold)

section \<open>The properties of a backup\<close>

text \<open>C23: what the server hears of a backup, word for word. It is asked for credentials at most once, and
  nothing else is asked before them. It is told that a run has begun only when the repository could be
  opened, and that it has finished exactly when it has, by the same name, repository and seeding flag.
  The old bucket is let go last of all, only while the server says that this machine is being moved, and
  only after the dashboard was told of a verified snapshot in the new one, which it names.\<close>

theorem backup_conversation:
  assumes "backup v p d = (a, d')" and "en_enrolled v"
  shows "\<exists>xs. asked d' = asked d @ xs \<and>
    (xs = [] \<and> \<not> at_started a \<or> xs = [creds_request] \<and> \<not> at_started a \<or>
     (\<exists>b s. creds_of v d = Inr s \<and> ev_phase b = PhaseStarted \<and>
       (xs = [creds_request, run_request b] \<and> at_error a \<noteq> None \<or>
        (\<exists>f. at_error a = None \<and> ev_phase f = PhaseFinished \<and> same_run b f \<and> ev_repository f = cs_url s \<and>
           xs = [creds_request, run_request b, run_request f] @
             (if ev_snapshot f \<noteq> [] \<and> ev_verified f \<and> cs_state s = StateCuttingOver
              then [let_go_request (cs_url s)] else [])))))"
proof -
  obtain d1 where 1: "run_one_backup v p d = (a, d1)" and d1: "asked d' = asked d1"
    by (rule backup_run_one [OF assms(1)]) auto
  show ?thesis
  proof (cases rule: run_one_backup_cases [OF 1])
    case 1
    then show ?thesis using d1 by (intro exI [of _ "[]"]) simp
  next
    case (2 e)
    then show ?thesis using d1 assms(2) by (intro exI [of _ "[creds_request]"]) simp
  next
    case (3 s q d2 req k)
    have d2: "asked d2 = asked d @ [creds_request]" using 3 assms(2) by simp
    show ?thesis using 3(15)
    proof
      assume "\<exists>e. a = not_begun req e \<and> d1 = d2"
      then show ?thesis using d1 d2 by (intro exI [of _ "[creds_request]"]) (auto simp: not_begun_def)
    next
      assume c: "carry_out v q s req d2 = (a, d1)"
      have "repository q \<noteq> []" using 3 by simp
      from carry_out_cases [OF c assms(2) this] 3 obtain b where b: "ev_phase b = PhaseStarted"
        and alt: "at_error a \<noteq> None \<and> asked d1 = asked d2 @ [run_request b] \<or>
          (\<exists>f. at_error a = None \<and> at_started a \<and> ev_phase f = PhaseFinished \<and> same_run b f \<and>
            ev_repository f = repository q \<and> asked d1 = asked d2 @ [run_request b, run_request f] @
              (if ev_snapshot f \<noteq> [] \<and> ev_verified f \<and> cs_state s = StateCuttingOver
               then [let_go_request (ev_repository f)] else []))" by metis
      from alt show ?thesis
      proof (elim disjE exE conjE)
        assume "at_error a \<noteq> None" "asked d1 = asked d2 @ [run_request b]"
        then show ?thesis using d1 d2 b 3(1)
          by (intro exI [of _ "[creds_request, run_request b]"] conjI) auto
      next
        fix f :: Fleet.event
        let ?last = "if ev_snapshot f \<noteq> [] \<and> ev_verified f \<and> cs_state s = StateCuttingOver
          then [let_go_request (cs_url s)] else []"
        assume f: "at_error a = None" "ev_phase f = PhaseFinished" "same_run b f" "ev_repository f = repository q"
          "asked d1 = asked d2 @ [run_request b, run_request f] @
              (if ev_snapshot f \<noteq> [] \<and> ev_verified f \<and> cs_state s = StateCuttingOver
               then [let_go_request (ev_repository f)] else [])"
        have u: "ev_repository f = cs_url s" using f(4) 3 by simp
        have "asked d' = asked d @ [creds_request, run_request b, run_request f] @ ?last"
          using f(5) d1 d2 by (simp add: u)
        then show ?thesis
          apply -
          apply (rule exI [of _ "[creds_request, run_request b, run_request f] @ ?last"])
          apply (rule conjI, assumption, rule disjI2, rule disjI2)
          apply (rule exI [of _ b], rule exI [of _ s])
          apply (rule conjI, rule 3(1), rule conjI, rule b, rule disjI2)
          by (rule exI [of _ f], intro conjI f(1-3) u refl)
      qed
    qed
  qed
qed

text \<open>the commands a backup has restic run. Without credentials there are none. With them there is the
  backup, the restore that reads it back, the weekly measuring and checking, and the clearing of a lock
  that nobody holds. A repository is looked for and created only when the answer to this very request for
  credentials permits it. Nothing a backup runs forgets a snapshot, prunes data or changes a key.\<close>

theorem backup_commands:
  "\<exists>xs. ran (world (dm_box (snd (backup v p d)))) = ran (world (dm_box d)) @ xs \<and>
    hd ` set xs \<subseteq> (case creds_of v d of Inl _ \<Rightarrow> {}
      | Inr s \<Rightarrow> {''backup'', ''restore'', ''unlock'', ''stats'', ''check''} \<union>
          (if cs_expect_empty s then {''cat'', ''init''} else {}))"
proof -
  let ?H = "\<lambda>s. {''backup'', ''restore'', ''unlock'', ''stats'', ''check''} \<union>
      (if cs_expect_empty s then {''cat'', ''init''} else {})"
  obtain a d' where ad: "backup v p d = (a, d')" by fastforce
  obtain d1 where 1: "run_one_backup v p d = (a, d1)" and b: "dm_box d' = dm_box d1"
    by (rule backup_run_one [OF ad])
  have "adds (case creds_of v d of Inl _ \<Rightarrow> {} | Inr s \<Rightarrow> ?H s) (world (dm_box d)) (world (dm_box d1))"
  proof (cases rule: run_one_backup_cases [OF 1])
    case (3 s q d2 req k)
    have "adds (?H s) (world (dm_box d)) (world (dm_box d2))" using 3(13) by (rule adds_mono) auto
    moreover have "adds (?H s) (world (dm_box d2)) (world (dm_box d1))"
      if "carry_out v q s req d2 = (a, d1)"
      using that by (rule adds_carry_out) auto
    ultimately have "adds (?H s) (world (dm_box d)) (world (dm_box d1))"
      using 3(15) by (auto intro: adds_trans)
    then show ?thesis using 3(1) by simp
  qed simp_all
  then show ?thesis using b ad by (simp add: adds_def)
qed

text \<open>C24: no attempt at a backup is lost. Every one leaves a row at the end of the history and no other row
  is touched: a closed row with what the run came to, verified exactly when it reads as a backup; or a
  row that reads as failed, with the reason where restic was not even started. The exceptions are a
  backup that is turned away because one is running, and a history that cannot be written.\<close>

theorem every_attempt_leaves_a_row:
  assumes "backup v p d = (a, d')" and "run_inv (dm_runs d)" and "clock_ok d"
  shows "run_inv (dm_runs d') \<and>
    (history (dm_runs d') = history (dm_runs d) \<and>
       (\<exists>e. at_error a = Some e \<and> (err_is ErrAlreadyRunning e \<or> run_faults (dm_runs d) \<noteq> [])) \<or>
     (\<exists>x. history (dm_runs d') = history (dm_runs d) @ [x] \<and>
       (case at_error a of
          None \<Rightarrow> \<not> unfinished x \<and>
            (verified x \<longleftrightarrow> run_outcome x \<in> {OutcomeSuccess, OutcomeDegraded, OutcomeIncomplete})
        | Some e \<Rightarrow> run_outcome x = OutcomeFailed \<and> (at_started a \<or> err_is ErrAlreadyRunning e \<or> run_message x = err_text e))))"
proof -
  obtain d1 where 1: "run_one_backup v p d = (a, d1)" by (rule backup_run_one [OF assms(1)])
  have early: ?thesis if "at_error a = Some e" "\<not> at_started a" "clock_ok d1"
    "dm_runs d1 = (dm_runs d)\<lparr>run_faults := k\<rparr>" "run_faults (dm_runs d) = [] \<longrightarrow> k = []" for e k
    using early_row [OF assms(1) 1 that(1-4) assms(2) that(5)] that(1) by auto
  show ?thesis
  proof (cases rule: run_one_backup_cases [OF 1])
    case 1
    then show ?thesis using early [of _ "run_faults (dm_runs d)"] assms(3) by auto
  next
    case (2 e)
    then show ?thesis using early [of e "run_faults (dm_runs d)"] assms(3) by auto
  next
    case (3 s q d2 req k)
    show ?thesis using 3(15)
    proof
      assume "\<exists>e. a = not_begun req e \<and> d1 = d2"
      then show ?thesis using early [of _ k] 3 assms(3) by (auto simp: not_begun_def)
    next
      assume c: "carry_out v q s req d2 = (a, d1)"
      have "run_inv (dm_runs d2)" "clock_ok d2" using 3 assms(2,3) by simp_all
      note r = carry_out_rows [OF c this]
      have d': "d' = d1" using assms(1) 1
        by (cases rule: backup_end) (use r in auto)
      show ?thesis using r 3(11,12) unfolding d' by (auto split: option.split)
    qed
  qed
qed

text \<open>A backup that stops before it has a name, because the credentials were refused or restic is not there,
  is written down without one: the row waits to be reported, and the event it becomes names no run and no
  repository, which \<open>docs/eumaeus-api.md\<close> asks of every event.\<close>

lemma failed_start_row:
  assumes "run_inv s" and "run_faults s = []" and "second \<le> now"
    and "record_failed_start rundb req reason now s = (res, s')"
  shows "\<exists>x. history s' = history s @ [x] \<and> run_uuid x = req_uuid req \<and>
    run_repository x = repo_url (req_repository req) \<and> due_report x"
proof -
  define r where "r = (opened_run req now)\<lparr>finished_at := now, run_message := reason\<rparr>"
  obtain i s1 where c: "rs_create rundb r s = (Inr i, s1)" by (rule create_works [OF assms(1,2)])
  obtain rf s2 where f: "rs_finish rundb (r\<lparr>run_id := i\<rparr>) s1 = (rf, s2)" by fastforce
  have "is_ok rf" using finish_works [OF assms(1,2) c _ f] by simp
  moreover have "s' = s2" using assms(4) c f by (auto simp: record_failed_start_def Let_def r_def split: sum.splits)
  ultimately have "history s' = history s @ [close_row (r\<lparr>run_id := i\<rparr>) (open_row i r)]"
    using rdb.open_close [OF assms(1) c _ _ f] assms(3) by (simp add: r_def)
  moreover have "whole_second now \<noteq> 0" using assms(3) by (rule whole_second_nonzero)
  ultimately show ?thesis
    by (simp add: close_row_def open_row_def r_def opened_run_def due_report_def unfinished_def is_zero_def)
qed

lemma unready_backup_has_no_name:
  assumes "backup v p d = (a, d')" and "creds_of v d = Inl e" and "\<not> err_is ErrAlreadyRunning e"
    and "runnable p = None" and "en_pinned v = None"
    and "run_inv (dm_runs d)" and "run_faults (dm_runs d) = []" and "clock_ok d"
  shows "\<exists>x. history (dm_runs d') = history (dm_runs d) @ [x] \<and> due_report x \<and>
    ev_uuid (event_for agent os x) = [] \<and> ev_repository (event_for agent os x) = []"
proof -
  obtain d1 where 1: "run_one_backup v p d = (a, d1)" by (rule backup_run_one [OF assms(1)])
  have a: "at_error a = Some e" "\<not> at_started a" "dm_runs d1 = dm_runs d" "at_request a = bare_request p" "clock_ok d1"
    by (cases rule: run_one_backup_cases [OF 1]; use assms in auto)+
  from assms(1) 1 show ?thesis
  proof (cases rule: backup_end)
    case as_it_is
    then show ?thesis using a assms(3) by simp
  next
    case (early e2 now d2 res)
    have "second \<le> now" using clock_ok_now [OF a(5) early(4)] by simp
    from failed_start_row [OF assms(6,7) this early(5) [unfolded a(3)]] show ?thesis
      by (auto simp: a(4) bare_request_def event_for_def)
  qed
qed

text \<open>C26: a check comes to an end, locked or not. Whatever is in the way, restic is called at most three
  times, to check, to clear the lock and to check again, and a lock that stays is never reported as
  damage: what is called damaged failed for another reason.\<close>

theorem check_gives_up_on_a_lock:
  assumes "check_once_or_twice repo part d = (r, d')"
  shows "(\<exists>n. ran (world (dm_box d')) = ran (world (dm_box d)) @
      take n [check_args part, [''unlock''], check_args part]) \<and>
    (\<forall>e. r = Damaged e \<longrightarrow> \<not> retryable_error (Inl e))"
proof -
  let ?log = "\<lambda>n. ran (world (dm_box d)) @ (if validate_repo repo = None
      then take n [check_args part, [''unlock''], check_args part] else [])"
  obtain c d1 where 1: "with_restic (check_repo repo part) d = (c, d1)" by fastforce
  obtain u d2 where 2: "with_restic (unlock repo) d1 = (u, d2)" by fastforce
  obtain c2 d3 where 3: "with_restic (check_repo repo part) d2 = (c2, d3)" by fastforce
  have w: "world (dm_box d1) = snd (check_repo repo part (world (dm_box d)))"
    "world (dm_box d2) = snd (unlock repo (world (dm_box d1)))"
    "world (dm_box d3) = snd (check_repo repo part (world (dm_box d2)))"
    using with_restic_frame(1) [of "check_repo repo part" d] with_restic_frame(1) [of "unlock repo" d1]
      with_restic_frame(1) [of "check_repo repo part" d2] 1 2 3 by simp_all
  have l: "ran (world (dm_box d1)) = ?log 1" "ran (world (dm_box d2)) = ?log 2" "ran (world (dm_box d3)) = ?log 3"
    using w check_repo_logs unlock_logs by (simp_all add: numeral_eq_Suc)
  have "d' = d1 \<or> d' = d2 \<or> d' = d3"
    using assms 1 2 3 by (auto simp: check_once_or_twice_def Let_def split: if_splits sum.splits)
  then have "\<exists>n. ran (world (dm_box d')) = ?log n" using l by blast
  then obtain n where "ran (world (dm_box d')) = ?log n" ..
  then have "\<exists>n. ran (world (dm_box d')) = ran (world (dm_box d)) @
      take n [check_args part, [''unlock''], check_args part]"
    by (intro exI [of _ "if validate_repo repo = None then n else 0"]) simp
  moreover have "\<forall>e. r = Damaged e \<longrightarrow> \<not> retryable_error (Inl e)"
    using assms 1 2 3 by (auto simp: check_once_or_twice_def Let_def split: if_splits sum.splits)
  ultimately show ?thesis ..
qed

text \<open>C25: when the daemon starts a backup by itself. Exactly when there is a plan, it is not paused and
  somebody confirmed it, no backup is running, the network costs nothing where the plan asks for that,
  the history can be read or is empty, and a slot of the schedule has passed since the last run.\<close>

theorem maybe_run_iff:
  "fst (maybe_run v d) = Some p \<longleftrightarrow>
    fst (plandb_get (dm_plan d)) = Inr p \<and> \<not> paused p \<and> confirmed p \<and> \<not> en_busy v \<and>
    \<not> (skip_on_metered p \<and> fst (metered v d)) \<and>
    (case fst (rundb_last (dm_runs d)) of
       Inr x \<Rightarrow> due (en_zone v) (plan_schedule p) (node_id p) (fst (read_clock d)) (started_at x)
     | Inl e \<Rightarrow> err_is ErrNoRuns e \<and> due (en_zone v) (plan_schedule p) (node_id p) (fst (read_clock d)) zero_time)"
proof -
  have c: "fst (read_clock (snd (with_plan f d))) = fst (read_clock d)" "fst (read_clock (snd (with_runs g d))) = fst (read_clock d)"
    "fst (read_clock (snd (metered v d))) = fst (read_clock d)" for f g d
    by (simp_all add: read_clock_def split: list.split)
  have m: "fst (metered v (snd (with_plan f d))) = fst (metered v d)" for f
    by (simp add: metered_def split: option.split)
  obtain g d1 where 1: "with_plan plandb_get d = (g, d1)" by fastforce
  have f1: "g = fst (plandb_get (dm_plan d))" "fst (read_clock d1) = fst (read_clock d)" "dm_runs d1 = dm_runs d"
    "fst (metered v d1) = fst (metered v d)"
    using with_plan_frame(2,3) [of plandb_get d] c(1) [of plandb_get d] m [of plandb_get] 1 by simp_all
  show ?thesis
  proof (cases g)
    case (Inl e)
    then show ?thesis using 1 f1(1) by (simp add: maybe_run_def)
  next
    case (Inr x)
    obtain b d2 where 2: "(if skip_on_metered x then metered v d1 else (False, d1)) = (b, d2)" by fastforce
    have "dm_runs d2 = dm_runs d" using 2 f1 metered_frame(2) [of v d1] by (metis snd_conv)
    moreover have "b \<longleftrightarrow> skip_on_metered x \<and> fst (metered v d)" "fst (read_clock d2) = fst (read_clock d)"
      using 2 f1 c(3) [of d1] by (auto split: if_splits)
    ultimately have f2: "b \<longleftrightarrow> skip_on_metered x \<and> fst (metered v d)" "fst (read_clock d2) = fst (read_clock d)"
      "dm_runs d2 = dm_runs d" by simp_all
    obtain q d3 where 3: "with_runs rundb_last d2 = (q, d3)" by fastforce
    have f3: "q = fst (rundb_last (dm_runs d))" "fst (read_clock d3) = fst (read_clock d)"
      using with_runs_frame(2) [of rundb_last d2] c(2) [of rundb_last d2] f2 3 by simp_all
    obtain now d4 where 4: "read_clock d3 = (now, d4)" by fastforce
    have "now = fst (read_clock d)" using f3 4 by simp
    moreover have "fst (maybe_run v d) = (if paused x \<or> \<not> confirmed x \<or> en_busy v \<or> b then None
        else case q of
            Inr r \<Rightarrow> if due (en_zone v) (plan_schedule x) (node_id x) now (started_at r) then Some x else None
          | Inl e \<Rightarrow> if err_is ErrNoRuns e \<and> due (en_zone v) (plan_schedule x) (node_id x) now zero_time then Some x else None)"
      using 1 Inr 2 3 4 by (simp add: maybe_run_def split: sum.split bool.split)
    moreover have "fst (plandb_get (dm_plan d)) = Inr x" using f1(1) Inr by simp
    ultimately show ?thesis using f2(1) f3(1) by (auto split: sum.splits if_splits)
  qed
qed

text \<open>The system is asked about the network whether or not anything is due: the comment on this place has it
  that asking on every tick of a machine with nothing due is what the order avoids.\<close>

lemma system_asked_with_nothing_due:
  assumes "fst (plandb_get (dm_plan d)) = Inr p" and "\<not> paused p" and "confirmed p" and "\<not> en_busy v"
    and "skip_on_metered p" and "en_override v = None"
  shows "dm_asked_system (snd (maybe_run v d)) = dm_asked_system d + 1"
proof -
  obtain d1 where 1: "with_plan plandb_get d = (Inr p, d1)" using assms(1) with_plan_frame(2) by (metis prod.collapse)
  have "dm_asked_system d1 = dm_asked_system d" using with_plan_frame(8) [of plandb_get d] 1 by simp
  moreover have "dm_asked_system (snd (case read_clock x of (now, d4) \<Rightarrow> (f now, d4))) = dm_asked_system x" for x f
    by (simp add: case_prod_unfold)
  ultimately show ?thesis using assms 1
    by (auto simp: maybe_run_def metered_def case_prod_unfold split: option.split sum.split bool.split)
qed

section \<open>Examples\<close>

definition sample_env :: env where
  "sample_env =
     \<lparr>en_settings = sample_settings\<lparr>cfg_parse := creds_parse\<rparr>, en_zone = utc, en_agent = ''1'', en_os = ''linux'',
      en_host = ''leto'', en_enrolled = True, en_busy = False, en_cancel = None, en_override = None,
      en_metered = False, en_pinned = None, en_updater = None, en_sha = (\<lambda>_. []), en_prog = (\<lambda>b. (True, b)),
      en_release = Inl ErrNoRuns, en_download = Reply 404 [] []\<rparr>"

definition sample_daemon :: "reply list \<Rightarrow> proc list \<Rightarrow> daemon" where
  "sample_daemon rs ps =
     \<lparr>dm_plan = fresh_db, dm_runs = empty_rundb,
      dm_box = sample_machine ps [[sample_restored \<mapsto> nonce_body second ''N'']],
      dm_net = \<lparr>replies = rs, made = []\<rparr>, dm_diag = None, dm_disk = \<lparr>files = Map.empty, disk_faults = []\<rparr>,
      dm_checked = zero_time, dm_waiting = zero_time, dm_clock = [second], dm_ids = [''u''],
      dm_asked_system = 0\<rparr>"

lemma sample_clock: "clock_ok (sample_daemon rs ps)"
  by (simp add: clock_ok_def sample_daemon_def)

lemma sample_history: "run_inv (dm_runs (sample_daemon rs ps))" "run_faults (dm_runs (sample_daemon rs ps)) = []"
  by (simp_all add: run_inv_def empty_rundb_def run_ready_def sample_daemon_def)

lemma sample_backup_runs:
  "(case backup sample_env sample_plan (sample_daemon [Reply 200 ''200 OK'' ''B''] []) of
     (a, d) \<Rightarrow> at_error a = None \<and> length (asked d) = 3)"
  by code_simp

text \<open>A check that is killed because the daemon is shutting down is taken for damage, and is reported to the fleet
  as damage: nothing between the end of restic and the report asks whether the context was cancelled.\<close>

lemma killed_check_reads_as_damage:
  "case check_once_or_twice sample_repo ''5%'' (sample_daemon [] [Ran [] [] (Exited (- 1))]) of
     (r, d) \<Rightarrow> (case r of Damaged e \<Rightarrow> True | _ \<Rightarrow> False)"
  by code_simp

theorem backup_conversation_witness:
  "\<exists>b s f. creds_of sample_env (sample_daemon [Reply 200 ''200 OK'' ''B''] []) = Inr s \<and> ev_phase f = PhaseFinished \<and>
     same_run b f \<and>
     asked (snd (backup sample_env sample_plan (sample_daemon [Reply 200 ''200 OK'' ''B''] []))) =
       [creds_request, run_request b, run_request f]"
proof -
  let ?d = "sample_daemon [Reply 200 ''200 OK'' ''B''] []"
  obtain a d' where 1: "backup sample_env sample_plan ?d = (a, d')" by fastforce
  have a: "at_error a = None" "length (asked d') = 3" using sample_backup_runs 1 by simp_all
  have "asked ?d = []" "en_enrolled sample_env" by (simp_all add: asked_def sample_daemon_def sample_env_def)
  with backup_conversation [OF 1 this(2)] a show ?thesis unfolding 1 by (fastforce split: if_splits)
qed

theorem every_attempt_leaves_a_row_witness:
  "\<exists>x. history (dm_runs (snd (backup sample_env sample_plan (sample_daemon [Reply 200 ''200 OK'' ''B''] [])))) = [x] \<and>
     \<not> unfinished x"
proof -
  let ?d = "sample_daemon [Reply 200 ''200 OK'' ''B''] []"
  obtain a d' where 1: "backup sample_env sample_plan ?d = (a, d')" by fastforce
  have "at_error a = None" using sample_backup_runs 1 by simp
  moreover have "history (dm_runs ?d) = []" by (simp add: sample_daemon_def empty_rundb_def history_def)
  ultimately show ?thesis
    using every_attempt_leaves_a_row [OF 1 sample_history(1) sample_clock] 1 by auto
qed

theorem check_gives_up_on_a_lock_witness:
  "\<forall>e. fst (check_once_or_twice sample_repo ''5%''
      (sample_daemon [] [Ran [] [] (Exited 11), Ran [] [] (Exited 0), Ran [] [] (Exited 11)])) \<noteq> Damaged e"
proof -
  let ?d = "sample_daemon [] [Ran [] [] (Exited 11), Ran [] [] (Exited 0), Ran [] [] (Exited 11)]"
  obtain r d' where 1: "check_once_or_twice sample_repo ''5%'' ?d = (r, d')" by fastforce
  have "(case check_once_or_twice sample_repo ''5%'' ?d of (r, d') \<Rightarrow>
      length (ran (world (dm_box d'))) = 3 \<and> (case r of Damaged e \<Rightarrow> retryable_error (Inl e) | _ \<Rightarrow> True))"
    by code_simp
  with check_gives_up_on_a_lock [OF 1] 1 show ?thesis by (auto split: checked.splits)
qed

end
