(* ===== verification/ResticInstall.thy ===== *)
theory ResticInstall
  imports SelfUpdate
begin

text \<open>
  The restic every machine of the fleet runs: the build that is pinned for each platform
  (\<open>foundation/restic/pin.go\<close>) and how the program puts it on the machine (\<open>manage.go\<close>). The download is
  hashed, unpacked and run in a directory of its own beside the place it goes to, and only then renamed.

  The disk is that of theory \<open>Disk\<close>. What is not the program's: the SHA-256 of the download, what its
  archive unpacks to, and what a binary prints and whether it exits with status 0 when it is asked for its
  version are the record \<open>tools\<close>, about which nothing is assumed. An executable's two streams are given
  one by one: the check of an installed binary reads the first alone, that of a new one both.
\<close>

section \<open>The pinned build\<close>

definition PinnedVersion :: string where
  "PinnedVersion = ''0.19.1''"

definition pinned_sha256 :: "string \<rightharpoonup> string" where
  "pinned_sha256 = map_of
     [(''linux/amd64'', ''f415415624dcc452f2a02b8c33641791a8c6d6d3b65bbb3543fcf9a25151585c''),
      (''linux/arm64'', ''a5f64aaab53d51e311fa3829124c5b703f2d14cf187d8640b6be3b2b49376465''),
      (''darwin/amd64'', ''c38d579622cf602f665234c5a8c315030b6cf70656028fe6dc29a786b60e5f35''),
      (''darwin/arm64'', ''7be0a144ccc377880f294204aa271d76e4b79554b42a751151d425ce6ebac143''),
      (''windows/amd64'', ''da948ad707ed690426473aaba2046cd61f8f90f6f0e7dab6be0d5796531de67d'')]"

definition ErrNoPin :: err where
  "ErrNoPin = Sentinel ''restic: no pinned hash for this platform''"

record pin =
  pin_version :: string
  pin_asset :: string
  pin_url :: string
  pin_sha256 :: string
  pin_binary :: string

definition pin_for :: "string \<Rightarrow> string \<Rightarrow> pin res" where
  "pin_for goos goarch =
     (case pinned_sha256 (goos @ ''/'' @ goarch) of
        None \<Rightarrow> Inl (Wrap [] ErrNoPin ('': '' @ goos @ ''/'' @ goarch @
          ''; add one from a signed upstream SHA256SUMS to foundation/restic/pin.go and deploy/restic.pin''))
      | Some s \<Rightarrow>
          let (ext, binary) = (if goos = ''windows'' then (''zip'', ''restic.exe'') else (''bz2'', ''restic''));
              asset = ''restic_'' @ PinnedVersion @ ''_'' @ goos @ ''_'' @ goarch @ ''.'' @ ext in
          Inr \<lparr>pin_version = PinnedVersion, pin_asset = asset,
            pin_url = ''https://github.com/restic/restic/releases/download/v'' @ PinnedVersion @ ''/'' @ asset,
            pin_sha256 = s, pin_binary = binary\<rparr>)"

section \<open>The version a binary reports\<close>

fun read_release_digits :: "int \<Rightarrow> string \<Rightarrow> int option" where
  "read_release_digits n [] = Some n"
| "read_release_digits n (c # cs) =
     (let k = (of_char c :: int) in
      if k < 48 \<or> 57 < k then None else read_release_digits (wrap64 (n * 10 + (k - 48))) cs)"

definition parse_release_number :: "string \<Rightarrow> (int \<times> int \<times> int) option" where
  "parse_release_number v =
     (case split_on (CHR ''.'') (trim_prefix ''v'' (trim_space v)) of
        [a, b, c] \<Rightarrow>
          if a = [] then None else Option.bind (read_release_digits 0 a) (\<lambda>x.
          if b = [] then None else Option.bind (read_release_digits 0 b) (\<lambda>y.
          if c = [] then None else Option.bind (read_release_digits 0 c) (\<lambda>z. Some (x, y, z))))
      | _ \<Rightarrow> None)"

definition restic_version_number :: "string \<Rightarrow> string" where
  "restic_version_number line =
     (case words_of line of
        w # v # _ \<Rightarrow>
          if w \<noteq> ''restic'' then []
          else let n = trim_prefix ''v'' v in (if parse_release_number n = None then [] else n)
      | _ \<Rightarrow> [])"

section \<open>The tools and the runner\<close>

text \<open>
  What a reader delivers: the bytes, and the error it stops with if it does not reach its end. A zip is its
  entries, each with its name and what opening it gives.
\<close>

type_synonym stream = "string \<times> err option"

datatype asset_answer = NoAnswer err | Answer int string stream

record tools =
  t_sha :: "string \<Rightarrow> string"
  t_bunzip :: "string \<Rightarrow> stream"
  t_unzip :: "string \<Rightarrow> (string \<times> stream res) list res"
  t_run :: "string \<Rightarrow> bool \<times> string \<times> string"

record runner =
  rn_goos :: string
  rn_goarch :: string
  rn_dir :: string
  rn_bin :: string
  rn_managed :: bool

definition resolve :: "string \<Rightarrow> string \<Rightarrow> (string \<Rightarrow> string res) \<Rightarrow> string \<Rightarrow> string \<Rightarrow> runner res" where
  "resolve goos goarch look_path override bin_dir =
     (if override \<noteq> []
      then (case look_path override of
          Inl e \<Rightarrow> Inl (Wrap (''restic: the configured restic '' @ quote override @ '' cannot be run: '') e [])
        | Inr p \<Rightarrow> Inr \<lparr>rn_goos = goos, rn_goarch = goarch, rn_dir = [], rn_bin = p, rn_managed = False\<rparr>)
      else if bin_dir = []
      then Inl (Sentinel ''restic: no directory to keep the managed binary in'')
      else on_ok (pin_for goos goarch) (\<lambda>p.
        Inr \<lparr>rn_goos = goos, rn_goarch = goarch, rn_dir = bin_dir,
          rn_bin = join_path goos bin_dir (pin_binary p), rn_managed = True\<rparr>))"

definition run_version :: "tools \<Rightarrow> string \<Rightarrow> string disk \<Rightarrow> (bool \<times> string \<times> string) \<times> string disk" where
  "run_version t path d =
     (case disk_step d of (bad, d1) \<Rightarrow>
        (if bad then (False, [], []) else case files d1 path of None \<Rightarrow> (False, [], []) | Some b \<Rightarrow> t_run t b, d1))"

definition installed_version :: "tools \<Rightarrow> runner \<Rightarrow> string disk \<Rightarrow> string res \<times> string disk" where
  "installed_version t r d =
     (case run_version t (rn_bin r) d of ((ran_ok, out, _), d1) \<Rightarrow>
        (if \<not> ran_ok
         then Inl (Wrap (''restic: asking '' @ rn_bin r @ '' for its version: '') (Sentinel ''exit status'') [])
         else let full = trim_space out; n = restic_version_number full in
           if n = [] then Inl (Sentinel (''restic: '' @ rn_bin r @ '' reported '' @ quote full @
             '', which does not name a version''))
           else Inr n, d1))"

section \<open>Fetching and unpacking\<close>

definition max_asset :: int where
  "max_asset = 128 * 2 ^ 20"

definition max_binary :: int where
  "max_binary = 256 * 2 ^ 20"

text \<open>\<open>io.Copy\<close> from an \<open>io.LimitReader\<close>: an error after the limit is never met.\<close>

definition copy_limited :: "int \<Rightarrow> stream \<Rightarrow> stream" where
  "copy_limited n s = (if int (length (fst s)) < n then s else (take (nat n) (fst s), None))"

definition copy_to :: "string \<Rightarrow> string \<Rightarrow> stream \<Rightarrow> string disk \<Rightarrow> err option \<times> string disk" where
  "copy_to what p s d =
     (case fs_write [] p (fst s) d of
        (Some e, d1) \<Rightarrow> (Some (Wrap ''restic: '' e []), d1)
      | (None, d1) \<Rightarrow> (case snd s of Some e \<Rightarrow> (Some (Wrap what e []), d1) | None \<Rightarrow> (None, d1)))"

definition fetch_asset :: "tools \<Rightarrow> string \<Rightarrow> asset_answer \<Rightarrow> string \<Rightarrow> string disk \<Rightarrow> string res \<times> string disk" where
  "fetch_asset t url a dest d =
     (case a of
        NoAnswer e \<Rightarrow> (Inl (Wrap (''restic: downloading '' @ url @ '': '') e []), d)
      | Answer status line body \<Rightarrow>
          if status \<noteq> 200 then (Inl (Sentinel (''restic: downloading '' @ url @ '': '' @ line)), d)
          else let s = copy_limited max_asset body in
            case copy_to (''restic: downloading '' @ url @ '': '') dest s d of
              (Some e, d1) \<Rightarrow> (Inl e, d1)
            | (None, d1) \<Rightarrow> (Inr (t_sha t (fst s)), d1))"

definition write_binary :: "string \<Rightarrow> stream \<Rightarrow> string disk \<Rightarrow> err option \<times> string disk" where
  "write_binary dest src d =
     (let s = copy_limited max_binary src in
      case copy_to (''restic: extracting to '' @ dest @ '': '') dest s d of
        (Some e, d1) \<Rightarrow> (Some e, d1)
      | (None, d1) \<Rightarrow>
          (if fst s = [] then Some (Sentinel ''restic: the archive extracted to nothing'') else None, d1))"

definition extract_zip :: "tools \<Rightarrow> string \<Rightarrow> string \<Rightarrow> string \<Rightarrow> string disk \<Rightarrow> err option \<times> string disk" where
  "extract_zip t asset archive dest d =
     (case fs_read archive d of
        (Inl e, d1) \<Rightarrow> (Some (Wrap (''restic: reading '' @ asset @ '': '') e []), d1)
      | (Inr bytes, d1) \<Rightarrow>
          (case t_unzip t bytes of
             Inl e \<Rightarrow> (Some (Wrap (''restic: reading '' @ asset @ '': '') e []), d1)
           | Inr entries \<Rightarrow>
               (case filter (\<lambda>(n, _). suffix ''.exe'' (to_lower n)) entries of
                  [] \<Rightarrow> (Some (Sentinel (''restic: '' @ asset @ '' contains no .exe'')), d1)
                | (n, Inl e) # _ \<Rightarrow>
                    (Some (Wrap (''restic: reading '' @ n @ '' from the archive: '') e []), d1)
                | (n, Inr s) # _ \<Rightarrow> write_binary dest s d1)))"

definition extract_asset :: "tools \<Rightarrow> pin \<Rightarrow> string \<Rightarrow> string \<Rightarrow> string disk \<Rightarrow> err option \<times> string disk" where
  "extract_asset t p archive dest d =
     (if suffix ''.zip'' (pin_asset p) then extract_zip t (pin_asset p) archive dest d
      else case fs_read archive d of
          (Inl e, d1) \<Rightarrow> (Some (Wrap ''restic: '' e []), d1)
        | (Inr bytes, d1) \<Rightarrow> write_binary dest (t_bunzip t bytes) d1)"

definition smoke_test_restic :: "tools \<Rightarrow> string \<Rightarrow> string \<Rightarrow> string disk \<Rightarrow> err option \<times> string disk" where
  "smoke_test_restic t path want d =
     (case run_version t path d of ((ran_ok, _, both), d1) \<Rightarrow>
        (if \<not> ran_ok
         then Some (Wrap ''restic: the downloaded binary does not run ('' (Sentinel ''exit status'')
           (''): '' @ trim_space both))
         else if restic_version_number (trim_space both) \<noteq> want
         then Some (Sentinel (''restic: the downloaded binary reports '' @ quote (trim_space both) @
           '', and the pin says '' @ want))
         else None, d1))"

section \<open>Putting it in place\<close>

definition path_exists :: "string \<Rightarrow> string disk \<Rightarrow> bool \<times> string disk" where
  "path_exists p d = (case fs_stat p d of (e, d1) \<Rightarrow> (e = None, d1))"

definition put_in_place :: "string \<Rightarrow> string \<Rightarrow> string disk \<Rightarrow> err option \<times> string disk" where
  "put_in_place dest staged d =
     (case fs_rename staged dest d of
        (None, d1) \<Rightarrow> (None, snd (fs_remove (dest @ ''.old'') d1))
      | (Some e, d1) \<Rightarrow>
          (case fs_rename (dest @ ''.old'') dest d1 of
             (None, d2) \<Rightarrow> (Some (Wrap ''restic: installing the new binary: '' e []), d2)
           | (Some back, d2) \<Rightarrow>
               (case path_exists (dest @ ''.old'') d2 of
                  (True, d3) \<Rightarrow> (Some (Wrap2 ''restic: installing the new binary failed ('' e
                     '') and the old one could not be put back ('' back (''); it is at '' @ dest @ ''.old'')), d3)
                | (False, d3) \<Rightarrow> (Some (Wrap ''restic: installing the new binary: '' e []), d3))))"

definition swap_restic :: "string \<Rightarrow> string \<Rightarrow> string disk \<Rightarrow> err option \<times> string disk" where
  "swap_restic dest staged d =
     (case snd (fs_remove (dest @ ''.old'') d) of d1 \<Rightarrow>
      case path_exists dest d1 of
        (False, d2) \<Rightarrow> put_in_place dest staged d2
      | (True, d2) \<Rightarrow>
          (case fs_rename dest (dest @ ''.old'') d2 of
             (Some e, d3) \<Rightarrow> (Some (Wrap ''restic: moving the current binary aside: '' e []), d3)
           | (None, d3) \<Rightarrow> put_in_place dest staged d3))"

definition fs_remove_all :: "string \<Rightarrow> string \<Rightarrow> 'b disk \<Rightarrow> 'b disk" where
  "fs_remove_all goos dir d =
     (case disk_step d of (bad, d1) \<Rightarrow>
        if bad then d1 else d1\<lparr>files := (\<lambda>p. if under goos dir p then None else files d1 p)\<rparr>)"

definition make_directory :: "string disk \<Rightarrow> err option \<times> string disk" where
  "make_directory d = (case disk_step d of (bad, d1) \<Rightarrow> (if bad then Some ErrDisk else None, d1))"

text \<open>\<open>tmp\<close> is what \<open>os.MkdirTemp\<close> puts behind its prefix; it makes up a name nothing has.\<close>

definition work_dir :: "runner \<Rightarrow> string \<Rightarrow> string" where
  "work_dir r tmp = join_path (rn_goos r) (rn_dir r) (''.restic-install-'' @ tmp)"

definition stage_restic ::
  "tools \<Rightarrow> pin \<Rightarrow> asset_answer \<Rightarrow> string \<Rightarrow> string \<Rightarrow> string disk \<Rightarrow> err option \<times> string disk" where
  "stage_restic t p a archive staged d =
     (case fetch_asset t (pin_url p) a archive d of
        (Inl e, d1) \<Rightarrow> (Some e, d1)
      | (Inr s, d1) \<Rightarrow>
          if s \<noteq> pin_sha256 p
          then (Some (Sentinel (''restic: REFUSING '' @ pin_asset p @ '' '' @ [CHR 0xE2, CHR 0x80, CHR 0x94] @
            '' it hashes to '' @ s @ '' and the pin says '' @ pin_sha256 p @
            ''. Do not work around this: either the pin is stale (bump it from a signed '' @
            ''upstream SHA256SUMS) or this download was tampered with'')), d1)
          else case extract_asset t p archive staged d1 of
              (Some e, d2) \<Rightarrow> (Some e, d2)
            | (None, d2) \<Rightarrow> smoke_test_restic t staged (pin_version p) d2)"

definition install_restic ::
  "tools \<Rightarrow> runner \<Rightarrow> pin \<Rightarrow> asset_answer \<Rightarrow> string \<Rightarrow> string disk \<Rightarrow> err option \<times> string disk" where
  "install_restic t r p a tmp d =
     (case make_directory d of
        (Some e, d1) \<Rightarrow> (Some (Wrap (''restic: creating '' @ rn_dir r @ '': '') e []), d1)
      | (None, d1) \<Rightarrow>
        (case make_directory d1 of
           (Some e, d2) \<Rightarrow> (Some (Wrap ''restic: making room to download into: '' e []), d2)
         | (None, d2) \<Rightarrow>
           let work = work_dir r tmp;
               archive = join_path (rn_goos r) work (pin_asset p);
               staged = join_path (rn_goos r) work (pin_binary p) in
           (case (case stage_restic t p a archive staged d2 of
                    (Some e, d3) \<Rightarrow> (Some e, d3)
                  | (None, d3) \<Rightarrow> swap_restic (rn_bin r) staged d3) of
              (e, d4) \<Rightarrow> (e, fs_remove_all (rn_goos r) work d4))))"

datatype install_action = ActionAlready | ActionInstalled | ActionReplaced | ActionOverride

record install_outcome =
  io_action :: install_action
  io_from :: string
  io_to :: string
  io_path :: string

definition outcome_text :: "install_outcome \<Rightarrow> string" where
  "outcome_text x =
     (case io_action x of
        ActionAlready \<Rightarrow> ''restic '' @ io_to x @ '' at '' @ io_path x
      | ActionInstalled \<Rightarrow> ''installed restic '' @ io_to x @ '' at '' @ io_path x
      | ActionReplaced \<Rightarrow>
          ''replaced '' @ (if io_from x = [] then ''an unusable binary'' else io_from x) @
            '' with restic '' @ io_to x @ '' at '' @ io_path x
      | ActionOverride \<Rightarrow> ''using the restic configured for this machine: '' @ io_path x)"

definition ensure_pinned ::
  "tools \<Rightarrow> runner \<Rightarrow> asset_answer \<Rightarrow> string \<Rightarrow> string disk \<Rightarrow> install_outcome res \<times> string disk" where
  "ensure_pinned t r a tmp d =
     (if \<not> rn_managed r
      then (Inr \<lparr>io_action = ActionOverride, io_from = [], io_to = [], io_path = rn_bin r\<rparr>, d)
      else case pin_for (rn_goos r) (rn_goarch r) of
          Inl e \<Rightarrow> (Inl e, d)
        | Inr p \<Rightarrow>
          (case installed_version t r d of (v, d1) \<Rightarrow>
            let current = (case v of Inl _ \<Rightarrow> [] | Inr x \<Rightarrow> x) in
            if current = pin_version p
            then (Inr \<lparr>io_action = ActionAlready, io_from = current, io_to = current, io_path = rn_bin r\<rparr>, d1)
            else case (if current \<noteq> [] then (True, d1) else path_exists (rn_bin r) d1) of (there, d2) \<Rightarrow>
              (case install_restic t r p a tmp d2 of
                 (Some e, d3) \<Rightarrow> (Inl e, d3)
               | (None, d3) \<Rightarrow>
                   (case installed_version t r d3 of
                      (Inl e, d4) \<Rightarrow> (Inl e, d4)
                    | (Inr x, d4) \<Rightarrow>
                        (Inr \<lparr>io_action = (if there then ActionReplaced else ActionInstalled),
                          io_from = current, io_to = x, io_path = rn_bin r\<rparr>, d4)))))"

section \<open>What the download amounts to\<close>

text \<open>The executable a download holds, if it is the pinned one: the reference for the steps above.\<close>

definition archive_stream :: "tools \<Rightarrow> pin \<Rightarrow> string \<Rightarrow> stream option" where
  "archive_stream t p bytes =
     (if suffix ''.zip'' (pin_asset p)
      then (case t_unzip t bytes of
          Inl _ \<Rightarrow> None
        | Inr entries \<Rightarrow>
            (case filter (\<lambda>(n, _). suffix ''.exe'' (to_lower n)) entries of
               (_, Inr s) # _ \<Rightarrow> Some s
             | _ \<Rightarrow> None))
      else Some (t_bunzip t bytes))"

definition whole_stream :: "int \<Rightarrow> stream \<Rightarrow> string option" where
  "whole_stream n s = (case copy_limited n s of (b, None) \<Rightarrow> Some b | _ \<Rightarrow> None)"

definition runs_as_pinned :: "tools \<Rightarrow> pin \<Rightarrow> string \<Rightarrow> bool" where
  "runs_as_pinned t p b \<longleftrightarrow> fst (t_run t b) \<and> restic_version_number (trim_space (snd (snd (t_run t b)))) = pin_version p"

definition pinned_build :: "tools \<Rightarrow> pin \<Rightarrow> asset_answer \<Rightarrow> string option" where
  "pinned_build t p a =
     (case a of
        NoAnswer _ \<Rightarrow> None
      | Answer status line body \<Rightarrow>
          if status \<noteq> 200 then None else
          Option.bind (whole_stream max_asset body) (\<lambda>bytes.
          if t_sha t bytes \<noteq> pin_sha256 p then None else
          Option.bind (archive_stream t p bytes) (\<lambda>s.
          Option.bind (whole_stream max_binary s) (\<lambda>b.
          if b \<noteq> [] \<and> runs_as_pinned t p b then Some b else None))))"

lemma copy_to_result:
  assumes "copy_to what p s d = (e, d')"
  shows "\<forall>q. q \<noteq> p \<longrightarrow> files d' q = files d q"
    and "e = None \<Longrightarrow> snd s = None \<and> files d' p = Some (fst s)"
    and "works d \<Longrightarrow> works d' \<and> (e = None \<longleftrightarrow> snd s = None)"
proof -
  obtain x d1 where w: "fs_write [] p (fst s) d = (x, d1)" by fastforce
  show "\<forall>q. q \<noteq> p \<longrightarrow> files d' q = files d q" "e = None \<Longrightarrow> snd s = None \<and> files d' p = Some (fst s)"
    by (rule fs_write_cases [OF w]; use assms w in \<open>auto simp: copy_to_def split: option.splits\<close>)+
  show "works d' \<and> (e = None \<longleftrightarrow> snd s = None)" if "works d"
    using assms that works_ops(5) [OF that, of "[]" p "fst s"]
    by (auto simp: copy_to_def split: option.splits)
qed

lemma fetch_asset_result:
  assumes "fetch_asset t url a dest d = (r, d')"
  shows "\<forall>q. q \<noteq> dest \<longrightarrow> files d' q = files d q"
    and "r = Inr s \<Longrightarrow> \<exists>line body bytes. a = Answer 200 line body \<and> whole_stream max_asset body = Some bytes \<and>
      s = t_sha t bytes \<and> files d' dest = Some bytes"
    and "works d \<Longrightarrow> works d' \<and> (is_ok r \<longleftrightarrow>
      (\<exists>line body bytes. a = Answer 200 line body \<and> whole_stream max_asset body = Some bytes))"
proof -
  have "(\<forall>q. q \<noteq> dest \<longrightarrow> files d' q = files d q) \<and>
      (r = Inr s \<longrightarrow> (\<exists>line body bytes. a = Answer 200 line body \<and> whole_stream max_asset body = Some bytes \<and>
        s = t_sha t bytes \<and> files d' dest = Some bytes)) \<and>
      (works d \<longrightarrow> works d' \<and> (is_ok r \<longleftrightarrow>
        (\<exists>line body bytes. a = Answer 200 line body \<and> whole_stream max_asset body = Some bytes)))"
  proof (cases a)
    case (NoAnswer e)
    then show ?thesis using assms by (auto simp: fetch_asset_def)
  next
    case (Answer status line body)
    obtain e d1 where c: "copy_to (''restic: downloading '' @ url @ '': '') dest (copy_limited max_asset body) d = (e, d1)"
      by fastforce
    note r = copy_to_result [OF c]
    show ?thesis
      using assms Answer c r
      by (cases "copy_limited max_asset body"; cases e; cases "status = 200")
        (auto simp: fetch_asset_def Let_def whole_stream_def split: option.splits)
  qed
  then show "\<forall>q. q \<noteq> dest \<longrightarrow> files d' q = files d q"
    and "r = Inr s \<Longrightarrow> \<exists>line body bytes. a = Answer 200 line body \<and> whole_stream max_asset body = Some bytes \<and>
      s = t_sha t bytes \<and> files d' dest = Some bytes"
    and "works d \<Longrightarrow> works d' \<and> (is_ok r \<longleftrightarrow>
      (\<exists>line body bytes. a = Answer 200 line body \<and> whole_stream max_asset body = Some bytes))" by blast+
qed

lemma write_binary_result:
  assumes "write_binary dest s d = (e, d')"
  shows "\<forall>q. q \<noteq> dest \<longrightarrow> files d' q = files d q"
    and "e = None \<Longrightarrow> \<exists>b. whole_stream max_binary s = Some b \<and> b \<noteq> [] \<and> files d' dest = Some b"
    and "works d \<Longrightarrow> works d' \<and> (e = None \<longleftrightarrow> (\<exists>b. whole_stream max_binary s = Some b \<and> b \<noteq> []))"
proof -
  obtain x d1 where c: "copy_to (''restic: extracting to '' @ dest @ '': '') dest (copy_limited max_binary s) d = (x, d1)"
    by fastforce
  note r = copy_to_result [OF c]
  obtain b y where b: "copy_limited max_binary s = (b, y)" by fastforce
  have "d' = d1" "e = None \<longleftrightarrow> x = None \<and> b \<noteq> []"
    using assms c b by (auto simp: write_binary_def Let_def split: option.splits if_splits)
  then show "\<forall>q. q \<noteq> dest \<longrightarrow> files d' q = files d q"
    and "e = None \<Longrightarrow> \<exists>b. whole_stream max_binary s = Some b \<and> b \<noteq> [] \<and> files d' dest = Some b"
    and "works d \<Longrightarrow> works d' \<and> (e = None \<longleftrightarrow> (\<exists>b. whole_stream max_binary s = Some b \<and> b \<noteq> []))"
    using r b by (auto simp: whole_stream_def split: option.splits)
qed

lemma extract_asset_result:
  assumes "extract_asset t p archive dest d = (e, d')" and "files d archive = Some bytes"
  shows "\<forall>q. q \<noteq> dest \<longrightarrow> files d' q = files d q"
    and "e = None \<Longrightarrow> \<exists>s b. archive_stream t p bytes = Some s \<and> whole_stream max_binary s = Some b \<and> b \<noteq> [] \<and>
      files d' dest = Some b"
    and "works d \<Longrightarrow> works d' \<and> (e = None \<longleftrightarrow>
      (\<exists>s b. archive_stream t p bytes = Some s \<and> whole_stream max_binary s = Some b \<and> b \<noteq> []))"
proof -
  obtain r d1 where 1: "fs_read archive d = (r, d1)" by fastforce
  note f = fs_read_frame [OF 1]
  have w: "works d \<Longrightarrow> r = Inr bytes \<and> d1 = d" using 1 assms(2) works_ops(2) [of d archive] by simp
  have ok: "(\<exists>z. r = Inl z) \<or> r = Inr bytes"
    using 1 assms(2) fs_read_ok [of archive d _ d1] by (cases r) auto
  have x: "(archive_stream t p bytes = None \<and> e \<noteq> None \<and> d' = d1) \<or>
      (\<exists>s. archive_stream t p bytes = Some s \<and> write_binary dest s d1 = (e, d'))" if "r = Inr bytes"
    using assms(1) 1 that
    by (cases "t_bunzip t bytes")
      (auto simp: extract_asset_def extract_zip_def archive_stream_def split: if_splits sum.splits list.splits prod.splits)
  have n: "e \<noteq> None" "d' = d1" if "r = Inl z" for z
    using assms(1) 1 that by (auto simp: extract_asset_def extract_zip_def split: if_splits)
  show "\<forall>q. q \<noteq> dest \<longrightarrow> files d' q = files d q"
    using ok n x f write_binary_result(1) by (metis (no_types, lifting))
  show "\<exists>s b. archive_stream t p bytes = Some s \<and> whole_stream max_binary s = Some b \<and> b \<noteq> [] \<and> files d' dest = Some b"
    if "e = None"
    using that ok n x write_binary_result(2) by blast
  show "works d' \<and> (e = None \<longleftrightarrow>
      (\<exists>s b. archive_stream t p bytes = Some s \<and> whole_stream max_binary s = Some b \<and> b \<noteq> []))" if "works d"
    using w [OF that] x write_binary_result(3) [of dest _ d e d'] that by (metis option.sel option.distinct(1))
qed

lemma run_version_result:
  assumes "run_version t path d = (x, d')"
  shows "files d' = files d" and "fst x \<Longrightarrow> \<exists>b. files d path = Some b \<and> x = t_run t b"
    and "works d \<Longrightarrow> d' = d \<and> x = (case files d path of None \<Rightarrow> (False, [], []) | Some b \<Rightarrow> t_run t b)"
  using assms by (auto simp: run_version_def disk_step_def works_def split: if_splits option.splits)

lemma smoke_test_result:
  assumes "smoke_test_restic t path (pin_version p) d = (e, d')"
  shows "files d' = files d" and "e = None \<Longrightarrow> \<exists>b. files d path = Some b \<and> runs_as_pinned t p b"
    and "works d \<Longrightarrow> files d path = Some b \<Longrightarrow> works d' \<and> (e = None \<longleftrightarrow> runs_as_pinned t p b)"
proof -
  obtain x d1 where 1: "run_version t path d = (x, d1)" by fastforce
  note r = run_version_result [OF 1]
  have e: "d' = d1" "e = None \<longleftrightarrow> fst x \<and> restic_version_number (trim_space (snd (snd x))) = pin_version p"
    using assms 1 by (auto simp: smoke_test_restic_def split: prod.splits if_splits)
  show "files d' = files d" using e r by simp
  show "\<exists>b. files d path = Some b \<and> runs_as_pinned t p b" if "e = None" using that e r by (auto simp: runs_as_pinned_def)
  show "works d' \<and> (e = None \<longleftrightarrow> runs_as_pinned t p b)" if "works d" "files d path = Some b"
    using that e r by (auto simp: runs_as_pinned_def)
qed

lemma stage_result:
  assumes "stage_restic t p a archive staged d = (e, d')"
  shows "\<forall>q. q \<noteq> archive \<and> q \<noteq> staged \<longrightarrow> files d' q = files d q"
    and "e = None \<Longrightarrow> \<exists>b. pinned_build t p a = Some b \<and> files d' staged = Some b"
    and "works d \<Longrightarrow> works d' \<and> (e = None \<longleftrightarrow> pinned_build t p a \<noteq> None)"
proof -
  obtain r d1 where 1: "fetch_asset t (pin_url p) a archive d = (r, d1)" by fastforce
  note f = fetch_asset_result [OF 1]
  have "(\<forall>q. q \<noteq> archive \<and> q \<noteq> staged \<longrightarrow> files d' q = files d q) \<and>
    (e = None \<longrightarrow> (\<exists>b. pinned_build t p a = Some b \<and> files d' staged = Some b)) \<and>
    (works d \<longrightarrow> works d' \<and> (e = None \<longleftrightarrow> pinned_build t p a \<noteq> None))"
  proof (cases r)
    case (Inl z)
    have "pinned_build t p a = None" if "works d"
      using f(3) [OF that] Inl by (auto simp: pinned_build_def split: asset_answer.split bind_splits)
    then show ?thesis using assms 1 Inl f(1,3) by (auto simp: stage_restic_def)
  next
    case (Inr s)
    obtain line body bytes where a: "a = Answer 200 line body" "whole_stream max_asset body = Some bytes"
      "s = t_sha t bytes" "files d1 archive = Some bytes" using f(2) [OF Inr] by blast
    show ?thesis
    proof (cases "s = pin_sha256 p")
      case False
      then show ?thesis using assms 1 Inr a f(1,3) by (auto simp: stage_restic_def pinned_build_def)
    next
      case True
      obtain x d2 where 2: "extract_asset t p archive staged d1 = (x, d2)" by fastforce
      note g = extract_asset_result [OF 2 a(4)]
      show ?thesis
      proof (cases x)
        case (Some z)
        have "pinned_build t p a = None" if "works d1"
          using g(3) [OF that] Some a True by (auto simp: pinned_build_def split: bind_splits)
        then show ?thesis using assms 1 2 Inr True Some f(1,3) g(1,3) by (auto simp: stage_restic_def)
      next
        case None
        obtain st b where b: "archive_stream t p bytes = Some st" "whole_stream max_binary st = Some b" "b \<noteq> []"
          "files d2 staged = Some b" using g(2) [OF None] by blast
        have m: "smoke_test_restic t staged (pin_version p) d2 = (e, d')"
          using assms 1 2 Inr True None by (simp add: stage_restic_def)
        have "pinned_build t p a = (if runs_as_pinned t p b then Some b else None)"
          using a b True by (simp add: pinned_build_def)
        then show ?thesis using smoke_test_result [OF m] b(4) f(1,3) g(1,3) None Inr by auto
      qed
    qed
  qed
  then show "\<forall>q. q \<noteq> archive \<and> q \<noteq> staged \<longrightarrow> files d' q = files d q"
    and "e = None \<Longrightarrow> \<exists>b. pinned_build t p a = Some b \<and> files d' staged = Some b"
    and "works d \<Longrightarrow> works d' \<and> (e = None \<longleftrightarrow> pinned_build t p a \<noteq> None)" by blast+
qed

section \<open>Nothing is lost on the way\<close>

lemma path_exists_result:
  assumes "path_exists p d = (b, d')"
  shows "files d' = files d" and "b \<Longrightarrow> files d p \<noteq> None" and "works d \<Longrightarrow> d' = d \<and> (b \<longleftrightarrow> files d p \<noteq> None)"
proof -
  obtain e d1 where 1: "fs_stat p d = (e, d1)" by fastforce
  note f = fs_stat_frame [OF 1]
  show "files d' = files d" "b \<Longrightarrow> files d p \<noteq> None" using assms 1 f by (auto simp: path_exists_def)
  show "d' = d \<and> (b \<longleftrightarrow> files d p \<noteq> None)" if "works d"
    using assms works_ops(1) [OF that, of p] by (auto simp: path_exists_def split: if_splits)
qed

lemma old_ne [simp]: "dest \<noteq> dest @ ''.old''" "dest @ ''.old'' \<noteq> dest"
  by simp_all

lemma put_in_place_keeps:
  assumes "put_in_place dest staged d = (e, d')" and "files d staged = Some b"
    and "staged \<noteq> dest" and "staged \<noteq> dest @ ''.old''"
  shows "e = None \<Longrightarrow> files d' = (files d)(staged := None, dest \<mapsto> b) \<or>
      files d' = (files d)(staged := None, dest \<mapsto> b, dest @ ''.old'' := None)"
    and "e \<noteq> None \<Longrightarrow> files d' = files d \<or>
      (\<exists>c. files d (dest @ ''.old'') = Some c \<and> files d' = (files d)(dest @ ''.old'' := None, dest \<mapsto> c))"
    and "works d \<Longrightarrow> e = None \<and> works d' \<and> files d' = (files d)(staged := None, dest \<mapsto> b, dest @ ''.old'' := None)"
proof -
  obtain x d1 where 1: "fs_rename staged dest d = (x, d1)" by fastforce
  obtain y d2 where 2: "fs_remove (dest @ ''.old'') d1 = (y, d2)" by fastforce
  obtain z d3 where 3: "fs_rename (dest @ ''.old'') dest d1 = (z, d3)" by fastforce
  obtain w d4 where 4: "path_exists (dest @ ''.old'') d3 = (w, d4)" by fastforce
  have r: "d' = d2 \<and> e = None \<and> x = None \<or> (x \<noteq> None \<and> e \<noteq> None \<and> (d' = d3 \<or> d' = d4))"
    using assms(1) 1 2 3 4 by (auto simp: put_in_place_def split: option.splits bool.splits)
  have f1: "x = None \<Longrightarrow> files d1 = (files d)(staged := None, dest \<mapsto> b)" "x \<noteq> None \<Longrightarrow> files d1 = files d"
    using 1 assms(2) by (cases rule: fs_rename_cases; simp)+
  have f2: "files d2 = files d1 \<or> files d2 = (files d1)(dest @ ''.old'' := None)"
    using 2 by (cases rule: fs_remove_cases) auto
  have f3: "files d3 = files d1 \<or>
      (\<exists>c. files d1 (dest @ ''.old'') = Some c \<and> files d3 = (files d1)(dest @ ''.old'' := None, dest \<mapsto> c))"
    using 3 by (cases rule: fs_rename_cases) auto
  have f4: "files d4 = files d3" using path_exists_result(1) [OF 4] .
  show "files d' = (files d)(staged := None, dest \<mapsto> b) \<or>
      files d' = (files d)(staged := None, dest \<mapsto> b, dest @ ''.old'' := None)" if "e = None"
    using r f1 f2 that by auto
  show "files d' = files d \<or>
      (\<exists>c. files d (dest @ ''.old'') = Some c \<and> files d' = (files d)(dest @ ''.old'' := None, dest \<mapsto> c))" if "e \<noteq> None"
    using r f1 f3 f4 that by auto
  show "e = None \<and> works d' \<and> files d' = (files d)(staged := None, dest \<mapsto> b, dest @ ''.old'' := None)" if "works d"
    using assms that by (auto simp: put_in_place_def works_ops(3,4) fun_eq_iff split: if_splits)
qed

text \<open>What can stand where restic is: what stood there, what stood beside it, or the new build; and when
  nothing stands there, nothing did or it is beside.\<close>

lemma swap_keeps:
  assumes "swap_restic dest staged d = (e, d')" and "staged \<noteq> dest" and "staged \<noteq> dest @ ''.old''"
    and "files d staged = Some b"
  shows "\<forall>q. q \<notin> {dest, dest @ ''.old'', staged} \<longrightarrow> files d' q = files d q"
    and "case files d' dest of
        Some c \<Rightarrow> files d dest = Some c \<or> files d (dest @ ''.old'') = Some c \<or> c = b
      | None \<Rightarrow> files d dest = None \<or> files d' (dest @ ''.old'') = files d dest"
    and "e = None \<Longrightarrow> files d' dest = Some b"
    and "works d \<Longrightarrow> e = None \<and> works d' \<and> files d' = (files d)(staged := None, dest \<mapsto> b, dest @ ''.old'' := None)"
proof -
  let ?old = "dest @ ''.old''"
  obtain x d1 where 1: "fs_remove ?old d = (x, d1)" by fastforce
  obtain there d2 where 2: "path_exists dest d1 = (there, d2)" by fastforce
  obtain y d3 where 3: "fs_rename dest ?old d2 = (y, d3)" by fastforce
  note p = path_exists_result [OF 2]
  have f1: "files d1 = files d \<or> files d1 = (files d)(?old := None)" using 1 by (cases rule: fs_remove_cases) auto
  have f3: "y = None \<Longrightarrow> \<exists>c. files d2 dest = Some c \<and> files d3 = (files d2)(dest := None, ?old \<mapsto> c)"
    "y \<noteq> None \<Longrightarrow> files d3 = files d2" using 3 by (cases rule: fs_rename_cases; simp)+
  have s2: "files d2 staged = Some b" using f1 p assms by auto
  have s3: "files d3 staged = Some b" using f3 s2 assms(2,3) by (cases y) auto
  consider (put) "\<not> there" "put_in_place dest staged d2 = (e, d')"
    | (aside) "there" "y \<noteq> None" "e \<noteq> None" "d' = d3"
    | (both) "there" "y = None" "put_in_place dest staged d3 = (e, d')"
    using assms(1) 1 2 3 by (auto simp: swap_restic_def split: option.splits bool.splits)
  then have "(\<forall>q. q \<notin> {dest, ?old, staged} \<longrightarrow> files d' q = files d q) \<and> (case files d' dest of
        Some c \<Rightarrow> files d dest = Some c \<or> files d ?old = Some c \<or> c = b
      | None \<Rightarrow> files d dest = None \<or> files d' ?old = files d dest) \<and> (e = None \<longrightarrow> files d' dest = Some b)"
  proof cases
    case put
    show ?thesis
      using put_in_place_keeps(1,2) [OF put(2) s2 assms(2,3)] f1 p(1) by (cases e) (auto split: option.split)
  next
    case aside
    then show ?thesis using f1 f3 p by (auto split: option.split)
  next
    case both
    then show ?thesis
      using put_in_place_keeps(1,2) [OF both(3) s3 assms(2,3)] f1 f3(1) p by (cases e) (auto split: option.split)
  qed
  then show "\<forall>q. q \<notin> {dest, ?old, staged} \<longrightarrow> files d' q = files d q" "case files d' dest of
        Some c \<Rightarrow> files d dest = Some c \<or> files d ?old = Some c \<or> c = b
      | None \<Rightarrow> files d dest = None \<or> files d' ?old = files d dest" "e = None \<Longrightarrow> files d' dest = Some b" by blast+
  show "e = None \<and> works d' \<and> files d' = (files d)(staged := None, dest \<mapsto> b, ?old := None)" if w: "works d"
  proof -
    have w1: "works d1" "files d1 = (files d)(?old := None)" using 1 works_ops(3) [OF w, of ?old] w
      by (auto split: if_splits)
    have w2: "d2 = d1" "there \<longleftrightarrow> files d1 dest \<noteq> None" using p(3) [OF w1(1)] by simp_all
    have w3: "there \<Longrightarrow> y = None \<and> works d3 \<and> files d3 = (files d1)(dest := None, ?old := files d1 dest)"
      using 3 w2 works_ops(4) [OF w1(1), of dest ?old] w1(1) by (auto split: option.splits)
    show ?thesis
    proof (cases there)
      case True
      then have "put_in_place dest staged d3 = (e, d')" using assms(1) 1 2 3 w3 by (simp add: swap_restic_def)
      from put_in_place_keeps(3) [OF this s3 assms(2,3)] w3 True w1 show ?thesis by (auto simp: fun_eq_iff)
    next
      case False
      then have "put_in_place dest staged d2 = (e, d')" using assms(1) 1 2 by (simp add: swap_restic_def)
      from put_in_place_keeps(3) [OF this s2 assms(2,3)] w2 w1 show ?thesis by (auto simp: fun_eq_iff)
    qed
  qed
qed

section \<open>An installation as a whole\<close>

definition managed_runner :: "runner \<Rightarrow> pin \<Rightarrow> bool" where
  "managed_runner r p \<longleftrightarrow> rn_managed r \<and> pin_for (rn_goos r) (rn_goarch r) = Inr p \<and>
     rn_bin r = join_path (rn_goos r) (rn_dir r) (pin_binary p)"

lemma resolve_managed:
  assumes "resolve goos goarch look [] dir = Inr r"
  obtains p where "managed_runner r p" "pin_for goos goarch = Inr p" "rn_dir r = dir" "rn_goos r = goos"
  using assms
  by (cases "pin_for goos goarch") (auto simp: resolve_def managed_runner_def on_ok_def split: if_splits)

lemma managed_placed:
  assumes "managed_runner r p"
  shows "\<not> under (rn_goos r) (work_dir r tmp) (rn_bin r)"
    and "\<not> under (rn_goos r) (work_dir r tmp) (rn_bin r @ ''.old'')"
    and "under (rn_goos r) (work_dir r tmp) (join_path (rn_goos r) (work_dir r tmp) x)"
proof -
  have "pin_binary p = ''restic'' \<or> pin_binary p = ''restic.exe''"
    using assms by (auto simp: managed_runner_def pin_for_def Let_def split: option.splits if_splits)
  then have b: "rn_bin r = rn_dir r @ separator (rn_goos r) # pin_binary p" "hd (pin_binary p) = CHR ''r''"
      "pin_binary p \<noteq> []"
    using assms by (auto simp: managed_runner_def join_path_def separator_def backslash_def)
  have w: "work_dir r tmp = rn_dir r @ separator (rn_goos r) # ''.restic-install-'' @ tmp"
    by (simp add: work_dir_def join_path_def separator_def backslash_def)
  have "\<not> prefix (work_dir r tmp) (rn_bin r @ s)" for s
    using b by (cases "pin_binary p") (auto simp: w prefix_def)
  from this [of "[]"] this [of "''.old''"]
  show "\<not> under (rn_goos r) (work_dir r tmp) (rn_bin r)" "\<not> under (rn_goos r) (work_dir r tmp) (rn_bin r @ ''.old'')"
    by (auto simp: under_def prefix_def)
  show "under (rn_goos r) (work_dir r tmp) (join_path (rn_goos r) (work_dir r tmp) x)"
    by (auto simp: under_def join_path_def prefix_def)
qed

lemma make_directory_frame:
  assumes "make_directory d = (e, d')"
  shows "files d' = files d" "works d \<Longrightarrow> e = None \<and> d' = d"
  using assms by (auto simp: make_directory_def disk_step_def works_def split: if_splits)

text \<open>The three ways an installation ends: before it wrote, before the swap and after it.\<close>

lemma restic_install_cases:
  assumes "install_restic t r p a tmp d = (e, d')" and "managed_runner r p"
  obtains (early) "e \<noteq> None" "files d' = files d" "\<not> works d"
  | (staging) archive staged d2 d3 where "files d2 = files d" "works d \<Longrightarrow> d2 = d"
      "stage_restic t p a archive staged d2 = (e, d3)" "e \<noteq> None" "d' = fs_remove_all (rn_goos r) (work_dir r tmp) d3"
      "under (rn_goos r) (work_dir r tmp) archive" "under (rn_goos r) (work_dir r tmp) staged"
  | (swapping) archive staged d2 d3 d4 where "files d2 = files d" "works d \<Longrightarrow> d2 = d"
      "stage_restic t p a archive staged d2 = (None, d3)" "swap_restic (rn_bin r) staged d3 = (e, d4)"
      "d' = fs_remove_all (rn_goos r) (work_dir r tmp) d4"
      "under (rn_goos r) (work_dir r tmp) archive" "under (rn_goos r) (work_dir r tmp) staged"
      "staged \<noteq> rn_bin r" "staged \<noteq> rn_bin r @ ''.old''"
proof -
  let ?archive = "join_path (rn_goos r) (work_dir r tmp) (pin_asset p)"
  let ?staged = "join_path (rn_goos r) (work_dir r tmp) (pin_binary p)"
  note u = managed_placed [OF assms(2)]
  have ne: "?staged \<noteq> rn_bin r" "?staged \<noteq> rn_bin r @ ''.old''" using u by metis+
  obtain x d1 where 1: "make_directory d = (x, d1)" by fastforce
  obtain y d2 where 2: "make_directory d1 = (y, d2)" by fastforce
  note f = make_directory_frame [OF 1] make_directory_frame [OF 2]
  obtain z d3 where 3: "stage_restic t p a ?archive ?staged d2 = (z, d3)" by fastforce
  obtain w d4 where 4: "swap_restic (rn_bin r) ?staged d3 = (w, d4)" by fastforce
  show thesis
  proof (cases "x = None \<and> y = None")
    case False
    then have "e \<noteq> None \<and> files d' = files d \<and> \<not> works d"
      using assms(1) 1 2 f by (cases x; cases y) (auto simp: install_restic_def)
    then show ?thesis using early by blast
  next
    case True
    show ?thesis
    proof (cases z)
      case None
      then have "e = w" "d' = fs_remove_all (rn_goos r) (work_dir r tmp) d4"
        using assms(1) True 1 2 3 4 by (simp_all add: install_restic_def Let_def)
      then show ?thesis using swapping [of d2 ?archive ?staged d3 d4] None 3 4 f u ne by auto
    next
      case (Some q)
      then have "e = z" "d' = fs_remove_all (rn_goos r) (work_dir r tmp) d3"
        using assms(1) True 1 2 3 by (simp_all add: install_restic_def Let_def)
      then show ?thesis using staging [of d2 ?archive ?staged d3] Some 3 f u by auto
    qed
  qed
qed

lemma fs_remove_all_frame: "\<not> under g dir q \<Longrightarrow> files (fs_remove_all g dir d) q = files d q"
  by (simp add: fs_remove_all_def disk_step_def)

lemma fs_remove_all_works:
  "works d \<Longrightarrow> works (fs_remove_all g dir d) \<and>
    files (fs_remove_all g dir d) = (\<lambda>q. if under g dir q then None else files d q)"
  by (simp add: fs_remove_all_def works_step)

lemma install_keeps:
  assumes "install_restic t r p a tmp d = (e, d')" and "managed_runner r p"
  shows "(\<forall>q. q \<notin> {rn_bin r, rn_bin r @ ''.old''} \<and> \<not> under (rn_goos r) (work_dir r tmp) q \<longrightarrow> files d' q = files d q) \<and>
    (case files d' (rn_bin r) of
       Some c \<Rightarrow> files d (rn_bin r) = Some c \<or> files d (rn_bin r @ ''.old'') = Some c \<or> pinned_build t p a = Some c
     | None \<Rightarrow> files d (rn_bin r) = None \<or> files d' (rn_bin r @ ''.old'') = files d (rn_bin r)) \<and>
    (e = None \<longrightarrow> pinned_build t p a \<noteq> None \<and> files d' (rn_bin r) = pinned_build t p a)"
  using assms
proof (cases rule: restic_install_cases)
  case early
  then show ?thesis by (auto split: option.split)
next
  case (staging archive staged d2 d3)
  have "files d' q = files d q" if "\<not> under (rn_goos r) (work_dir r tmp) q" for q
    using that staging(1,5,6,7) stage_result(1) [OF staging(3)] by (metis fs_remove_all_frame)
  then show ?thesis using managed_placed(1,2) [OF assms(2), of tmp] staging(4) by (auto split: option.split)
next
  case (swapping archive staged d2 d3 d4)
  obtain b where b: "pinned_build t p a = Some b" "files d3 staged = Some b"
    using stage_result(2) [OF swapping(3)] by blast
  note s = swap_keeps [OF swapping(4,8,9) b(2)]
  have 3: "files d3 q = files d q" if "\<not> under (rn_goos r) (work_dir r tmp) q" for q
    using that swapping(1,6,7) stage_result(1) [OF swapping(3)] by (metis (no_types))
  have 4: "files d' q = files d4 q" if "\<not> under (rn_goos r) (work_dir r tmp) q" for q
    using that swapping(5) by (simp add: fs_remove_all_frame)
  have "files d' q = files d q" if "q \<notin> {rn_bin r, rn_bin r @ ''.old''}" "\<not> under (rn_goos r) (work_dir r tmp) q" for q
  proof -
    have "q \<noteq> staged" using that(2) swapping(7) by metis
    then show ?thesis using that s(1) 3 4 by simp
  qed
  moreover have "files d3 (rn_bin r) = files d (rn_bin r)" "files d3 (rn_bin r @ ''.old'') = files d (rn_bin r @ ''.old'')"
    "files d' (rn_bin r) = files d4 (rn_bin r)" "files d' (rn_bin r @ ''.old'') = files d4 (rn_bin r @ ''.old'')"
    using 3 4 managed_placed(1,2) [OF assms(2), of tmp] by simp_all
  ultimately show ?thesis using s(2,3) b(1) by (cases "files d4 (rn_bin r)") auto
qed


lemma installed_version_result:
  assumes "installed_version t r d = (v, d')"
  shows "files d' = files d" and "v = Inr n \<Longrightarrow> \<exists>b. files d (rn_bin r) = Some b \<and> fst (t_run t b) \<and>
      n \<noteq> [] \<and> restic_version_number (trim_space (fst (snd (t_run t b)))) = n"
proof -
  obtain x d1 where 1: "run_version t (rn_bin r) d = (x, d1)" by fastforce
  note f = run_version_result(1,2) [OF 1]
  obtain ran_ok out both where x: "x = (ran_ok, out, both)" by (cases x)
  have v: "d' = d1" "v = Inr n \<Longrightarrow> ran_ok \<and> n \<noteq> [] \<and> restic_version_number (trim_space out) = n"
    using assms 1 x by (auto simp: installed_version_def Let_def split: if_splits)
  show "files d' = files d" using v f by simp
  show "\<exists>b. files d (rn_bin r) = Some b \<and> fst (t_run t b) \<and> n \<noteq> [] \<and>
      restic_version_number (trim_space (fst (snd (t_run t b)))) = n" if "v = Inr n"
  proof -
    have n: "ran_ok" "n \<noteq> []" "restic_version_number (trim_space out) = n" using v(2) [OF that] by simp_all
    then obtain b where "files d (rn_bin r) = Some b" "x = t_run t b" using f(2) x by auto
    moreover from this(2) have "t_run t b = (ran_ok, out, both)" using x by simp
    ultimately show ?thesis using n by (intro exI [of _ b]) simp
  qed
qed

text \<open>C32: whatever fails while the pinned restic is put in place, the machine is not left with less than it
  had. Only two paths and the room beside them are touched. What stands in restic's place afterwards is what
  stood there, the one kept beside it, or a build that was asset_answer whole, has the pinned hash and ran; if
  nothing stands there, nothing did or what did is kept beside it. When the call reports success, the binary
  there runs and reports the version that is returned, and that is the pinned one where nothing was done.\<close>

theorem restic_is_never_lost:
  assumes "resolve goos goarch look [] dir = Inr r" and "ensure_pinned t r a tmp d = (x, d')"
  shows "\<exists>p. pin_for goos goarch = Inr p \<and>
    (\<forall>q. q \<notin> {rn_bin r, rn_bin r @ ''.old''} \<and> \<not> under goos (work_dir r tmp) q \<longrightarrow> files d' q = files d q) \<and>
    (case files d' (rn_bin r) of
       Some c \<Rightarrow> files d (rn_bin r) = Some c \<or> files d (rn_bin r @ ''.old'') = Some c \<or> pinned_build t p a = Some c
     | None \<Rightarrow> files d (rn_bin r) = None \<or> files d' (rn_bin r @ ''.old'') = files d (rn_bin r)) \<and>
    (\<forall>y. x = Inr y \<longrightarrow> (\<exists>b. files d' (rn_bin r) = Some b \<and> fst (t_run t b) \<and>
       restic_version_number (trim_space (fst (snd (t_run t b)))) = io_to y \<and>
       (if io_action y = ActionAlready then files d' = files d \<and> io_to y = PinnedVersion
        else pinned_build t p a = Some b)))"
proof -
  obtain p where r: "managed_runner r p" "pin_for goos goarch = Inr p" "rn_goos r = goos"
    by (rule resolve_managed [OF assms(1)])
  have m: "rn_managed r" "pin_for (rn_goos r) (rn_goarch r) = Inr p" using r(1) by (simp_all add: managed_runner_def)
  have pv: "pin_version p = PinnedVersion" "PinnedVersion \<noteq> []"
    using r(2) by (auto simp: pin_for_def PinnedVersion_def Let_def split: option.splits if_splits)
  obtain v d1 where 1: "installed_version t r d = (v, d1)" by fastforce
  define current where "current = (case v of Inl _ \<Rightarrow> [] | Inr x \<Rightarrow> x)"
  obtain there d2 where 2: "(if current \<noteq> [] then (True, d1) else path_exists (rn_bin r) d1) = (there, d2)" by fastforce
  obtain e d3 where 3: "install_restic t r p a tmp d2 = (e, d3)" by fastforce
  obtain w d4 where 4: "installed_version t r d3 = (w, d4)" by fastforce
  have f1: "files d1 = files d" "files d4 = files d3"
    using installed_version_result(1) [OF 1] installed_version_result(1) [OF 4] by simp_all
  moreover have "files d2 = files d1"
  proof (cases "current = []")
    case True
    then show ?thesis using 2 path_exists_result(1) [of "rn_bin r" d1] by simp
  qed (use 2 in simp)
  ultimately have f: "files d1 = files d" "files d2 = files d" "files d4 = files d3" by simp_all
  have step: "(x, d') = (if current = pin_version p
      then (Inr \<lparr>io_action = ActionAlready, io_from = current, io_to = current, io_path = rn_bin r\<rparr>, d1)
      else case e of Some z \<Rightarrow> (Inl z, d3)
        | None \<Rightarrow> (case w of Inl z \<Rightarrow> (Inl z, d4)
          | Inr n \<Rightarrow> (Inr \<lparr>io_action = (if there then ActionReplaced else ActionInstalled), io_from = current,
              io_to = n, io_path = rn_bin r\<rparr>, d4)))"
    unfolding assms(2) [symmetric] using m 2
    by (simp add: ensure_pinned_def 1 Let_def current_def [symmetric] 3 4 split: option.split sum.split)
  show ?thesis
  proof (cases "current = pin_version p")
    case True
    then have "v = Inr current" using pv by (auto simp: current_def split: sum.splits)
    from installed_version_result(2) [OF 1 this] obtain b where "files d (rn_bin r) = Some b" "fst (t_run t b)"
      "restic_version_number (trim_space (fst (snd (t_run t b)))) = current" by blast
    moreover have "x = Inr \<lparr>io_action = ActionAlready, io_from = current, io_to = current, io_path = rn_bin r\<rparr>" "d' = d1"
      using step True by simp_all
    moreover have "current = PinnedVersion" using True pv by simp
    ultimately show ?thesis using r(2) f(1) by (intro exI [of _ p] conjI allI impI) simp_all
  next
    case False
    note k = install_keeps [OF 3 r(1)]
    have d': "files d' = files d3" using step False f(3) by (auto split: option.splits sum.splits)
    have y: "\<exists>b. files d' (rn_bin r) = Some b \<and> fst (t_run t b) \<and>
       restic_version_number (trim_space (fst (snd (t_run t b)))) = io_to y \<and> io_action y \<noteq> ActionAlready \<and>
       pinned_build t p a = Some b" if "x = Inr y" for y
    proof -
      have "e = None" "w = Inr (io_to y)" "io_action y \<noteq> ActionAlready"
        using step False that by (auto split: option.splits sum.splits)
      moreover obtain b where "files d3 (rn_bin r) = Some b" "fst (t_run t b)"
        "restic_version_number (trim_space (fst (snd (t_run t b)))) = io_to y"
        using installed_version_result(2) [OF 4 calculation(2)] by blast
      ultimately show ?thesis using k d' by (intro exI [of _ b]) simp
    qed
    have "\<forall>y. x = Inr y \<longrightarrow> (\<exists>b. files d' (rn_bin r) = Some b \<and> fst (t_run t b) \<and>
       restic_version_number (trim_space (fst (snd (t_run t b)))) = io_to y \<and>
       (if io_action y = ActionAlready then files d' = files d \<and> io_to y = PinnedVersion
        else pinned_build t p a = Some b))" using y by (metis (no_types, lifting))
    moreover note k [unfolded f(2) r(3), folded d']
    ultimately show ?thesis using r(2) by (intro exI [of _ p] conjI) simp_all
  qed
qed

section \<open>Examples\<close>

definition sample_tools :: tools where
  "sample_tools =
     \<lparr>t_sha = (\<lambda>b. if b = ''A'' then ''f415415624dcc452f2a02b8c33641791a8c6d6d3b65bbb3543fcf9a25151585c'' else []),
      t_bunzip = (\<lambda>b. (''B'', None)), t_unzip = (\<lambda>_. Inr []),
      t_run = (\<lambda>b. if b = ''B'' then (True, ''restic 0.19.1 compiled with go'', ''restic 0.19.1 compiled with go'')
        else (True, ''restic 0.14.0'', ''restic 0.14.0''))\<rparr>"

definition sample_runner :: runner where
  "sample_runner = \<lparr>rn_goos = ''linux'', rn_goarch = ''amd64'', rn_dir = ''/b'', rn_bin = ''/b/restic'', rn_managed = True\<rparr>"

definition sample_answer :: asset_answer where
  "sample_answer = Answer 200 ''200 OK'' (''A'', None)"

definition restic_disk :: "faults \<Rightarrow> string disk" where
  "restic_disk fs = \<lparr>files = [''/b/restic'' \<mapsto> ''old''], disk_faults = fs\<rparr>"

lemma sample_resolve: "resolve ''linux'' ''amd64'' look [] ''/b'' = Inr sample_runner"
proof -
  have "resolve ''linux'' ''amd64'' (\<lambda>_. Inl ErrNoPin) [] ''/b'' = Inr sample_runner" by code_simp
  then show ?thesis by (simp add: resolve_def)
qed

text \<open>A version before the pinned one, found by asking it, and replaced.\<close>

lemma sample_replaced:
  "case ensure_pinned sample_tools sample_runner sample_answer ''1'' (restic_disk []) of (x, d) \<Rightarrow>
     (case x of Inr y \<Rightarrow> io_action y = ActionReplaced \<and> io_from y = ''0.14.0'' | _ \<Rightarrow> False) \<and>
     files d ''/b/restic'' = Some ''B''"
  by code_simp

theorem restic_is_never_lost_witness:
  "\<exists>b. files (snd (ensure_pinned sample_tools sample_runner sample_answer ''1'' (restic_disk []))) ''/b/restic'' = Some b \<and>
     fst (t_run sample_tools b)"
proof -
  obtain x d' where 1: "ensure_pinned sample_tools sample_runner sample_answer ''1'' (restic_disk []) = (x, d')" by fastforce
  obtain y where y: "x = Inr y" using sample_replaced 1 by (auto split: sum.splits)
  show ?thesis using restic_is_never_lost [OF sample_resolve 1] y 1 by (auto simp: sample_runner_def)
qed


end
