(* ===== verification/GoPath.thy ===== *)
theory GoPath
  imports GoText
begin

text \<open>
  \<open>path/filepath\<close> of the Go library on a Unix: cleaning, joining, relative paths and the patterns of
  \<open>filepath.Match\<close>. On Windows the volume of a path is a thing of its own; what the program does with
  paths there is not modelled by the theories that use this one.
\<close>

section \<open>Cleaning and joining\<close>

definition slash :: char where
  "slash = CHR ''/''"

definition is_abs :: "string \<Rightarrow> bool" where
  "is_abs p \<longleftrightarrow> prefix [slash] p"

text \<open>One element of a path on the stack of those before it.\<close>

definition clean_step :: "bool \<Rightarrow> string list \<Rightarrow> string \<Rightarrow> string list" where
  "clean_step rooted st c =
     (if c = ''..'' then
        if st \<noteq> [] \<and> last st \<noteq> ''..'' then butlast st
        else if rooted then st else st @ [c]
      else st @ [c])"

definition elements :: "string \<Rightarrow> string list" where
  "elements p = filter (\<lambda>c. c \<noteq> [] \<and> c \<noteq> ''.'') (split_on slash p)"

definition clean_elements :: "string \<Rightarrow> string list" where
  "clean_elements p = foldl (clean_step (is_abs p)) [] (elements p)"

definition clean_path :: "string \<Rightarrow> string" where
  "clean_path p =
     (let cs = clean_elements p in
      if is_abs p then slash # join_with [slash] cs
      else if cs = [] then ''.'' else join_with [slash] cs)"

definition path_join :: "string list \<Rightarrow> string" where
  "path_join ps =
     (let qs = filter (\<lambda>p. p \<noteq> []) ps in if qs = [] then [] else clean_path (join_with [slash] qs))"

definition base_name :: "string \<Rightarrow> string" where
  "base_name p =
     (if p = [] then ''.''
      else let q = rev (dropWhile (\<lambda>c. c = slash) (rev p)) in
        if q = [] then [slash] else rev (takeWhile (\<lambda>c. c \<noteq> slash) (rev q)))"

section \<open>From one path to another\<close>

fun strip_common :: "string list \<Rightarrow> string list \<Rightarrow> string list \<times> string list" where
  "strip_common (b # bs) (t # ts) = (if b = t then strip_common bs ts else (b # bs, t # ts))"
| "strip_common bs ts = (bs, ts)"

definition rel_path :: "string \<Rightarrow> string \<Rightarrow> string option" where
  "rel_path base targ =
     (if clean_path base = clean_path targ then Some ''.''
      else if is_abs base \<noteq> is_abs targ then None
      else case strip_common (clean_elements base) (clean_elements targ) of
          ([], ts) \<Rightarrow> Some (join_with [slash] ts)
        | (b # bs, ts) \<Rightarrow>
            if b = ''..'' then None
            else Some (join_with [slash] (replicate (Suc (length bs)) ''..'' @ ts)))"

section \<open>Patterns\<close>

text \<open>The letters of a text that is valid UTF-8; anything else is the replacement letter.\<close>

definition cont_bits :: "char \<Rightarrow> nat" where
  "cont_bits c = (of_char c :: nat) mod 64"

fun runes :: "string \<Rightarrow> nat list" where
  "runes [] = []"
| "runes (a # s) =
     (let n = (of_char a :: nat) in
      if n < 128 then n # runes s
      else if 192 \<le> n \<and> n < 224 then
        (case s of b # s' \<Rightarrow> ((n - 192) * 64 + cont_bits b) # runes s' | _ \<Rightarrow> [65533])
      else if 224 \<le> n \<and> n < 240 then
        (case s of b # c # s' \<Rightarrow> (((n - 224) * 64 + cont_bits b) * 64 + cont_bits c) # runes s' | _ \<Rightarrow> [65533])
      else if 240 \<le> n then
        (case s of b # c # d # s' \<Rightarrow>
           ((((n - 240) * 64 + cont_bits b) * 64 + cont_bits c) * 64 + cont_bits d) # runes s' | _ \<Rightarrow> [65533])
      else 65533 # runes s)"

text \<open>
  Letters that mean something in a pattern: \<open>*\<close> is 42, \<open>-\<close> 45, \<open>/\<close> 47, \<open>?\<close> 63, \<open>[\<close> 91, \<open>\\<close> 92, \<open>]\<close> 93
  and \<open>^\<close> 94. A pattern that is malformed matches nothing.
\<close>

fun get_esc :: "nat list \<Rightarrow> (nat \<times> nat list) option" where
  "get_esc [] = None"
| "get_esc (c # cs) =
     (if c = 45 \<or> c = 93 then None
      else if c = 92 then (case cs of r # rest \<Rightarrow> if rest = [] then None else Some (r, rest) | [] \<Rightarrow> None)
      else if cs = [] then None else Some (c, cs))"

lemma get_esc_shorter: "get_esc cs = Some (r, rest) \<Longrightarrow> length rest < length cs \<and> rest \<noteq> []"
  by (cases cs) (auto split: if_splits list.splits)

text \<open>The ranges of a class up to its bracket: whether the letter is in one, and what comes after.\<close>

function class_ranges :: "nat \<Rightarrow> bool \<Rightarrow> bool \<Rightarrow> nat list \<Rightarrow> (bool \<times> nat list) option" where
  "class_ranges r seen found chunk =
     (if seen \<and> chunk \<noteq> [] \<and> hd chunk = 93 then Some (found, tl chunk)
      else case get_esc chunk of
          None \<Rightarrow> None
        | Some (lo, rest) \<Rightarrow>
            if hd rest = 45 then
              (case get_esc (tl rest) of
                 None \<Rightarrow> None
               | Some (hi, rest2) \<Rightarrow> class_ranges r True (found \<or> lo \<le> r \<and> r \<le> hi) rest2)
            else class_ranges r True (found \<or> lo = r) rest)"
  by pat_completeness auto
termination
proof (relation "measure (\<lambda>(_, _, _, c). length c)", goal_cases)
  case 1
  then show ?case by simp
next
  case (2 r seen found chunk a lo rest a2 hi rest2)
  then have "length rest < length chunk" "length rest2 < length (tl rest)"
    using get_esc_shorter [of chunk lo rest] get_esc_shorter [of "tl rest" hi rest2] by auto
  then have "length rest2 < length chunk" unfolding length_tl by linarith
  then show ?case by simp
next
  case (3 r seen found chunk a lo rest)
  then show ?case using get_esc_shorter [of chunk lo rest] by simp
qed

declare class_ranges.simps [simp del]

lemma class_ranges_shorter:
  "class_ranges r seen found chunk = Some (b, rest) \<Longrightarrow> length rest < length chunk"
proof (induction r seen found chunk arbitrary: b rest rule: class_ranges.induct)
  case (1 r seen found chunk)
  show ?case
  proof (cases "seen \<and> chunk \<noteq> [] \<and> hd chunk = 93")
    case True
    then show ?thesis using "1.prems" by (subst (asm) class_ranges.simps) auto
  next
    case False
    obtain lo r1 where g: "get_esc chunk = Some (lo, r1)"
      using "1.prems" False by (subst (asm) class_ranges.simps) (auto split: option.splits)
    note s = get_esc_shorter [OF g]
    show ?thesis
    proof (cases "hd r1 = 45")
      case True
      obtain hi r2 where h: "get_esc (tl r1) = Some (hi, r2)"
        and c: "class_ranges r True (found \<or> lo \<le> r \<and> r \<le> hi) r2 = Some (b, rest)"
        using "1.prems" False g True by (subst (asm) class_ranges.simps) (auto split: option.splits)
      have "length rest < length r2" using "1.IH"(1) [OF False g refl True h refl c] .
      then show ?thesis using s get_esc_shorter [OF h] unfolding length_tl by linarith
    next
      case n: False
      have "class_ranges r True (found \<or> lo = r) r1 = Some (b, rest)"
        using "1.prems" False g n by (subst (asm) class_ranges.simps) auto
      from "1.IH"(2) [OF False g refl n this] show ?thesis using s by simp
    qed
  qed
qed

function match_chunk :: "nat list \<Rightarrow> nat list \<Rightarrow> nat list option" where
  "match_chunk chunk s =
     (case chunk of
        [] \<Rightarrow> Some s
      | c # cs \<Rightarrow>
          (case s of
             [] \<Rightarrow> None
           | r # rs \<Rightarrow>
               if c = 91 then
                 (let negated = (cs \<noteq> [] \<and> hd cs = 94);
                      body = (if negated then tl cs else cs) in
                  (case class_ranges r False False body of
                     None \<Rightarrow> None
                   | Some (found, rest) \<Rightarrow> if found = negated then None else match_chunk rest rs))
               else if c = 63 then (if r = 47 then None else match_chunk cs rs)
               else if c = 92 then
                 (case cs of [] \<Rightarrow> None | q # qs \<Rightarrow> if q = r then match_chunk qs rs else None)
               else if c = r then match_chunk cs rs else None))"
  by pat_completeness auto
termination by (relation "measure (\<lambda>(_, s). length s)") auto

declare match_chunk.simps [simp del]

fun scan_chunk :: "bool \<Rightarrow> nat list \<Rightarrow> nat list \<times> nat list" where
  "scan_chunk inr [] = ([], [])"
| "scan_chunk inr [c] = (if c = 42 \<and> \<not> inr then ([], [c]) else ([c], []))"
| "scan_chunk inr (c # d # cs) =
     (if c = 42 \<and> \<not> inr then ([], c # d # cs)
      else if c = 92 then (case scan_chunk inr cs of (a, b) \<Rightarrow> (c # d # a, b))
      else case scan_chunk (if c = 91 then True else if c = 93 then False else inr) (d # cs) of
          (a, b) \<Rightarrow> (c # a, b))"

lemma scan_chunk_length: "length (snd (scan_chunk inr p)) \<le> length p"
  by (induction inr p rule: scan_chunk.induct) (auto split: prod.splits)

lemma scan_chunk_shorter:
  assumes "p \<noteq> []" and "hd p \<noteq> 42"
  shows "length (snd (scan_chunk inr p)) < length p"
  using assms scan_chunk_length
  by (cases "(inr, p)" rule: scan_chunk.cases) (auto split: prod.splits simp: less_Suc_eq_le intro: le_SucI dest: sym,
    (metis scan_chunk_length snd_conv le_SucI length_Cons)+)

text \<open>Where a chunk after a star fits first; the last one must reach the end of the name.\<close>

fun skip_match :: "bool \<Rightarrow> nat list \<Rightarrow> nat list \<Rightarrow> nat list option" where
  "skip_match final chunk [] = None"
| "skip_match final chunk (r # rs) =
     (if r = 47 then None
      else case match_chunk chunk rs of
          Some t \<Rightarrow> if final \<and> t \<noteq> [] then skip_match final chunk rs else Some t
        | None \<Rightarrow> skip_match final chunk rs)"

function glob_match :: "nat list \<Rightarrow> nat list \<Rightarrow> bool" where
  "glob_match p s =
     (if p = [] then s = []
      else let q = dropWhile (\<lambda>c. c = 42) p; star = (hd p = 42); (chunk, rest) = scan_chunk False q in
        if star \<and> chunk = [] then 47 \<notin> set s
        else case (case match_chunk chunk s of
                 Some t \<Rightarrow> if t = [] \<or> rest \<noteq> [] then Some t
                   else if star then skip_match (rest = []) chunk s else None
               | None \<Rightarrow> if star then skip_match (rest = []) chunk s else None) of
            None \<Rightarrow> False
          | Some t \<Rightarrow> glob_match rest t)"
  by pat_completeness auto
termination
proof (relation "measure (\<lambda>(p, _). length p)", goal_cases)
  case 1
  then show ?case by simp
next
  case (2 p s q star x chunk rest t)
  then have r: "rest = snd (scan_chunk False (dropWhile (\<lambda>c. c = 42) p))" by (metis snd_conv)
  show ?case
  proof (cases "hd p = 42")
    case True
    then have "length (dropWhile (\<lambda>c. c = 42) p) < length p" using 2(1)
      by (cases p) (auto simp: less_Suc_eq_le length_dropWhile_le)
    then show ?thesis using r scan_chunk_length [of False "dropWhile (\<lambda>c. c = 42) p"] by simp
  next
    case False
    then have "dropWhile (\<lambda>c. c = 42) p = p" using 2(1) by (cases p) auto
    then show ?thesis using r 2(1) False scan_chunk_shorter [of p False] by simp
  qed
qed

declare glob_match.simps [simp del]

definition path_match :: "string \<Rightarrow> string \<Rightarrow> bool" where
  "path_match pattern name = glob_match (runes pattern) (runes name)"

end
