(* ===== verification/Dirsize.thy ===== *)
theory Dirsize
  imports GoPath
begin

text \<open>
  How big a folder is: \<open>foundation/dirsize/dirsize.go\<close>. A directory is a tree; the walk visits it the way
  \<open>filepath.WalkDir\<close> does, every entry once and a directory whose listing failed a second time, with the
  error. A regular file whose size cannot be asked for is \<open>VanishedFile\<close>; \<open>OtherEntry\<close> is a link, a device
  and the like. Whether the context is cancelled is asked at every visit and is given by the number of the
  visit. How long the walk took is left out. Sizes are added without wrap-around.
\<close>

section \<open>What is left out\<close>

type_synonym matcher = "string list"

definition excludes_matcher :: "string list \<Rightarrow> matcher" where
  "excludes_matcher patterns = map clean_path (filter (\<lambda>p. p \<noteq> []) (map trim_space patterns))"

definition pattern_matches :: "string \<Rightarrow> string \<Rightarrow> bool" where
  "pattern_matches p path =
     (if is_abs p then path = p \<or> prefix (p @ [slash]) path
      else if slash \<in> set p then path_match p path \<or> suffix (slash # p) path
      else path_match p (base_name path))"

definition matcher_match :: "matcher \<Rightarrow> string \<Rightarrow> bool" where
  "matcher_match m path = list_ex (\<lambda>p. pattern_matches p path) m"

section \<open>The walk\<close>

datatype node = RegularFile nat | VanishedFile | OtherEntry | Folder "(string \<times> node) list" bool

fun is_folder :: "node \<Rightarrow> bool" where
  "is_folder (Folder _ _) = True"
| "is_folder _ = False"

record size_result =
  sr_bytes :: int
  sr_files :: int
  sr_excluded :: int
  sr_unreadable :: int
  sr_partial :: bool

definition no_size :: size_result where
  "no_size = \<lparr>sr_bytes = 0, sr_files = 0, sr_excluded = 0, sr_unreadable = 0, sr_partial = False\<rparr>"

record walk_options =
  wo_excludes :: "string list"
  wo_larger :: int
  wo_max :: int

definition DefaultMaxEntries :: int where
  "DefaultMaxEntries = 2000000"

definition progress_every :: int where
  "progress_every = 20000"

record walk_env =
  wn_matcher :: matcher
  wn_larger :: int
  wn_max :: int
  wn_cancelled :: "int \<Rightarrow> bool"

record walker =
  wk_seen :: int
  wk_result :: size_result
  wk_told :: "size_result list"

datatype walk_signal = GoOn | SkipDir | SkipAll

definition visit :: "walk_env \<Rightarrow> string \<Rightarrow> string \<Rightarrow> node \<Rightarrow> bool \<Rightarrow> walker \<Rightarrow> walk_signal \<times> walker" where
  "visit c origin path d failed w =
     (let r = wk_result w in
      if wn_cancelled c (wk_seen w) then (SkipAll, w\<lparr>wk_result := r\<lparr>sr_partial := True\<rparr>\<rparr>)
      else let w1 = w\<lparr>wk_seen := wk_seen w + 1\<rparr> in
        if wk_seen w1 > wn_max c then (SkipAll, w1\<lparr>wk_result := r\<lparr>sr_partial := True\<rparr>\<rparr>)
        else let w2 = (if wk_seen w1 mod progress_every = 0 then w1\<lparr>wk_told := wk_told w1 @ [r]\<rparr> else w1) in
          if failed then (GoOn, w2\<lparr>wk_result := r\<lparr>sr_unreadable := sr_unreadable r + 1\<rparr>\<rparr>)
          else if path \<noteq> origin \<and> matcher_match (wn_matcher c) path
          then (if is_folder d then SkipDir else GoOn, w2\<lparr>wk_result := r\<lparr>sr_excluded := sr_excluded r + 1\<rparr>\<rparr>)
          else (case d of
              Folder _ _ \<Rightarrow> (GoOn, w2)
            | OtherEntry \<Rightarrow> (GoOn, w2)
            | VanishedFile \<Rightarrow> (GoOn, w2\<lparr>wk_result := r\<lparr>sr_unreadable := sr_unreadable r + 1\<rparr>\<rparr>)
            | RegularFile n \<Rightarrow>
                if wn_larger c > 0 \<and> int n \<ge> wn_larger c
                then (GoOn, w2\<lparr>wk_result := r\<lparr>sr_excluded := sr_excluded r + 1\<rparr>\<rparr>)
                else (GoOn, w2\<lparr>wk_result := r\<lparr>sr_files := sr_files r + 1, sr_bytes := sr_bytes r + int n\<rparr>\<rparr>)))"

text \<open>\<open>filepath.WalkDir\<close>: whether the walk was stopped for good is handed up.\<close>

fun walk_node :: "walk_env \<Rightarrow> string \<Rightarrow> string \<Rightarrow> node \<Rightarrow> walker \<Rightarrow> bool \<times> walker"
  and walk_entries :: "walk_env \<Rightarrow> string \<Rightarrow> string \<Rightarrow> (string \<times> node) list \<Rightarrow> walker \<Rightarrow> bool \<times> walker" where
  "walk_node c origin path d w =
     (case visit c origin path d False w of
        (SkipAll, w1) \<Rightarrow> (True, w1)
      | (SkipDir, w1) \<Rightarrow> (False, w1)
      | (GoOn, w1) \<Rightarrow>
          (case d of
             Folder es failed \<Rightarrow>
               if failed then
                 (case visit c origin path d True w1 of
                    (SkipAll, w2) \<Rightarrow> (True, w2)
                  | (SkipDir, w2) \<Rightarrow> (False, w2)
                  | (GoOn, w2) \<Rightarrow> walk_entries c origin path es w2)
               else walk_entries c origin path es w1
           | _ \<Rightarrow> (False, w1)))"
| "walk_entries c origin path [] w = (False, w)"
| "walk_entries c origin path ((n, d) # es) w =
     (case walk_node c origin (path_join [path, n]) d w of
        (True, w1) \<Rightarrow> (True, w1)
      | (False, w1) \<Rightarrow> walk_entries c origin path es w1)"

declare walk_node.simps [simp del]

text \<open>The trees the roots stand for; a root that is not there has none.\<close>

type_synonym forest = "string \<Rightarrow> node option"

fun walk_roots :: "walk_env \<Rightarrow> forest \<Rightarrow> string list \<Rightarrow> walker \<Rightarrow> walker" where
  "walk_roots c fs [] w = w"
| "walk_roots c fs (origin # roots) w =
     (if sr_partial (wk_result w) then w
      else walk_roots c fs roots
        (case fs origin of None \<Rightarrow> w | Some d \<Rightarrow> snd (walk_node c origin origin d w)))"

definition walk_env_of :: "walk_options \<Rightarrow> (int \<Rightarrow> bool) \<Rightarrow> walk_env" where
  "walk_env_of opts cancelled =
     \<lparr>wn_matcher = excludes_matcher (wo_excludes opts), wn_larger = wo_larger opts,
      wn_max = (if wo_max opts \<le> 0 then DefaultMaxEntries else wo_max opts), wn_cancelled = cancelled\<rparr>"

definition walk_sizes :: "walk_options \<Rightarrow> (int \<Rightarrow> bool) \<Rightarrow> forest \<Rightarrow> string list \<Rightarrow> size_result \<times> size_result list" where
  "walk_sizes opts cancelled fs roots =
     (let w = walk_roots (walk_env_of opts cancelled) fs roots \<lparr>wk_seen = 0, wk_result = no_size, wk_told = []\<rparr>
      in (wk_result w, wk_told w))"

section \<open>What is there to count\<close>

text \<open>The sizes of the files a backup would take, without any walk: the reference.\<close>

fun kept_sizes :: "matcher \<Rightarrow> int \<Rightarrow> string \<Rightarrow> string \<Rightarrow> node \<Rightarrow> nat list"
  and kept_entries :: "matcher \<Rightarrow> int \<Rightarrow> string \<Rightarrow> string \<Rightarrow> (string \<times> node) list \<Rightarrow> nat list" where
  "kept_sizes m larger origin path d =
     (if path \<noteq> origin \<and> matcher_match m path then []
      else (case d of
          RegularFile n \<Rightarrow> if larger > 0 \<and> int n \<ge> larger then [] else [n]
        | Folder es _ \<Rightarrow> kept_entries m larger origin path es
        | _ \<Rightarrow> []))"
| "kept_entries m larger origin path [] = []"
| "kept_entries m larger origin path ((n, d) # es) =
     kept_sizes m larger origin (path_join [path, n]) d @ kept_entries m larger origin path es"

declare kept_sizes.simps [simp del]

text \<open>How many visits a walk that is not stopped makes.\<close>

fun visits_of :: "matcher \<Rightarrow> string \<Rightarrow> string \<Rightarrow> node \<Rightarrow> nat"
  and visits_entries :: "matcher \<Rightarrow> string \<Rightarrow> string \<Rightarrow> (string \<times> node) list \<Rightarrow> nat" where
  "visits_of m origin path d =
     (if path \<noteq> origin \<and> matcher_match m path then 1
      else (case d of Folder es failed \<Rightarrow> (if failed then 2 else 1) + visits_entries m origin path es | _ \<Rightarrow> 1))"
| "visits_entries m origin path [] = 0"
| "visits_entries m origin path ((n, d) # es) =
     visits_of m origin (path_join [path, n]) d + visits_entries m origin path es"

declare visits_of.simps [simp del]

definition all_kept :: "walk_options \<Rightarrow> forest \<Rightarrow> string list \<Rightarrow> nat list" where
  "all_kept opts fs roots = concat (map (\<lambda>origin. case fs origin of None \<Rightarrow> []
     | Some d \<Rightarrow> kept_sizes (excludes_matcher (wo_excludes opts)) (wo_larger opts) origin origin d) roots)"

definition all_visits :: "walk_options \<Rightarrow> forest \<Rightarrow> string list \<Rightarrow> nat" where
  "all_visits opts fs roots = sum_list (map (\<lambda>origin. case fs origin of None \<Rightarrow> 0
     | Some d \<Rightarrow> visits_of (excludes_matcher (wo_excludes opts)) origin origin d) roots)"


section \<open>The walk counts what there is\<close>

text \<open>
  What a stretch of a walk does to the figures: \<open>k\<close> are the sizes it should add and \<open>v\<close> the visits it
  should make. Either it does all of it, or it was stopped on the way and has added no more.
\<close>

definition counted :: "walk_env \<Rightarrow> nat list \<Rightarrow> nat \<Rightarrow> walker \<Rightarrow> bool \<Rightarrow> walker \<Rightarrow> bool" where
  "counted c k v w stop w' \<longleftrightarrow>
     (if stop then sr_partial (wk_result w') \<and> ((\<exists>n. wn_cancelled c n) \<or> wn_max c < wk_seen w + int v)
      else sr_partial (wk_result w') = sr_partial (wk_result w) \<and> wk_seen w' = wk_seen w + int v \<and>
        sr_files (wk_result w') = sr_files (wk_result w) + int (length k) \<and>
        sr_bytes (wk_result w') = sr_bytes (wk_result w) + int (sum_list k)) \<and>
     sr_files (wk_result w') \<le> sr_files (wk_result w) + int (length k) \<and>
     sr_bytes (wk_result w') \<le> sr_bytes (wk_result w) + int (sum_list k)"

lemma counted_trans:
  assumes "counted c k1 v1 w False w1" and "counted c k2 v2 w1 stop w2"
  shows "counted c (k1 @ k2) (v1 + v2) w stop w2"
  using assms by (auto simp: counted_def split: if_splits)

lemma counted_stop:
  assumes "counted c k1 v1 w True w1"
  shows "counted c (k1 @ k2) (v1 + v2) w True w1"
  using assms by (auto simp: counted_def)

lemma visit_counted:
  assumes "visit c origin path d failed w = (s, w')"
  shows "s = SkipAll \<Longrightarrow> counted c k (Suc v) w True w'"
    and "s \<noteq> SkipAll \<Longrightarrow> failed \<Longrightarrow> s = GoOn \<and> counted c [] 1 w False w'"
    and "s \<noteq> SkipAll \<Longrightarrow> \<not> failed \<Longrightarrow> path \<noteq> origin \<and> matcher_match (wn_matcher c) path \<Longrightarrow>
      s = (if is_folder d then SkipDir else GoOn) \<and> counted c [] 1 w False w'"
    and "s \<noteq> SkipAll \<Longrightarrow> \<not> failed \<Longrightarrow> \<not> (path \<noteq> origin \<and> matcher_match (wn_matcher c) path) \<Longrightarrow>
      s = GoOn \<and> counted c (case d of RegularFile n \<Rightarrow> if wn_larger c > 0 \<and> int n \<ge> wn_larger c then [] else [n] | _ \<Rightarrow> []) 1 w False w'"
  using assms
  by (auto simp: visit_def counted_def Let_def split: if_splits node.splits)

lemma walk_counted:
  "walk_node c origin path d w = (stop, w') \<Longrightarrow>
    counted c (kept_sizes (wn_matcher c) (wn_larger c) origin path d) (visits_of (wn_matcher c) origin path d) w stop w'"
  "walk_entries c origin path es w = (stop, w') \<Longrightarrow>
    counted c (kept_entries (wn_matcher c) (wn_larger c) origin path es) (visits_entries (wn_matcher c) origin path es) w stop w'"
proof (induction c origin path d w and c origin path es w arbitrary: stop w' and stop w'
    rule: walk_node_walk_entries.induct)
  case (1 c origin path d w)
  let ?k = "kept_sizes (wn_matcher c) (wn_larger c) origin path d"
  let ?v = "visits_of (wn_matcher c) origin path d"
  obtain s w1 where v: "visit c origin path d False w = (s, w1)" by fastforce
  note vc = visit_counted [OF v]
  have pos: "\<exists>u. ?v = Suc u" by (subst visits_of.simps) (auto split: node.split)
  show ?case
  proof (cases "s = SkipAll")
    case True
    then have "stop" "w' = w1" using "1.prems" v by (simp_all add: walk_node.simps)
    then show ?thesis using pos vc(1) [OF True] by auto
  next
    case s: False
    show ?thesis
    proof (cases "path \<noteq> origin \<and> matcher_match (wn_matcher c) path")
      case True
      have k: "?k = []" "?v = 1" using True by (simp_all add: kept_sizes.simps visits_of.simps)
      have "stop = False" "w' = w1"
        using "1.prems" v vc(3) [OF s _ True] by (cases d; simp add: walk_node.simps)+
      then show ?thesis using vc(3) [OF s _ True] k by simp
    next
      case kept: False
      have g: "s = GoOn" using vc(4) [OF s _ kept] by simp
      show ?thesis
      proof (cases d)
        case (Folder es failed)
        have w1: "counted c [] 1 w False w1" using vc(4) [OF s _ kept] Folder by simp
        have k: "?k = kept_entries (wn_matcher c) (wn_larger c) origin path es"
          "?v = (if failed then 2 else 1) + visits_entries (wn_matcher c) origin path es"
          using kept Folder by (auto simp: kept_sizes.simps visits_of.simps)
        show ?thesis
        proof (cases failed)
          case False
          have "walk_entries c origin path es w1 = (stop, w')" using "1.prems" v g Folder False by (simp add: walk_node.simps)
          from "1.IH"(2) [OF v [symmetric] g Folder _ this] False
          have "counted c ([] @ kept_entries (wn_matcher c) (wn_larger c) origin path es)
              (1 + visits_entries (wn_matcher c) origin path es) w stop w'"
            by (intro counted_trans [OF w1]) simp
          then show ?thesis using k False by simp
        next
          case True
          obtain s2 w2 where v2: "visit c origin path d True w1 = (s2, w2)" by fastforce
          note vc2 = visit_counted [OF v2]
          show ?thesis
          proof (cases "s2 = SkipAll")
            case skip: True
            then have "stop" "w' = w2" using "1.prems" v g Folder True v2 by (simp_all add: walk_node.simps)
            moreover have "counted c ([] @ ?k) (1 + Suc (visits_entries (wn_matcher c) origin path es)) w True w2"
              by (rule counted_trans [OF w1 vc2(1) [OF skip]])
            ultimately show ?thesis using k True by simp
          next
            case skip: False
            then have g2: "s2 = GoOn" "counted c [] 1 w1 False w2" using vc2(2) by simp_all
            have "walk_entries c origin path es w2 = (stop, w')"
              using "1.prems" v g Folder True v2 g2 by (simp add: walk_node.simps)
            from "1.IH"(1) [OF v [symmetric] g Folder True v2 [symmetric] g2(1) this]
            have "counted c ([] @ [] @ kept_entries (wn_matcher c) (wn_larger c) origin path es)
                (1 + (1 + visits_entries (wn_matcher c) origin path es)) w stop w'"
              by (intro counted_trans [OF w1] counted_trans [OF g2(2)])
            then show ?thesis using k True by simp
          qed
        qed
      qed (use "1.prems" v g kept vc(4) [OF s _ kept] in
          \<open>auto simp: walk_node.simps kept_sizes.simps visits_of.simps split: if_splits\<close>)
    qed
  qed
next
  case (2 c origin path w)
  then show ?case by (simp add: counted_def)
next
  case (3 c origin path n d es w)
  obtain s w1 where 1: "walk_node c origin (path_join [path, n]) d w = (s, w1)" by fastforce
  note c1 = "3.IH"(1) [OF 1]
  show ?case
  proof (cases s)
    case True
    then show ?thesis using "3.prems" 1 counted_stop c1 by auto
  next
    case False
    then have "walk_entries c origin path es w1 = (stop, w')" using "3.prems" 1 by simp
    from "3.IH"(2) [OF 1 [symmetric] _ this] c1 False show ?thesis by (auto intro: counted_trans)
  qed
qed

lemma walk_roots_counted:
  assumes "\<not> sr_partial (wk_result w)"
  shows "counted c (concat (map (\<lambda>r. case fs r of None \<Rightarrow> [] | Some d \<Rightarrow> kept_sizes (wn_matcher c) (wn_larger c) r r d) roots))
      (sum_list (map (\<lambda>r. case fs r of None \<Rightarrow> 0 | Some d \<Rightarrow> visits_of (wn_matcher c) r r d) roots))
      w (sr_partial (wk_result (walk_roots c fs roots w))) (walk_roots c fs roots w)"
  using assms
proof (induction roots arbitrary: w)
  case Nil
  then show ?case by (simp add: counted_def)
next
  case (Cons r roots)
  show ?case
  proof (cases "fs r")
    case None
    then show ?thesis using Cons by simp
  next
    case (Some d)
    obtain stop w1 where 1: "walk_node c r r d w = (stop, w1)" by fastforce
    note c1 = walk_counted(1) [OF 1]
    show ?thesis
    proof (cases stop)
      case True
      then have p: "sr_partial (wk_result w1)" using c1 by (simp add: counted_def)
      then have "walk_roots c fs roots w1 = w1" by (cases roots) simp_all
      then show ?thesis using Cons.prems Some 1 p counted_stop c1 True by simp
    next
      case False
      then have "\<not> sr_partial (wk_result w1)" using c1 Cons.prems by (simp add: counted_def)
      from Cons.IH [OF this] Cons.prems Some 1 c1 False show ?thesis by (auto intro: counted_trans)
    qed
  qed
qed


text \<open>A tree counted by hand: a limit, a glob, a folder left out and one that could not be listed.\<close>

lemma sample_walk:
  "fst (walk_sizes \<lparr>wo_excludes = [''*.iso'', ''/h/.cache''], wo_larger = 100, wo_max = 0\<rparr> (\<lambda>_. False)
     (\<lambda>r. if r = ''/h'' then Some (Folder
        [(''.cache'', Folder [(''x'', RegularFile 50)] False), (''a'', RegularFile 7), (''b.iso'', RegularFile 9),
         (''big'', RegularFile 100), (''d'', Folder [(''c'', RegularFile 5)] True), (''l'', OtherEntry)] False)
      else None) [''/h'', ''/none'']) =
   \<lparr>sr_bytes = 12, sr_files = 2, sr_excluded = 3, sr_unreadable = 1, sr_partial = False\<rparr>"
  by code_simp

end
