(* ===== verification/Survey.thy ===== *)
theory Survey
  imports Dirsize Errors
begin

text \<open>
  What a machine could back up, how big it is and what it is told about it:
  \<open>business/domain/survey/surveybus\<close>. The folders that are offered and their junk are \<open>folders.go\<close> and
  \<open>junk.go\<close>, the check of a list somebody typed is \<open>roots.go\<close>, and the measuring that goes on behind a
  page that refreshes itself is \<open>surveybus.go\<close>. Paths are those of a Unix. The texts that are only shown
  are left out, except for what is wrong with a folder.
\<close>

section \<open>Folders\<close>

definition StylePersonal :: string where
  "StylePersonal = ''personal''"

definition StyleHome :: string where
  "StyleHome = ''home''"

definition StyleCustom :: string where
  "StyleCustom = ''custom''"

record choice =
  ch_style :: string
  ch_roots :: "string list"

definition xdg_wanted :: "string list" where
  "xdg_wanted = [''XDG_DOCUMENTS_DIR'', ''XDG_DESKTOP_DIR'', ''XDG_PICTURES_DIR'', ''XDG_MUSIC_DIR'', ''XDG_VIDEOS_DIR'']"

definition dquote :: char where
  "dquote = CHR 0x22"

definition xdg_line :: "string \<Rightarrow> string \<Rightarrow> (string \<times> string) option" where
  "xdg_line home raw =
     (let line = trim_space raw in
      if prefix ''#'' line then None
      else case cut (CHR ''='') line of
          None \<Rightarrow> None
        | Some (key, v0) \<Rightarrow>
            let v = trim_left_set {dquote} (trim_right_set {dquote} (trim_space v0)) in
            if v = ''$HOME'' \<or> v = ''$HOME/'' then None
            else if prefix ''$HOME/'' v
            then Some (trim_space key, path_join [home, trim_prefix ''$HOME/'' v])
            else if \<not> is_abs v then None
            else Some (trim_space key, v))"

definition xdg_found :: "string \<Rightarrow> string list \<Rightarrow> string \<Rightarrow> string" where
  "xdg_found home ls = foldl (\<lambda>m l. case xdg_line home l of None \<Rightarrow> m | Some (k, v) \<Rightarrow> m(k := v)) (\<lambda>_. []) ls"

definition xdg_user_dirs :: "string \<Rightarrow> string option \<Rightarrow> string list" where
  "xdg_user_dirs home file_text =
     (case file_text of
        None \<Rightarrow> []
      | Some t \<Rightarrow> filter (\<lambda>d. d \<noteq> []) (map (xdg_found home (scanned_lines t)) xdg_wanted))"

definition personal_folders :: "string \<Rightarrow> string \<Rightarrow> string option \<Rightarrow> string list" where
  "personal_folders goos home user_dirs =
     (let dirs = (if goos = ''linux'' then xdg_user_dirs home user_dirs else []) in
      if dirs \<noteq> [] then dirs
      else map (\<lambda>n. path_join [home, n]) [''Documents'', ''Desktop'', ''Pictures'', ''Music'', ''Videos''])"

text \<open>The home directory if it can be found, what its list of folders says, and which folders are there.\<close>

definition choices :: "string \<Rightarrow> string option \<Rightarrow> string option \<Rightarrow> (string \<Rightarrow> bool) \<Rightarrow> choice list" where
  "choices goos home_dir user_dirs is_dir =
     (case home_dir of
        None \<Rightarrow> []
      | Some home \<Rightarrow>
          if home = [] then []
          else let personal = filter is_dir (personal_folders goos home user_dirs) in
            (if personal \<noteq> [] then [\<lparr>ch_style = StylePersonal, ch_roots = personal\<rparr>] else []) @
            [\<lparr>ch_style = StyleHome, ch_roots = [home]\<rparr>])"

section \<open>Junk\<close>

definition under_home :: "string \<Rightarrow> string list \<Rightarrow> string" where
  "under_home home parts = (if home = [] then [] else path_join (home # parts))"

definition junk_excludes :: "string \<Rightarrow> string \<Rightarrow> string list" where
  "junk_excludes goos home =
     filter (\<lambda>s. s \<noteq> [])
       ([''*.iso'', ''*.vmdk'', ''*.vdi'', ''*.vhd'', ''*.vhdx'', ''*.qcow2'', ''node_modules'', ''__pycache__'',
         ''.Trash'', ''Trash''] @
        (if goos = ''windows'' then
           [''$RECYCLE.BIN'', ''pagefile.sys'', ''hiberfil.sys'', ''swapfile.sys'',
            under_home home [''AppData'', ''Local'', ''Temp''],
            under_home home [''AppData'', ''Local'', ''Microsoft'', ''Windows'', ''INetCache''],
            under_home home [''AppData'', ''Local'', ''Microsoft'', ''Windows'', ''Explorer''],
            under_home home [''AppData'', ''Local'', ''Packages''],
            under_home home [''Downloads'']]
         else if goos = ''darwin'' then
           [under_home home [''Library'', ''Caches''],
            under_home home [''Library'', ''Application Support'', ''Steam''],
            under_home home [''Library'', ''Developer'', ''Xcode'', ''DerivedData''],
            under_home home [''Downloads'']]
         else
           [under_home home [''.cache''],
            under_home home [''.local'', ''share'', ''Trash''],
            under_home home [''.local'', ''share'', ''Steam''],
            under_home home [''.var'', ''app''],
            under_home home [''snap''],
            under_home home [''Downloads'']]))"

definition without_junk :: "string list \<Rightarrow> string list \<Rightarrow> string list" where
  "without_junk junk excludes = filter (\<lambda>e. e \<notin> set junk) excludes"

definition has_junk :: "string list \<Rightarrow> string list \<Rightarrow> bool" where
  "has_junk junk excludes \<longleftrightarrow> junk \<noteq> [] \<and> list_all (\<lambda>j. j \<in> set excludes) junk"

section \<open>A list somebody typed\<close>

text \<open>What the system says of a path, and of opening and listing it.\<close>

datatype stat_answer = StatNotExist | StatPermission | StatError string | StatFolder | StatRegular | StatOther

record probe_fs =
  pf_stat :: "string \<Rightarrow> stat_answer"
  pf_opens :: "string \<Rightarrow> bool"
  pf_lists :: "string \<Rightarrow> bool"

record trouble =
  tr_path :: string
  tr_why :: string

definition check_root :: "probe_fs \<Rightarrow> string \<Rightarrow> string" where
  "check_root fs path =
     (if \<not> is_abs path
      then ''is not a full path '' @ [CHR 0xE2, CHR 0x80, CHR 0x94] @
        '' it has to start from the top, like /home or C:'' @ [backslash]
      else case pf_stat fs path of
          StatNotExist \<Rightarrow> ''is not on this computer''
        | StatPermission \<Rightarrow> ''cannot be reached: a folder above it is not readable by this account''
        | StatError e \<Rightarrow> ''cannot be looked at: '' @ e
        | StatFolder \<Rightarrow>
            if \<not> pf_opens fs path then ''cannot be read by this account''
            else if \<not> pf_lists fs path then ''cannot be listed by this account'' else []
        | StatRegular \<Rightarrow> if \<not> pf_opens fs path then ''cannot be read by this account'' else []
        | StatOther \<Rightarrow> ''is not a folder'')"

definition check_roots :: "probe_fs \<Rightarrow> string list \<Rightarrow> trouble list" where
  "check_roots fs roots =
     concat (map (\<lambda>r. let p = trim_space r in
       if p = [] then [] else let why = check_root fs p in
         if why = [] then [] else [\<lparr>tr_path = p, tr_why = why\<rparr>]) roots)"

definition has_separator :: "string \<Rightarrow> bool" where
  "has_separator pattern \<longleftrightarrow> slash \<in> set pattern \<or> backslash \<in> set pattern"

definition inside :: "string \<Rightarrow> string \<Rightarrow> bool" where
  "inside origin path =
     (case rel_path (clean_path origin) (clean_path path) of
        None \<Rightarrow> False
      | Some rel \<Rightarrow> rel \<noteq> ''..'' \<and> \<not> prefix (''..'' @ [slash]) rel)"

definition excludes_for :: "string list \<Rightarrow> string list \<Rightarrow> string list" where
  "excludes_for roots excludes =
     filter (\<lambda>p. \<not> has_separator p \<or> \<not> is_abs p \<or> list_ex (\<lambda>r. inside r p) roots) excludes"

section \<open>Measuring\<close>

datatype survey_state = StateUnmeasured | StateMeasuring | StateMeasured | StateFailed

record sizing =
  sz_state :: survey_state
  sz_result :: size_result
  sz_shape :: string

definition unmeasured :: sizing where
  "unmeasured = \<lparr>sz_state = StateUnmeasured, sz_result = no_size, sz_shape = []\<rparr>"

definition sizing_known :: "sizing \<Rightarrow> bool" where
  "sizing_known s \<longleftrightarrow> sz_state s = StateMeasuring \<or> sz_state s = StateMeasured"

text \<open>A probe's result is its own domain's; here it is a rate that is there or an error.\<close>

datatype 'r upload = Upload survey_state "'r option" string

definition shape_of :: "choice \<Rightarrow> string list \<Rightarrow> int \<Rightarrow> string" where
  "shape_of c excludes larger =
     concat (map (\<lambda>ls. concat (map (\<lambda>i. i @ [CHR 0x00]) ls) @ ''|'') [ch_roots c, excludes]) @ itoa larger"

definition order_choices :: "choice list \<Rightarrow> string list \<Rightarrow> choice list" where
  "order_choices cs custom =
     (if custom = [] then cs else \<lparr>ch_style = StyleCustom, ch_roots = custom\<rparr> # cs)"

fun same_roots_from :: "string list \<Rightarrow> string list \<Rightarrow> bool" where
  "same_roots_from have_left [] = True"
| "same_roots_from have_left (s # ss) =
     (if clean_path s \<in> set have_left then same_roots_from (remove1 (clean_path s) have_left) ss else False)"

definition same_roots :: "string list \<Rightarrow> string list \<Rightarrow> bool" where
  "same_roots a b = (if length a \<noteq> length b then False else same_roots_from (map clean_path a) b)"

definition style_of :: "choice list \<Rightarrow> string list \<Rightarrow> string" where
  "style_of cs targets =
     (if targets = [] then []
      else case filter (\<lambda>c. same_roots (ch_roots c) targets) cs of c # _ \<Rightarrow> ch_style c | [] \<Rightarrow> StyleCustom)"

text \<open>
  The state behind the page. \<open>sv_work\<close> is the walk that is going on, if there is one: the choices it has
  still to measure, the one it is at first, with the excludes and the limit it was started with.
\<close>

record 'r survey =
  sv_choices :: "choice list"
  sv_sizes :: "string \<rightharpoonup> sizing"
  sv_work :: "(choice list \<times> string list \<times> int) option"
  sv_upload :: "'r upload"
  sv_probing :: bool
  sv_has_probe :: bool

definition new_survey :: "choice list \<Rightarrow> bool \<Rightarrow> 'r survey" where
  "new_survey cs has_probe =
     \<lparr>sv_choices = cs, sv_sizes = Map.empty, sv_work = None,
      sv_upload = Upload StateUnmeasured None [], sv_probing = False, sv_has_probe = has_probe\<rparr>"

definition sizing_of :: "'r survey \<Rightarrow> string \<Rightarrow> sizing" where
  "sizing_of s st = (case sv_sizes s st of None \<Rightarrow> unmeasured | Some z \<Rightarrow> z)"

definition stale :: "'r survey \<Rightarrow> string list \<Rightarrow> int \<Rightarrow> choice \<Rightarrow> bool" where
  "stale s excludes larger c =
     (case sv_sizes s (ch_style c) of
        None \<Rightarrow> True
      | Some z \<Rightarrow> sz_shape z \<noteq> shape_of c excludes larger \<or> sz_state z = StateFailed)"

definition set_size :: "choice \<Rightarrow> sizing \<Rightarrow> 'r survey \<Rightarrow> 'r survey" where
  "set_size c z s = s\<lparr>sv_sizes := (sv_sizes s)(ch_style c \<mapsto> z)\<rparr>"

definition survey_measure :: "string list \<Rightarrow> string list \<Rightarrow> int \<Rightarrow> 'r survey \<Rightarrow> 'r survey" where
  "survey_measure custom excludes larger s =
     (if sv_work s \<noteq> None then s
      else let todo = filter (stale s excludes larger) (order_choices (sv_choices s) custom) in
        if todo = [] then s
        else foldl (\<lambda>t c. set_size c \<lparr>sz_state = StateMeasuring, sz_result = no_size,
            sz_shape = shape_of c excludes larger\<rparr> t) (s\<lparr>sv_work := Some (todo, excludes, larger)\<rparr>) todo)"

text \<open>What the walk does meanwhile: it says how far it is, finishes a choice, or is cancelled.\<close>

definition work_progress :: "size_result \<Rightarrow> 'r survey \<Rightarrow> 'r survey" where
  "work_progress r s =
     (case sv_work s of
        Some (c # cs, excludes, larger) \<Rightarrow>
          set_size c \<lparr>sz_state = StateMeasuring, sz_result = r, sz_shape = shape_of c excludes larger\<rparr> s
      | _ \<Rightarrow> s)"

definition work_finish :: "size_result \<Rightarrow> 'r survey \<Rightarrow> 'r survey" where
  "work_finish r s =
     (case sv_work s of
        Some (c # cs, excludes, larger) \<Rightarrow>
          (set_size c \<lparr>sz_state = StateMeasured, sz_result = r, sz_shape = shape_of c excludes larger\<rparr> s)
            \<lparr>sv_work := (if cs = [] then None else Some (cs, excludes, larger))\<rparr>
      | _ \<Rightarrow> s)"

definition work_cancel :: "'r survey \<Rightarrow> 'r survey" where
  "work_cancel s = s\<lparr>sv_work := None\<rparr>"

definition survey_probe :: "'r survey \<Rightarrow> 'r survey" where
  "survey_probe s =
     (if sv_probing s \<or> \<not> sv_has_probe s then s
      else s\<lparr>sv_probing := True, sv_upload := Upload StateMeasuring None []\<rparr>)"

definition probe_done :: "string + 'r \<Rightarrow> 'r survey \<Rightarrow> 'r survey" where
  "probe_done x s =
     (if \<not> sv_probing s then s
      else s\<lparr>sv_probing := False,
        sv_upload := (case x of Inl e \<Rightarrow> Upload StateFailed None e | Inr r \<Rightarrow> Upload StateMeasured (Some r) [])\<rparr>)"

fun upload_state :: "'r upload \<Rightarrow> survey_state" where
  "upload_state (Upload st r e) = st"

definition probe_once :: "'r survey \<Rightarrow> 'r survey" where
  "probe_once s = (if upload_state (sv_upload s) \<noteq> StateUnmeasured then s else survey_probe s)"

definition remeasure_sizes :: "'r survey \<Rightarrow> 'r survey" where
  "remeasure_sizes s = (if sv_work s \<noteq> None then s else s\<lparr>sv_sizes := Map.empty\<rparr>)"

section \<open>Clean paths\<close>

lemma split_on_parts: "x \<in> set (split_on c s) \<Longrightarrow> c \<notin> set x"
proof (induction s arbitrary: x)
  case (Cons a s)
  obtain y ys where "split_on c s = y # ys" by (cases "split_on c s") auto
  then show ?case using Cons by (auto split: if_splits)
qed simp

lemma elements_ok: "c \<in> set (elements p) \<Longrightarrow> c \<noteq> [] \<and> c \<noteq> ''.'' \<and> slash \<notin> set c"
  by (auto simp: elements_def dest: split_on_parts)

definition plain_element :: "string \<Rightarrow> bool" where
  "plain_element c \<longleftrightarrow> c \<noteq> [] \<and> c \<noteq> ''.'' \<and> slash \<notin> set c \<and> c \<noteq> ''..''"

lemma clean_fold_ok:
  assumes "\<forall>c\<in>set cs. c = ''..'' \<or> plain_element c" and "\<forall>c\<in>set st. plain_element c"
  shows "\<forall>c\<in>set (foldl (clean_step True) st cs). plain_element c"
  using assms
proof (induction cs arbitrary: st)
  case (Cons c cs)
  have "clean_step True st c = (if c = ''..'' then (if st \<noteq> [] \<and> last st \<noteq> ''..'' then butlast st else st) else st @ [c])"
    by (simp only: clean_step_def if_True)
  then have "\<forall>x\<in>set (clean_step True st c). plain_element x"
    using Cons.prems by (simp only: split: if_split) (auto dest: in_set_butlastD)
  then show ?case using Cons.IH Cons.prems(1) by (simp only: foldl_Cons list.set_intros ball_simps set_simps insert_iff) blast
qed simp

lemma clean_elements_abs:
  "is_abs p \<Longrightarrow> \<forall>c\<in>set (clean_elements p). plain_element c"
proof -
  assume "is_abs p"
  moreover have "\<forall>c\<in>set (elements p). c = ''..'' \<or> plain_element c"
    using elements_ok unfolding plain_element_def by blast
  ultimately show ?thesis using clean_fold_ok [of "elements p" "[]"] by (simp add: clean_elements_def)
qed

lemma clean_step_plain:
  "\<forall>c\<in>set cs. plain_element c \<Longrightarrow> foldl (clean_step True) st cs = st @ cs"
  by (induction cs arbitrary: st) (simp_all add: clean_step_def plain_element_def)

lemma clean_clean:
  assumes "is_abs p"
  shows "is_abs (clean_path p)" "clean_elements (clean_path p) = clean_elements p"
proof -
  let ?cs = "clean_elements p"
  note ok = clean_elements_abs [OF assms]
  have c: "clean_path p = slash # join_with [slash] ?cs" using assms by (simp add: clean_path_def)
  then show a: "is_abs (clean_path p)" by (simp add: is_abs_def)
  have "elements (clean_path p) = ?cs"
  proof (cases "?cs = []")
    case False
    then have "split_on slash (join_with [slash] ?cs) = ?cs" using ok by (intro split_on_join) (auto simp: plain_element_def)
    then show ?thesis using c ok split_on_append [of slash "[]"] by (simp add: elements_def filter_id_conv plain_element_def)
  qed (simp add: c elements_def)
  then show "clean_elements (clean_path p) = ?cs"
    using a ok clean_step_plain [of ?cs "[]"] by (simp add: clean_elements_def)
qed

lemma strip_common_spec:
  "strip_common b t = (bs, ts) \<Longrightarrow> \<exists>pre. b = pre @ bs \<and> t = pre @ ts \<and> (bs = [] \<or> ts = [] \<or> hd bs \<noteq> hd ts)"
proof (induction b t rule: strip_common.induct)
  case (1 b bs' t ts')
  show ?case
  proof (cases "b = t")
    case True
    then have "strip_common bs' ts' = (bs, ts)" using 1 by simp
    then obtain pre where "bs' = pre @ bs" "ts' = pre @ ts" "bs = [] \<or> ts = [] \<or> hd bs \<noteq> hd ts" using 1 True by blast
    then show ?thesis using True by (intro exI [of _ "b # pre"]) simp
  next
    case False
    then show ?thesis using 1 by (intro exI [of _ "[]"]) auto
  qed
qed auto

lemma prefix_iff_stripped:
  assumes "strip_common b t = (bs, ts)"
  shows "prefix b t \<longleftrightarrow> bs = []"
proof -
  obtain pre where p: "b = pre @ bs" "t = pre @ ts" "bs = [] \<or> ts = [] \<or> hd bs \<noteq> hd ts"
    using strip_common_spec [OF assms] by blast
  then show ?thesis by (cases bs; cases ts) auto
qed

lemma join_not_up:
  assumes "ts \<noteq> []" and "\<forall>c\<in>set ts. plain_element c"
  shows "join_with [slash] ts \<noteq> ''..''" "\<not> prefix (''..'' @ [slash]) (join_with [slash] ts)"
proof -
  have s: "split_on slash (join_with [slash] ts) = ts"
    using assms by (intro split_on_join) (auto simp: plain_element_def)
  have h: "hd ts \<noteq> ''..''" using assms by (cases ts) (auto simp: plain_element_def)
  have d: "slash \<notin> set ''..''" by (simp add: slash_def)
  show "join_with [slash] ts \<noteq> ''..''" using s h split_on_no_sep [OF d] by auto
  show "\<not> prefix (''..'' @ [slash]) (join_with [slash] ts)"
  proof
    assume "prefix (''..'' @ [slash]) (join_with [slash] ts)"
    then obtain x where "join_with [slash] ts = ''..'' @ slash # x" by (auto simp: prefix_def)
    then have "split_on slash (join_with [slash] ts) = ''..'' # split_on slash x" using split_on_append [OF d] by simp
    then show False using s h by simp
  qed
qed

lemma join_up:
  "join_with [slash] (replicate (Suc n) ''..'' @ ts) = ''..'' \<or>
    prefix (''..'' @ [slash]) (join_with [slash] (replicate (Suc n) ''..'' @ ts))"
proof (cases "replicate n ''..'' @ ts")
  case Nil
  then show ?thesis by simp
next
  case (Cons a as)
  then have "join_with [slash] (replicate (Suc n) ''..'' @ ts) = ''..'' @ [slash] @ join_with [slash] (a # as)" by simp
  then show ?thesis by (auto simp: prefix_def)
qed

text \<open>A path is inside another when its elements begin with the other's.\<close>

lemma inside_iff:
  assumes "is_abs r" and "is_abs p"
  shows "inside r p \<longleftrightarrow> prefix (clean_elements r) (clean_elements p)"
proof -
  let ?b = "clean_elements r" and ?t = "clean_elements p"
  have idem: "clean_path (clean_path q) = clean_path q" if "is_abs q" for q
    using clean_clean [OF that] that by (simp add: clean_path_def [of "clean_path q"]) (simp add: clean_path_def)
  have eq: "clean_path r = clean_path p \<longleftrightarrow> ?b = ?t"
    using clean_clean [OF assms(1)] clean_clean [OF assms(2)] assms by (metis clean_path_def)
  obtain bs ts where s: "strip_common ?b ?t = (bs, ts)" by fastforce
  obtain pre where pre: "?b = pre @ bs" "?t = pre @ ts" using strip_common_spec [OF s] by blast
  note ok = clean_elements_abs [OF assms(1)] clean_elements_abs [OF assms(2)]
  have rel: "rel_path (clean_path r) (clean_path p) = (if ?b = ?t then Some ''.''
      else case (bs, ts) of
        ([], ts) \<Rightarrow> Some (join_with [slash] ts)
      | (b # bs', ts) \<Rightarrow> if b = ''..'' then None else Some (join_with [slash] (replicate (Suc (length bs')) ''..'' @ ts)))"
    using clean_clean [OF assms(1)] clean_clean [OF assms(2)] idem [OF assms(1)] idem [OF assms(2)] eq s
    by (simp add: rel_path_def del: replicate.simps)
  show ?thesis
  proof (cases "?b = ?t")
    case True
    then show ?thesis using rel by (simp add: inside_def)
  next
    case ne: False
    show ?thesis
    proof (cases bs)
      case Nil
      then have "ts \<noteq> []" "\<forall>c\<in>set ts. plain_element c" using ne pre ok by auto
      then show ?thesis using rel ne Nil join_not_up [of ts] prefix_iff_stripped [OF s] by (simp add: inside_def)
    next
      case (Cons b bs')
      then have "plain_element b" using pre ok by simp
      then have "b \<noteq> ''..''" by (simp add: plain_element_def)
      then have "\<not> inside r p" unfolding inside_def using rel ne Cons join_up [of "length bs'" ts]
        by (simp del: replicate.simps)
      then show ?thesis using prefix_iff_stripped [OF s] Cons by simp
    qed
  qed
qed

text \<open>which exclusions the setup page shows beside a choice of folders. They are the ones of the plan, in
  their order; only an absolute pattern is left out, and only when it names no place in any of the folders.\<close>

theorem excludes_for_spec:
  assumes "\<forall>r\<in>set roots. is_abs r"
  shows "excludes_for roots excludes =
    filter (\<lambda>p. \<not> is_abs p \<or> (\<exists>r\<in>set roots. prefix (clean_elements r) (clean_elements p))) excludes"
proof -
  have "\<not> has_separator p \<or> \<not> is_abs p \<or> list_ex (\<lambda>r. inside r p) roots \<longleftrightarrow>
      \<not> is_abs p \<or> (\<exists>r\<in>set roots. prefix (clean_elements r) (clean_elements p))" for p
  proof (cases "is_abs p")
    case True
    then have "has_separator p" by (auto simp: is_abs_def has_separator_def prefix_def)
    moreover have "list_ex (\<lambda>r. inside r p) roots \<longleftrightarrow> (\<exists>r\<in>set roots. prefix (clean_elements r) (clean_elements p))"
      using inside_iff [OF _ True] assms by (auto simp: list_ex_iff)
    ultimately show ?thesis by simp
  qed simp
  then show ?thesis by (simp add: excludes_for_def)
qed

theorem excludes_for_spec_witness:
  "excludes_for [''/home/ana/''] [''*.iso'', ''/home/ana/../ben'', ''/home/ana/Downloads'', ''work/''] =
    [''*.iso'', ''/home/ana/Downloads'', ''work/'']"
proof -
  have "clean_elements ''/home/ana/'' = [''home'', ''ana''] \<and>
    clean_elements ''/home/ana/../ben'' = [''home'', ''ben''] \<and>
    clean_elements ''/home/ana/Downloads'' = [''home'', ''ana'', ''Downloads'']" by code_simp
  then show ?thesis using excludes_for_spec [of "[''/home/ana/'']"] by (simp add: is_abs_def slash_def)
qed

text \<open>So an exclusion of a folder above a chosen one is not shown beside it, although it leaves all of it out:
  the walk over the chosen folder then counts nothing.\<close>

lemma exclusion_above_is_hidden:
  "excludes_for [''/home/ana/work''] [''/home/ana''] = [] \<and>
   fst (walk_sizes \<lparr>wo_excludes = [''/home/ana''], wo_larger = 0, wo_max = 0\<rparr> (\<lambda>_. False)
     (\<lambda>r. if r = ''/home/ana/work'' then Some (Folder [(''thesis'', RegularFile 500)] False) else None)
     [''/home/ana/work'']) = no_size\<lparr>sr_excluded := 1\<rparr>"
  by code_simp

section \<open>Two lists of the same folders\<close>

lemma same_roots_from_iff:
  "length xs = length ss \<Longrightarrow> same_roots_from xs ss \<longleftrightarrow> mset xs = mset (map clean_path ss)"
proof (induction ss arbitrary: xs)
  case (Cons s ss)
  show ?case
  proof (cases "clean_path s \<in> set xs")
    case True
    then have "same_roots_from xs (s # ss) \<longleftrightarrow> mset (remove1 (clean_path s) xs) = mset (map clean_path ss)"
      using Cons.IH [of "remove1 (clean_path s) xs"] Cons.prems True by (simp add: length_remove1)
    moreover have "mset xs = add_mset (clean_path s) (mset (remove1 (clean_path s) xs))" using True by simp
    ultimately show ?thesis by (metis add_mset_add_mset_same_iff list.simps(9) mset.simps(2))
  next
    case False
    then have "mset xs \<noteq> mset (map clean_path (s # ss))" by (metis list.set_intros(1) list.simps(9) mset_eq_setD)
    then show ?thesis using False by simp
  qed
qed simp

text \<open>the radio button stands where the plan is. Two lists of folders count as the same choice exactly when
  they are the same folders, each as often, whatever their order and however a path is written.\<close>

theorem same_roots_iff: "same_roots a b \<longleftrightarrow> mset (map clean_path a) = mset (map clean_path b)"
  using same_roots_from_iff [of "map clean_path a" b]
  by (auto simp: same_roots_def dest: arg_cong [of _ _ size])

section \<open>Figures that belong to what is shown\<close>

lemma coded_items:
  assumes "concat (map (\<lambda>i. i @ [CHR 0x00]) as) @ ''|'' @ x = concat (map (\<lambda>i. i @ [CHR 0x00]) bs) @ ''|'' @ y"
    and "\<forall>i\<in>set as \<union> set bs. CHR 0x00 \<notin> set i \<and> \<not> prefix ''|'' i"
  shows "as = bs \<and> x = y"
  using assms
proof (induction as arbitrary: bs)
  case Nil
  show ?case
  proof (cases bs)
    case (Cons i us)
    then show ?thesis using Nil by (cases i) auto
  qed (use Nil in simp)
next
  case (Cons i us)
  show ?case
  proof (cases bs)
    case Nil
    then show ?thesis using Cons.prems by (cases i) auto
  next
    case j: (Cons j js)
    have n: "CHR 0x00 \<notin> set i" "CHR 0x00 \<notin> set j" using Cons.prems(2) j by auto
    have "i @ CHR 0x00 # concat (map (\<lambda>i. i @ [CHR 0x00]) us) @ ''|'' @ x =
        j @ CHR 0x00 # concat (map (\<lambda>i. i @ [CHR 0x00]) js) @ ''|'' @ y" using Cons.prems(1) j by simp
    moreover have "takeWhile (\<lambda>c. c \<noteq> CHR 0x00) (k @ CHR 0x00 # r) = k" if "CHR 0x00 \<notin> set k" for k r
      using that by (induction k) auto
    ultimately have e: "i = j" using n by metis
    then have "concat (map (\<lambda>i. i @ [CHR 0x00]) us) @ ''|'' @ x = concat (map (\<lambda>i. i @ [CHR 0x00]) js) @ ''|'' @ y"
      using Cons.prems(1) j by simp
    then show ?thesis using Cons.IH [of js] Cons.prems(2) j e by auto
  qed
qed

text \<open>a figure is taken for the current one only when it was measured under the very same folders,
  exclusions and limit, unless one of them begins with a vertical bar or holds a zero byte.\<close>

theorem shape_tells_apart:
  assumes "shape_of c excludes larger = shape_of c' excludes' larger'"
    and "\<forall>i\<in>set (ch_roots c) \<union> set excludes \<union> set (ch_roots c') \<union> set excludes'. CHR 0x00 \<notin> set i \<and> \<not> prefix ''|'' i"
    and "in_int64 larger" and "in_int64 larger'"
  shows "ch_roots c = ch_roots c' \<and> excludes = excludes' \<and> larger = larger'"
proof -
  have 1: "ch_roots c = ch_roots c' \<and>
      concat (map (\<lambda>i. i @ [CHR 0x00]) excludes) @ ''|'' @ itoa larger =
      concat (map (\<lambda>i. i @ [CHR 0x00]) excludes') @ ''|'' @ itoa larger'"
    using assms(1,2) by (intro coded_items) (auto simp: shape_of_def)
  then have "excludes = excludes' \<and> itoa larger = itoa larger'" using assms(2) by (intro coded_items) auto
  then show ?thesis using 1 atoi_itoa assms(3,4) by (metis option.inject)
qed

theorem shape_tells_apart_witness:
  "shape_of \<lparr>ch_style = StyleHome, ch_roots = [''/home/ana'']\<rparr> [''*.iso''] 0 \<noteq>
   shape_of \<lparr>ch_style = StyleHome, ch_roots = [''/home/ana'', ''*.iso'']\<rparr> [] 0"
  using shape_tells_apart [of "\<lparr>ch_style = StyleHome, ch_roots = [''/home/ana'']\<rparr>" "[''*.iso'']" 0
      "\<lparr>ch_style = StyleHome, ch_roots = [''/home/ana'', ''*.iso'']\<rparr>" "[]" 0]
  by (auto simp: int64_defs)

lemma shape_taken_for_another:
  "shape_of \<lparr>ch_style = StyleCustom, ch_roots = [''a'']\<rparr> [''b'', ''|c''] 0 =
   shape_of \<lparr>ch_style = StyleCustom, ch_roots = [''a'', ''|b'']\<rparr> [''c''] 0"
  by (simp add: shape_of_def)

section \<open>Measuring comes to an end\<close>

datatype walk_event = SoFar size_result | Finished size_result

fun walk_step :: "walk_event \<Rightarrow> 'r survey \<Rightarrow> 'r survey" where
  "walk_step (SoFar r) s = work_progress r s"
| "walk_step (Finished r) s = work_finish r s"

fun walk_done :: "walk_event \<Rightarrow> bool" where
  "walk_done (Finished r) = True"
| "walk_done (SoFar r) = False"

abbreviation measured_as :: "choice \<Rightarrow> string list \<Rightarrow> int \<Rightarrow> size_result \<Rightarrow> sizing" where
  "measured_as c excludes larger r \<equiv> \<lparr>sz_state = StateMeasured, sz_result = r, sz_shape = shape_of c excludes larger\<rparr>"

lemma set_size_simps [simp]:
  "sv_work (set_size c z s) = sv_work s" "sv_choices (set_size c z s) = sv_choices s"
  "sv_sizes (set_size c z s) = (sv_sizes s)(ch_style c \<mapsto> z)"
  by (simp_all add: set_size_def)

lemma walk_ends:
  assumes "sv_work s = (if todo = [] then None else Some (todo, excludes, larger))"
    and "distinct (map ch_style todo)" and "length (filter walk_done es) = length todo"
  shows "let s' = foldl (\<lambda>s e. walk_step e s) s es in
    sv_work s' = None \<and> sv_choices s' = sv_choices s \<and>
    (\<forall>c\<in>set todo. \<exists>r. Finished r \<in> set es \<and> sv_sizes s' (ch_style c) = Some (measured_as c excludes larger r)) \<and>
    (\<forall>st. st \<notin> ch_style ` set todo \<longrightarrow> sv_sizes s' st = sv_sizes s st)"
  using assms
proof (induction es arbitrary: s todo)
  case Nil
  then show ?case by simp
next
  case (Cons e es)
  show ?case
  proof (cases todo)
    case Nil
    then have "walk_step e s = s" using Cons.prems(1) by (cases e) (simp_all add: work_progress_def work_finish_def)
    then show ?thesis using Cons.IH [of s "[]"] Cons.prems Nil by (cases e) (auto simp: Let_def)
  next
    case (Cons c cs)
    note todo = this
    show ?thesis
    proof (cases e)
      case (SoFar r)
      let ?z = "\<lparr>sz_state = StateMeasuring, sz_result = r, sz_shape = shape_of c excludes larger\<rparr>"
      have w: "walk_step e s = set_size c ?z s" using SoFar todo Cons.prems(1) by (simp add: work_progress_def)
      have "sv_work (walk_step e s) = (if todo = [] then None else Some (todo, excludes, larger))"
        using w Cons.prems(1) by simp
      from Cons.IH [OF this Cons.prems(2)] Cons.prems(3) SoFar w todo show ?thesis
        by (auto simp: Let_def)
    next
      case (Finished r)
      let ?s1 = "walk_step e s"
      have w: "sv_work ?s1 = (if cs = [] then None else Some (cs, excludes, larger))"
        "sv_sizes ?s1 = (sv_sizes s)(ch_style c \<mapsto> measured_as c excludes larger r)" "sv_choices ?s1 = sv_choices s"
        using Finished todo Cons.prems(1) by (simp_all add: work_finish_def)
      have d: "distinct (map ch_style cs)" "ch_style c \<notin> ch_style ` set cs" using Cons.prems(2) todo by auto
      have "length (filter walk_done es) = length cs" using Cons.prems(3) Finished todo by simp
      from Cons.IH [OF w(1) d(1) this] w(2,3) d(2) Finished todo show ?thesis
        by (auto simp: Let_def)
    qed
  qed
qed

lemma start_sizes:
  "let t = foldl (\<lambda>t c. set_size c (f c) t) s todo in
    sv_work t = sv_work s \<and> sv_choices t = sv_choices s \<and> (\<forall>st. st \<notin> ch_style ` set todo \<longrightarrow> sv_sizes t st = sv_sizes s st)"
  by (induction todo arbitrary: s) (simp_all add: Let_def)


definition sample_survey :: "nat survey" where
  "sample_survey = new_survey [\<lparr>ch_style = StylePersonal, ch_roots = [''/h/d'']\<rparr>, \<lparr>ch_style = StyleHome, ch_roots = [''/h'']\<rparr>] True"


end
