(* ===== verification/Netcost.thy ===== *)
theory Netcost
  imports GoText
begin

text \<open>
  Whether somebody pays for the bytes: \<open>foundation/netcost\<close> on Linux. The table of routes is the text of
  \<open>/proc/net/route\<close>, or \<open>None\<close> when it cannot be opened, and what \<open>nmcli\<close> prints about an interface is an argument.
\<close>

datatype cost = CostUnknown | CostUnmetered | CostMetered

fun cost_text :: "cost \<Rightarrow> string" where
  "cost_text CostUnmetered = ''unmetered''"
| "cost_text CostMetered = ''metered''"
| "cost_text CostUnknown = ''unknown''"

definition is_metered :: "cost \<Rightarrow> bool" where
  "is_metered c \<longleftrightarrow> c = CostMetered"

text \<open>The interface and the metric of a line that is a default route.\<close>

definition route_line :: "string \<Rightarrow> (string \<times> int) option" where
  "route_line l =
     (let ws = words l in
      if length ws < 7 \<or> ws ! 1 \<noteq> ''00000000'' then None
      else map_option (Pair (ws ! 0)) (atoi (ws ! 6)))"

definition better_route :: "string \<times> int \<Rightarrow> string \<times> int \<Rightarrow> string \<times> int" where
  "better_route r best = (if snd best = -1 \<or> snd r < snd best then r else best)"

definition default_route_from :: "string \<Rightarrow> string" where
  "default_route_from s =
     (case scanned_lines s of
        [] \<Rightarrow> []
      | _ # ls \<Rightarrow> fst (fold (\<lambda>l best. case route_line l of None \<Rightarrow> best | Some r \<Rightarrow> better_route r best) ls ([], -1)))"

definition default_route_interface :: "string option \<Rightarrow> string" where
  "default_route_interface table = (case table of None \<Rightarrow> [] | Some s \<Rightarrow> default_route_from s)"

definition detect :: "string option \<Rightarrow> (string \<Rightarrow> string option) \<Rightarrow> cost" where
  "detect table nmcli =
     (let iface = default_route_interface table in
      if iface = [] then CostUnknown
      else case nmcli iface of
          None \<Rightarrow> CostUnknown
        | Some out \<Rightarrow>
            (case cut (CHR '':'') (trim_space out) of
               None \<Rightarrow> CostUnknown
             | Some (_, v) \<Rightarrow>
                 if prefix ''yes'' v then CostMetered else if prefix ''no'' v then CostUnmetered else CostUnknown))"

section \<open>The route that traffic takes\<close>

definition default_routes :: "string \<Rightarrow> (string \<times> int) list" where
  "default_routes s = List.map_filter route_line (tl (scanned_lines s))"

lemma fold_lines:
  "fold (\<lambda>l best. case route_line l of None \<Rightarrow> best | Some r \<Rightarrow> better_route r best) ls b =
    fold better_route (List.map_filter route_line ls) b"
  by (induction ls arbitrary: b) (auto simp: List.map_filter_simps split: option.split)

lemma arg_min_pick:
  "arg_min_list f (x # y # zs) = arg_min_list f ((if f y < (f x :: int) then y else x) # zs)"
  by (cases zs) (auto simp: Let_def)

lemma fold_better:
  "0 \<le> snd b \<Longrightarrow> list_all (\<lambda>r. 0 \<le> snd r) rs \<Longrightarrow> fold better_route rs b = arg_min_list snd (b # rs)"
proof (induction rs arbitrary: b)
  case (Cons r rs)
  have "fold better_route (r # rs) b = fold better_route rs (if snd r < snd b then r else b)"
    using Cons.prems(1) by (simp add: better_route_def)
  also have "\<dots> = arg_min_list snd ((if snd r < snd b then r else b) # rs)"
    using Cons by simp
  finally show ?case by (simp only: arg_min_pick)
qed simp

text \<open>The interface that is asked about is that of the default route with the least metric, the first of
  several; where there is none, nothing is asked.\<close>

theorem least_metric_is_asked:
  assumes "list_all (\<lambda>r. 0 \<le> snd r) (default_routes s)"
  shows "default_route_from s = (if default_routes s = [] then [] else fst (arg_min_list snd (default_routes s)))"
proof (cases "scanned_lines s")
  case (Cons l ls)
  then have d: "default_routes s = List.map_filter route_line ls" by (simp add: default_routes_def)
  show ?thesis
  proof (cases "default_routes s")
    case Nil
    then show ?thesis using Cons d by (simp add: default_route_from_def fold_lines)
  next
    case rs: (Cons r rs)
    have "fold better_route (r # rs) ([], -1) = fold better_route rs r" by (simp add: better_route_def)
    moreover have "List.map_filter route_line ls = r # rs" using d rs by simp
    moreover have "fold better_route rs r = arg_min_list snd (r # rs)" using assms rs by (intro fold_better) simp_all
    ultimately show ?thesis
      by (simp only: default_route_from_def Cons list.case fold_lines rs list.distinct if_False)
  qed
qed (simp add: default_route_from_def default_routes_def List.map_filter_simps)

end
