(* ===== verification/Config.thy ===== *)
theory Config
  imports Plan GoFloat
begin

text \<open>
  The file a machine may be installed with: \<open>cmd/sion-backup/config.go\<close>, and what the daemon takes out of it
  when it starts, \<open>seedPlan\<close> in \<open>daemon.go\<close>. How the file becomes a record is the TOML library's.
\<close>

section \<open>Durations as texts\<close>

text \<open>\<open>time.ParseDuration\<close>. Numbers are unsigned of 64 bits; the fraction is a double.\<close>

definition dot_char :: char where
  "dot_char = CHR ''.''"

fun leading_int :: "int \<Rightarrow> string \<Rightarrow> (int \<times> string) option" where
  "leading_int x [] = Some (x, [])"
| "leading_int x (c # cs) =
     (case digit_val c of
        None \<Rightarrow> Some (x, c # cs)
      | Some d \<Rightarrow>
          if 2 ^ 63 div 10 < x then None
          else let y = 10 * x + int d in if 2 ^ 63 < y then None else leading_int y cs)"

fun leading_fraction :: "bool \<Rightarrow> int \<Rightarrow> rat \<Rightarrow> string \<Rightarrow> int \<times> rat \<times> string" where
  "leading_fraction full x scale [] = (x, scale, [])"
| "leading_fraction full x scale (c # cs) =
     (case digit_val c of
        None \<Rightarrow> (x, scale, c # cs)
      | Some d \<Rightarrow>
          if full \<or> (2 ^ 63 - 1) div 10 < x then leading_fraction True x scale cs
          else let y = 10 * x + int d in
            if 2 ^ 63 < y then leading_fraction True x scale cs
            else leading_fraction False y (float_mul scale 10) cs)"

definition duration_unit :: "string \<Rightarrow> int option" where
  "duration_unit u =
     (if u = ''ns'' then Some 1
      else if u = ''us'' \<or> u = [CHR 0xC2, CHR 0xB5, CHR ''s''] \<or> u = [CHR 0xCE, CHR 0xBC, CHR ''s''] then Some 1000
      else if u = ''ms'' then Some (10 ^ 6)
      else if u = ''s'' then Some (10 ^ 9)
      else if u = ''m'' then Some (60 * 10 ^ 9)
      else if u = ''h'' then Some (3600 * 10 ^ 9)
      else None)"

definition not_number :: "char \<Rightarrow> bool" where
  "not_number c \<longleftrightarrow> c \<noteq> dot_char \<and> digit_val c = None"

text \<open>One number with its unit, and what follows it.\<close>

definition duration_part :: "string \<Rightarrow> (int \<times> string) option" where
  "duration_part s =
     (case leading_int 0 s of
        None \<Rightarrow> None
      | Some (v, s1) \<Rightarrow>
          let pre = (length s1 \<noteq> length s);
              (f, scale, s2, post) =
                (if s1 \<noteq> [] \<and> hd s1 = dot_char
                 then (case leading_fraction False 0 1 (tl s1) of
                     (f, scale, s2) \<Rightarrow> (f, scale, s2, length s2 \<noteq> length (tl s1)))
                 else (0, 1, s1, False));
              u = takeWhile not_number s2; rest = dropWhile not_number s2
          in if \<not> pre \<and> \<not> post then None
             else if u = [] then None
             else case duration_unit u of
                 None \<Rightarrow> None
               | Some unit \<Rightarrow>
                   if 2 ^ 63 div unit < v then None
                   else let w = v * unit +
                       (if 0 < f then int_of_float (float_mul (float_of_int f) (float_div (float_of_int unit) scale)) else 0)
                     in if 2 ^ 63 < w then None else Some (w, rest))"

function duration_parts :: "int \<Rightarrow> string \<Rightarrow> int option" where
  "duration_parts d s =
     (if s = [] then Some d
      else case duration_part s of
          None \<Rightarrow> None
        | Some (v, rest) \<Rightarrow>
            if 2 ^ 63 < d + v then None
            else if length rest < length s then duration_parts (d + v) rest else None)"
  by pat_completeness auto
termination
  by (relation "measure (\<lambda>(d, s). length s)") auto

declare duration_parts.simps [simp del]

definition parse_duration :: "string \<Rightarrow> duration option" where
  "parse_duration s0 =
     (let neg = (s0 \<noteq> [] \<and> hd s0 = CHR ''-'');
          s = (if s0 \<noteq> [] \<and> (hd s0 = CHR ''-'' \<or> hd s0 = CHR ''+'') then tl s0 else s0)
      in if s = ''0'' then Some 0
         else if s = [] then None
         else case duration_parts 0 s of
             None \<Rightarrow> None
           | Some d \<Rightarrow> if neg then Some (- d) else if 2 ^ 63 - 1 < d then None else Some d)"

section \<open>The file\<close>

record config =
  cf_node_id :: string
  cf_repository :: string
  cf_targets :: "string list"
  cf_excludes :: "string list"
  cf_confirmed :: bool
  cf_times :: "string list"
  cf_jitter :: "int option"
  cf_min_interval :: string
  cf_pack_size :: int
  cf_read_concurrency :: int
  cf_use_fs_snapshot :: "bool option"
  cf_vss_fallback :: "bool option"
  cf_one_file_system :: "bool option"
  cf_metered :: "bool option"
  cf_skip_on_metered :: "bool option"
  cf_skip_larger :: int
  cf_update :: "bool option"
  cf_url :: string
  cf_addr :: string

definition bool_or :: "bool option \<Rightarrow> bool \<Rightarrow> bool" where
  "bool_or p fallback = (case p of None \<Rightarrow> fallback | Some b \<Rightarrow> b)"

definition DefaultEumaeusURL :: string where
  "DefaultEumaeusURL = ''https://terraboskamp.org''"

definition DefaultAddr :: string where
  "DefaultAddr = ''127.0.0.1:7391''"

definition eumaeus_url :: "config \<Rightarrow> string" where
  "eumaeus_url c = (if cf_url c = [] then DefaultEumaeusURL else cf_url c)"

definition config_addr :: "config \<Rightarrow> string" where
  "config_addr c = (if cf_addr c = [] then DefaultAddr else cf_addr c)"

definition updates_on :: "config \<Rightarrow> bool" where
  "updates_on c = bool_or (cf_update c) True"

definition metered_override :: "config \<Rightarrow> bool \<times> bool" where
  "metered_override c = (case cf_metered c of None \<Rightarrow> (False, False) | Some m \<Rightarrow> (m, True))"

definition config_plan :: "string \<Rightarrow> config \<Rightarrow> plan res" where
  "config_plan goos c =
     (let s0 = default_schedule;
          s1 = (if cf_times c \<noteq> [] then s0\<lparr>times := cf_times c\<rparr> else s0);
          s2 = (case cf_jitter c of None \<Rightarrow> s1 | Some j \<Rightarrow> s1\<lparr>jitter_minutes := j\<rparr>);
          made = (\<lambda>s. \<lparr>node_id = cf_node_id c, repository = cf_repository c, targets = cf_targets c,
            excludes = cf_excludes c, plan_schedule = s, pack_size_mib = cf_pack_size c,
            read_concurrency = cf_read_concurrency c,
            use_fs_snapshot = bool_or (cf_use_fs_snapshot c) (goos = ''windows''),
            allow_vss_fallback = bool_or (cf_vss_fallback c) True,
            one_file_system = bool_or (cf_one_file_system c) True, paused = False,
            skip_on_metered = bool_or (cf_skip_on_metered c) False, skip_larger_than_gb = cf_skip_larger c,
            style = [], confirmed_at = zero_time, updated_at = zero_time\<rparr>)
      in if cf_min_interval c = [] then Inr (made s2)
         else case parse_duration (cf_min_interval c) of
             None \<Rightarrow> Inl (Wrap ''reading schedule.min_interval: '' (Sentinel ''time: invalid duration'') [])
           | Some d \<Rightarrow> Inr (made (s2\<lparr>min_interval := d\<rparr>)))"

text \<open>At every start of the daemon; \<open>None\<close> is a machine without the file.\<close>

definition seed_plan :: "'s storer \<Rightarrow> string \<Rightarrow> config option \<Rightarrow> instant \<Rightarrow> 's \<Rightarrow> bool res \<times> 's" where
  "seed_plan st goos cfg now s =
     (case cfg of
        None \<Rightarrow> (Inr False, s)
      | Some c \<Rightarrow>
          (case config_plan goos c of
             Inl e \<Rightarrow> (Inl e, s)
           | Inr p \<Rightarrow>
               if node_id p = [] \<or> repository p = [] \<or> targets p = [] then (Inr False, s)
               else biz_seed st (if cf_confirmed c then p\<lparr>confirmed_at := now\<rparr> else p) now s))"

lemma parse_duration_samples:
  "parse_duration ''6h'' = Some (6 * hour)"
  "parse_duration ''-1h30m'' = Some (- (90 * minute))"
  "parse_duration ''6'' = None" "parse_duration '''' = None" "parse_duration ''3000000h'' = None"
  by code_simp+

end
