(* ===== verification/Enroll.thy ===== *)
theory Enroll
  imports Credential Machine Config
begin

text \<open>
  A machine joining the fleet: \<open>cmd/sion-backup/enroll.go\<close>, with the refusal under sudo of \<open>elevation.go\<close>. The
  desk is what the command changes: the database of the plan, the directory of the token, the repository as
  restic sees it, the requests with the server each was sent to, the answers typed at the machine and what
  it was told. Whether restic could be made ready is \<open>vs_pinned\<close>; the card that is printed, the advice around
  an error and handing over to the service are left out. How a URL is taken apart is \<open>vs_url_of\<close>, its scheme,
  its host with the port and its host without.
\<close>

section \<open>The machine somebody is standing at\<close>

datatype call = CallClaim creds_body | CallMachine machine_body

datatype remark =
    EnrollingAt string
  | EnrolledAs string string
  | RepositoryTrouble err
  | RepositoryCreated string
  | RepositoryOpened string
  | CardPrinted
  | CardNotRecorded
  | CardNotReported err
  | SaysNothingWritten
  | SaysFirstVisit
  | SaysNoTargets
  | SaysPlanKept
  | SaysPlanWritten
  | SaysCredentialsUnread err
  | SaysCredentialsIncomplete
  | SaysNotOpened err
  | SaysWouldNotOpen err
  | SaysLegacyEmpty
  | SaysLegacyHolds int instant
  | SaysServerSteps "string list"
  | SaysNotTheLegacy string string
  | SaysLegacyUnchanged
  | SaysServerAdopted int instant
  | SaysServerSilent
  | SaysNodeDiffers string string
  | SaysCannotList err
  | SaysEmpty
  | SaysHolds int instant
  | SaysDisagreement int

record desk =
  dk_plan :: plandb
  dk_token :: "string disk"
  dk_box :: world
  dk_net :: "(string \<times> call) net"
  dk_answers :: "string res list"
  dk_said :: "remark list"

record errand =
  vs_parse :: parser
  vs_url_of :: "string \<Rightarrow> (string \<times> string \<times> string) option"
  vs_goos :: string
  vs_goarch :: string
  vs_hostname :: string
  vs_version :: string
  vs_config :: config
  vs_token :: string
  vs_token_path :: string
  vs_token_tmp :: string
  vs_token_part :: nat
  vs_modes :: bool
  vs_pinned :: "err option"
  vs_environment :: "string \<Rightarrow> string"
  vs_now :: instant

definition say :: "remark \<Rightarrow> desk \<Rightarrow> desk" where
  "say r d = d\<lparr>dk_said := dk_said d @ [r]\<rparr>"

text \<open>A request of a component, sent to a server through the desk's connection.\<close>

definition through :: "string \<Rightarrow> ('b \<Rightarrow> call) \<Rightarrow> ('b net \<Rightarrow> 'a \<times> 'b net) \<Rightarrow> desk \<Rightarrow> 'a \<times> desk" where
  "through base tag f d =
     (case f \<lparr>replies = replies (dk_net d), made = []\<rparr> of
        (r, n) \<Rightarrow> (r, d\<lparr>dk_net := \<lparr>replies = replies n,
          made = made (dk_net d) @ map (\<lambda>q. \<lparr>req_method = req_method q, req_path = req_path q,
            req_body = (base, tag (req_body q))\<rparr>) (made n)\<rparr>\<rparr>))"

section \<open>The parts of an enrolment\<close>

definition env_set :: "errand \<Rightarrow> string \<Rightarrow> bool" where
  "env_set v name \<longleftrightarrow> vs_environment v name \<noteq> []"

definition elevated_by_sudo :: "errand \<Rightarrow> bool" where
  "elevated_by_sudo v = env_set v ''SUDO_USER''"

definition refuse_elevated :: "errand \<Rightarrow> err option" where
  "refuse_elevated v =
     (if \<not> elevated_by_sudo v \<or> env_set v ''SION_BACKUP_DATA_DIR'' then None
      else Some (Sentinel ''refusing to enrol under sudo.''))"

definition local_account :: "errand \<Rightarrow> string" where
  "local_account v =
     (case filter (\<lambda>k. vs_environment v k \<noteq> []) [''USERNAME'', ''USER'', ''LOGNAME''] of
        [] \<Rightarrow> ''unknown''
      | k # _ \<Rightarrow>
          if env_set v ''USERDOMAIN'' \<and> vs_goos v = ''windows''
          then vs_environment v ''USERDOMAIN'' @ [backslash] @ vs_environment v k
          else vs_environment v k)"

definition refuse_second :: "errand \<Rightarrow> bool \<Rightarrow> err option" where
  "refuse_second v force =
     (if vs_token v = [] \<or> force then None
      else Some (Sentinel (''this machine is already enrolled.'' @ [CHR 0x0A, CHR 0x0A] @ ''Its token is in '' @
        vs_token_path v @ ''. Use --force to replace it '' @ [CHR 0xE2, CHR 0x80, CHR 0x94] @
        '' the old token stays valid until it is revoked in Eumaeus'')))"

definition fetch_restic :: "errand \<Rightarrow> err option" where
  "fetch_restic v =
     map_option (\<lambda>e. Wrap ''this machine has no usable restic and one could not be installed: '' e []) (vs_pinned v)"

definition is_loopback_host :: "string \<Rightarrow> bool" where
  "is_loopback_host h \<longleftrightarrow> h \<in> {''localhost'', ''127.0.0.1'', ''::1''}"

definition new_client :: "errand \<Rightarrow> string \<Rightarrow> string res" where
  "new_client v url =
     (if url = [] then Inl (Sentinel ''eumaeusapi: no server URL configured'')
      else let base = trim_suffix ''/'' (trim_suffix ''/api/backup/v1'' (trim_suffix ''/'' url)) in
        case vs_url_of v base of
          None \<Rightarrow> Inl (Sentinel (''eumaeusapi: '' @ quote url @ '' is not a URL''))
        | Some (scheme, host, name) \<Rightarrow>
            if scheme \<noteq> ''https'' \<and> \<not> is_loopback_host name
            then Inl (Sentinel (''eumaeusapi: refusing to send a token to '' @ host @ '' over '' @ scheme @
              ''; use https''))
            else Inr base)"

text \<open>The plan a machine holds after it was enrolled, from the one it held.\<close>

definition enrolled_plan :: "errand \<Rightarrow> enrollment \<Rightarrow> plan \<Rightarrow> plan" where
  "enrolled_plan v e p0 =
     (let p1 = p0\<lparr>node_id := er_node_id e, repository := er_url e\<rparr>;
          p2 = (if times (plan_schedule p1) = [] then p1\<lparr>plan_schedule := default_schedule\<rparr> else p1)
      in if targets p2 = []
         then (case config_plan (vs_goos v) (vs_config v) of
             Inl _ \<Rightarrow> p2
           | Inr seed \<Rightarrow> if targets seed \<noteq> [] then p2\<lparr>targets := targets seed, excludes := excludes seed\<rparr> else p2)
         else p2)"

definition store_plan :: "errand \<Rightarrow> enrollment \<Rightarrow> plandb \<Rightarrow> unit res \<times> plandb" where
  "store_plan v e db =
     (case plandb_get db of
        (Inl er, db1) \<Rightarrow>
          if err_is ErrNoPlan er then biz_put plandb (enrolled_plan v e zero_plan) (vs_now v) db1
          else (Inl er, db1)
      | (Inr p, db1) \<Rightarrow> biz_put plandb (enrolled_plan v e p) (vs_now v) db1)"

definition enrolled_repository :: "enrollment \<Rightarrow> repository" where
  "enrolled_repository e =
     \<lparr>repo_url = er_url e, password = er_password e, access_key_id = fst (er_machine_key e),
      secret_access_key = snd (er_machine_key e), repo_pack_size = 0, repo_read_concurrency = 0\<rparr>"

definition open_enrolled :: "enrollment \<Rightarrow> world \<Rightarrow> bool res \<times> world" where
  "open_enrolled e w =
     (case ensure_repo (enrolled_repository e) (\<not> er_adopted e) w of
        ((created, None), w1) \<Rightarrow> (Inr created, w1)
      | ((created, Some er), w1) \<Rightarrow>
          (if err_is ErrAbsent er \<and> er_adopted e
           then Inl (Sentinel (''Eumaeus says '' @ er_url e @ '' was adopted and already holds backups, but there '' @
             ''is no restic repository there '' @ [CHR 0xE2, CHR 0x80, CHR 0x94] @ '' the URL or the password is '' @
             ''wrong, and this needs fixing on the server before this machine runs''))
           else Inl er, w1))"

text \<open>Silence is a no: at the end of what was typed an empty line is read.\<close>

definition ask_confirm :: "desk \<Rightarrow> bool res \<times> desk" where
  "ask_confirm d =
     (let d1 = d\<lparr>dk_answers := tl (dk_answers d)\<rparr> in
      case dk_answers d of
        [] \<Rightarrow> (Inr False, d1)
      | Inl e # _ \<Rightarrow> (Inl e, d1)
      | Inr line # _ \<Rightarrow> (Inr (to_lower (trim_space line) \<in> {''y'', ''yes''}), d1))"

definition say_card_issued :: "errand \<Rightarrow> string \<Rightarrow> string \<Rightarrow> desk \<Rightarrow> desk" where
  "say_card_issued v base url d =
     (case through base CallMachine (biz_card_issued (vs_parse v) True url (vs_now v)) d of
        (Inl e, d1) \<Rightarrow> say (CardNotReported e) d1
      | (Inr _, d1) \<Rightarrow> d1)"

text \<open>The repository and the card, once the machine has its token and its plan.\<close>

definition finish_enrolment :: "errand \<Rightarrow> string \<Rightarrow> enrollment \<Rightarrow> desk \<Rightarrow> desk" where
  "finish_enrolment v base e d =
     (case open_enrolled e (dk_box d) of (r, w) \<Rightarrow>
      let d1 = d\<lparr>dk_box := w\<rparr>;
          d2 = say (case r of
              Inl er \<Rightarrow> RepositoryTrouble er
            | Inr created \<Rightarrow> if created then RepositoryCreated (er_url e) else RepositoryOpened (er_url e)) d1;
          (printed, d3) = ask_confirm (say CardPrinted d2)
      in if printed = Inr True then say_card_issued v base (er_url e) d3 else say CardNotRecorded d3)"

definition claimant_of :: "errand \<Rightarrow> legacy_install option \<Rightarrow> claimant" where
  "claimant_of v legacy =
     \<lparr>cm_hostname = vs_hostname v, cm_os = vs_goos v @ ''/'' @ vs_goarch v, cm_account = local_account v,
      cm_agent = vs_version v, cm_legacy = legacy\<rparr>"

record claim_order =
  co_code :: string
  co_server :: string
  co_force :: bool
  co_legacy :: "legacy_install option"

text \<open>What follows a claim: the token, the plan, the repository and the card. A failure after the token was
  saved gives the enrolment back with the error.\<close>

definition settle_enrolment :: "errand \<Rightarrow> enrollment \<Rightarrow> desk \<Rightarrow> (enrollment option \<times> err option) \<times> desk" where
  "settle_enrolment v e d =
     (case save_token (vs_modes v) (vs_token_tmp v) (vs_token_part v) (vs_token_path v) (er_token e) (dk_token d) of
        (Some er, t) \<Rightarrow> ((None, Some er), d\<lparr>dk_token := t\<rparr>)
      | (None, t) \<Rightarrow>
      (case new_client v (eumaeus_url (vs_config v)) of
        Inl er \<Rightarrow> ((None, Some er), d\<lparr>dk_token := t\<rparr>)
      | Inr home \<Rightarrow>
      let d1 = say (EnrolledAs (er_node_id e) (er_owner_name e)) (d\<lparr>dk_token := t\<rparr>) in
      (case store_plan v e (dk_plan d1) of
        (Inl er, p) \<Rightarrow> ((Some e, Some er), d1\<lparr>dk_plan := p\<rparr>)
      | (Inr _, p) \<Rightarrow> ((Some e, None), finish_enrolment v home e (d1\<lparr>dk_plan := p\<rparr>)))))"

definition enroll :: "errand \<Rightarrow> claim_order \<Rightarrow> desk \<Rightarrow> (enrollment option \<times> err option) \<times> desk" where
  "enroll v q d =
     (case refuse_second v (co_force q) of
        Some e \<Rightarrow> ((None, Some e), d)
      | None \<Rightarrow>
      let base = (if co_server q = [] then eumaeus_url (vs_config v) else co_server q) in
      (case fetch_restic v of
        Some e \<Rightarrow> ((None, Some e), d)
      | None \<Rightarrow>
      let d1 = say (EnrollingAt base) d in
      (case new_client v base of
        Inl e \<Rightarrow> ((None, Some e), d1)
      | Inr server \<Rightarrow>
      (case through server CallClaim (claim (vs_parse v) (co_code q) (claimant_of v (co_legacy q))) d1 of
        (Inl e, d2) \<Rightarrow> ((None, Some e), d2)
      | (Inr e, d2) \<Rightarrow> settle_enrolment v e d2))))"

definition enroll_cmd :: "errand \<Rightarrow> claim_order \<Rightarrow> desk \<Rightarrow> err option \<times> desk" where
  "enroll_cmd v q d =
     (if co_code q = [] then (Some (Sentinel ''an enrollment code is required''), d)
      else case refuse_elevated v of
          Some e \<Rightarrow> (Some e, d)
        | None \<Rightarrow> (case enroll v q d of ((_, e), d1) \<Rightarrow> (e, d1)))"

section \<open>What the parts of an enrolment leave alone\<close>

lemma say_simps [simp]:
  "dk_plan (say r d) = dk_plan d" "dk_token (say r d) = dk_token d" "dk_box (say r d) = dk_box d"
  "dk_net (say r d) = dk_net d" "dk_answers (say r d) = dk_answers d" "dk_said (say r d) = dk_said d @ [r]"
  by (simp_all add: say_def)

lemma through_simps [simp]:
  "dk_plan (snd (through b t f d)) = dk_plan d" "dk_token (snd (through b t f d)) = dk_token d"
  "dk_box (snd (through b t f d)) = dk_box d" "dk_answers (snd (through b t f d)) = dk_answers d"
  "dk_said (snd (through b t f d)) = dk_said d"
  by (simp_all add: through_def split: prod.split)

lemma ask_confirm_simps [simp]:
  "dk_plan (snd (ask_confirm d)) = dk_plan d" "dk_token (snd (ask_confirm d)) = dk_token d"
  "dk_box (snd (ask_confirm d)) = dk_box d" "dk_net (snd (ask_confirm d)) = dk_net d"
  "dk_said (snd (ask_confirm d)) = dk_said d"
  by (simp_all add: ask_confirm_def Let_def split: list.split sum.split)

definition claim_call :: "errand \<Rightarrow> claim_order \<Rightarrow> string \<Rightarrow> (string \<times> call) request_made" where
  "claim_call v q server =
     \<lparr>req_method = ''POST'', req_path = ''/enrollments/claim'',
      req_body = (server, CallClaim (Claim (co_code q) (claimant_of v (co_legacy q))))\<rparr>"

definition card_call :: "errand \<Rightarrow> string \<Rightarrow> string \<Rightarrow> (string \<times> call) request_made" where
  "card_call v server url =
     \<lparr>req_method = ''POST'', req_path = ''/machines/me/card-issued'',
      req_body = (server, CallMachine (CardBody url (vs_now v)))\<rparr>"

lemma claim_asks: "made (snd (claim parse code m n)) =
    made n @ [\<lparr>req_method = ''POST'', req_path = ''/enrollments/claim'', req_body = Claim code m\<rparr>]"
  by (simp add: claim_def api_do_def split: sum.split option.split prod.split)

lemma claim_gives: "claim parse code m n = (Inr e, n') \<Longrightarrow> er_token e \<noteq> [] \<and> er_node_id e \<noteq> [] \<and> er_url e \<noteq> []"
  by (auto simp: claim_def split: sum.splits option.splits if_splits prod.splits)

lemma through_claim:
  "through server CallClaim (claim (vs_parse v) (co_code q) (claimant_of v (co_legacy q))) d = (r, d') \<Longrightarrow>
    made (dk_net d') = made (dk_net d) @ [claim_call v q server]"
  using claim_asks [of "vs_parse v" "co_code q" "claimant_of v (co_legacy q)" "\<lparr>replies = replies (dk_net d), made = []\<rparr>"]
  by (auto simp: through_def claim_call_def split: prod.splits)

lemma card_asks: "url \<noteq> [] \<Longrightarrow> made (snd (biz_card_issued parse True url t n)) =
    made n @ [\<lparr>req_method = ''POST'', req_path = ''/machines/me/card-issued'', req_body = CardBody url t\<rparr>]"
  by (auto simp: biz_card_issued_def source_card_issued_def api_do_def split: sum.split prod.split)

lemma say_card_issued_asks:
  "url \<noteq> [] \<Longrightarrow> made (dk_net (say_card_issued v b url d)) = made (dk_net d) @ [card_call v b url]"
  using card_asks [of url "vs_parse v" "vs_now v" "\<lparr>replies = replies (dk_net d), made = []\<rparr>"]
  by (auto simp: say_card_issued_def through_def card_call_def split: prod.splits sum.split)

lemma say_card_issued_simps [simp]:
  "dk_plan (say_card_issued v b url d) = dk_plan d" "dk_token (say_card_issued v b url d) = dk_token d"
  "dk_box (say_card_issued v b url d) = dk_box d"
  by (simp_all add: say_card_issued_def through_def split: prod.split sum.split)

lemma finish_simps [simp]:
  "dk_plan (finish_enrolment v b e d) = dk_plan d" "dk_token (finish_enrolment v b e d) = dk_token d"
  "dk_box (finish_enrolment v b e d) = snd (open_enrolled e (dk_box d))"
  by (simp_all add: finish_enrolment_def Let_def case_prod_beta)

lemma finish_asks:
  assumes "er_url e \<noteq> []"
  shows "made (dk_net (finish_enrolment v b e d)) \<in> {made (dk_net d), made (dk_net d) @ [card_call v b (er_url e)]}"
proof -
  have net: "dk_net x = n" if "ask_confirm y = (p, x)" "dk_net y = n" for p x y n
    using that ask_confirm_simps(4) [of y] by simp
  show ?thesis
    by (auto simp: finish_enrolment_def Let_def say_card_issued_asks [OF assms] split: prod.split dest!: net)
qed

section \<open>The order of an enrolment\<close>

text \<open>How far an enrolment gets: the token is not saved or the server of the configuration cannot be used; or
  the token is there, and the plan and the repository follow.\<close>

lemma settle_enrolment_cases:
  assumes "settle_enrolment v e d = ((got, r), d')"
  obtains (spent) er t where "got = None" "r = Some er" "d' = d\<lparr>dk_token := t\<rparr>"
  | (claimed) home s t p u where "got = Some e"
      "save_token (vs_modes v) (vs_token_tmp v) (vs_token_part v) (vs_token_path v) (er_token e) (dk_token d) = (None, t)"
      "store_plan v e (dk_plan d) = (u, p)"
      "case u of Inl er \<Rightarrow> r = Some er \<and> d' = d\<lparr>dk_token := t, dk_said := s, dk_plan := p\<rparr>
        | Inr _ \<Rightarrow> r = None \<and> d' = finish_enrolment v home e (d\<lparr>dk_token := t, dk_said := s, dk_plan := p\<rparr>)"
proof -
  obtain s t where s: "save_token (vs_modes v) (vs_token_tmp v) (vs_token_part v) (vs_token_path v) (er_token e)
      (dk_token d) = (s, t)" by fastforce
  obtain u p where u: "store_plan v e (dk_plan d) = (u, p)" by fastforce
  show ?thesis
  proof (cases "\<exists>er. s = Some er \<or> s = None \<and> new_client v (eumaeus_url (vs_config v)) = Inl er")
    case True
    then obtain er where "got = None" "r = Some er" "d' = d\<lparr>dk_token := t\<rparr>"
      using assms s by (auto simp: settle_enrolment_def)
    then show ?thesis by (rule spent)
  next
    case False
    then obtain home where s0: "s = None" and home: "new_client v (eumaeus_url (vs_config v)) = Inr home"
      by (cases s; cases "new_client v (eumaeus_url (vs_config v))") auto
    have split: "((got, r), d') = (case u of
          Inl er \<Rightarrow> ((Some e, Some er), d\<lparr>dk_token := t, dk_said := dk_said d @ [EnrolledAs (er_node_id e) (er_owner_name e)], dk_plan := p\<rparr>)
        | Inr _ \<Rightarrow> ((Some e, None), finish_enrolment v home e
            (d\<lparr>dk_token := t, dk_said := dk_said d @ [EnrolledAs (er_node_id e) (er_owner_name e)], dk_plan := p\<rparr>)))"
      using assms s s0 home u by (cases u) (auto simp: settle_enrolment_def Let_def say_def)
    show ?thesis
      by (rule claimed [of t u p "dk_said d @ [EnrolledAs (er_node_id e) (er_owner_name e)]" home])
        (use split s s0 u in \<open>cases u; simp\<close>)+
  qed
qed

lemma enroll_cases:
  assumes "enroll v q d = ((got, r), d')"
  obtains (early) er where "got = None" "r = Some er" "dk_plan d' = dk_plan d" "dk_token d' = dk_token d"
      "dk_box d' = dk_box d" "dk_net d' = dk_net d"
  | (refused) er server where "vs_token v = [] \<or> co_force q" "vs_pinned v = None" "got = None" "r = Some er"
      "made (dk_net d') = made (dk_net d) @ [claim_call v q server]"
      "dk_plan d' = dk_plan d" "dk_token d' = dk_token d" "dk_box d' = dk_box d"
  | (claimed) e server d2 where "vs_token v = [] \<or> co_force q" "vs_pinned v = None" "er_url e \<noteq> []"
      "made (dk_net d2) = made (dk_net d) @ [claim_call v q server]"
      "dk_plan d2 = dk_plan d" "dk_token d2 = dk_token d" "dk_box d2 = dk_box d"
      "settle_enrolment v e d2 = ((got, r), d')"
proof (cases "\<exists>er. refuse_second v (co_force q) = Some er \<or> refuse_second v (co_force q) = None \<and> fetch_restic v = Some er")
  case True
  then have "got = None \<and> d' = d \<and> r \<noteq> None"
    using assms by (cases "refuse_second v (co_force q)"; cases "fetch_restic v") (auto simp: enroll_def Let_def)
  then show ?thesis by (intro early [of "the r"]) simp_all
next
  case False
  then have n: "refuse_second v (co_force q) = None" "fetch_restic v = None"
    by (cases "refuse_second v (co_force q)"; cases "fetch_restic v"; simp)+
  then have free: "vs_token v = [] \<or> co_force q" "vs_pinned v = None"
    by (simp_all add: refuse_second_def fetch_restic_def split: if_splits)
  define base where "base = (if co_server q = [] then eumaeus_url (vs_config v) else co_server q)"
  let ?d1 = "say (EnrollingAt base) d"
  show ?thesis
  proof (cases "new_client v base")
    case (Inl er)
    then show ?thesis using assms n by (intro early [of er]) (auto simp: enroll_def Let_def base_def)
  next
    case (Inr server)
    let ?claim = "claim (vs_parse v) (co_code q) (claimant_of v (co_legacy q))"
    obtain c d2 where c: "through server CallClaim ?claim ?d1 = (c, d2)" by fastforce
    note frame = through_simps [of server CallClaim ?claim ?d1, unfolded c] through_claim [OF c]
    show ?thesis
    proof (cases c)
      case (Inl er)
      then have "got = None" "r = Some er" "d' = d2" using assms n Inr c by (simp_all add: enroll_def Let_def base_def)
      then show ?thesis using free frame by (intro refused [of er server]) simp_all
    next
      case e: (Inr e)
      have "er_url e \<noteq> []" using c e claim_gives by (auto simp: through_def split: prod.splits)
      moreover have "settle_enrolment v e d2 = ((got, r), d')"
        using assms n Inr c e by (simp add: enroll_def Let_def base_def)
      ultimately show ?thesis using free frame by (intro claimed [of e d2 server]) simp_all
    qed
  qed
qed

lemma enroll_asks:
  assumes "enroll v q d = ((got, r), d')"
  obtains "made (dk_net d') = made (dk_net d)"
  | server more where "made (dk_net d') = made (dk_net d) @ claim_call v q server # more" "length more \<le> 1"
  using assms
proof (cases rule: enroll_cases)
  case (claimed e server d2)
  note asked = claimed(4)
  from claimed(8) show ?thesis
  proof (cases rule: settle_enrolment_cases)
    case spent
    then show ?thesis using that(2) [of server "[]"] asked by simp
  next
    case (claimed home s t p u)
    let ?d3 = "d2\<lparr>dk_token := t, dk_said := s, dk_plan := p\<rparr>"
    show ?thesis
      using claimed asked that(2) [of server "[]"] that(2) [of server "[card_call v home (er_url e)]"]
        finish_asks [OF \<open>er_url e \<noteq> []\<close>, of v home ?d3]
      by (cases u) auto
  qed
qed (use that in auto)

lemma store_plan_holds:
  assumes "store_plan v e db = (r, db')"
  shows "case r of
      Inl _ \<Rightarrow> held_plan db' = held_plan db
    | Inr _ \<Rightarrow> held_plan db' = Some (stored_plan ((enrolled_plan v e
        (case held_plan db of None \<Rightarrow> zero_plan | Some p \<Rightarrow> p))\<lparr>updated_at := vs_now v\<rparr>))"
    and "held_seeded db' = held_seeded db"
proof -
  obtain g db1 where g: "plandb_get db = (g, db1)" by fastforce
  note view = plandb_get_held [OF g] plandb_get_seeded [OF g]
  let ?p = "case held_plan db of None \<Rightarrow> zero_plan | Some p \<Rightarrow> p"
  consider (no) er where "g = Inl er" "\<not> err_is ErrNoPlan er"
    | (put) "biz_put plandb (enrolled_plan v e ?p) (vs_now v) db1 = (r, db')"
    using assms g view(2) by (cases g) (auto simp: store_plan_def split: if_splits)
  then have "(case r of Inl _ \<Rightarrow> held_plan db' = held_plan db
    | Inr _ \<Rightarrow> held_plan db' = Some (stored_plan ((enrolled_plan v e ?p)\<lparr>updated_at := vs_now v\<rparr>))) \<and>
      held_seeded db' = held_seeded db"
  proof cases
    case no
    then show ?thesis using assms g view by (auto simp: store_plan_def)
  next
    case put
    from biz_put_held [OF put] view show ?thesis by (auto split: sum.split)
  qed
  then show "case r of
      Inl _ \<Rightarrow> held_plan db' = held_plan db
    | Inr _ \<Rightarrow> held_plan db' = Some (stored_plan ((enrolled_plan v e ?p)\<lparr>updated_at := vs_now v\<rparr>))"
    and "held_seeded db' = held_seeded db" by simp_all
qed

text \<open>A bucket that was adopted is opened or reported, and never created.\<close>

lemma open_enrolled_runs:
  obtains cmds where "ran (snd (open_enrolled e w)) = ran w @ cmds"
    "set cmds \<subseteq> (if er_adopted e then {[''cat'', ''config'']} else {[''cat'', ''config''], [''init'']})"
proof -
  let ?repo = "enrolled_repository e"
  obtain r1 w1 where x1: "exists_repo ?repo w = (r1, w1)" by fastforce
  obtain r2 w2 where x2: "init_repo ?repo w1 = (r2, w2)" by fastforce
  obtain r3 w3 where x3: "exists_repo ?repo w2 = (r3, w3)" by fastforce
  have box: "snd (open_enrolled e w) = snd (ensure_repo ?repo (\<not> er_adopted e) w)"
    by (simp add: open_enrolled_def split: prod.split option.split)
  show thesis
  proof (cases "validate_repo ?repo")
    case (Some er)
    then show ?thesis using box x1 exists_invalid [OF Some, of w] by (intro that [of "[]"]) (auto simp: ensure_repo_def)
  next
    case None
    note ran = exists_valid [OF None x1] init_valid [OF None x2] exists_valid [OF None x3]
    have "snd (ensure_repo ?repo (\<not> er_adopted e) w) \<in> (if er_adopted e then {w1} else {w1, w2, w3})"
      using x1 x2 x3 by (auto simp: ensure_repo_def split: sum.splits)
    then consider "snd (open_enrolled e w) = w1" | "snd (open_enrolled e w) = w2" "\<not> er_adopted e"
      | "snd (open_enrolled e w) = w3" "\<not> er_adopted e"
      using box by (auto split: if_splits)
    then show ?thesis by cases (use ran that in fastforce)+
  qed
qed

section \<open>Properties of an enrolment\<close>


text \<open>An enrolment, for the examples: the reader of a few words, a machine, and what is on its desk.\<close>

definition enrol_parse :: parser where
  "enrol_parse w =
     (if w = ''B'' then Some (JObject [(''machine_token'', ''P''), (''node_id'', ''P''), (''repository'', ''R''),
        (''credentials'', ''C'')])
      else if w = ''R'' then Some (JObject [(''url'', ''U''), (''adopted'', ''T'')])
      else creds_parse w)"

definition sample_visit :: errand where
  "sample_visit =
     \<lparr>vs_parse = enrol_parse, vs_url_of = (\<lambda>_. Some (''https'', ''h'', ''h'')), vs_goos = ''linux'', vs_goarch = ''amd64'',
      vs_hostname = ''leto'', vs_version = ''1'', vs_config = \<lparr>cf_node_id = [], cf_repository = [],
        cf_targets = [''/home''], cf_excludes = [], cf_confirmed = False, cf_times = [], cf_jitter = None,
        cf_min_interval = [], cf_pack_size = 0, cf_read_concurrency = 0, cf_use_fs_snapshot = None,
        cf_vss_fallback = None, cf_one_file_system = None, cf_metered = None, cf_skip_on_metered = None,
        cf_skip_larger = 0, cf_update = None, cf_url = [], cf_addr = []\<rparr>,
      vs_token = [], vs_token_path = ''token'', vs_token_tmp = ''.t1'', vs_token_part = 0, vs_modes = True,
      vs_pinned = None, vs_environment = (\<lambda>_. []), vs_now = 5\<rparr>"

definition sample_desk :: desk where
  "sample_desk =
     \<lparr>dk_plan = fresh_db, dk_token = \<lparr>files = Map.empty, disk_faults = []\<rparr>,
      dk_box = \<lparr>procs = [], ran = []\<rparr>, dk_net = \<lparr>replies = [Reply 200 ''200 OK'' ''B''], made = []\<rparr>,
      dk_answers = [Inr ''yes''], dk_said = []\<rparr>"

definition sample_order :: claim_order where
  "sample_order = \<lparr>co_code = ''c'', co_server = [], co_force = False, co_legacy = None\<rparr>"


section \<open>What an enrolment leaves behind\<close>

text \<open>The settings of the filesystem are not those of \<open>Config.Plan\<close>: on a machine without a plan they stay off,
  so that a first plan on Windows takes no snapshot and one on Linux leaves the filesystem.\<close>

lemma enrolled_plan_settings:
  "use_fs_snapshot (enrolled_plan v e p) = use_fs_snapshot p \<and>
   allow_vss_fallback (enrolled_plan v e p) = allow_vss_fallback p \<and>
   one_file_system (enrolled_plan v e p) = one_file_system p"
  by (simp add: enrolled_plan_def Let_def split: sum.split)

lemma first_plan_has_no_snapshot:
  "case config_plan ''windows'' (vs_config sample_visit) of Inl _ \<Rightarrow> False
    | Inr p \<Rightarrow> use_fs_snapshot p \<and> allow_vss_fallback p \<and> one_file_system p"
  "\<not> use_fs_snapshot (enrolled_plan v e zero_plan) \<and> \<not> one_file_system (enrolled_plan v e zero_plan)"
proof -
  show "case config_plan ''windows'' (vs_config sample_visit) of Inl _ \<Rightarrow> False
    | Inr p \<Rightarrow> use_fs_snapshot p \<and> allow_vss_fallback p \<and> one_file_system p" by code_simp
  show "\<not> use_fs_snapshot (enrolled_plan v e zero_plan) \<and> \<not> one_file_system (enrolled_plan v e zero_plan)"
    by (simp add: enrolled_plan_settings zero_plan_def)
qed

text \<open>The plan of an enrolment, of the setup page and of a confirmation is not marked as the seed: a
  configuration file that is found at the next start replaces it, and takes its confirmation away.\<close>

lemma start_replaces_confirmed_plan:
  "let cfg = (vs_config sample_visit)\<lparr>cf_node_id := ''leto'', cf_repository := ''s3:b2/leto'', cf_targets := [''/srv'']\<rparr>;
       db1 = snd (biz_confirm plandb (6 * second) (snd (biz_put plandb sample_plan 5 fresh_db)));
       r = seed_plan plandb ''linux'' (Some cfg) (7 * second) db1
   in map_option (\<lambda>p. (targets p, confirmed p)) (held_plan db1) = Some ([''/home''], True) \<and> fst r = Inr True \<and>
      map_option (\<lambda>p. (targets p, confirmed p)) (held_plan (snd r)) = Some ([''/srv''], False)"
  by code_simp

text \<open>The code is claimed from the server that was asked for, and everything after it goes to the server of the
  configuration: the token of the one is sent to the other.\<close>

lemma token_goes_to_another_server:
  "map (\<lambda>q. fst (req_body q)) (made (dk_net (snd (enroll sample_visit (sample_order\<lparr>co_server := ''https://x.org''\<rparr>)
     sample_desk)))) = [''https://x.org'', DefaultEumaeusURL]"
  by code_simp

end
