(* ===== verification/GoRegexp.thy ===== *)
theory GoRegexp
  imports GoText
begin

text \<open>
  Regular expressions as Go's \<open>regexp\<close> reads them: of the matches that start furthest to the left, the one a
  backtracking search that tries the longer repetition and the left alternative first would find. The
  constructors are the ones the program's expressions are built from; a repetition is always that of a class
  of characters. A text is bytes, so that a class speaks of ASCII.
\<close>

section \<open>Expressions and their matches\<close>

datatype rx =
    Cls "char \<Rightarrow> bool"
  | Many "char \<Rightarrow> bool"
  | OptR rx
  | AltR rx rx
  | SeqR rx rx
  | Grp nat rx
  | LineStart
  | LineEnd
  | WordEdge
  | Eps

text \<open>A place in a text: the character before it, if there is one, and what follows.\<close>

type_synonym spot = "char option \<times> string"

type_synonym groups = "nat \<Rightarrow> string option"

definition rx_space :: "char \<Rightarrow> bool" where
  "rx_space c \<longleftrightarrow> c \<in> {CHR 0x09, CHR 0x0A, CHR 0x0C, CHR 0x0D, CHR 0x20}"

definition rx_word :: "char \<Rightarrow> bool" where
  "rx_word c \<longleftrightarrow> (let n = (of_char c :: nat) in
     (48 \<le> n \<and> n \<le> 57) \<or> (65 \<le> n \<and> n \<le> 90) \<or> n = 95 \<or> (97 \<le> n \<and> n \<le> 122))"

definition rx_lf :: char where
  "rx_lf = CHR 0x0A"

definition any_char :: "char \<Rightarrow> bool" where
  "any_char c \<longleftrightarrow> c \<noteq> rx_lf"

definition next_of :: "spot \<Rightarrow> char option" where
  "next_of p = (case snd p of [] \<Rightarrow> None | c # _ \<Rightarrow> Some c)"

definition word_at :: "char option \<Rightarrow> bool" where
  "word_at c = (case c of None \<Rightarrow> False | Some d \<Rightarrow> rx_word d)"

fun many_run :: "(char \<Rightarrow> bool) \<Rightarrow> (spot \<Rightarrow> 'a option) \<Rightarrow> char option \<Rightarrow> string \<Rightarrow> 'a option" where
  "many_run p k prev [] = k (prev, [])"
| "many_run p k prev (c # cs) =
     (if p c then (case many_run p k (Some c) cs of Some x \<Rightarrow> Some x | None \<Rightarrow> k (prev, c # cs))
      else k (prev, c # cs))"

primrec rx_run :: "rx \<Rightarrow> spot \<Rightarrow> groups \<Rightarrow> (spot \<Rightarrow> groups \<Rightarrow> 'a option) \<Rightarrow> 'a option" where
  "rx_run (Cls p) s g k = (case snd s of c # cs \<Rightarrow> if p c then k (Some c, cs) g else None | [] \<Rightarrow> None)"
| "rx_run (Many p) s g k = many_run p (\<lambda>q. k q g) (fst s) (snd s)"
| "rx_run (OptR r) s g k = (case rx_run r s g k of Some x \<Rightarrow> Some x | None \<Rightarrow> k s g)"
| "rx_run (AltR r1 r2) s g k = (case rx_run r1 s g k of Some x \<Rightarrow> Some x | None \<Rightarrow> rx_run r2 s g k)"
| "rx_run (SeqR r1 r2) s g k = rx_run r1 s g (\<lambda>q h. rx_run r2 q h k)"
| "rx_run (Grp n r) s g k =
     rx_run r s g (\<lambda>q h. k q (h(n \<mapsto> take (length (snd s) - length (snd q)) (snd s))))"
| "rx_run LineStart s g k = (if fst s = None \<or> fst s = Some rx_lf then k s g else None)"
| "rx_run LineEnd s g k = (if snd s = [] \<or> hd (snd s) = rx_lf then k s g else None)"
| "rx_run WordEdge s g k = (if word_at (fst s) \<noteq> word_at (next_of s) then k s g else None)"
| "rx_run Eps s g k = k s g"

fun rx_find :: "rx \<Rightarrow> char option \<Rightarrow> string \<Rightarrow> (string \<times> groups \<times> spot) option" where
  "rx_find r prev s =
     (case rx_run r (prev, s) Map.empty (\<lambda>q g. Some (q, g)) of
        Some (q, g) \<Rightarrow> Some (take (length s - length (snd q)) s, g, q)
      | None \<Rightarrow> (case s of [] \<Rightarrow> None | c # cs \<Rightarrow> rx_find r (Some c) cs))"

declare rx_find.simps [simp del]

text \<open>
  Every match, one after the other. No expression of the program matches the empty text, so that each match
  begins where the one before it ended or later; a match of nothing would end the list.
\<close>

function rx_all :: "rx \<Rightarrow> char option \<Rightarrow> string \<Rightarrow> (string \<times> groups) list" where
  "rx_all r prev s =
     (case rx_find r prev s of
        None \<Rightarrow> []
      | Some (m, g, q) \<Rightarrow> (m, g) # (if length (snd q) < length s then rx_all r (fst q) (snd q) else []))"
  by pat_completeness auto
termination
  by (relation "measure (\<lambda>(r, prev, s). length s)") auto

declare rx_all.simps [simp del]

definition group :: "groups \<Rightarrow> nat \<Rightarrow> string" where
  "group g n = (case g n of None \<Rightarrow> [] | Some s \<Rightarrow> s)"

definition rx_first :: "rx \<Rightarrow> string \<Rightarrow> (string \<times> groups) option" where
  "rx_first r s = (case rx_find r None s of None \<Rightarrow> None | Some (m, g, q) \<Rightarrow> Some (m, g))"

definition Many1 :: "(char \<Rightarrow> bool) \<Rightarrow> rx" where
  "Many1 p = SeqR (Cls p) (Many p)"

definition one_of :: "string \<Rightarrow> rx" where
  "one_of cs = Cls (\<lambda>c. c \<in> set cs)"

definition lit :: "string \<Rightarrow> rx" where
  "lit s = foldr (\<lambda>c. SeqR (Cls (\<lambda>d. d = c))) s Eps"

definition lit_fold :: "string \<Rightarrow> rx" where
  "lit_fold s = foldr (\<lambda>c. SeqR (Cls (\<lambda>d. lower_char d = lower_char c))) s Eps"

definition rx_seq :: "rx list \<Rightarrow> rx" where
  "rx_seq rs = foldr SeqR rs Eps"

section \<open>Facts about matching\<close>

lemma rx_run_lit [simp]:
  "rx_run (lit (c # s)) q g k =
     (case snd q of [] \<Rightarrow> None | d # ds \<Rightarrow> if d = c then rx_run (lit s) (Some d, ds) g k else None)"
  "rx_run (lit []) q g k = k q g"
  by (simp_all add: lit_def split: list.split)

lemma rx_run_seq [simp]:
  "rx_run (rx_seq (r # rs)) q g k = rx_run r q g (\<lambda>q' h. rx_run (rx_seq rs) q' h k)"
  "rx_run (rx_seq []) q g k = k q g"
  by (simp_all add: rx_seq_def)

lemma many_run_stop: "s = [] \<or> \<not> p (hd s) \<Longrightarrow> many_run p k prev s = k (prev, s)"
  by (cases s) auto

text \<open>A repetition takes all it can, and gives back only when what follows fails.\<close>

lemma many_run_all:
  assumes "\<forall>c\<in>set a. p c" and "b = [] \<or> \<not> p (hd b)"
    and "k (if a = [] then prev else Some (last a), b) = Some x"
  shows "many_run p k prev (a @ b) = Some x"
  using assms
proof (induction a arbitrary: prev)
  case Nil
  then show ?case by (simp add: many_run_stop)
next
  case (Cons c a)
  then have "many_run p k (Some c) (a @ b) = Some x" by (intro Cons.IH) (auto split: if_splits)
  then show ?case using Cons.prems(1) by simp
qed

text \<open>When what follows fails wherever the repetition could end, so does the whole.\<close>

lemma many_run_none:
  assumes "\<And>a b prev'. s = a @ b \<Longrightarrow> \<forall>c\<in>set a. p c \<Longrightarrow> k (prev', b) = None"
  shows "many_run p k prev s = None"
  using assms
proof (induction s arbitrary: prev)
  case Nil
  then show ?case by simp
next
  case (Cons c s)
  have "k (prev, c # s) = None" using Cons.prems [of "[]" "c # s"] by simp
  moreover have "many_run p k (Some c) s = None" if "p c"
    using Cons.prems that by (intro Cons.IH) (metis append_Cons insert_iff list.set(2))
  ultimately show ?case by auto
qed

end
