(* ===== verification/Legacy.thy ===== *)
theory Legacy
  imports GoRegexp GoPath "HOL-Library.AList"
begin

text \<open>
  The backup that was on a machine before this program, as its script describes it:
  \<open>business/domain/legacy/legacybus/legacybus.go\<close>. The script is read with regular expressions (theory
  \<open>GoRegexp\<close>). Where the code goes through a map the order is not determined: the argument \<open>order\<close> says in which
  one the variables come up when a text is expanded.
\<close>

section \<open>What a script says of itself\<close>

datatype layout = LayoutLinux | LayoutWindows

record fields_read =
  lf_repository :: string
  lf_node :: string
  lf_targets :: "string list"
  lf_excludes :: "string list"
  lf_exclude_file :: string
  lf_password_file :: string
  lf_uses_snapshot :: bool
  lf_pack_size :: int
  lf_read_concurrency :: int
  lf_has_credentials :: bool

definition quote_mark :: char where
  "quote_mark = CHR 0x22"

definition name_start :: "char \<Rightarrow> bool" where
  "name_start c \<longleftrightarrow> rx_word c \<and> \<not> (48 \<le> (of_char c :: nat) \<and> (of_char c :: nat) \<le> 57)"

definition value_char :: "char \<Rightarrow> bool" where
  "value_char c \<longleftrightarrow> c \<noteq> quote_mark \<and> c \<noteq> CHR 0x0D \<and> c \<noteq> rx_lf"

definition keyword_rx :: rx where
  "keyword_rx =
     OptR (AltR (SeqR (lit_fold ''export'') (Many1 rx_space)) (SeqR (lit_fold ''set'') (Many1 rx_space)))"

definition name_rx :: rx where
  "name_rx = Grp 1 (SeqR (Cls name_start) (Many rx_word))"

definition value_rx :: rx where
  "value_rx = rx_seq
     [OptR (Cls (\<lambda>c. c = quote_mark)), Grp 2 (Many value_char), OptR (Cls (\<lambda>c. c = quote_mark)),
      Many rx_space, LineEnd]"

definition assignment :: rx where
  "assignment = rx_seq
     [LineStart, Many rx_space, keyword_rx, name_rx, Many rx_space, Cls (\<lambda>c. c = CHR ''=''),
      Many rx_space, value_rx]"

definition assignments :: "string \<Rightarrow> (string \<times> string) list" where
  "assignments script = map (\<lambda>(m, g). (group g 1, trim_space (group g 2))) (rx_all assignment None script)"

definition placeholder :: "string \<Rightarrow> bool" where
  "placeholder v \<longleftrightarrow> v \<noteq> [] \<and> list_all (\<lambda>c. c = CHR ''x'') v"

text \<open>\<open>strconv.Atoi\<close> with its error thrown away: what cannot be read is 0, what does not fit is the bound.\<close>

definition atoi_or_zero :: "string \<Rightarrow> int" where
  "atoi_or_zero s =
     (let neg = (case s of [] \<Rightarrow> False | c # _ \<Rightarrow> c = CHR ''-'');
          ds = (case s of [] \<Rightarrow> [] | c # cs \<Rightarrow> if c = CHR ''-'' \<or> c = CHR ''+'' then cs else s)
      in if ds = [] then 0
         else case read_digits 0 ds of
             None \<Rightarrow> 0
           | Some n \<Rightarrow>
               let v = (if neg then - int n else int n) in
               if v < int64_min then int64_min else if int64_max < v then int64_max else v)"

function replace_all :: "string \<Rightarrow> string \<Rightarrow> string \<Rightarrow> string" where
  "replace_all old new [] = []"
| "replace_all old new (c # cs) =
     (if old \<noteq> [] \<and> prefix old (c # cs) then new @ replace_all old new (drop (length old - 1) cs)
      else c # replace_all old new cs)"
  by pat_completeness auto
termination
  by (relation "measure (\<lambda>(old, new, s). length s)") auto

type_synonym vars = "(string \<times> string) list"

definition vars_of :: "vars \<Rightarrow> vars" where
  "vars_of as = AList.clearjunk (rev as)"

definition expand_one :: "string \<Rightarrow> string \<times> string \<Rightarrow> string" where
  "expand_one text nv =
     (case nv of (n, v) \<Rightarrow>
        if v = [] then text
        else foldl (\<lambda>t ref. replace_all ref v t) text
          [''%'' @ n @ ''%'', ''${'' @ n @ ''}'', ''$'' @ n])"

definition expand :: "(string \<Rightarrow> vars \<Rightarrow> vars) \<Rightarrow> string \<Rightarrow> vars \<Rightarrow> string" where
  "expand order text vs = (if text = [] then [] else foldl expand_one text (order text vs))"

definition exclude_file_rx :: rx where
  "exclude_file_rx = rx_seq
     [lit ''--exclude-file'', Many1 (\<lambda>c. c = CHR '' '' \<or> c = CHR ''=''), OptR (Cls (\<lambda>c. c = quote_mark)),
      Grp 1 (Many1 (\<lambda>c. c \<noteq> quote_mark \<and> \<not> rx_space c)), OptR (Cls (\<lambda>c. c = quote_mark))]"

definition exclude_file_of :: "string \<Rightarrow> string" where
  "exclude_file_of script =
     (case rx_first exclude_file_rx script of None \<Rightarrow> [] | Some (m, g) \<Rightarrow> group g 1)"

definition backup_line_rx :: rx where
  "backup_line_rx = rx_seq
     [LineStart, Many any_char, lit ''restic'', OptR (lit ''.exe''),
      OptR (Cls (\<lambda>c. c = quote_mark \<or> c = CHR 0x27)), Many1 rx_space, Many any_char, WordEdge,
      lit ''backup'', WordEdge, Many any_char, LineEnd]"

definition backup_line :: "string \<Rightarrow> string" where
  "backup_line script = (case rx_first backup_line_rx script of None \<Rightarrow> [] | Some (m, g) \<Rightarrow> m)"

definition exclude_arg_rx :: rx where
  "exclude_arg_rx = rx_seq
     [lit ''--exclude'', AltR (Cls (\<lambda>c. c = CHR ''='')) (Many1 rx_space),
      Grp 1 (AltR (rx_seq [Cls (\<lambda>c. c = quote_mark), Many (\<lambda>c. c \<noteq> quote_mark), Cls (\<lambda>c. c = quote_mark)])
        (Many1 (\<lambda>c. \<not> rx_space c)))]"

definition trim_quotes :: "string \<Rightarrow> string" where
  "trim_quotes s = trim_left_set {quote_mark, CHR 0x27} (trim_right_set {quote_mark, CHR 0x27} s)"

text \<open>One argument: a brace expansion is several excludes.\<close>

definition exclude_values :: "string \<Rightarrow> string list" where
  "exclude_values raw =
     (let v = trim_quotes raw in
      if prefix ''{'' v \<and> suffix ''}'' (drop 1 v)
      then filter (\<lambda>p. p \<noteq> []) (map trim_space (split_on (CHR '','') (trim_suffix ''}'' (drop 1 v))))
      else if v \<noteq> [] then [v] else [])"

definition excludes_of :: "string \<Rightarrow> string list" where
  "excludes_of script =
     (let line = backup_line script in
      if line = [] then [] else concat (map (\<lambda>(m, g). exclude_values (group g 1)) (rx_all exclude_arg_rx None line)))"

definition option_with_value :: "string list" where
  "option_with_value = [''--exclude-file'', ''--exclude'', ''-o'', ''--tag'', ''--host'', ''--target'']"

fun targets_from :: "bool \<Rightarrow> bool \<Rightarrow> string list \<Rightarrow> string list" where
  "targets_from after skip [] = []"
| "targets_from after skip (f # fs) =
     (if skip then targets_from after False fs
      else if \<not> after then targets_from (f = ''backup'') False fs
      else if f \<in> set option_with_value then targets_from after True fs
      else if prefix ''-'' f then targets_from after False fs
      else trim_quotes f # targets_from after False fs)"

definition targets_of :: "string \<Rightarrow> string list" where
  "targets_of script =
     (let line = backup_line script in if line = [] then [] else targets_from False False (words line))"

definition no_fields :: fields_read where
  "no_fields = \<lparr>lf_repository = [], lf_node = [], lf_targets = [], lf_excludes = [], lf_exclude_file = [],
     lf_password_file = [], lf_uses_snapshot = False, lf_pack_size = 0, lf_read_concurrency = 0,
     lf_has_credentials = False\<rparr>"

definition secret_names :: "string list" where
  "secret_names = [''AWS_ACCESS_KEY_ID'', ''AWS_SECRET_ACCESS_KEY'', ''RESTIC_PASSWORD'']"

definition take_field :: "fields_read \<Rightarrow> string \<times> string \<Rightarrow> fields_read" where
  "take_field f nv =
     (case nv of (n, v) \<Rightarrow>
        if n = ''RESTIC_REPOSITORY'' then f\<lparr>lf_repository := v\<rparr>
        else if n = ''NODE_ID'' \<or> n = ''NODE'' then f\<lparr>lf_node := v\<rparr>
        else if n = ''RESTIC_PASSWORD_FILE'' then f\<lparr>lf_password_file := v\<rparr>
        else if n = ''RESTIC_PACK_SIZE'' then f\<lparr>lf_pack_size := atoi_or_zero v\<rparr>
        else if n = ''RESTIC_READ_CONCURRENCY'' then f\<lparr>lf_read_concurrency := atoi_or_zero v\<rparr>
        else if n \<in> set secret_names \<and> v \<noteq> [] \<and> \<not> placeholder v then f\<lparr>lf_has_credentials := True\<rparr>
        else f)"

definition parse_script :: "(string \<Rightarrow> vars \<Rightarrow> vars) \<Rightarrow> string \<Rightarrow> fields_read" where
  "parse_script order script =
     (let as = assignments script; vs = vars_of as; f = foldl take_field no_fields as in
      f\<lparr>lf_password_file := expand order (lf_password_file f) vs,
        lf_uses_snapshot := contains_str ''--use-fs-snapshot'' script,
        lf_exclude_file := expand order (exclude_file_of script) vs,
        lf_targets := targets_of script,
        lf_excludes := map (\<lambda>p. expand order p vs) (excludes_of script)\<rparr>)"

definition version_of :: "layout \<Rightarrow> string \<Rightarrow> string \<Rightarrow> string" where
  "version_of l script dir =
     (case l of
        LayoutWindows \<Rightarrow> ''1.3''
      | LayoutLinux \<Rightarrow>
          if contains_str ''BACKUP_DIR=/home/restic'' script \<or> contains_str ''/home/restic'' dir then ''1.1''
          else if contains_str ''BACKUP_DIR='' script then ''1.0'' else ''0.2'')"

section \<open>The secrets\<close>

record legacy_creds =
  lc_access :: string
  lc_secret :: string
  lc_password :: string
  lc_password_file :: string

definition no_creds :: legacy_creds where
  "no_creds = \<lparr>lc_access = [], lc_secret = [], lc_password = [], lc_password_file = []\<rparr>"

definition complete_creds :: "legacy_creds \<Rightarrow> bool" where
  "complete_creds c \<longleftrightarrow> lc_access c \<noteq> [] \<and> lc_secret c \<noteq> [] \<and> lc_password c \<noteq> []"

definition take_cred :: "legacy_creds \<Rightarrow> string \<times> string \<Rightarrow> legacy_creds" where
  "take_cred c nv =
     (case nv of (n, v) \<Rightarrow>
        if v = [] \<or> placeholder v then c
        else if n = ''AWS_ACCESS_KEY_ID'' then c\<lparr>lc_access := v\<rparr>
        else if n = ''AWS_SECRET_ACCESS_KEY'' then c\<lparr>lc_secret := v\<rparr>
        else if n = ''RESTIC_PASSWORD'' then c\<lparr>lc_password := v\<rparr>
        else if n = ''RESTIC_PASSWORD_FILE'' then c\<lparr>lc_password_file := v\<rparr>
        else c)"

definition parse_credentials :: "(string \<Rightarrow> vars \<Rightarrow> vars) \<Rightarrow> string \<Rightarrow> legacy_creds" where
  "parse_credentials order script =
     (let as = assignments script; c = foldl take_cred no_creds as in
      c\<lparr>lc_password_file := expand order (lc_password_file c) (vars_of as)\<rparr>)"

section \<open>Credentials that are there\<close>

lemma credentials_agree_fold:
  assumes "lf_has_credentials f \<longleftrightarrow> lc_access c \<noteq> [] \<or> lc_secret c \<noteq> [] \<or> lc_password c \<noteq> []"
  shows "lf_has_credentials (foldl take_field f as) \<longleftrightarrow>
    (let c' = foldl take_cred c as in lc_access c' \<noteq> [] \<or> lc_secret c' \<noteq> [] \<or> lc_password c' \<noteq> [])"
  using assms
proof (induction as arbitrary: f c)
  case (Cons a as)
  have "lf_has_credentials (take_field f a) \<longleftrightarrow>
      lc_access (take_cred c a) \<noteq> [] \<or> lc_secret (take_cred c a) \<noteq> [] \<or> lc_password (take_cred c a) \<noteq> []"
    using Cons.prems by (cases a) (auto simp: take_field_def take_cred_def secret_names_def)
  then show ?case using Cons.IH by simp
qed simp

text \<open>what the report says of the old script's secrets is what the migration will find when it reads them:
  it says that they are there exactly when one of the three is read out of the script.\<close>

theorem reported_credentials_are_there:
  "lf_has_credentials (parse_script order script) \<longleftrightarrow>
    (let c = parse_credentials order script in lc_access c \<noteq> [] \<or> lc_secret c \<noteq> [] \<or> lc_password c \<noteq> [])"
  using credentials_agree_fold [of no_fields no_creds "assignments script"]
  by (simp add: parse_script_def parse_credentials_def Let_def no_fields_def no_creds_def)

section \<open>What a script of the usual shape is read as\<close>

text \<open>
  The lines of a script: a variable that is set, in quotes, or a line that begins with neither a space nor a
  letter, which is a comment, a path or a quoted program.
\<close>

datatype script_line = Sets string string | Other string

fun line_text :: "script_line \<Rightarrow> string" where
  "line_text (Sets n v) = ''export '' @ n @ ''='' @ quote_mark # v @ [quote_mark]"
| "line_text (Other l) = l"

definition script_text :: "script_line list \<Rightarrow> string" where
  "script_text ls = concat (map (\<lambda>l. line_text l @ [rx_lf]) ls)"

fun line_ok :: "script_line \<Rightarrow> bool" where
  "line_ok (Sets n v) \<longleftrightarrow> n \<noteq> [] \<and> name_start (hd n) \<and> list_all rx_word n \<and> list_all value_char v"
| "line_ok (Other l) \<longleftrightarrow> l \<noteq> [] \<and> \<not> name_start (hd l) \<and> \<not> rx_space (hd l) \<and> rx_lf \<notin> set l"

fun line_sets :: "script_line \<Rightarrow> (string \<times> string) list" where
  "line_sets (Sets n v) = [(n, trim_space v)]"
| "line_sets (Other l) = []"

definition may_begin :: "char option \<Rightarrow> bool" where
  "may_begin prev \<longleftrightarrow> prev = None \<or> prev = Some rx_lf"

lemma assignment_fails_inside: "\<not> may_begin prev \<Longrightarrow> rx_run assignment (prev, s) g k = None"
  unfolding assignment_def rx_run_seq(1) by (simp only: rx_run.simps may_begin_def fst_conv de_Morgan_disj if_False HOL.simp_thms)

lemma find_inside:
  "\<not> may_begin prev \<Longrightarrow> rx_find assignment prev (c # s) = rx_find assignment (Some c) s"
  using assignment_fails_inside [of prev "c # s" Map.empty "\<lambda>q g. Some (q, g)"] by (subst rx_find.simps) simp

lemma skip_to_newline:
  assumes "rx_lf \<notin> set l" and "\<not> may_begin prev"
  shows "rx_find assignment prev (l @ rx_lf # s) = rx_find assignment (Some rx_lf) s"
  using assms
proof (induction l arbitrary: prev)
  case Nil
  then show ?case using find_inside [of prev rx_lf s] by simp
next
  case (Cons c l)
  then have "\<not> may_begin (Some c)" by (auto simp: may_begin_def)
  then show ?case using Cons.IH [of "Some c"] Cons.prems find_inside [of prev c "l @ rx_lf # s"] by simp
qed

lemma fold_letter:
  "lower_char d = lower_char c \<Longrightarrow> 97 \<le> (of_char c :: nat) \<Longrightarrow> (of_char c :: nat) \<le> 122 \<Longrightarrow> name_start d"
  by (auto simp: lower_char_def rx_word_def name_start_def Let_def split: if_splits)

lemma keyword_skipped:
  assumes "\<not> name_start c"
  shows "rx_run keyword_rx (prev, c # s) g k = k (prev, c # s) g"
proof -
  have "lower_char c \<noteq> lower_char CHR ''e''" "lower_char c \<noteq> lower_char CHR ''s''"
    using assms fold_letter [of c "CHR ''e''"] fold_letter [of c "CHR ''s''"] by auto
  then show ?thesis by (simp add: keyword_rx_def lit_fold_def)
qed

lemma other_line_fails:
  assumes "\<not> name_start c" and "\<not> rx_space c"
  shows "rx_run assignment (prev, c # s) g k = None"
  using assms by (simp add: assignment_def keyword_skipped name_rx_def many_run_stop)

lemma many_all [simp]:
  assumes "list_all p a" and "b = [] \<or> \<not> p (hd b)"
    and "k (if a = [] then prev else Some (last a), b) g = Some x"
  shows "rx_run (Many p) (prev, a @ b) g k = Some x"
  using many_run_all [of a p b "\<lambda>q. k q g" prev x] assms by (simp add: list_all_iff)

lemma value_read:
  assumes "list_all value_char v" and "rest = [] \<or> \<not> rx_space (hd rest)"
  shows "\<exists>q. rx_run value_rx (prev, quote_mark # v @ quote_mark # rx_lf # rest) g (\<lambda>q h. Some (q, h)) =
    Some (q, g(2 \<mapsto> v)) \<and> (if rest = [] then q = (Some rx_lf, []) else q = (Some quote_mark, rx_lf # rest))"
proof -
  let ?h = "g(2 \<mapsto> v)"
  let ?k = "\<lambda>q h. rx_run LineEnd q h (\<lambda>q h. Some (q, h))"
  have sp: "rx_space rx_lf" "\<not> value_char quote_mark" by (simp_all add: rx_space_def rx_lf_def value_char_def)
  obtain q where q: "rx_run (Many rx_space) (Some quote_mark, rx_lf # rest) ?h ?k = Some (q, ?h)"
    "if rest = [] then q = (Some rx_lf, []) else q = (Some quote_mark, rx_lf # rest)"
  proof (cases rest)
    case Nil
    then show ?thesis using that [of "(Some rx_lf, [])"] sp by simp
  next
    case (Cons c cs)
    then have "\<not> rx_space c" "c \<noteq> rx_lf" using assms(2) sp by auto
    then show ?thesis using that [of "(Some quote_mark, rx_lf # rest)"] Cons sp by (simp add: many_run_stop)
  qed
  let ?rest = "[OptR (Cls (\<lambda>c. c = quote_mark)), Many rx_space, LineEnd]"
  let ?m = "\<lambda>q h. rx_run (rx_seq ?rest) q h (\<lambda>q h. Some (q, h))"
  have m: "?m (prev', quote_mark # rx_lf # rest) ?h = Some (q, ?h)" for prev'
    using q(1) by simp
  let ?s = "v @ quote_mark # rx_lf # rest"
  have "rx_run (Many value_char) (Some quote_mark, ?s) g (\<lambda>q' h. ?m q' (h(2 \<mapsto> take (length ?s - length (snd q')) ?s)))
      = Some (q, ?h)"
    using m assms(1) sp(2) by (intro many_all) (simp_all del: rx_run_seq rx_run.simps)
  then have "rx_run (rx_seq (Grp 2 (Many value_char) # ?rest)) (Some quote_mark, ?s) g (\<lambda>q h. Some (q, h)) = Some (q, ?h)"
    unfolding rx_run_seq(1) [of "Grp 2 (Many value_char)"] rx_run.simps(6) by (simp only: snd_conv)
  then have "rx_run value_rx (prev, quote_mark # ?s) g (\<lambda>q h. Some (q, h)) = Some (q, ?h)"
    unfolding value_rx_def rx_run_seq(1) [of "OptR (Cls (\<lambda>c. c = quote_mark))"] rx_run.simps(1,3)
    by (simp only: snd_conv list.case if_True option.case HOL.simp_thms)
  then show ?thesis using q(2) by blast
qed

lemma keyword_read:
  assumes "s = [] \<or> \<not> rx_space (hd s)" and "k (Some CHR '' '', s) g = Some x"
  shows "rx_run keyword_rx (prev, ''export '' @ s) g k = Some x"
proof -
  have "rx_space CHR '' ''" by (simp add: rx_space_def)
  then show ?thesis using assms by (simp add: keyword_rx_def lit_fold_def Many1_def many_run_stop)
qed

lemma name_read:
  assumes "n \<noteq> []" "name_start (hd n)" "list_all rx_word n" and "s = [] \<or> \<not> rx_word (hd s)"
    and "k (Some (last n), s) (g(1 \<mapsto> n)) = Some x"
  shows "rx_run name_rx (prev, n @ s) g k = Some x"
proof -
  obtain c cs where n: "n = c # cs" using assms(1) by (cases n) auto
  have "rx_run (Many rx_word) (Some c, cs @ s) g (\<lambda>q h. k q (h(1 \<mapsto> take (length (n @ s) - length (snd q)) (n @ s))))
      = Some x"
    using assms n by (intro many_all) (auto simp del: fun_upd_apply)
  then show ?thesis using assms(2) n by (simp add: name_rx_def)
qed

lemma sets_found:
  assumes "line_ok (Sets n v)" and "rest = [] \<or> \<not> rx_space (hd rest)" and "may_begin prev"
  shows "\<exists>q. rx_run assignment (prev, line_text (Sets n v) @ rx_lf # rest) Map.empty (\<lambda>q h. Some (q, h)) =
      Some (q, [1 \<mapsto> n, 2 \<mapsto> v]) \<and> (if rest = [] then q = (Some rx_lf, []) else q = (Some quote_mark, rx_lf # rest))"
proof -
  let ?v = "quote_mark # v @ quote_mark # rx_lf # rest"
  let ?k = "\<lambda>q h. Some (q, h :: groups)"
  obtain q where v: "rx_run value_rx (Some CHR ''='', ?v) [1 \<mapsto> n] ?k = Some (q, [1 \<mapsto> n, 2 \<mapsto> v])"
    and q: "if rest = [] then q = (Some rx_lf, []) else q = (Some quote_mark, rx_lf # rest)"
    using value_read [of v rest "Some CHR ''=''" "[1 \<mapsto> n]"] assms by auto
  have sp: "\<not> rx_space CHR ''=''" "\<not> rx_space quote_mark" "\<not> rx_word CHR ''=''" "\<not> rx_space CHR ''e''"
    by (simp_all add: rx_space_def rx_word_def quote_mark_def Let_def)
  have n: "n \<noteq> []" "name_start (hd n)" "list_all rx_word n" using assms(1) by auto
  have ns: "\<not> rx_space (hd n)" using n(2) by (auto simp: name_start_def rx_word_def rx_space_def Let_def)
  let ?tail = "[Many rx_space, Cls (\<lambda>c. c = CHR ''=''), Many rx_space, value_rx]"
  have t: "rx_run (rx_seq ?tail) (Some (last n), CHR ''='' # ?v) [1 \<mapsto> n] ?k = Some (q, [1 \<mapsto> n, 2 \<mapsto> v])"
    using v sp by (simp add: many_run_stop)
  have nm: "rx_run (rx_seq (name_rx # ?tail)) (Some CHR '' '', n @ CHR ''='' # ?v) Map.empty ?k = Some (q, [1 \<mapsto> n, 2 \<mapsto> v])"
    unfolding rx_run_seq(1) [of name_rx] using n sp t by (intro name_read) simp_all
  have kw: "rx_run (rx_seq (keyword_rx # name_rx # ?tail)) (prev, ''export '' @ n @ CHR ''='' # ?v) Map.empty ?k =
      Some (q, [1 \<mapsto> n, 2 \<mapsto> v])"
    unfolding rx_run_seq(1) [of keyword_rx] using n ns nm by (intro keyword_read) simp_all
  have "rx_run assignment (prev, ''export '' @ n @ CHR ''='' # ?v) Map.empty ?k = Some (q, [1 \<mapsto> n, 2 \<mapsto> v])"
    using kw assms(3) sp(4)
    unfolding assignment_def rx_run_seq(1) [of LineStart] rx_run_seq(1) [of "Many rx_space" "keyword_rx # _"]
    by (simp add: may_begin_def del: rx_run_seq)
  then show ?thesis using q by auto
qed

fun is_other :: "script_line \<Rightarrow> bool" where
  "is_other (Other l) = True"
| "is_other (Sets n v) = False"

lemma script_simps [simp]:
  "script_text [] = []" "script_text (l # ls) = line_text l @ rx_lf # script_text ls"
  by (simp_all add: script_text_def)

lemma script_begins:
  "list_all line_ok ls \<Longrightarrow> script_text ls = [] \<or> \<not> rx_space (hd (script_text ls))"
proof (cases ls)
  case (Cons l ls')
  moreover assume "list_all line_ok ls"
  ultimately show ?thesis by (cases l) (auto simp: rx_space_def)
qed simp

lemma find_nothing: "rx_find assignment prev [] = None"
  by (subst rx_find.simps) (simp add: assignment_def keyword_rx_def lit_fold_def name_rx_def)

text \<open>The next assignment a script holds, from the beginning of one of its lines.\<close>

lemma next_assignment:
  assumes "list_all line_ok ls" and "may_begin prev"
  shows "case dropWhile is_other ls of
      Sets n v # ls' \<Rightarrow> \<exists>m q. rx_find assignment prev (script_text ls) = Some (m, [1 \<mapsto> n, 2 \<mapsto> v], q) \<and>
        (if ls' = [] then q = (Some rx_lf, []) else q = (Some quote_mark, rx_lf # script_text ls'))
    | _ \<Rightarrow> rx_find assignment prev (script_text ls) = None"
  using assms
proof (induction ls arbitrary: prev)
  case Nil
  then show ?case by (simp add: find_nothing)
next
  case (Cons l ls)
  note rest = script_begins [of ls]
  show ?case
  proof (cases l)
    case (Sets n v)
    have "script_text ls = [] \<longleftrightarrow> ls = []" by (cases ls) auto
    then show ?thesis
      using sets_found [of n v "script_text ls" prev] Cons.prems rest Sets
      by (subst rx_find.simps) (auto split: option.split)
  next
    case (Other w)
    then obtain c cs where w: "w = c # cs" using Cons.prems(1) by (cases w) auto
    then have "rx_find assignment prev (script_text (l # ls)) = rx_find assignment (Some c) (cs @ rx_lf # script_text ls)"
      using other_line_fails [of c prev _ Map.empty "\<lambda>q g. Some (q, g)"] Cons.prems Other
      by (subst rx_find.simps) simp
    also have "\<dots> = rx_find assignment (Some rx_lf) (script_text ls)"
      using Cons.prems(1) Other w by (intro skip_to_newline) (auto simp: may_begin_def)
    finally have e: "rx_find assignment prev (script_text (l # ls)) = rx_find assignment (Some rx_lf) (script_text ls)" .
    show ?thesis unfolding e using Cons.IH [of "Some rx_lf"] Cons.prems(1) Other by (simp add: may_begin_def)
  qed
qed

lemma skipped_lines: "concat (map line_sets ls) = concat (map line_sets (dropWhile is_other ls))"
proof (induction ls)
  case (Cons l ls)
  then show ?case by (cases l) auto
qed simp

lemma script_all:
  assumes "list_all line_ok ls"
    and "may_begin prev \<and> s = script_text ls \<or> \<not> may_begin prev \<and> s = rx_lf # script_text ls"
  shows "map (\<lambda>(m, g). (group g 1, trim_space (group g 2))) (rx_all assignment prev s) = concat (map line_sets ls)"
  using assms
proof (induction "length ls" arbitrary: ls prev s rule: less_induct)
  case less
  have f: "rx_find assignment prev s = rx_find assignment prev' (script_text ls)" if "prev' = (if may_begin prev then prev else Some rx_lf)" for prev'
    using less.prems(2) that find_inside [of prev rx_lf] by auto
  obtain prev' where p: "prev' = (if may_begin prev then prev else Some rx_lf)" "may_begin prev'"
    by (auto simp: may_begin_def)
  note nx = next_assignment [OF less.prems(1) p(2)]
  show ?case
  proof (cases "dropWhile is_other ls")
    case Nil
    then show ?thesis using nx [unfolded Nil] f [OF p(1)] skipped_lines [of ls, unfolded Nil]
      by (subst rx_all.simps) (simp del: concat_map_singleton)
  next
    case (Cons l ls')
    then have "\<not> is_other l" using hd_dropWhile [of is_other ls] by simp
    then obtain n v where l: "l = Sets n v" by (cases l) auto
    obtain m q where q: "rx_find assignment prev s = Some (m, [1 \<mapsto> n, 2 \<mapsto> v], q)"
      "if ls' = [] then q = (Some rx_lf, []) else q = (Some quote_mark, rx_lf # script_text ls')"
      using nx f [OF p(1)] Cons l by auto
    have sub: "ls = takeWhile is_other ls @ l # ls'" using Cons by (metis takeWhile_dropWhile_id)
    then have ok: "list_all line_ok ls'" using less.prems(1) by (metis list.pred_inject(2) list_all_append)
    have len: "length ls' < length ls" using sub by (metis add_Suc_right length_Cons length_append less_add_Suc2)
    have "length (script_text ls') + 2 \<le> length (script_text ls)"
    proof -
      have "script_text (a @ b) = script_text a @ script_text b" for a b by (simp add: script_text_def)
      then have "script_text ls = script_text (takeWhile is_other ls) @ line_text l @ rx_lf # script_text ls'"
        using sub script_simps(2) by metis
      then have "length (script_text ls) = length (script_text (takeWhile is_other ls)) + length (line_text l) +
          length (script_text ls') + 1" by simp
      moreover have "length (line_text l) \<ge> 1" using l by simp
      ultimately show ?thesis by simp
    qed
    then have lt: "length (snd q) < length s" using q(2) less.prems(2) by (auto split: if_splits)
    have "map (\<lambda>(m, g). (group g 1, trim_space (group g 2))) (rx_all assignment (fst q) (snd q)) = concat (map line_sets ls')"
      using less.hyps [OF len ok, of "fst q" "snd q"] q(2)
      by (auto simp: may_begin_def quote_mark_def rx_lf_def split: if_splits)
    then show ?thesis using q(1) lt skipped_lines [of ls] Cons l
      by (subst rx_all.simps) (simp add: group_def)
  qed
qed



text \<open>A variable that is set to nothing takes the next line for its value, as the spaces after the equals sign
  may be the end of the line: the repository's password is then the name of the node, which every report
  shows, and the report says that the script holds no secret.\<close>

lemma blank_assignment_shows_secret:
  "let f = parse_script (\<lambda>_. rev) (''NODE_ID='' @ [rx_lf] @ ''RESTIC_PASSWORD=hunter2'' @ [rx_lf]) in
    lf_node f = ''RESTIC_PASSWORD=hunter2'' \<and> \<not> lf_has_credentials f"
  by code_simp

text \<open>The command that is read is the first one, also when it is a comment.\<close>

lemma commented_command_is_read:
  "targets_of (''# restic backup /old'' @ [rx_lf] @ ''restic backup /home'' @ [rx_lf]) = [''/old'']"
  by code_simp

text \<open>What a reference stands for can depend on the order in which a map happens to be gone through.\<close>

lemma expansion_depends_on_order:
  "let vs = [(''BACKUP'', ''/a''), (''BACKUP_DIR'', ''/b'')] in
    expand (\<lambda>_ vs. vs) ''$BACKUP_DIR/x'' vs = ''/a_DIR/x'' \<and> expand (\<lambda>_. rev) ''$BACKUP_DIR/x'' vs = ''/b/x''"
  by code_simp

end
