(* ===== verification/LegacyScan.thy ===== *)
theory LegacyScan
  imports Legacy Errors
begin

text \<open>
  Looking for the old backup on the machine: \<open>business/domain/legacy/sources/legacyscan/legacyscan.go\<close>. The
  machine is what it answers when a path is asked for, read or listed; a scan changes nothing on it. Paths
  are those of a Unix, and so are the places that are looked in; of Windows there is the reading of the list
  of scheduled tasks.
\<close>

section \<open>The machine that is looked at\<close>

datatype looked = NotThere | Denied | Unclear | Seen bool

text \<open>\<open>Seen True\<close> is a directory. Files are texts; a listing names its entries and says which are directories.\<close>

record place =
  pl_stat :: "string \<Rightarrow> looked"
  pl_read :: "string \<Rightarrow> string res"
  pl_list :: "string \<Rightarrow> (string \<times> bool) list option"

fun is_seen :: "looked \<Rightarrow> bool" where
  "is_seen (Seen d) = True"
| "is_seen _ = False"

section \<open>Where to look\<close>

text \<open>\<open>filepath.Dir\<close>.\<close>

definition dir_name :: "string \<Rightarrow> string" where
  "dir_name p = clean_path (rev (dropWhile (\<lambda>c. c \<noteq> slash) (rev p)))"

definition user_dirs :: "place \<Rightarrow> string \<Rightarrow> string list" where
  "user_dirs m top_dir =
     (case pl_list m top_dir of
        None \<Rightarrow> []
      | Some es \<Rightarrow> map (\<lambda>(n, d). path_join [top_dir, n]) (filter snd es))"

definition candidates :: "place \<Rightarrow> string list" where
  "candidates m =
     [''/home/restic/bin'', ''/home/backup/bin'', ''/opt/backup'', ''/usr/local/backup''] @
     concat (map (\<lambda>home. [path_join [home, ''bin''], path_join [home, ''backup''],
       path_join [home, ''Documents'', ''backup'']]) (user_dirs m ''/home''))"

definition script_names :: "(string \<times> layout) list" where
  "script_names =
     [(''backup.sh'', LayoutLinux), (''backup.bat'', LayoutWindows), (''nightly-whole-system.sh'', LayoutLinux)]"

text \<open>Every step up makes a path shorter, until the top, which is its own directory.\<close>

definition path_size :: "string \<Rightarrow> nat" where
  "path_size p = (if p = ''.'' then 0 else Suc (length p))"

definition parts_size :: "string list \<Rightarrow> nat" where
  "parts_size cs = sum_list (map (\<lambda>c. Suc (length c)) cs)"

lemma parts_size_simps [simp]:
  "parts_size [] = 0" "parts_size (c # cs) = Suc (length c) + parts_size cs"
  "parts_size (a @ b) = parts_size a + parts_size b"
  by (simp_all add: parts_size_def)

lemma parts_size_split: "parts_size (split_on c s) = Suc (length s)"
proof (induction s)
  case (Cons a s)
  then show ?case by (cases "split_on c s") auto
qed simp

lemma parts_size_filter: "parts_size (filter P cs) \<le> parts_size cs"
  by (induction cs) auto

lemma clean_step_size: "parts_size (clean_step rt st c) \<le> parts_size st + Suc (length c)"
proof -
  have "parts_size (butlast st) \<le> parts_size st" by (induction st) auto
  then show ?thesis by (auto simp: clean_step_def)
qed

lemma clean_fold_size: "parts_size (foldl (clean_step rt) st cs) \<le> parts_size st + parts_size cs"
proof (induction cs arbitrary: st)
  case (Cons c cs)
  then show ?case using clean_step_size [of rt st c] by (simp add: order_trans [OF Cons.IH])
qed simp

lemma join_size: "cs \<noteq> [] \<Longrightarrow> Suc (length (join_with [slash] cs)) = parts_size cs"
  by (induction "[slash] :: string" cs rule: join_with.induct) auto

lemma split_on_last: "split_on c (q @ [c]) = split_on c q @ [[]]"
proof (induction q)
  case (Cons a q)
  then show ?case by (cases "split_on c q") auto
qed simp

lemma clean_elements_size: "parts_size (clean_elements p) \<le> parts_size (elements p)"
  using clean_fold_size [of "is_abs p" "[]" "elements p"] by (simp add: clean_elements_def)

lemma elements_size:
  "is_abs p \<Longrightarrow> parts_size (elements p) \<le> length p"
  "is_abs (q @ [slash]) \<Longrightarrow> q \<noteq> [] \<Longrightarrow> parts_size (elements (q @ [slash])) \<le> length q"
  "parts_size (elements (q @ [slash])) \<le> Suc (length q)"
proof -
  let ?P = "\<lambda>c :: string. c \<noteq> [] \<and> c \<noteq> ''.''"
  have drop_first: "parts_size (filter ?P (split_on slash (slash # r))) \<le> Suc (length r)" for r
    using parts_size_filter [of ?P "split_on slash r"] parts_size_split [of slash r] by simp
  show "is_abs p \<Longrightarrow> parts_size (elements p) \<le> length p"
    using drop_first by (auto simp: is_abs_def elements_def prefix_def)
  show "parts_size (elements (q @ [slash])) \<le> Suc (length q)"
    using parts_size_filter [of ?P "split_on slash q"] parts_size_split [of slash q]
    by (simp add: elements_def split_on_last)
  assume "is_abs (q @ [slash])" "q \<noteq> []"
  then obtain r where "q = slash # r" by (cases q) (auto simp: is_abs_def)
  then show "parts_size (elements (q @ [slash])) \<le> length q"
    using drop_first [of r] split_on_last [of slash "slash # r"] by (simp add: elements_def del: split_on.simps)
qed

lemma clean_path_size:
  assumes "parts_size (elements p) \<le> (if is_abs p then n else Suc n)" and "clean_path p \<noteq> ''.''" and "clean_path p \<noteq> [slash]"
  shows "length (clean_path p) \<le> n"
proof -
  have cs: "clean_elements p \<noteq> []" using assms(2,3) by (auto simp: clean_path_def Let_def split: if_splits)
  have l: "Suc (length (join_with [slash] (clean_elements p))) \<le> parts_size (elements p)"
    using join_size [OF cs] clean_elements_size [of p] by simp
  show ?thesis
  proof (cases "is_abs p")
    case True
    then have "length (clean_path p) = Suc (length (join_with [slash] (clean_elements p)))" by (simp add: clean_path_def)
    then show ?thesis using l assms(1) True by simp
  next
    case False
    then have "length (clean_path p) = length (join_with [slash] (clean_elements p))" using cs by (simp add: clean_path_def)
    then show ?thesis using l assms(1) False by simp
  qed
qed

lemma up_to_slash:
  obtains u r where "p = u @ r" and "dir_name p = clean_path u" and "u = [] \<or> (\<exists>q. u = q @ [slash])"
proof -
  let ?u = "rev (dropWhile (\<lambda>c. c \<noteq> slash) (rev p))"
  have "p = ?u @ rev (takeWhile (\<lambda>c. c \<noteq> slash) (rev p))" by (metis rev_append rev_rev_ident takeWhile_dropWhile_id)
  moreover have "?u = [] \<or> (\<exists>q. ?u = q @ [slash])"
    by (cases "dropWhile (\<lambda>c. c \<noteq> slash) (rev p)") (auto dest: dropWhile_eq_Cons_conv [THEN iffD1])
  ultimately show ?thesis using that dir_name_def by blast
qed

lemma dir_name_smaller:
  assumes "dir_name p \<noteq> p"
  shows "path_size (dir_name p) < path_size p"
proof -
  obtain u r where u: "p = u @ r" "dir_name p = clean_path u" "u = [] \<or> (\<exists>q. u = q @ [slash])"
    by (rule up_to_slash)
  have none: "clean_path [] = ''.''" "clean_path [slash] = [slash]" by code_simp+
  consider (dot) "dir_name p = ''.''" | (top) "dir_name p = [slash]" | (shorter) "dir_name p \<noteq> ''.''" "dir_name p \<noteq> [slash]"
    by blast
  then show ?thesis
  proof cases
    case dot
    then show ?thesis using assms by (auto simp: path_size_def)
  next
    case top
    have d: "[slash] \<noteq> ''.''" by (simp add: slash_def)
    then obtain q where q: "u = q @ [slash]" using u(2,3) none(1) top by auto
    then have "1 < length p" using u(1) top assms by (cases q; cases r) auto
    then show ?thesis using top d by (auto simp: path_size_def)
  next
    case shorter
    then have "u \<noteq> []" "u \<noteq> [slash]" using u(2) none by metis+
    then obtain q where q: "u = q @ [slash]" "q \<noteq> []" using u(3) by (metis append_Nil)
    have "length (clean_path u) \<le> length q"
    proof (rule clean_path_size)
      show "parts_size (elements u) \<le> (if is_abs u then length q else Suc (length q))"
        unfolding q(1) using elements_size(2,3) [of q] q(2) by simp
    qed (use shorter u(2) in auto)
    then have l: "length (dir_name p) < length p" using u(1,2) q(1) by simp
    have "p \<noteq> ''.''" using u(1) q by (cases q) auto
    then show ?thesis using l shorter by (simp add: path_size_def)
  qed
qed

section \<open>The scan\<close>

text \<open>The last directory above a path that can be seen, which is the one to name when the path cannot be.\<close>

function climb :: "place \<Rightarrow> string \<Rightarrow> string \<Rightarrow> string" where
  "climb m path dir =
     (if is_seen (pl_stat m dir) then dir
      else let parent = dir_name dir in if parent = dir then path else climb m path parent)"
  by pat_completeness auto
termination
  by (relation "measure (\<lambda>(m, path, dir). path_size dir)") (auto simp: dir_name_smaller)

declare climb.simps [simp del]

definition deepest_visible :: "place \<Rightarrow> string \<Rightarrow> string" where
  "deepest_visible m path = climb m path (dir_name path)"

fun look_from :: "place \<Rightarrow> string \<Rightarrow> string option \<Rightarrow> (string \<times> layout) list \<Rightarrow>
    (string \<times> layout) option \<times> string option" where
  "look_from m dir blocked [] = (None, blocked)"
| "look_from m dir blocked ((n, l) # ns) =
     (let path = path_join [dir, n] in
      case pl_stat m path of
        Seen False \<Rightarrow> (Some (path, l), None)
      | Denied \<Rightarrow> look_from m dir (Some (deepest_visible m path)) ns
      | _ \<Rightarrow> look_from m dir blocked ns)"

definition look_in :: "place \<Rightarrow> string \<Rightarrow> (string \<times> layout) option \<times> string option" where
  "look_in m dir = look_from m dir None script_names"

record found_install =
  in_layout :: layout
  in_version :: string
  in_dir :: string
  in_script :: string
  in_binaries :: "string list"
  in_account :: string
  in_schedule :: string
  in_repository :: string
  in_node :: string
  in_targets :: "string list"
  in_exclude_file :: string
  in_exclude_count :: int
  in_excludes :: "string list"
  in_uses_snapshot :: bool
  in_pack_size :: int
  in_read_concurrency :: int
  in_has_credentials :: bool
  in_password_file :: string

definition others :: "place \<Rightarrow> string \<Rightarrow> string list \<Rightarrow> string list" where
  "others m found extra = filter (\<lambda>d. d \<noteq> found \<and> fst (look_in m d) \<noteq> None) (extra @ candidates m)"

definition binaries_in :: "place \<Rightarrow> string \<Rightarrow> string list" where
  "binaries_in m dir =
     filter (\<lambda>n. is_seen (pl_stat m (path_join [dir, n]))) [''restic'', ''restic.exe'', ''nodes'', ''nodes-amd64.exe'']"

text \<open>The lines of a list of patterns that are neither blank nor a comment.\<close>

definition pattern_lines :: "string \<Rightarrow> string list" where
  "pattern_lines text = filter (\<lambda>l. l \<noteq> [] \<and> \<not> prefix ''#'' l) (map trim_space (scanned_lines text))"

definition count_lines :: "place \<Rightarrow> string \<Rightarrow> int" where
  "count_lines m path = (case pl_read m path of Inl e \<Rightarrow> 0 | Inr text \<Rightarrow> int (length (pattern_lines text)))"

fun account_from :: "string \<Rightarrow> string list \<Rightarrow> string" where
  "account_from dir [] = []"
| "account_from dir (r # rs) =
     (if prefix r dir
      then let rest = drop (length r) dir in
        case cut slash rest of
          Some (name, after) \<Rightarrow> name
        | None \<Rightarrow> if rest \<noteq> [] then rest else account_from dir rs
      else account_from dir rs)"

definition account_for :: "string \<Rightarrow> string" where
  "account_for dir = account_from dir [''/home/'', ''c:/Users/'', ''C:/Users/'']"

definition cron_tables :: "place \<Rightarrow> string \<Rightarrow> string list" where
  "cron_tables m account =
     [''/etc/crontab''] @
     (if account = [] then []
      else [''/var/spool/cron/crontabs/'' @ account, ''/var/spool/cron/'' @ account]) @
     (case pl_list m ''/etc/cron.d'' of
        None \<Rightarrow> []
      | Some es \<Rightarrow> map (\<lambda>(n, d). path_join [''/etc/cron.d'', n]) (filter (\<lambda>(n, d). \<not> d) es))"

definition cron_line :: "place \<Rightarrow> string \<Rightarrow> string \<Rightarrow> string" where
  "cron_line m script account =
     (let runs = (\<lambda>l. \<not> prefix ''#'' l \<and> (contains_str script l \<or> contains_str (base_name script) l));
          lines = concat (map (\<lambda>t. case pl_read m t of
              Inl e \<Rightarrow> []
            | Inr text \<Rightarrow> map (\<lambda>l. (t, trim_space l)) (split_on newline_char text)) (cron_tables m account))
      in case first_such (\<lambda>(t, l). runs l) lines of None \<Rightarrow> [] | Some (t, l) \<Rightarrow> t @ '': '' @ l)"

text \<open>On Windows the schedule is what \<open>schtasks\<close> prints; \<open>base\<close> is the name of the script's file.\<close>

fun task_from :: "string \<Rightarrow> string \<Rightarrow> string list \<Rightarrow> string" where
  "task_from base name [] = []"
| "task_from base name (l # ls) =
     (let line = trim_space l;
          name' = (if prefix ''TaskName:'' line then trim_space (drop (length ''TaskName:'') line) else name) in
      if contains_str (to_lower base) (to_lower line) \<and> name' \<noteq> [] then ''scheduled task '' @ name'
      else task_from base name' ls)"

definition scheduled_task :: "string option \<Rightarrow> string \<Rightarrow> string" where
  "scheduled_task output base =
     (case output of None \<Rightarrow> [] | Some text \<Rightarrow> task_from base [] (split_on newline_char text))"

definition schedule_for :: "place \<Rightarrow> string \<Rightarrow> string \<Rightarrow> string" where
  "schedule_for m script account = cron_line m script account"

definition describe_install :: "(string \<Rightarrow> vars \<Rightarrow> vars) \<Rightarrow> place \<Rightarrow> string \<Rightarrow> string \<Rightarrow> layout \<Rightarrow> string \<Rightarrow> found_install" where
  "describe_install order m dir script l raw =
     (let f = parse_script order raw; account = account_for dir in
      \<lparr>in_layout = l, in_version = version_of l raw dir, in_dir = dir, in_script = script,
       in_binaries = binaries_in m dir, in_account = account, in_schedule = schedule_for m script account,
       in_repository = lf_repository f, in_node = lf_node f, in_targets = lf_targets f,
       in_exclude_file = lf_exclude_file f,
       in_exclude_count = (if lf_exclude_file f \<noteq> [] then count_lines m (lf_exclude_file f) else 0),
       in_excludes = lf_excludes f, in_uses_snapshot = lf_uses_snapshot f, in_pack_size = lf_pack_size f,
       in_read_concurrency = lf_read_concurrency f,
       in_has_credentials = (lf_has_credentials f \<or>
         (lf_password_file f \<noteq> [] \<and> is_seen (pl_stat m (lf_password_file f)))),
       in_password_file = lf_password_file f\<rparr>)"

record scan_result =
  sn_install :: "found_install option"
  sn_notes :: "string list"
  sn_blocked :: "string list"

definition scan_dir ::
  "(string \<Rightarrow> vars \<Rightarrow> vars) \<Rightarrow> place \<Rightarrow> string list \<Rightarrow> string \<Rightarrow> scan_result \<Rightarrow> scan_result" where
  "scan_dir order m extra dir r =
     (let (script, blocked) = look_in m dir;
          r1 = (case blocked of None \<Rightarrow> r | Some b \<Rightarrow> r\<lparr>sn_blocked := sn_blocked r @ [b]\<rparr>)
      in case script of
          None \<Rightarrow> r1
        | Some (path, l) \<Rightarrow>
            if sn_install r1 \<noteq> None then r1
            else case pl_read m path of
                Inl e \<Rightarrow> r1\<lparr>sn_notes := sn_notes r1 @ [''found '' @ path @ '' but could not read it: '' @ err_text e]\<rparr>
              | Inr raw \<Rightarrow>
                  let also = others m dir extra in
                  r1\<lparr>sn_install := Some (describe_install order m dir path l raw),
                     sn_notes := sn_notes r1 @ (if also = [] then []
                       else [''there is more than one legacy install here: also '' @ join_with '', '' also])\<rparr>)"

fun dedupe :: "string list \<Rightarrow> string list \<Rightarrow> string list" where
  "dedupe seen [] = []"
| "dedupe seen (s # ss) = (if s \<in> set seen then dedupe seen ss else s # dedupe (s # seen) ss)"

definition find_legacy :: "(string \<Rightarrow> vars \<Rightarrow> vars) \<Rightarrow> place \<Rightarrow> string list \<Rightarrow> scan_result" where
  "find_legacy order m extra =
     (let r = foldl (\<lambda>r d. scan_dir order m extra d r)
        \<lparr>sn_install = None, sn_notes = [], sn_blocked = []\<rparr> (extra @ candidates m)
      in r\<lparr>sn_blocked := dedupe [] (sn_blocked r)\<rparr>)"

section \<open>What is taken over\<close>

definition exclude_patterns :: "place \<Rightarrow> found_install option \<Rightarrow> string list res" where
  "exclude_patterns m i =
     (case i of
        None \<Rightarrow> Inr []
      | Some x \<Rightarrow>
          if in_exclude_file x = [] then Inr []
          else case pl_read m (in_exclude_file x) of
              Inl e \<Rightarrow> Inl (Wrap ''legacyscan: reading the exclude list: '' e [])
            | Inr text \<Rightarrow>
                if scan_gives_up text
                then Inl (Wrap ''legacyscan: reading the exclude list: '' (Sentinel ''bufio.Scanner: token too long'') [])
                else Inr (pattern_lines text))"

definition legacy_credentials :: "(string \<Rightarrow> vars \<Rightarrow> vars) \<Rightarrow> place \<Rightarrow> found_install option \<Rightarrow> legacy_creds res" where
  "legacy_credentials order m i =
     (case i of
        None \<Rightarrow> Inr no_creds
      | Some x \<Rightarrow>
          (case pl_read m (in_script x) of
             Inl e \<Rightarrow> Inl (Wrap (''legacyscan: reading '' @ in_script x @ '': '') e [])
           | Inr raw \<Rightarrow>
               let c = parse_credentials order raw in
               Inr (if lc_password c = [] \<and> lc_password_file c \<noteq> []
                    then (case pl_read m (lc_password_file c) of
                        Inl e \<Rightarrow> c
                      | Inr pw \<Rightarrow> c\<lparr>lc_password := trim_right_set {CHR 0x0D, CHR 0x0A} pw\<rparr>)
                    else c)))"

section \<open>What a scan tells\<close>

lemma deepest_visible_is_seen:
  "is_seen (pl_stat m (deepest_visible m path)) \<or> deepest_visible m path = path"
proof -
  have "is_seen (pl_stat m (climb m path dir)) \<or> climb m path dir = path" for dir
  proof (induction m path dir rule: climb.induct)
    case (1 m path dir)
    then show ?case by (subst (1 2) climb.simps) (auto simp: Let_def)
  qed
  then show ?thesis by (simp add: deepest_visible_def)
qed

definition nothing_there :: "place \<Rightarrow> string \<Rightarrow> bool" where
  "nothing_there m dir \<longleftrightarrow>
     list_all (\<lambda>(n, l). pl_stat m (path_join [dir, n]) \<noteq> Seen False \<and> pl_stat m (path_join [dir, n]) \<noteq> Denied)
       script_names"

lemma look_from_nothing:
  "look_from m dir b ns = (None, None) \<longleftrightarrow> b = None \<and>
    list_all (\<lambda>(n, l). pl_stat m (path_join [dir, n]) \<noteq> Seen False \<and> pl_stat m (path_join [dir, n]) \<noteq> Denied) ns"
proof (induction ns arbitrary: b)
  case (Cons n ns)
  obtain x l where n: "n = (x, l)" by fastforce
  show ?case
  proof (cases "pl_stat m (path_join [dir, x])")
    case (Seen d)
    then show ?thesis using n Cons.IH by (cases d) (simp_all add: Let_def)
  qed (use n Cons.IH in \<open>simp_all add: Let_def\<close>)
qed simp

lemma look_in_nothing: "look_in m dir = (None, None) \<longleftrightarrow> nothing_there m dir"
  by (simp add: look_in_def nothing_there_def look_from_nothing)

definition silent :: "scan_result \<Rightarrow> bool" where
  "silent r \<longleftrightarrow> sn_install r = None \<and> sn_notes r = [] \<and> sn_blocked r = []"

lemma scan_dir_silent: "silent (scan_dir order m extra dir r) \<longleftrightarrow> silent r \<and> nothing_there m dir"
proof -
  obtain x b where l: "look_in m dir = (x, b)" by fastforce
  have "nothing_there m dir \<longleftrightarrow> x = None \<and> b = None" using look_in_nothing [of m dir] l by simp
  then show ?thesis
    by (cases b; cases x) (simp_all add: silent_def scan_dir_def l Let_def split: prod.split sum.split)
qed

lemma scan_dirs_silent:
  "silent (foldl (\<lambda>r d. scan_dir order m extra d r) r dirs) \<longleftrightarrow> silent r \<and> list_all (nothing_there m) dirs"
proof (induction dirs arbitrary: r)
  case (Cons d dirs)
  then show ?case by (simp add: scan_dir_silent)
qed simp

lemma dedupe_nil: "dedupe [] bs = [] \<longleftrightarrow> bs = []"
  by (cases bs) auto

lemma dedupe_spec: "distinct (dedupe seen bs) \<and> set (dedupe seen bs) = set bs - set seen"
  by (induction seen bs rule: dedupe.induct) auto


text \<open>The install that is reported is the first one whose script can be read.\<close>

definition install_at :: "(string \<Rightarrow> vars \<Rightarrow> vars) \<Rightarrow> place \<Rightarrow> string \<Rightarrow> found_install option" where
  "install_at order m dir =
     (case fst (look_in m dir) of
        None \<Rightarrow> None
      | Some (p, l) \<Rightarrow>
          (case pl_read m p of Inl e \<Rightarrow> None | Inr raw \<Rightarrow> Some (describe_install order m dir p l raw)))"

lemma scan_dir_install:
  "sn_install (scan_dir order m extra dir r) = (if sn_install r = None then install_at order m dir else sn_install r)"
  by (cases "look_in m dir") (auto simp: scan_dir_def install_at_def Let_def split: option.split sum.split)

lemma install_is_first_readable:
  "sn_install (find_legacy order m extra) =
    (case List.map_filter (install_at order m) (extra @ candidates m) of [] \<Rightarrow> None | i # is \<Rightarrow> Some i)"
proof -
  have "sn_install (foldl (\<lambda>r d. scan_dir order m extra d r) r dirs) =
      (if sn_install r \<noteq> None then sn_install r
       else case List.map_filter (install_at order m) dirs of [] \<Rightarrow> None | i # is \<Rightarrow> Some i)" for r dirs
    by (induction dirs arbitrary: r) (auto simp: scan_dir_install map_filter_simps split: option.split)
  then show ?thesis by (simp add: find_legacy_def Let_def del: foldl_append)
qed

end
