(* ===== verification/Adopt.thy ===== *)
theory Adopt
  imports Enroll LegacyScan
begin

text \<open>
  Taking over the backup that already runs on a machine: \<open>cmd/sion-backup/adopt.go\<close>, with the listing of
  snapshots of \<open>foundation/restic/ops.go\<close>. The command reads the old script, writes a plan on a machine that
  has none, counts what the old repository holds, and claims a code; afterwards it checks that the bucket it
  was given is the old one. What is printed is a list of remarks (theory \<open>Enroll\<close>); the paragraphs of advice
  around them are left out, the commands for the server are not. How a time is written as a day is
  \<open>day\<close>, because an instant does not keep the offset it was written with.
\<close>

section \<open>What a repository holds\<close>

definition snapshot_time :: "parser \<Rightarrow> string \<Rightarrow> instant option" where
  "snapshot_time parse raw =
     Option.bind (struct_fields parse raw) (\<lambda>f.
     Option.bind (text_field parse f ''id'') (\<lambda>_.
     Option.bind (text_field parse f ''short_id'') (\<lambda>_.
     Option.bind (time_field parse f ''time'') (\<lambda>t.
     Option.bind (text_field parse f ''hostname'') (\<lambda>_.
     Option.bind (text_field parse f ''username'') (\<lambda>_.
     Option.bind (texts_field parse f ''paths'') (\<lambda>_.
     Option.bind (texts_field parse f ''tags'') (\<lambda>_. Some t))))))))"

fun all_some :: "'a option list \<Rightarrow> 'a list option" where
  "all_some [] = Some []"
| "all_some (x # xs) = (case x of None \<Rightarrow> None | Some a \<Rightarrow> map_option ((#) a) (all_some xs))"

definition snapshot_times :: "parser \<Rightarrow> string \<Rightarrow> instant list option" where
  "snapshot_times parse out =
     (case parse out of
        Some (JArray raws) \<Rightarrow> all_some (map (snapshot_time parse) raws)
      | Some JNull \<Rightarrow> Some []
      | _ \<Rightarrow> None)"

definition list_snapshots :: "parser \<Rightarrow> repository \<Rightarrow> world \<Rightarrow> instant list res \<times> world" where
  "list_snapshots parse repo w =
     (case run_restic repo [''snapshots'', ''--json''] w of
        ((_, Some e), w1) \<Rightarrow> (Inl e, w1)
      | ((out, None), w1) \<Rightarrow>
          (case snapshot_times parse out of
             None \<Rightarrow> (Inl (Wrap ''restic: reading the snapshot list: '' (Sentinel ''json'') []), w1)
           | Some ts \<Rightarrow> (Inr ts, w1)))"

definition oldest_of :: "instant list \<Rightarrow> instant" where
  "oldest_of ts = foldl (\<lambda>old t. if is_zero old \<or> t < old then t else old) zero_time ts"

definition count_snapshots :: "instant list \<Rightarrow> int \<times> instant" where
  "count_snapshots ts = (int (length ts), oldest_of ts)"

section \<open>The migration\<close>

datatype adopt_note =
    ScanNote string
  | ExcludesUnread string err
  | NodeIsHostname
  | ScheduleNotCopied string
  | TargetsUnread string

record adoption =
  ad_install :: found_install
  ad_bucket :: string
  ad_prefix :: string
  ad_plan :: plan
  ad_from_file :: int
  ad_notes :: "adopt_note list"
  ad_snapshots :: int
  ad_oldest :: instant
  ad_ssh :: string
  ad_issued_by :: string

text \<open>\<open>strings.Trim\<close> of slashes.\<close>

definition trim_slashes :: "string \<Rightarrow> string" where
  "trim_slashes s = trim_left_set {slash} (trim_right_set {slash} s)"

definition bucket_from_url :: "string \<Rightarrow> string \<times> string" where
  "bucket_from_url raw =
     (if \<not> prefix ''s3:'' raw then ([], [])
      else let rest = trim_prefix ''http://'' (trim_prefix ''https://'' (drop 3 raw)) in
        case cut slash rest of
          None \<Rightarrow> ([], [])
        | Some (host, path) \<Rightarrow>
            (case split_on slash (trim_slashes path) of
               [] \<Rightarrow> ([], [])
             | p # ps \<Rightarrow> if p = [] then ([], []) else (p, join_with [slash] ps)))"

definition adopted_plan :: "found_install \<Rightarrow> plan" where
  "adopted_plan l =
     \<lparr>node_id = in_node l, repository = in_repository l, targets = in_targets l, excludes = in_excludes l,
      plan_schedule = default_schedule, pack_size_mib = in_pack_size l,
      read_concurrency = in_read_concurrency l, use_fs_snapshot = in_uses_snapshot l,
      allow_vss_fallback = True, one_file_system = True, paused = False, skip_on_metered = False,
      skip_larger_than_gb = 0, style = [], confirmed_at = zero_time, updated_at = zero_time\<rparr>"

definition assemble :: "place \<Rightarrow> string \<Rightarrow> scan_result \<Rightarrow> adoption res" where
  "assemble m host r =
     (case sn_install r of
        None \<Rightarrow>
          if sn_blocked r \<noteq> []
          then Inl (Sentinel (''no legacy install was found, but this account could not read '' @
            join_with '', '' (sn_blocked r)))
          else Inl (Sentinel ''no legacy install was found on this machine, so there is nothing to adopt.'')
      | Some l \<Rightarrow>
          let (bucket, pre) = bucket_from_url (in_repository l);
              p0 = adopted_plan l;
              (p1, n, unread) = (case exclude_patterns m (Some l) of
                  Inl e \<Rightarrow> (p0, 0, [ExcludesUnread (in_exclude_file l) e])
                | Inr ps \<Rightarrow> (p0\<lparr>excludes := excludes p0 @ ps\<rparr>, int (length ps), []));
              (p2, unnamed) = (if node_id p1 = [] then (p1\<lparr>node_id := host\<rparr>, [NodeIsHostname]) else (p1, []))
          in Inr \<lparr>ad_install = l, ad_bucket = bucket, ad_prefix = pre, ad_plan = p2, ad_from_file = n,
               ad_notes = map ScanNote (sn_notes r) @ unread @ unnamed @
                 (if in_schedule l \<noteq> [] then [ScheduleNotCopied (in_schedule l)] else []) @
                 (if targets p2 = [] then [TargetsUnread (in_script l)] else []),
               ad_snapshots = 0, ad_oldest = zero_time, ad_ssh = [], ad_issued_by = []\<rparr>)"

definition exclude_summary :: "adoption \<Rightarrow> string" where
  "exclude_summary a =
     (let all = int (length (excludes (ad_plan a))); inline = all - ad_from_file a in
      if all = 0 then ''none''
      else if ad_from_file a = 0 then itoa inline @ '', from the script''
      else if inline = 0 then itoa (ad_from_file a) @ '', from '' @ in_exclude_file (ad_install a)
      else itoa all @ '': '' @ itoa inline @ '' from the script, '' @ itoa (ad_from_file a) @ '' from '' @
        in_exclude_file (ad_install a))"

definition legacy_of :: "adoption \<Rightarrow> legacy_install" where
  "legacy_of a =
     \<lparr>li_url = in_repository (ad_install a),
      li_snapshots = (if 0 < ad_snapshots a then ad_snapshots a else 0),
      li_oldest = (if 0 < ad_snapshots a then ad_oldest a else zero_time)\<rparr>"

definition explain_refusal :: "err \<Rightarrow> err" where
  "explain_refusal e =
     (if \<not> repository_mismatch e then e
      else Wrap [] e ([CHR 0x0A, CHR 0x0A] @ ''The code was NOT used.''))"

definition split_list :: "string \<Rightarrow> string list" where
  "split_list raw = filter (\<lambda>i. i \<noteq> []) (map trim_space (split_on (CHR '','') raw))"

section \<open>The commands for the server\<close>

definition unnamed_issuer :: string where
  "unnamed_issuer = ''<YOUR NAME>''"

definition new_argument :: string where
  "new_argument = '' '' @ [backslash, CHR 0x0A] @ ''        ''"

definition eumaeus_run :: string where
  "eumaeus_run = ''sudo -u eumaeus'' @ new_argument @ ''EUMAEUS_DATA_DIR=/var/lib/eumaeus'' @ new_argument @
     ''EUMAEUS_WASABI_ENV=/var/lib/eumaeus/.config/eumaeus/wasabi-provisioning.env'' @ new_argument @ ''eumaeus''"

definition ssh_target :: "errand \<Rightarrow> string \<Rightarrow> string \<Rightarrow> string" where
  "ssh_target v override server =
     (if override \<noteq> [] then override
      else case vs_url_of v server of
          None \<Rightarrow> []
        | Some (_, _, host) \<Rightarrow> if host = [] \<or> is_loopback_host host then [] else ''root@'' @ host)"

text \<open>A command is its arguments, and whether it has to reach a terminal.\<close>

definition admin_commands :: "(instant \<Rightarrow> string) \<Rightarrow> adoption \<Rightarrow> (string \<times> bool) list" where
  "admin_commands day a =
     (let node = node_id (ad_plan a);
          bucket = (if ad_bucket a = []
            then ''<BUCKET '' @ [CHR 0xE2, CHR 0x80, CHR 0x94] @ '' could not be read out of '' @
              in_repository (ad_install a) @ ''>''
            else ad_bucket a);
          adopt = ''backup adopt -owner <OWNER EMAIL> -node '' @ node @ new_argument @ ''-bucket '' @ bucket @
            (if 0 < ad_snapshots a
             then new_argument @ ''-history-since '' @ day (ad_oldest a) @ '' -snapshots '' @ itoa (ad_snapshots a)
             else [])
      in [(''backup check'', True), (adopt, True),
          (''backup code -issued-by '' @ [CHR 0x22] @ ad_issued_by a @ [CHR 0x22] @ '' '' @ node, False)])"

definition server_steps :: "(instant \<Rightarrow> string) \<Rightarrow> adoption \<Rightarrow> string list" where
  "server_steps day a =
     map (\<lambda>(args, tty).
       if ad_ssh a = [] then eumaeus_run @ '' '' @ args
       else (if tty then ''ssh -t '' else ''ssh '') @ ad_ssh a @ '' '' @ [CHR 0x27] @ eumaeus_run @ '' '' @ args @
         [CHR 0x27]) (admin_commands day a)"

definition password_location :: "found_install \<Rightarrow> string" where
  "password_location l = (if in_password_file l \<noteq> [] then in_password_file l else in_script l @ '', as RESTIC_PASSWORD'')"

section \<open>The steps of the command\<close>

definition seed_adopted_plan :: "errand \<Rightarrow> adoption \<Rightarrow> desk \<Rightarrow> err option \<times> desk" where
  "seed_adopted_plan v a d =
     (if targets (ad_plan a) = [] then (None, say SaysNoTargets d)
      else case biz_seed plandb (ad_plan a) (vs_now v) (dk_plan d) of
          (Inl e, p) \<Rightarrow> (Some e, d\<lparr>dk_plan := p\<rparr>)
        | (Inr seeded, p) \<Rightarrow> (None, say (if seeded then SaysPlanWritten else SaysPlanKept) (d\<lparr>dk_plan := p\<rparr>)))"

definition legacy_repository :: "adoption \<Rightarrow> legacy_creds \<Rightarrow> repository" where
  "legacy_repository a c =
     \<lparr>repo_url = in_repository (ad_install a), password = lc_password c, access_key_id = lc_access c,
      secret_access_key = lc_secret c, repo_pack_size = 0, repo_read_concurrency = 0\<rparr>"

definition measure_legacy ::
  "(string \<Rightarrow> vars \<Rightarrow> vars) \<Rightarrow> place \<Rightarrow> errand \<Rightarrow> adoption \<Rightarrow> desk \<Rightarrow> adoption \<times> desk" where
  "measure_legacy order m v a d =
     (case legacy_credentials order m (Some (ad_install a)) of
        Inl e \<Rightarrow> (a, say (SaysCredentialsUnread e) d)
      | Inr c \<Rightarrow>
          if \<not> complete_creds c then (a, say SaysCredentialsIncomplete d)
          else case fetch_restic v of
              Some e \<Rightarrow> (a, say (SaysNotOpened e) d)
            | None \<Rightarrow>
                (case list_snapshots (vs_parse v) (legacy_repository a c) (dk_box d) of
                   (Inl e, w) \<Rightarrow> (a, say (SaysWouldNotOpen e) (d\<lparr>dk_box := w\<rparr>))
                 | (Inr ts, w) \<Rightarrow>
                     let (n, oldest) = count_snapshots ts; a1 = a\<lparr>ad_snapshots := n, ad_oldest := oldest\<rparr> in
                     (a1, say (if n = 0 then SaysLegacyEmpty else SaysLegacyHolds n oldest) (d\<lparr>dk_box := w\<rparr>))))"

definition verify_adoption :: "errand \<Rightarrow> adoption \<Rightarrow> enrollment \<Rightarrow> desk \<Rightarrow> desk" where
  "verify_adoption v a e d =
     (if er_url e \<noteq> in_repository (ad_install a)
      then say (SaysNotTheLegacy (in_repository (ad_install a)) (er_url e)) d
      else let d1 = say SaysLegacyUnchanged d;
          d2 = say (if er_adopted e then SaysServerAdopted (er_snapshots e) (er_created_at e) else SaysServerSilent) d1;
          d3 = (if er_node_id e \<noteq> node_id (ad_plan a) then say (SaysNodeDiffers (node_id (ad_plan a)) (er_node_id e)) d2
            else d2)
        in case list_snapshots (vs_parse v) (enrolled_repository e) (dk_box d3) of
            (Inl er, w) \<Rightarrow> say (SaysCannotList er) (d3\<lparr>dk_box := w\<rparr>)
          | (Inr ts, w) \<Rightarrow>
              let (n, oldest) = count_snapshots ts; d4 = d3\<lparr>dk_box := w\<rparr> in
              if n = 0 then say SaysEmpty d4
              else let d5 = say (SaysHolds n oldest) d4 in
                if n < er_snapshots e then say (SaysDisagreement (er_snapshots e)) d5 else d5)"

record adopt_order =
  ao_code :: string
  ao_yes :: bool
  ao_legacy_dir :: string
  ao_measure :: bool
  ao_server :: string
  ao_ssh :: string
  ao_issued_by :: string
  ao_force :: bool

text \<open>What follows once the plan may be written.\<close>

definition adopt_agreed ::
  "(string \<Rightarrow> vars \<Rightarrow> vars) \<Rightarrow> (instant \<Rightarrow> string) \<Rightarrow> place \<Rightarrow> errand \<Rightarrow> adopt_order \<Rightarrow> adoption \<Rightarrow> desk \<Rightarrow> err option \<times> desk" where
  "adopt_agreed order day m v q a d =
     (case seed_adopted_plan v a d of
        (Some e, d1) \<Rightarrow> (Some e, d1)
      | (None, d1) \<Rightarrow>
          let (a1, d2) = (if ao_measure q then measure_legacy order m v a d1 else (a, d1)) in
          if ao_code q = [] then (None, say (SaysServerSteps (server_steps day a1)) d2)
          else case enroll v \<lparr>co_code = ao_code q, co_server = ao_server q, co_force = ao_force q,
              co_legacy = Some (legacy_of a1)\<rparr> d2 of
              ((_, Some e), d3) \<Rightarrow> (Some (explain_refusal e), d3)
            | ((None, None), d3) \<Rightarrow> (None, d3)
            | ((Some e, None), d3) \<Rightarrow> (None, verify_adoption v a1 e d3))"

definition adopt_enroll_cmd ::
  "(string \<Rightarrow> vars \<Rightarrow> vars) \<Rightarrow> (instant \<Rightarrow> string) \<Rightarrow> place \<Rightarrow> errand \<Rightarrow> adopt_order \<Rightarrow> desk \<Rightarrow> err option \<times> desk" where
  "adopt_enroll_cmd order day m v q d =
     (case refuse_elevated v of
        Some e \<Rightarrow> (Some e, d)
      | None \<Rightarrow>
      (case refuse_second v (ao_force q) of
        Some e \<Rightarrow> (Some e, d)
      | None \<Rightarrow>
      (case assemble m (vs_hostname v) (find_legacy order m (split_list (ao_legacy_dir q))) of
        Inl e \<Rightarrow> (Some e, d)
      | Inr a0 \<Rightarrow>
          let a = a0\<lparr>ad_ssh := ssh_target v (ao_ssh q) (if ao_server q \<noteq> [] then ao_server q else eumaeus_url (vs_config v)),
                ad_issued_by := (if ao_issued_by q \<noteq> [] then ao_issued_by q else unnamed_issuer)\<rparr>;
              d1 = (if ao_code q = [] then say SaysFirstVisit d else d)
          in if ao_yes q then adopt_agreed order day m v q a d1
             else case ask_confirm d1 of
                 (Inl e, d2) \<Rightarrow> (Some e, d2)
               | (Inr ok, d2) \<Rightarrow>
                   if ok then adopt_agreed order day m v q a d2 else (None, say SaysNothingWritten d2))))"

section \<open>What the parts of an adoption leave alone\<close>

lemma list_snapshots_runs:
  "ran (snd (list_snapshots parse repo w)) =
     ran w @ (if validate_repo repo = None then [[''snapshots'', ''--json'']] else [])"
proof (cases "validate_repo repo")
  case None
  obtain r w' where r: "run_restic repo [''snapshots'', ''--json''] w = (r, w')" by fastforce
  then have "snd (list_snapshots parse repo w) = w'"
    by (cases r; cases "snd r") (auto simp: list_snapshots_def split: option.splits prod.splits)
  then show ?thesis using run_restic_valid [OF None r] None by simp
next
  case (Some e)
  then show ?thesis by (simp add: list_snapshots_def run_restic_invalid)
qed

lemma measure_legacy_leaves:
  assumes "measure_legacy order m v a d = (a', d')"
  shows "dk_plan d' = dk_plan d" "dk_token d' = dk_token d" "dk_net d' = dk_net d" "ad_install a' = ad_install a"
    "\<exists>cmds. ran (dk_box d') = ran (dk_box d) @ cmds \<and> set cmds \<subseteq> {[''snapshots'', ''--json'']}"
proof -
  let ?listed = "\<lambda>c. list_snapshots (vs_parse v) (legacy_repository a c) (dk_box d)"
  have "dk_plan d' = dk_plan d \<and> dk_token d' = dk_token d \<and> dk_net d' = dk_net d \<and> ad_install a' = ad_install a \<and>
      (dk_box d' = dk_box d \<or> (\<exists>c. dk_box d' = snd (?listed c)))"
    using assms
    by (auto simp: measure_legacy_def Let_def split: sum.splits if_splits option.splits prod.splits)
      (metis snd_conv)+
  then show "dk_plan d' = dk_plan d" "dk_token d' = dk_token d" "dk_net d' = dk_net d" "ad_install a' = ad_install a"
    "\<exists>cmds. ran (dk_box d') = ran (dk_box d) @ cmds \<and> set cmds \<subseteq> {[''snapshots'', ''--json'']}"
    by (auto simp: list_snapshots_runs)
qed

lemma seed_adopted_leaves:
  assumes "seed_adopted_plan v a d = (r, d')"
  shows "dk_token d' = dk_token d" "dk_net d' = dk_net d" "dk_box d' = dk_box d"
    "held_plan (dk_plan d') = held_plan (dk_plan d) \<or> \<not> held_seeded (dk_plan d) \<and> targets (ad_plan a) \<noteq> [] \<and>
       held_plan (dk_plan d') = Some (stored_plan ((ad_plan a)\<lparr>updated_at := vs_now v\<rparr>))"
proof -
  obtain s p where s: "biz_seed plandb (ad_plan a) (vs_now v) (dk_plan d) = (s, p)" by fastforce
  have "(d' = say SaysNoTargets d \<or> targets (ad_plan a) \<noteq> [] \<and> dk_token d' = dk_token d \<and> dk_net d' = dk_net d \<and>
      dk_box d' = dk_box d \<and> dk_plan d' = p)"
    using assms s by (auto simp: seed_adopted_plan_def split: if_splits sum.splits)
  with pdb.biz_seed_view [OF s] show "dk_token d' = dk_token d" "dk_net d' = dk_net d" "dk_box d' = dk_box d"
    "held_plan (dk_plan d') = held_plan (dk_plan d) \<or> \<not> held_seeded (dk_plan d) \<and> targets (ad_plan a) \<noteq> [] \<and>
       held_plan (dk_plan d') = Some (stored_plan ((ad_plan a)\<lparr>updated_at := vs_now v\<rparr>))" by auto
qed

lemma assemble_plan:
  assumes "assemble m host r = Inr a"
  obtains l where "sn_install r = Some l" "ad_install a = l" "targets (ad_plan a) = in_targets l"
    "repository (ad_plan a) = in_repository l" "confirmed_at (ad_plan a) = zero_time"
    "\<exists>rest. excludes (ad_plan a) = in_excludes l @ rest"
proof (cases "sn_install r")
  case None
  then show ?thesis using assms by (simp add: assemble_def split: if_splits)
next
  case (Some l)
  obtain b pre where b: "bucket_from_url (in_repository l) = (b, pre)" by fastforce
  note defs = assemble_def Some b Let_def adopted_plan_def
  have "ad_install a = l \<and> targets (ad_plan a) = in_targets l \<and> repository (ad_plan a) = in_repository l \<and>
      confirmed_at (ad_plan a) = zero_time \<and> (\<exists>rest. excludes (ad_plan a) = in_excludes l @ rest)"
  proof (cases "exclude_patterns m (Some l)")
    case (Inl e)
    then show ?thesis using assms by (cases "in_node l = []") (auto simp: defs)
  next
    case (Inr ps)
    then show ?thesis using assms by (cases "in_node l = []") (auto simp: defs)
  qed
  with Some show ?thesis by (intro that [of l]) simp_all
qed

text \<open>A bucket and a folder in it are read back from the URL that names them.\<close>

lemma trim_slashes_inner:
  assumes "s \<noteq> []" "hd s \<noteq> slash" "last s \<noteq> slash"
  shows "trim_slashes s = s"
proof -
  have "rev s \<noteq> []" "hd (rev s) \<noteq> slash" using assms by (simp_all add: hd_rev)
  then have "trim_right_set {slash} s = s" by (cases "rev s") (auto simp: trim_right_set_def rev_swap)
  then show ?thesis using assms by (cases s) (auto simp: trim_slashes_def trim_left_set_def)
qed

lemma bucket_is_read_back:
  assumes "slash \<notin> set host" "slash \<notin> set b" "b \<noteq> []" "scheme \<in> {''https://'', ''http://''}"
    and "ps \<noteq> [] \<longrightarrow> last (join_with [slash] ps) \<noteq> slash" "\<forall>p\<in>set ps. p \<noteq> [] \<and> slash \<notin> set p"
  shows "bucket_from_url (''s3:'' @ scheme @ host @ slash # join_with [slash] (b # ps)) = (b, join_with [slash] ps)"
proof -
  let ?path = "join_with [slash] (b # ps)"
  have last: "last ?path \<noteq> slash"
  proof (cases ps)
    case Nil
    then show ?thesis using assms(2,3) by (metis join_with.simps(2) last_in_set)
  next
    case (Cons p qs)
    then show ?thesis using assms(5,6) by (cases qs) auto
  qed
  obtain c cs where b: "b = c # cs" using assms(3) by (cases b) auto
  obtain rest where "?path = b @ rest" by (cases ps) auto
  then have "?path \<noteq> []" "hd ?path \<noteq> slash" using assms(2) b by auto
  then have trim: "trim_slashes ?path = ?path" using last by (rule trim_slashes_inner)
  have bare: "trim_prefix (h @ [slash, slash]) (host @ slash # ?path) = host @ slash # ?path" if "slash \<notin> set h" for h
  proof -
    have "\<not> prefix (h @ [slash, slash]) (host @ slash # ?path)"
    proof
      assume "prefix (h @ [slash, slash]) (host @ slash # ?path)"
      then obtain z where "host @ slash # ?path = h @ slash # slash # z" unfolding prefix_def by auto
      then have "Some (host, ?path) = Some (h, slash # z)" by (metis cut_append [OF assms(1)] cut_append [OF that])
      then have "?path = slash # z" by (rule Pair_inject [OF option.inject [THEN iffD1]])
      then show False using \<open>hd ?path \<noteq> slash\<close> by simp
    qed
    then show ?thesis by (simp add: trim_prefix_def)
  qed
  have "trim_prefix ''http://'' (trim_prefix ''https://'' (scheme @ host @ slash # ?path)) = host @ slash # ?path"
    using assms(4) bare [of "''http:''"] bare [of "''https:''"] by (auto simp: trim_prefix_def slash_def)
  moreover have "split_on slash ?path = b # ps" using assms(2,6) by (intro split_on_join) auto
  moreover have "prefix ''s3:'' (''s3:'' @ x) \<and> drop 3 (''s3:'' @ x) = x" for x by simp
  ultimately show ?thesis using assms(3)
    by (simp only: bucket_from_url_def if_True if_False not_True_eq_False Let_def trim cut_append [OF assms(1)]
      option.case prod.case list.case simp_thms)
qed

section \<open>The order of an adoption\<close>

definition said_yes :: "desk \<Rightarrow> bool" where
  "said_yes d \<longleftrightarrow> (case dk_answers d of Inr line # _ \<Rightarrow> to_lower (trim_space line) \<in> {''y'', ''yes''} | _ \<Rightarrow> False)"

lemma ask_confirm_yes: "ask_confirm d = (Inr True, d') \<Longrightarrow> said_yes d"
  by (auto simp: ask_confirm_def said_yes_def Let_def split: list.splits sum.splits)

text \<open>A run of the command that got past the question: what was found, and the desk the work began on.\<close>

definition untouched :: "desk \<Rightarrow> desk \<Rightarrow> bool" where
  "untouched d d' \<longleftrightarrow> dk_plan d' = dk_plan d \<and> dk_token d' = dk_token d \<and> dk_box d' = dk_box d \<and> dk_net d' = dk_net d"

lemma adopt_cases:
  assumes "adopt_enroll_cmd order day m v q d = (r, d')"
  obtains (refused) "untouched d d'"
  | (agreed) l a d1 where "vs_token v = [] \<or> ao_force q" "ao_yes q \<or> said_yes d"
      "sn_install (find_legacy order m (split_list (ao_legacy_dir q))) = Some l" "ad_install a = l"
      "targets (ad_plan a) = in_targets l" "repository (ad_plan a) = in_repository l"
      "confirmed_at (ad_plan a) = zero_time" "untouched d d1" "adopt_agreed order day m v q a d1 = (r, d')"
proof (cases "untouched d d'")
  case True
  then show ?thesis by (rule refused)
next
  case False
  let ?r = "find_legacy order m (split_list (ao_legacy_dir q))"
  let ?d1 = "if ao_code q = [] then say SaysFirstVisit d else d"
  from False assms have n: "refuse_elevated v = None" "refuse_second v (ao_force q) = None"
    by (auto simp: adopt_enroll_cmd_def untouched_def split: option.splits)
  then have free: "vs_token v = [] \<or> ao_force q" by (simp add: refuse_second_def split: if_splits)
  show ?thesis
  proof (cases "assemble m (vs_hostname v) ?r")
    case (Inl e)
    then show ?thesis using False assms n by (simp add: adopt_enroll_cmd_def untouched_def)
  next
    case (Inr a0)
    obtain l where l: "sn_install ?r = Some l" "ad_install a0 = l" "targets (ad_plan a0) = in_targets l"
        "repository (ad_plan a0) = in_repository l" "confirmed_at (ad_plan a0) = zero_time"
      by (rule assemble_plan [OF Inr])
    define a where "a = a0\<lparr>ad_ssh := ssh_target v (ao_ssh q) (if ao_server q \<noteq> [] then ao_server q else eumaeus_url (vs_config v)),
      ad_issued_by := (if ao_issued_by q \<noteq> [] then ao_issued_by q else unnamed_issuer)\<rparr>"
    have run: "(if ao_yes q then adopt_agreed order day m v q a ?d1
        else case ask_confirm ?d1 of
            (Inl e, d2) \<Rightarrow> (Some e, d2)
          | (Inr ok, d2) \<Rightarrow> if ok then adopt_agreed order day m v q a d2 else (None, say SaysNothingWritten d2)) = (r, d')"
      unfolding a_def using assms n Inr by (simp add: adopt_enroll_cmd_def Let_def split del: if_split)
    have same: "untouched d ?d1" "said_yes ?d1 = said_yes d" by (simp_all add: untouched_def said_yes_def)
    obtain c d2 where c: "ask_confirm ?d1 = (c, d2)" by fastforce
    have "untouched d d2" using ask_confirm_simps [of ?d1, unfolded c] same by (simp add: untouched_def)
    consider (yes) "ao_yes q" "adopt_agreed order day m v q a ?d1 = (r, d')"
      | (asked) "c = Inr True" "adopt_agreed order day m v q a d2 = (r, d')" | (no) "untouched d d'"
    proof (cases "ao_yes q")
      case True
      with run have "adopt_agreed order day m v q a ?d1 = (r, d')" by (simp only: if_True)
      with True that(1) show ?thesis by blast
    next
      case no: False
      with run c have "(case c of Inl e \<Rightarrow> (Some e, d2)
          | Inr ok \<Rightarrow> if ok then adopt_agreed order day m v q a d2 else (None, say SaysNothingWritten d2)) = (r, d')"
        by (simp only: if_False prod.case)
      with \<open>untouched d d2\<close> that(2,3) show ?thesis
        by (cases c) (auto simp: untouched_def split: if_splits)
    qed
    then show ?thesis
    proof cases
      case yes
      show ?thesis by (rule agreed [OF free _ l(1)]) (use yes l same in \<open>simp_all add: a_def\<close>)
    next
      case asked
      then have "said_yes d" using c same ask_confirm_yes [of ?d1 d2] by simp
      then show ?thesis
        by (intro agreed [OF free _ l(1), of a d2]) (use asked l \<open>untouched d d2\<close> in \<open>simp_all add: a_def\<close>)
    next
      case no
      then show ?thesis by (rule refused)
    qed
  qed
qed

lemma agreed_cases:
  assumes "adopt_agreed order day m v q a d = (r, d')"
  obtains (seeded) "dk_token d' = dk_token d" "dk_net d' = dk_net d"
      "\<exists>cmds. ran (dk_box d') = ran (dk_box d) @ cmds \<and> set cmds \<subseteq> {[''snapshots'', ''--json'']}"
      "held_plan (dk_plan d') = held_plan (dk_plan d) \<or> \<not> held_seeded (dk_plan d) \<and> targets (ad_plan a) \<noteq> [] \<and>
         held_plan (dk_plan d') = Some (stored_plan ((ad_plan a)\<lparr>updated_at := vs_now v\<rparr>))"
  | (claiming) a1 d2 got e d3 where "ao_code q \<noteq> []" "ad_install a1 = ad_install a" "dk_net d2 = dk_net d"
      "enroll v \<lparr>co_code = ao_code q, co_server = ao_server q, co_force = ao_force q, co_legacy = Some (legacy_of a1)\<rparr> d2 =
         ((got, e), d3)"
      "d' = (case (got, e) of (Some en, None) \<Rightarrow> verify_adoption v a1 en d3 | _ \<Rightarrow> d3)"
proof -
  obtain s d1 where s: "seed_adopted_plan v a d = (s, d1)" by fastforce
  note seed = seed_adopted_leaves [OF s]
  show ?thesis
  proof (cases s)
    case (Some er)
    then have "d' = d1" using assms s by (simp add: adopt_agreed_def)
    then show ?thesis using seed by (intro seeded) auto
  next
    case None
    obtain a1 d2 where m: "(if ao_measure q then measure_legacy order m v a d1 else (a, d1)) = (a1, d2)" by fastforce
    have left: "dk_plan d2 = dk_plan d1" "dk_token d2 = dk_token d1" "dk_net d2 = dk_net d1" "ad_install a1 = ad_install a"
      "\<exists>cmds. ran (dk_box d2) = ran (dk_box d1) @ cmds \<and> set cmds \<subseteq> {[''snapshots'', ''--json'']}"
      using m measure_legacy_leaves [of order m v a d1 a1 d2] by (auto split: if_splits)
    show ?thesis
    proof (cases "ao_code q = []")
      case True
      then have "d' = say (SaysServerSteps (server_steps day a1)) d2"
        using assms s None m by (simp add: adopt_agreed_def Let_def)
      then show ?thesis using seed left by (intro seeded) auto
    next
      case False
      obtain got e d3 where e: "enroll v \<lparr>co_code = ao_code q, co_server = ao_server q, co_force = ao_force q,
          co_legacy = Some (legacy_of a1)\<rparr> d2 = ((got, e), d3)" by (metis prod.exhaust)
      have "d' = (case (got, e) of (Some en, None) \<Rightarrow> verify_adoption v a1 en d3 | _ \<Rightarrow> d3)"
        using assms s None m False e by (cases got; cases e) (simp_all add: adopt_agreed_def)
      then show ?thesis using False left seed e by (intro claiming [of a1 d2 got e d3]) simp_all
    qed
  qed
qed

lemma verify_adoption_leaves [simp]:
  "dk_net (verify_adoption v a e d) = dk_net d" "dk_token (verify_adoption v a e d) = dk_token d"
  "dk_plan (verify_adoption v a e d) = dk_plan d"
  by (simp_all add: verify_adoption_def Let_def split: prod.split sum.split)

section \<open>Properties of an adoption\<close>

text \<open>C39: nothing is written without a yes. A run of \<open>adopt-enroll\<close> leaves the plan, the token, the repository
  and the server alone, unless an old install was found, the machine may be enrolled, and the question was
  answered with a yes on the command line or at the machine.\<close>

theorem adoption_waits_for_a_yes:
  "case adopt_enroll_cmd order day m v q d of (r, d') \<Rightarrow>
     dk_plan d' = dk_plan d \<and> dk_token d' = dk_token d \<and> dk_box d' = dk_box d \<and> dk_net d' = dk_net d \<or>
     (vs_token v = [] \<or> ao_force q) \<and> (ao_yes q \<or> said_yes d) \<and>
       (\<exists>l. sn_install (find_legacy order m (split_list (ao_legacy_dir q))) = Some l)"
proof -
  obtain r d' where run: "adopt_enroll_cmd order day m v q d = (r, d')" by fastforce
  from run show ?thesis by (cases rule: adopt_cases) (auto simp: run untouched_def)
qed


text \<open>the visit with a code claims it with the old repository's address, so that the server can refuse a
  code for another bucket before it is used; and what is said of its snapshots is zero unless they were
  counted. Nothing is asked before the claim.\<close>

theorem claim_names_the_old_repository:
  "case adopt_enroll_cmd order day m v q d of (r, d') \<Rightarrow> \<exists>asked. made (dk_net d') = made (dk_net d) @ asked \<and>
     (asked = [] \<or> (\<exists>server more l lg. asked = claim_call v \<lparr>co_code = ao_code q, co_server = ao_server q,
        co_force = ao_force q, co_legacy = Some lg\<rparr> server # more \<and> length more \<le> 1 \<and>
        sn_install (find_legacy order m (split_list (ao_legacy_dir q))) = Some l \<and> li_url lg = in_repository l \<and>
        (0 < li_snapshots lg \<or> li_snapshots lg = 0 \<and> li_oldest lg = zero_time)))"
proof -
  obtain r d' where run: "adopt_enroll_cmd order day m v q d = (r, d')" by fastforce
  from run show ?thesis
  proof (cases rule: adopt_cases)
    case refused
    then show ?thesis by (auto simp: run untouched_def)
  next
    case (agreed l a d1)
    from agreed(9) show ?thesis
    proof (cases rule: agreed_cases)
      case seeded
      then show ?thesis using agreed(8) by (auto simp: run untouched_def)
    next
      case (claiming a1 d2 got e d3)
      have legacy: "li_url (legacy_of a1) = in_repository l"
        "0 < li_snapshots (legacy_of a1) \<or> li_snapshots (legacy_of a1) = 0 \<and> li_oldest (legacy_of a1) = zero_time"
        using claiming(2) agreed(4) by (auto simp: legacy_of_def)
      have net: "made (dk_net d2) = made (dk_net d)" using claiming(3) agreed(8) by (simp add: untouched_def)
      have "made (dk_net d') = made (dk_net d3)" using claiming(5) by (auto split: option.splits)
      then show ?thesis using net legacy agreed(3) by (cases rule: enroll_asks [OF claiming(4)]) (auto simp: run)
    qed
  qed
qed

text \<open>A machine with an old script, for the examples.\<close>

definition sample_script :: string where
  "sample_script = ''RESTIC_REPOSITORY=s3:https://h/b'' @ [rx_lf] @ ''NODE_ID=attic'' @ [rx_lf] @
     ''restic backup /srv'' @ [rx_lf]"

definition sample_place :: place where
  "sample_place =
     \<lparr>pl_stat = (\<lambda>p. if p = ''/opt/backup/backup.sh'' then Seen False else NotThere),
      pl_read = (\<lambda>p. if p = ''/opt/backup/backup.sh'' then Inr sample_script else Inl ErrNotExist),
      pl_list = (\<lambda>_. None)\<rparr>"

definition sample_adoption :: adopt_order where
  "sample_adoption =
     \<lparr>ao_code = [], ao_yes = True, ao_legacy_dir = [], ao_measure = False, ao_server = [], ao_ssh = [],
      ao_issued_by = [], ao_force = False\<rparr>"


section \<open>What the printed commands do not say\<close>

text \<open>An empty \<open>--ssh\<close> is the same as none: the commands are printed for the server's own host, not bare.\<close>

lemma empty_ssh_is_not_bare:
  "ssh_target sample_visit [] ''https://h'' = ''root@h''"
  by code_simp

end
