(* ===== verification/Loopback.thy ===== *)
theory Loopback
  imports GoText Errors
begin

text \<open>
  The guard of the local page: \<open>app/sdk/loopback/loopback.go\<close>. A request is what the guard looks at: the
  method, the host it names, its headers and its form, which is \<open>None\<close> when it cannot be read. \<open>net.SplitHostPort\<close> and the
  encoding of the token are written out; the host of a URL is \<open>host_of\<close>. A browser is modelled by what the Fetch
  standard has it send for a form on a page.
\<close>

section \<open>Hosts and ports\<close>

text \<open>\<open>net.SplitHostPort\<close>: the last colon, and brackets only around the whole host.\<close>

definition last_colon :: "string \<Rightarrow> (string \<times> string) option" where
  "last_colon s = map_option (\<lambda>(r, l). (rev l, rev r)) (cut (CHR '':'') (rev s))"

definition split_host_port :: "string \<Rightarrow> (string \<times> string) option" where
  "split_host_port s =
     (case last_colon s of
        None \<Rightarrow> None
      | Some (before, port) \<Rightarrow>
          if s \<noteq> [] \<and> hd s = CHR ''[''
          then (case cut (CHR '']'') s of
              None \<Rightarrow> None
            | Some (inner, rest) \<Rightarrow>
                if rest \<noteq> CHR '':'' # port then None
                else if CHR ''['' \<in> set (tl s) \<or> CHR '']'' \<in> set rest then None
                else Some (tl inner, port))
          else if CHR '':'' \<in> set before \<or> CHR ''['' \<in> set s \<or> CHR '']'' \<in> set s then None
          else Some (before, port))"

text \<open>Three bytes are four characters of the URL alphabet, without padding.\<close>

definition url_digit :: "nat \<Rightarrow> char" where
  "url_digit n =
     (''ABCDEFGHIJKLMNOPQRSTUVWXYZabcdefghijklmnopqrstuvwxyz0123456789-_'') ! n"

fun base64_url :: "nat list \<Rightarrow> string" where
  "base64_url [] = []"
| "base64_url [a] = [url_digit (a div 4), url_digit (a mod 4 * 16)]"
| "base64_url [a, b] = [url_digit (a div 4), url_digit (a mod 4 * 16 + b div 16), url_digit (b mod 16 * 4)]"
| "base64_url (a # b # c # rest) =
     [url_digit (a div 4), url_digit (a mod 4 * 16 + b div 16), url_digit (b mod 16 * 4 + c div 64),
      url_digit (c mod 64)] @ base64_url rest"

section \<open>The guard\<close>

record web_request =
  wr_method :: string
  wr_host :: string
  wr_site :: string
  wr_origin :: string
  wr_form :: "(string \<Rightarrow> string) option"

record guard =
  gd_port :: string
  gd_token :: string

definition TokenField :: string where
  "TokenField = ''form_token''"

definition new_guard :: "string \<Rightarrow> nat list option \<Rightarrow> guard res" where
  "new_guard addr random =
     (case split_host_port addr of
        None \<Rightarrow> Inl (Wrap (''loopback: '' @ quote addr @ '' is not a host:port address: '') (Sentinel ''address'') [])
      | Some (_, port) \<Rightarrow>
          (case random of
             None \<Rightarrow> Inl (Wrap ''loopback: generating the form token: '' (Sentinel ''random'') [])
           | Some raw \<Rightarrow> Inr \<lparr>gd_port = port, gd_token = base64_url raw\<rparr>))"

definition safe_method :: "string \<Rightarrow> bool" where
  "safe_method m \<longleftrightarrow> m \<in> {''GET'', ''HEAD'', ''OPTIONS''}"

definition host_allowed :: "guard \<Rightarrow> string \<Rightarrow> bool" where
  "host_allowed g host =
     (let (name, port) = (case split_host_port host of None \<Rightarrow> (host, []) | Some x \<Rightarrow> x) in
      if gd_port g \<noteq> [] \<and> port \<noteq> gd_port g then False
      else to_lower name \<in> {''localhost'', ''127.0.0.1'', ''::1'', ''[::1]''})"

definition cannot_change :: "string \<Rightarrow> string" where
  "cannot_change who = ''a request from '' @ who @ '' cannot change this machine's backup settings''"

definition check_unsafe :: "(string \<Rightarrow> string option) \<Rightarrow> guard \<Rightarrow> web_request \<Rightarrow> string option" where
  "check_unsafe host_of g r =
     (if wr_site r \<notin> {'''', ''none'', ''same-origin''} then Some (cannot_change (wr_site r))
      else let trouble =
          (if wr_origin r = [] then None
           else if wr_origin r = ''null''
           then (if wr_site r \<noteq> ''same-origin'' \<and> wr_site r \<noteq> ''none''
             then Some (''a request that will not say where it is from cannot '' @
               ''change this machine's backup settings'')
             else None)
           else (case host_of (wr_origin r) of
               None \<Rightarrow> Some (cannot_change (wr_origin r))
             | Some h \<Rightarrow> if host_allowed g h then None else Some (cannot_change (wr_origin r))))
        in case trouble of
            Some t \<Rightarrow> Some t
          | None \<Rightarrow>
              (case wr_form r of
                 None \<Rightarrow> Some ''the form could not be read''
               | Some f \<Rightarrow>
                   if f TokenField \<noteq> gd_token g
                   then Some (''this form is from an older session of the backup agent; '' @ ''reload the page and try again'')
                   else None))"

datatype 'a guarded = Misdirected string | Forbidden string | Served 'a

text \<open>The handler is called with the form's values; what the guard refuses never reaches it.\<close>

definition guard_wrap ::
  "(string \<Rightarrow> string option) \<Rightarrow> guard \<Rightarrow> (web_request \<Rightarrow> 'a) \<Rightarrow> web_request \<Rightarrow> 'a guarded" where
  "guard_wrap host_of g h r =
     (if \<not> host_allowed g (wr_host r)
      then Misdirected (''this page is only reachable at http://127.0.0.1:'' @ gd_port g @ ''/'')
      else if safe_method (wr_method r) then Served (h r)
      else case check_unsafe host_of g r of
          Some e \<Rightarrow> Forbidden e
        | None \<Rightarrow> Served (h r))"

section \<open>A browser\<close>

text \<open>A page has an origin: a scheme, a name and a port. A request for a page names its host and port, and where it
  comes from another page says how that one's origin stands to its own; a page may hide its origin, which is then
  sent as \<open>null\<close>. What a user types comes from no page.\<close>

record origin =
  or_scheme :: string
  or_name :: string
  or_port :: string

definition authority :: "origin \<Rightarrow> string" where
  "authority p = or_name p @ CHR '':'' # or_port p"

definition plain_name :: "string \<Rightarrow> bool" where
  "plain_name s \<longleftrightarrow> list_all (\<lambda>c. c \<notin> {CHR '':'', CHR ''['', CHR '']''}) s"

definition good_target :: "origin \<Rightarrow> bool" where
  "good_target t \<longleftrightarrow> (plain_name (or_name t) \<or> or_name t = ''[::1]'') \<and> plain_name (or_port t)"

definition here :: "origin \<Rightarrow> bool" where
  "here t \<longleftrightarrow> to_lower (or_name t) \<in> {''localhost'', ''127.0.0.1'', ''[::1]''}"

definition browser_request ::
  "string \<Rightarrow> (origin \<times> bool) option \<Rightarrow> bool \<Rightarrow> origin \<Rightarrow> (string \<Rightarrow> string) \<Rightarrow> web_request" where
  "browser_request verb page same_site target form =
     \<lparr>wr_method = verb, wr_host = authority target,
      wr_site = (case page of
          None \<Rightarrow> ''none''
        | Some (p, _) \<Rightarrow> if p = target then ''same-origin'' else if same_site then ''same-site'' else ''cross-site''),
      wr_origin = (case page of
          None \<Rightarrow> []
        | Some (p, hides) \<Rightarrow> if hides then ''null'' else or_scheme p @ ''://'' @ authority p),
      wr_form = Some form\<rparr>"

section \<open>What gets through\<close>

lemma last_colon_port: "CHR '':'' \<notin> set p \<Longrightarrow> last_colon (n @ CHR '':'' # p) = Some (n, p)"
  using cut_append [of "CHR '':''" "rev p" "rev n"] by (simp add: last_colon_def)

lemma split_authority:
  assumes "good_target t"
  shows "split_host_port (authority t) = Some (if or_name t = ''[::1]'' then ''::1'' else or_name t, or_port t)"
proof (cases "or_name t = ''[::1]''")
  case True
  have p: "CHR '':'' \<notin> set (or_port t)" "CHR '']'' \<notin> set (or_port t)" "CHR ''['' \<notin> set (or_port t)"
    using assms by (auto simp: good_target_def plain_name_def list_all_iff)
  have "cut (CHR '']'') (authority t) = Some (''[::1'', CHR '':'' # or_port t)"
    using cut_append [of "CHR '']''" "''[::1''" "CHR '':'' # or_port t"] by (simp add: authority_def True)
  then show ?thesis
    using p last_colon_port [OF p(1), of "''[::1]''"] by (simp add: split_host_port_def authority_def True)
next
  case False
  have n: "plain_name (or_name t)" "plain_name (or_port t)" using assms False by (auto simp: good_target_def)
  then have "CHR '':'' \<notin> set (or_port t)" "CHR '':'' \<notin> set (or_name t)"
    "CHR ''['' \<notin> set (authority t) \<and> CHR '']'' \<notin> set (authority t)"
    by (auto simp: plain_name_def authority_def list_all_iff)
  moreover from this(3) have "hd (authority t) \<noteq> CHR ''[''" by (cases "or_name t") (auto simp: authority_def)
  ultimately show ?thesis
    using False last_colon_port [of "or_port t" "or_name t"] by (auto simp: split_host_port_def authority_def)
qed

lemma lower_colon: "lower_char c = CHR '':'' \<longleftrightarrow> c = CHR '':''" "CHR '':'' = lower_char c \<longleftrightarrow> c = CHR '':''"
proof -
  have "char_of (n + 32) \<noteq> CHR '':''" if "n \<le> 90" "65 \<le> n" for n :: nat
  proof
    assume "char_of (n + 32) = CHR '':''"
    then have "(of_char (char_of (n + 32) :: char) :: nat) = of_char (CHR '':'')" by simp
    then show False using that by simp
  qed
  then show "lower_char c = CHR '':'' \<longleftrightarrow> c = CHR '':''" by (auto simp: lower_char_def Let_def)
  then show "CHR '':'' = lower_char c \<longleftrightarrow> c = CHR '':''" by metis
qed

lemma colon_lower: "CHR '':'' \<in> set (to_lower s) \<longleftrightarrow> CHR '':'' \<in> set s"
  by (induction s rule: to_lower.induct) (auto simp: lower_colon)

lemma host_allowed_authority:
  assumes "good_target t"
  shows "host_allowed g (authority t) \<longleftrightarrow> (gd_port g = [] \<or> or_port t = gd_port g) \<and> here t"
proof (cases "or_name t = ''[::1]''")
  case True
  have "to_lower ''[::1]'' = ''[::1]''" "to_lower ''::1'' = ''::1''" by code_simp+
  then show ?thesis using True by (auto simp: host_allowed_def split_authority [OF assms] here_def)
next
  case False
  then have "CHR '':'' \<notin> set (to_lower (or_name t))"
    using assms by (auto simp: colon_lower good_target_def plain_name_def list_all_iff)
  then show ?thesis using False by (auto simp: host_allowed_def split_authority [OF assms] here_def)
qed

text \<open>A form that a browser sends from a page is served exactly when that page was itself loaded from this
  computer, by a name of its own and the program's port, and carries the word of this process. A page of
  another site that posts to the program gets nothing done, and neither does one whose name was pointed at
  this computer after it was loaded; and the program's own pages work in a browser that hides their origin.\<close>

lemma only_own_forms_are_served:
  assumes "good_target target" and "\<not> safe_method verb"
    and "host_of (or_scheme page @ ''://'' @ authority page) = Some (authority page)"
    and "r = browser_request verb (Some (page, hides)) same_site target form"
  shows "guard_wrap host_of g h r = Served (h r) \<longleftrightarrow>
    page = target \<and> here page \<and> (gd_port g = [] \<or> or_port page = gd_port g) \<and> form TokenField = gd_token g"
proof -
  note host = host_allowed_authority [OF assms(1), of g]
  have served: "guard_wrap host_of g h r = Served (h r) \<longleftrightarrow> host_allowed g (authority target) \<and> check_unsafe host_of g r = None"
    using assms(2,4) by (auto simp: guard_wrap_def browser_request_def split: option.splits)
  show ?thesis
  proof (cases "page = target")
    case True
    have "CHR '':'' \<in> set (or_scheme page @ ''://'' @ authority page)" "CHR '':'' \<notin> set ''null''" by simp_all
    then have "or_scheme page @ ''://'' @ authority page \<noteq> ''null''" by metis
    then have "check_unsafe host_of g r = None \<longleftrightarrow>
        (hides \<or> host_allowed g (authority target)) \<and> form TokenField = gd_token g"
      using assms(3,4) True by (auto simp: check_unsafe_def browser_request_def Let_def)
    then show ?thesis using served host True by auto
  next
    case False
    then have "check_unsafe host_of g r \<noteq> None"
      using assms(4) by (cases same_site) (auto simp: check_unsafe_def browser_request_def)
    then show ?thesis using served False by simp
  qed
qed

text \<open>A page that a browser believes to come from another name is not shown either, whatever the method: a
  name that was pointed at this computer reads nothing.\<close>

theorem other_names_read_nothing:
  assumes "good_target target" and "\<not> here target"
  shows "\<exists>m. guard_wrap host_of g h (browser_request verb page same_site target form) = Misdirected m"
  using host_allowed_authority [OF assms(1), of g] assms(2)
  by (auto simp: guard_wrap_def browser_request_def split: option.split)

text \<open>A page of this computer and one of another site, for the examples.\<close>

definition own_page :: origin where
  "own_page = \<lparr>or_scheme = ''http'', or_name = ''127.0.0.1'', or_port = ''7391''\<rparr>"

definition other_page :: origin where
  "other_page = \<lparr>or_scheme = ''https'', or_name = ''evil.example'', or_port = ''443''\<rparr>"

definition sample_guard :: guard where
  "sample_guard = \<lparr>gd_port = ''7391'', gd_token = base64_url [1, 2, 3]\<rparr>"

theorem other_names_read_nothing_witness:
  "\<exists>m. guard_wrap (\<lambda>_. None) sample_guard wr_method (browser_request ''GET'' None False other_page (\<lambda>_. [])) = Misdirected m"
proof (rule other_names_read_nothing)
  show "good_target other_page" "\<not> here other_page" by code_simp+
qed

end
