(* ===== verification/SetupPage.thy ===== *)
theory SetupPage
  imports Survey PlanDb Config
begin

text \<open>
  The two pages that change the plan: \<open>app/domain/statusapp/setup.go\<close> and the settings of \<open>statusapp.go\<close>. A form
  is a function that gives the empty text for a value it does not have. A handler answers with a redirect, an
  error or a page; of a page the values are kept that its template shows, without the chrome around them, the
  titles of the choices and the estimates of time. What the handlers change is the database of the plan, the
  state of the survey, and whether a backup was started.
\<close>

section \<open>Forms\<close>

type_synonym form = "string \<Rightarrow> string"

definition form_lines :: "string \<Rightarrow> string list" where
  "form_lines s = filter (\<lambda>l. l \<noteq> []) (map trim_space (split_on (CHR 0x0A) s))"

definition is_time_separator :: "char \<Rightarrow> bool" where
  "is_time_separator c \<longleftrightarrow> c \<in> {CHR '','', CHR 0x0A, CHR '' '', CHR 0x09, CHR 0x0D}"

definition split_times :: "string \<Rightarrow> string list" where
  "split_times s = filter (\<lambda>t. t \<noteq> []) (split_on (CHR 0x0A) (map (\<lambda>c. if is_time_separator c then CHR 0x0A else c) s))"

fun preset_text :: "preset \<Rightarrow> string" where
  "preset_text PresetHourly = ''hourly''"
| "preset_text PresetThriceDaily = ''thrice-daily''"
| "preset_text PresetDaily = ''daily''"
| "preset_text PresetCustom = ''custom''"

section \<open>The state behind the pages\<close>

record 'r panel =
  pn_plan :: plandb
  pn_survey :: "'r survey"
  pn_started :: nat

record site =
  si_junk :: "string list"
  si_fs :: probe_fs
  si_enrolled :: bool
  si_metered_known :: bool
  si_now :: instant
  si_start :: "err option"

definition effective_excludes :: "string list \<Rightarrow> string list \<Rightarrow> bool \<Rightarrow> string list" where
  "effective_excludes junk ex box =
     (if box = has_junk junk ex then ex
      else if box then without_junk junk ex @ junk
      else without_junk junk ex)"

text \<open>\<open>unusable\<close>.\<close>

definition unusable_roots :: "probe_fs \<Rightarrow> string list \<Rightarrow> string" where
  "unusable_roots fs roots =
     (let parts = map (\<lambda>t. tr_path t @ '' '' @ tr_why t) (check_roots fs roots) in
      case parts of
        [] \<Rightarrow> []
      | [p] \<Rightarrow> ''This folder cannot be backed up: '' @ p @ ''.''
      | _ \<Rightarrow> ''These folders cannot be backed up: '' @ join_with ''; '' parts @ ''.'')"

section \<open>The setup page\<close>

record style_option =
  op_style :: string
  op_roots :: "string list"
  op_sizing :: sizing

record root_line =
  rl_path :: string
  rl_note :: string

record setup_view =
  sw_plan :: plan
  sw_options :: "style_option list"
  sw_style :: string
  sw_targets :: string
  sw_junk :: bool
  sw_larger :: int
  sw_schedule :: string
  sw_daily :: string
  sw_times :: string
  sw_metered :: bool
  sw_chosen :: style_option
  sw_has_size :: bool
  sw_included :: "root_line list"
  sw_excluded :: "string list"
  sw_elsewhere :: "string list"
  sw_measuring :: bool
  sw_saved :: bool
  sw_problem :: string
  sw_refresh :: int

definition remainder :: "string list \<Rightarrow> string list \<Rightarrow> string list" where
  "remainder all_of some = filter (\<lambda>s. s \<notin> set some) all_of"

definition describe_roots :: "probe_fs \<Rightarrow> string list \<Rightarrow> root_line list" where
  "describe_roots fs roots =
     (let note = foldl (\<lambda>m t. m(tr_path t := tr_why t)) (\<lambda>_. []) (check_roots fs roots) in
      map (\<lambda>r. \<lparr>rl_path = r, rl_note = note r\<rparr>) roots)"

definition no_option :: style_option where
  "no_option = \<lparr>op_style = [], op_roots = [], op_sizing = unmeasured\<rparr>"

definition is_measuring :: "sizing \<Rightarrow> bool" where
  "is_measuring z \<longleftrightarrow> sz_state z = StateMeasuring"

text \<open>The choice whose radio button is on.\<close>

definition shown_style :: "choice list \<Rightarrow> plan \<Rightarrow> string" where
  "shown_style cs p =
     (if style p \<noteq> [] then style p
      else let s = style_of cs (targets p) in
        if s \<noteq> [] then s else case cs of c # _ \<Rightarrow> ch_style c | [] \<Rightarrow> [])"

definition setup_view_from :: "site \<Rightarrow> 'r survey \<Rightarrow> plan \<Rightarrow> setup_view" where
  "setup_view_from w s p =
     (let options = map (\<lambda>c. \<lparr>op_style = ch_style c, op_roots = ch_roots c, op_sizing = sizing_of s (ch_style c)\<rparr>)
            (sv_choices s);
          custom = sizing_of s StyleCustom;
          st = shown_style (sv_choices s) p;
          junk = (if \<not> confirmed p \<and> style p = [] then True else has_junk (si_junk w) (excludes p));
          preset = preset_text (preset_of (plan_schedule p));
          chosen0 = foldl (\<lambda>c opt. if op_style opt = st then opt else c) no_option options;
          chosen = (if st = StyleCustom
            then \<lparr>op_style = StyleCustom, op_roots = targets p, op_sizing = custom\<rparr> else chosen0);
          effective = effective_excludes (si_junk w) (excludes p) junk;
          excluded = excludes_for (op_roots chosen) effective
      in \<lparr>sw_plan = p, sw_options = options, sw_style = st, sw_targets = join_with [CHR 0x0A] (targets p),
          sw_junk = junk, sw_larger = skip_larger_than_gb p, sw_schedule = preset,
          sw_daily = (if preset = ''daily'' \<and> daily_time (plan_schedule p) = [] then ''13:00''
            else daily_time (plan_schedule p)),
          sw_times = join_with '', '' (times (plan_schedule p)), sw_metered = skip_on_metered p,
          sw_chosen = chosen, sw_has_size = sizing_known (op_sizing chosen),
          sw_included = describe_roots (si_fs w) (op_roots chosen), sw_excluded = excluded,
          sw_elsewhere = remainder effective excluded,
          sw_measuring = (upload_state (sv_upload s) = StateMeasuring \<or> is_measuring custom \<or>
            list_ex (\<lambda>opt. is_measuring (op_sizing opt)) options),
          sw_saved = False, sw_problem = [], sw_refresh = 0\<rparr>)"

datatype answer =
    Redirected string
  | Trouble string err
  | NotEnrolledYet
  | ShowSetup setup_view
  | ShowSettings plan bool string

definition setup_page :: "site \<Rightarrow> bool \<Rightarrow> 'r panel \<Rightarrow> answer \<times> 'r panel" where
  "setup_page w saved d =
     (case plandb_get (pn_plan d) of
        (Inl e, db) \<Rightarrow>
          (if err_is ErrNoPlan e then NotEnrolledYet else Trouble ''reading the backup plan'' e, d\<lparr>pn_plan := db\<rparr>)
      | (Inr p, db) \<Rightarrow>
          let d1 = d\<lparr>pn_plan := db\<rparr> in
          if repository p = [] \<or> \<not> si_enrolled w then (NotEnrolledYet, d1)
          else let v0 = setup_view_from w (pn_survey d1) p;
              s = probe_once (survey_measure (targets p) (effective_excludes (si_junk w) (excludes p) (sw_junk v0))
                (sw_larger v0) (pn_survey d1));
              v = (setup_view_from w s p)\<lparr>sw_saved := saved\<rparr>
            in (ShowSetup (if sw_measuring v then v\<lparr>sw_refresh := 3\<rparr> else v), d1\<lparr>pn_survey := s\<rparr>))"

section \<open>Saving the setup page\<close>

definition schedule_from :: "schedule \<Rightarrow> form \<Rightarrow> schedule \<times> string" where
  "schedule_from current f =
     (if f ''schedule'' = ''hourly'' then (hourly, [])
      else if f ''schedule'' = ''thrice-daily'' then (thrice_daily, [])
      else if f ''schedule'' = ''daily''
      then (let hhmm = trim_space (f ''daily_time'') in
        if hhmm = [] then (current, ''Choose a time of day for the backup to run at.'') else (daily_at hhmm, []))
      else let ts = split_times (f ''times'') in
        if ts = [] then (current, ''Write at least one time of day, as HH:MM.'')
        else ((if jitter_minutes current = 0 \<and> min_interval current = 0 then default_schedule else current)
          \<lparr>times := ts\<rparr>, []))"

text \<open>The folders of a form, or what is wrong with them.\<close>

definition chosen_targets :: "site \<Rightarrow> choice list \<Rightarrow> plan \<Rightarrow> form \<Rightarrow> plan \<times> string" where
  "chosen_targets w cs p f =
     (if f ''style'' = StyleCustom
      then let ts = form_lines (f ''targets''); p1 = p\<lparr>targets := ts\<rparr> in
        if ts = []
        then (p1, ''No folders were listed, so there would be nothing to back up. '' @
          ''Choose one of the options above, or write the folders one per line.'')
        else (p1, unusable_roots (si_fs w) ts)
      else case filter (\<lambda>c. ch_style c = f ''style'') cs of
          [] \<Rightarrow> (p, ''That is not one of the choices on this page. Pick one, or '' @ ''choose the folders yourself.'')
        | c # rest \<Rightarrow> (p\<lparr>targets := ch_roots (last (c # rest))\<rparr>, []))"

definition apply_setup :: "site \<Rightarrow> choice list \<Rightarrow> plan \<Rightarrow> form \<Rightarrow> plan \<times> string" where
  "apply_setup w cs p f =
     (case chosen_targets w cs p f of
        (p1, problem) \<Rightarrow>
          if problem \<noteq> [] then (p1, problem)
          else let p2 = p1\<lparr>style := f ''style'',
                excludes := effective_excludes (si_junk w) (excludes p1) (f ''junk'' = ''on''),
                skip_on_metered := (f ''skip_on_metered'' = ''on'')\<rparr>;
              limit = (if f ''skip_larger_than_gb'' = [] then Some 0
                else case atoi (trim_space (f ''skip_larger_than_gb'')) of
                    None \<Rightarrow> None | Some n \<Rightarrow> if n < 0 then None else Some n)
            in (case limit of
                None \<Rightarrow> (p2, ''The size limit has to be a whole number of gigabytes, or empty for no limit.'')
              | Some n \<Rightarrow>
                  let p3 = p2\<lparr>skip_larger_than_gb := n\<rparr>;
                      (sch, problem2) = schedule_from (plan_schedule p3) f
                  in if problem2 \<noteq> [] then (p3, problem2) else (p3\<lparr>plan_schedule := sch\<rparr>, [])))"

text \<open>A backup that does not start is only logged.\<close>

definition store_setup :: "site \<Rightarrow> plan \<Rightarrow> bool \<Rightarrow> 'r panel \<Rightarrow> string \<times> 'r panel" where
  "store_setup w p confirm d =
     (case biz_put plandb p (si_now w) (pn_plan d) of
        (Inl e, db) \<Rightarrow> (err_text e, d\<lparr>pn_plan := db\<rparr>)
      | (Inr _, db) \<Rightarrow>
          let d1 = d\<lparr>pn_plan := db\<rparr> in
          if \<not> confirm then ([], d1)
          else case biz_confirm plandb (si_now w) (pn_plan d1) of
              (Inl e, db2) \<Rightarrow> (err_text e, d1\<lparr>pn_plan := db2\<rparr>)
            | (Inr _, db2) \<Rightarrow> ([], d1\<lparr>pn_plan := db2, pn_started := pn_started d1 + 1\<rparr>))"

definition save_setup :: "site \<Rightarrow> form \<Rightarrow> 'r panel \<Rightarrow> answer \<times> 'r panel" where
  "save_setup w f d =
     (case plandb_get (pn_plan d) of
        (Inl _, db) \<Rightarrow> setup_page w False (d\<lparr>pn_plan := db\<rparr>)
      | (Inr p, db) \<Rightarrow>
          let confirm = (f ''action'' = ''confirm'');
              (p1, problem1) = apply_setup w (sv_choices (pn_survey d)) p f;
              (problem, d1) = (if problem1 = [] then store_setup w p1 confirm (d\<lparr>pn_plan := db\<rparr>)
                else (problem1, d\<lparr>pn_plan := db\<rparr>))
          in if problem \<noteq> [] then (ShowSetup ((setup_view_from w (pn_survey d1) p1)\<lparr>sw_problem := problem\<rparr>), d1)
             else (Redirected (if confirm then ''/'' else ''/setup?saved''), d1))"

definition retest_speed :: "'r panel \<Rightarrow> answer \<times> 'r panel" where
  "retest_speed d = (Redirected ''/setup'', d\<lparr>pn_survey := survey_probe (pn_survey d)\<rparr>)"

definition remeasure_page :: "site \<Rightarrow> 'r panel \<Rightarrow> answer \<times> 'r panel" where
  "remeasure_page w d =
     (case plandb_get (pn_plan d) of
        (r, db) \<Rightarrow>
          let measured = (\<lambda>p. (Redirected ''/setup'', d\<lparr>pn_plan := db,
            pn_survey := survey_measure (targets p) (effective_excludes (si_junk w) (excludes p)
              (has_junk (si_junk w) (excludes p))) (skip_larger_than_gb p) (remeasure_sizes (pn_survey d))\<rparr>))
          in (case r of
              Inr p \<Rightarrow> measured p
            | Inl e \<Rightarrow> if err_is ErrNoPlan e then measured zero_plan
                else (Trouble ''reading the backup plan'' e, d\<lparr>pn_plan := db\<rparr>)))"

section \<open>The settings page\<close>

definition settings_page :: "bool \<Rightarrow> 'r panel \<Rightarrow> answer \<times> 'r panel" where
  "settings_page saved d =
     (case plandb_get (pn_plan d) of
        (Inr p, db) \<Rightarrow> (ShowSettings p saved [], d\<lparr>pn_plan := db\<rparr>)
      | (Inl e, db) \<Rightarrow>
          (if err_is ErrNoPlan e then ShowSettings (zero_plan\<lparr>plan_schedule := default_schedule\<rparr>) saved []
           else Trouble ''reading the backup plan'' e, d\<lparr>pn_plan := db\<rparr>))"

text \<open>A number that cannot be read leaves the one that was there.\<close>

definition read_number :: "string \<Rightarrow> int \<Rightarrow> int" where
  "read_number s old = (case atoi s of None \<Rightarrow> old | Some n \<Rightarrow> n)"

definition apply_settings :: "plan \<Rightarrow> form \<Rightarrow> plan" where
  "apply_settings p f =
     (let raw = trim_space (f ''skip_larger_than_gb'') in
      p\<lparr>targets := form_lines (f ''targets''), excludes := form_lines (f ''excludes''),
        plan_schedule := (plan_schedule p)\<lparr>times := split_times (f ''times'')\<rparr>,
        paused := (f ''paused'' = ''on''), skip_on_metered := (f ''skip_on_metered'' = ''on''),
        skip_larger_than_gb := (if raw = [] then 0
          else case atoi raw of None \<Rightarrow> skip_larger_than_gb p
            | Some n \<Rightarrow> if 0 \<le> n then n else skip_larger_than_gb p),
        read_concurrency := read_number (f ''read_concurrency'') (read_concurrency p),
        pack_size_mib := read_number (f ''pack_size_mib'') (pack_size_mib p)\<rparr>)"

definition save_settings :: "site \<Rightarrow> form \<Rightarrow> 'r panel \<Rightarrow> answer \<times> 'r panel" where
  "save_settings w f d =
     (case plandb_get (pn_plan d) of
        (r, db) \<Rightarrow>
          (case (case r of Inr p \<Rightarrow> Inr p | Inl e \<Rightarrow> if err_is ErrNoPlan e then Inr zero_plan else Inl e) of
             Inl e \<Rightarrow> (Trouble ''reading the backup plan'' e, d\<lparr>pn_plan := db\<rparr>)
           | Inr p0 \<Rightarrow>
               let p = apply_settings p0 f; problem = unusable_roots (si_fs w) (targets p) in
               if problem \<noteq> [] then (ShowSettings p False problem, d\<lparr>pn_plan := db\<rparr>)
               else case biz_put plandb p (si_now w) db of
                   (Inl e, db2) \<Rightarrow> (ShowSettings p False (err_text e), d\<lparr>pn_plan := db2\<rparr>)
                 | (Inr _, db2) \<Rightarrow> (Redirected ''/settings?saved'', d\<lparr>pn_plan := db2\<rparr>)))"


section \<open>What a form can change\<close>

lemma unusable_nil: "unusable_roots fs ts = [] \<longleftrightarrow> check_roots fs ts = []"
  by (auto simp: unusable_roots_def Let_def split: list.split)

definition same_machine :: "plan \<Rightarrow> plan \<Rightarrow> bool" where
  "same_machine p q \<longleftrightarrow> node_id q = node_id p \<and> repository q = repository p \<and>
     use_fs_snapshot q = use_fs_snapshot p \<and> allow_vss_fallback q = allow_vss_fallback p \<and>
     one_file_system q = one_file_system p"

lemma same_machine_stored [simp]: "same_machine p (stored_plan q) = same_machine p q"
  "same_machine p (q\<lparr>updated_at := t\<rparr>) = same_machine p q" "same_machine p (q\<lparr>confirmed_at := t\<rparr>) = same_machine p q"
  by (simp_all add: same_machine_def stored_plan_def)

lemma stored_plan_parts [simp]:
  "targets (stored_plan q) = targets q" "style (stored_plan q) = style q" "paused (stored_plan q) = paused q"
  "confirmed_at (stored_plan q) = stored_time (confirmed_at q)" "excludes (stored_plan q) = excludes q"
  by (simp_all add: stored_plan_def)

text \<open>The settings page changes what a person may decide and nothing else. Whatever is typed, the plan that is
  held stays as it was, or every folder of the new one can be backed up and its machine, its bucket, its
  confirmation and its style are those of the old; a machine without a plan gets none, and no backup starts.\<close>

theorem settings_keep_the_machine:
  "case save_settings w f d of (a, d') \<Rightarrow> pn_started d' = pn_started d \<and> pn_survey d' = pn_survey d \<and>
     (held_plan (pn_plan d') = held_plan (pn_plan d) \<or> a = Redirected ''/settings?saved'' \<and>
        (\<exists>p q. held_plan (pn_plan d) = Some p \<and> held_plan (pn_plan d') = Some q \<and> same_machine p q \<and>
           style q = style p \<and> confirmed_at q = stored_time (confirmed_at p) \<and>
           targets q = form_lines (f ''targets'') \<and> check_roots (si_fs w) (targets q) = []))"
proof -
  obtain r db where g: "plandb_get (pn_plan d) = (r, db)" by fastforce
  note held = plandb_get_held [OF g]
  define read where "read = (case r of Inr p \<Rightarrow> Inr p | Inl e \<Rightarrow> if err_is ErrNoPlan e then Inr zero_plan else Inl e)"
  show ?thesis
  proof (cases "read")
    case (Inl e)
    then show ?thesis using g held by (simp add: save_settings_def read_def)
  next
    case (Inr p0)
    let ?p = "apply_settings p0 f"
    have kept: "same_machine p0 ?p" "style ?p = style p0" "confirmed_at ?p = confirmed_at p0" "targets ?p = form_lines (f ''targets'')"
      by (simp_all add: apply_settings_def same_machine_def Let_def)
    obtain u db2 where p: "biz_put plandb ?p (si_now w) db = (u, db2)" by fastforce
    note put = biz_put_held [OF p]
    show ?thesis
    proof (cases r)
      case no: (Inl e)
      then have "p0 = zero_plan" using Inr by (auto simp: read_def split: if_splits)
      then have "validate_plan ?p \<noteq> None" by (simp add: validate_plan_def apply_settings_def Let_def zero_plan_def)
      then have "\<exists>er. u = Inl er" using put by (cases u) auto
      then show ?thesis using g held p put Inr no by (auto simp: save_settings_def read_def Let_def)
    next
      case (Inr p1)
      then have "p1 = p0" using \<open>read = Inr p0\<close> by (simp add: read_def)
      then show ?thesis using g held p put Inr kept
        by (cases u) (auto simp: save_settings_def Let_def unusable_nil)
    qed
  qed
qed

lemma chosen_targets_keep:
  assumes "chosen_targets w cs p f = (q, problem)"
  shows "q = p\<lparr>targets := targets q\<rparr>"
    and "problem = [] \<Longrightarrow> (f ''style'' = StyleCustom \<and> targets q \<noteq> [] \<and> check_roots (si_fs w) (targets q) = []) \<or>
      (\<exists>c\<in>set cs. ch_style c = f ''style'' \<and> targets q = ch_roots c)"
proof -
  show "q = p\<lparr>targets := targets q\<rparr>"
    using assms by (auto simp: chosen_targets_def Let_def split: if_splits list.splits)
  assume ok: "problem = []"
  show "(f ''style'' = StyleCustom \<and> targets q \<noteq> [] \<and> check_roots (si_fs w) (targets q) = []) \<or>
      (\<exists>c\<in>set cs. ch_style c = f ''style'' \<and> targets q = ch_roots c)"
  proof (cases "f ''style'' = StyleCustom")
    case True
    then show ?thesis using assms ok by (auto simp: chosen_targets_def Let_def unusable_nil split: if_splits)
  next
    case False
    let ?found = "filter (\<lambda>c. ch_style c = f ''style'') cs"
    have some: "?found \<noteq> []" using assms ok False by (auto simp: chosen_targets_def)
    then have "last ?found \<in> set ?found" by (rule last_in_set)
    moreover have "targets q = ch_roots (last ?found)"
      using assms False some by (cases ?found) (auto simp: chosen_targets_def)
    ultimately show ?thesis by auto
  qed
qed

lemma apply_setup_keeps:
  assumes "apply_setup w cs p f = (q, [])"
  shows "same_machine p q" "confirmed_at q = confirmed_at p" "paused q = paused p" "style q = f ''style''"
    "excludes q = effective_excludes (si_junk w) (excludes p) (f ''junk'' = ''on'')"
    "(f ''style'' = StyleCustom \<and> targets q \<noteq> [] \<and> check_roots (si_fs w) (targets q) = []) \<or>
      (\<exists>c\<in>set cs. ch_style c = f ''style'' \<and> targets q = ch_roots c)"
proof -
  obtain p1 problem where c: "chosen_targets w cs p f = (p1, problem)" by fastforce
  have ok: "problem = []" using assms c by (auto simp: apply_setup_def split: if_splits)
  obtain n sch where q: "q = p1\<lparr>style := f ''style'', excludes := effective_excludes (si_junk w) (excludes p1) (f ''junk'' = ''on''),
      skip_on_metered := (f ''skip_on_metered'' = ''on''), skip_larger_than_gb := n, plan_schedule := sch\<rparr>"
    using assms c ok by (auto simp: apply_setup_def Let_def split: option.splits if_splits prod.splits)
  have p1: "same_machine p p1" "confirmed_at p1 = confirmed_at p" "paused p1 = paused p" "excludes p1 = excludes p"
    by (subst chosen_targets_keep(1) [OF c], simp add: same_machine_def)+
  show "same_machine p q" "confirmed_at q = confirmed_at p" "paused q = paused p" "style q = f ''style''"
    "excludes q = effective_excludes (si_junk w) (excludes p) (f ''junk'' = ''on'')"
    "(f ''style'' = StyleCustom \<and> targets q \<noteq> [] \<and> check_roots (si_fs w) (targets q) = []) \<or>
      (\<exists>c\<in>set cs. ch_style c = f ''style'' \<and> targets q = ch_roots c)"
    using p1 chosen_targets_keep(2) [OF c ok] by (auto simp: q same_machine_def)
qed

lemma setup_page_leaves:
  assumes "setup_page w saved d = (a, d')"
  shows "held_plan (pn_plan d') = held_plan (pn_plan d)" "pn_started d' = pn_started d"
proof -
  obtain r db where g: "plandb_get (pn_plan d) = (r, db)" by fastforce
  show "held_plan (pn_plan d') = held_plan (pn_plan d)" "pn_started d' = pn_started d"
    using assms g plandb_get_held(1) [OF g]
    by (auto simp: setup_page_def Let_def split: sum.splits if_splits)
qed

lemma store_setup_cases:
  assumes "store_setup w p asked d = (problem, d')"
  obtains "held_plan (pn_plan d') = held_plan (pn_plan d)" "pn_started d' = pn_started d"
  | "held_plan (pn_plan d') = Some (stored_plan (p\<lparr>updated_at := si_now w\<rparr>))" "pn_started d' = pn_started d"
  | "asked" "problem = []" "held_plan (pn_plan d') =
      Some (stored_plan ((stored_plan (p\<lparr>updated_at := si_now w\<rparr>))\<lparr>confirmed_at := si_now w, updated_at := si_now w\<rparr>))"
      "pn_started d' = pn_started d + 1" "targets p \<noteq> []"
proof -
  obtain u db where p: "biz_put plandb p (si_now w) (pn_plan d) = (u, db)" by fastforce
  note put = biz_put_held(1) [OF p]
  show ?thesis
  proof (cases "\<exists>x. u = Inr x \<and> asked")
    case False
    then show ?thesis using assms p put that(1,2) by (cases u) (auto simp: store_setup_def)
  next
    case True
    obtain c db2 where c: "biz_confirm plandb (si_now w) db = (c, db2)" by fastforce
    show ?thesis
    proof (cases c)
      case (Inl e)
      then show ?thesis using assms p put True c pdb.biz_confirm_view [OF c] that(2)
        by (auto simp: store_setup_def)
    next
      case (Inr x)
      obtain q where "held_plan db = Some q" "runnable q = None"
          "held_plan db2 = Some (stored_plan (q\<lparr>confirmed_at := si_now w, updated_at := si_now w\<rparr>))"
        using pdb.biz_confirm_view [OF c] Inr by auto
      then show ?thesis using assms p put True c Inr pdb.runnable_valid [of q] that(3)
        by (auto simp: store_setup_def)
    qed
  qed
qed

text \<open>C28: a plan is confirmed, and a backup started, by the button for it and by nothing else on the page. A form
  that is saved leaves the plan as it was; or it stores a plan of the same machine and bucket, whose folders
  are those of a choice of the page or a list that can be backed up, and whose confirmation is the old one;
  or the form said to confirm, and the plan that was stored is confirmed now and a backup was started.\<close>

theorem setup_confirms_only_when_asked:
  "case save_setup w f d of (a, d') \<Rightarrow>
     held_plan (pn_plan d') = held_plan (pn_plan d) \<and> pn_started d' = pn_started d \<or>
     (\<exists>p q. held_plan (pn_plan d) = Some p \<and> held_plan (pn_plan d') = Some q \<and> same_machine p q \<and> paused q = paused p \<and>
        style q = f ''style'' \<and>
        (check_roots (si_fs w) (targets q) = [] \<or> targets q \<in> ch_roots ` set (sv_choices (pn_survey d))) \<and>
        (pn_started d' = pn_started d \<and> confirmed_at q = stored_time (confirmed_at p) \<or>
         f ''action'' = ''confirm'' \<and> a = Redirected ''/'' \<and> pn_started d' = pn_started d + 1 \<and>
           confirmed_at q = stored_time (si_now w) \<and> targets q \<noteq> []))"
proof -
  obtain r db where g: "plandb_get (pn_plan d) = (r, db)" by fastforce
  note held = plandb_get_held [OF g]
  obtain a d' where run: "save_setup w f d = (a, d')" by fastforce
  show ?thesis
  proof (cases r)
    case (Inl e)
    then show ?thesis
      using run g held(1) setup_page_leaves [of w False "d\<lparr>pn_plan := db\<rparr>" a d'] by (simp add: save_setup_def run)
  next
    case (Inr p)
    obtain p1 problem1 where ap: "apply_setup w (sv_choices (pn_survey d)) p f = (p1, problem1)" by fastforce
    show ?thesis
    proof (cases "problem1 = []")
      case False
      then show ?thesis using run g held(1) Inr ap by (auto simp: save_setup_def Let_def)
    next
      case True
      note keeps = apply_setup_keeps [OF ap [unfolded True]]
      obtain problem d1 where st: "store_setup w p1 (f ''action'' = ''confirm'') (d\<lparr>pn_plan := db\<rparr>) = (problem, d1)"
        by fastforce
      have d': "d' = d1" "problem = [] \<Longrightarrow> a = Redirected (if f ''action'' = ''confirm'' then ''/'' else ''/setup?saved'')"
        using run g Inr ap True st by (auto simp: save_setup_def Let_def split: if_splits)
      show ?thesis
        using st
      proof (cases rule: store_setup_cases)
        case 1
        then show ?thesis using held(1) d' by (simp add: run)
      next
        case 2
        then show ?thesis using held(2) d' keeps Inr by (auto simp: run)
      next
        case 3
        then show ?thesis using held(2) d' keeps Inr by (auto simp: run)
      qed
    qed
  qed
qed

text \<open>The exclusions follow the box. Whatever was excluded before, saving with the box ticked leaves the whole
  junk list excluded and saving without it leaves not all of it; what is not on the list is kept in its order
  either way; and saving the same form again changes nothing.\<close>

theorem exclusions_follow_the_box:
  "let junk = junk_excludes goos home; after = effective_excludes junk ex box in
     has_junk junk after = box \<and> without_junk junk after = without_junk junk ex \<and>
     effective_excludes junk after box = after"
proof -
  let ?junk = "junk_excludes goos home"
  have iso: "''*.iso'' \<in> set ?junk" by (simp add: junk_excludes_def)
  then have j: "?junk \<noteq> []" by auto
  have no: "\<not> has_junk ?junk (without_junk ?junk ex)"
    using iso by (auto simp: has_junk_def without_junk_def list_all_iff)
  have yes: "has_junk ?junk (x @ ?junk)" for x using j by (simp add: has_junk_def list_all_iff)
  have has: "has_junk ?junk (effective_excludes ?junk ex box) = box"
    using no yes [of "without_junk ?junk ex"] by (cases box) (simp_all add: effective_excludes_def)
  moreover have "without_junk ?junk (effective_excludes ?junk ex box) = without_junk ?junk ex"
    by (simp add: effective_excludes_def without_junk_def)
  moreover have "effective_excludes ?junk (effective_excludes ?junk ex box) box = effective_excludes ?junk ex box"
    using has by (simp add: effective_excludes_def)
  ultimately show ?thesis by (simp add: Let_def)
qed

section \<open>Two doors to one list\<close>

text \<open>The settings page changes the folders and leaves the style. The setup page goes by the style: it shows the
  folders of the choice in place of those that are backed up, and sending it as it is shown replaces them.\<close>

definition sample_site :: site where
  "sample_site =
     \<lparr>si_junk = junk_excludes ''linux'' ''/home/ana'',
      si_fs = \<lparr>pf_stat = (\<lambda>_. StatFolder), pf_opens = (\<lambda>_. True), pf_lists = (\<lambda>_. True)\<rparr>,
      si_enrolled = True, si_metered_known = True, si_now = 9 * second, si_start = None\<rparr>"

definition sample_panel :: "nat panel" where
  "sample_panel =
     \<lparr>pn_plan = snd (biz_put plandb (sample_plan\<lparr>style := StyleHome, targets := [''/home/ana'']\<rparr>) second fresh_db),
      pn_survey = new_survey [\<lparr>ch_style = StyleHome, ch_roots = [''/home/ana'']\<rparr>] False, pn_started = 0\<rparr>"

definition fill_in :: "(string \<times> string) list \<Rightarrow> form" where
  "fill_in vs name = (case map_of vs name of None \<Rightarrow> [] | Some v \<Rightarrow> v)"

lemma setup_undoes_settings:
  "let d1 = snd (save_settings sample_site (fill_in [(''targets'', ''/srv''), (''times'', ''13:00'')]) sample_panel);
       shown = fst (setup_page sample_site False d1);
       d2 = snd (save_setup sample_site (fill_in [(''style'', StyleHome), (''schedule'', ''hourly'')]) d1)
   in map_option targets (held_plan (pn_plan d1)) = Some [''/srv''] \<and>
      (case shown of ShowSetup v \<Rightarrow> sw_style v = StyleHome \<and> map rl_path (sw_included v) = [''/home/ana''] | _ \<Rightarrow> False) \<and>
      map_option targets (held_plan (pn_plan d2)) = Some [''/home/ana'']"
  by code_simp


end
