(* ===== verification/StatusPage.thy ===== *)
theory StatusPage
  imports SetupPage Machine Credential BackupDb
begin

text \<open>
  The front page of the local server and the page of a fresh start: \<open>app/domain/statusapp/statusapp.go\<close>,
  \<open>rotation.go\<close> and the sentences of \<open>funcs.go\<close>. What a page shows are the values its template is given; the two
  buttons of the front page are taken from what starting and stopping a backup answered. A poll of the server after a
  button is \<open>poll_state\<close>.
\<close>

section \<open>The sentence at the top\<close>

definition ldq :: string where "ldq = [CHR 0xE2, CHR 0x80, CHR 0x9C]"
definition rdq :: string where "rdq = [CHR 0xE2, CHR 0x80, CHR 0x9D]"
definition dash :: string where "dash = [CHR 0xE2, CHR 0x80, CHR 0x94]"

definition plural_of :: "int \<Rightarrow> string \<Rightarrow> string" where
  "plural_of n unit_name = (if n = 1 then ''1 '' @ unit_name else itoa n @ '' '' @ unit_name @ ''s'')"

definition duration_minutes :: "duration \<Rightarrow> rat" where
  "duration_minutes d =
     float_add (float_of_int (trunc_div d minute)) (float_div (float_of_int (trunc_mod d minute)) (of_int minute))"

definition human_duration :: "duration \<Rightarrow> string" where
  "human_duration d =
     (if d < 0 then ''in the future''
      else if d < minute then ''less than a minute''
      else if d < hour then plural_of (int_of_float (duration_minutes d)) ''minute''
      else if d < 48 * hour then plural_of (int_of_float (duration_hours d)) ''hour''
      else plural_of (int_of_float (float_div (duration_hours d) 24)) ''day'')"

record sentence =
  level :: string
  heading :: string
  detail :: string

definition stopped_sentence :: "string \<Rightarrow> sentence" where
  "stopped_sentence why = \<lparr>level = ''bad'', heading = ''Backups have stopped'', detail = why\<rparr>"

definition verdict_of :: "run \<Rightarrow> instant \<Rightarrow> sentence" where
  "verdict_of l now =
     (let age = time_sub now (started_at l) in
      case run_outcome l of
        OutcomeSuccess \<Rightarrow>
          if stale_after < age
          then stopped_sentence (''The last good backup was '' @ human_duration age @ '' ago, and nothing has run since.'')
          else \<lparr>level = ''good'', heading = ''This computer is backed up'',
            detail = ''Last verified '' @ human_duration age @ '' ago.''\<rparr>
      | OutcomeDegraded \<Rightarrow> \<lparr>level = ''warn'', heading = ''Backed up, with a gap'',
          detail = ''Files that were open at the time may be missing. '' @ run_message l\<rparr>
      | OutcomeIncomplete \<Rightarrow> \<lparr>level = ''warn'', heading = ''Backed up, but some files were missed'',
          detail = run_message l @ '' They are listed below.''\<rparr>
      | OutcomeUnverified \<Rightarrow> \<lparr>level = ''bad'', heading = ''The backup could not be read back'',
          detail = ''A snapshot was written but nothing came out of it. '' @ run_message l\<rparr>
      | OutcomeCancelled \<Rightarrow>
          if stale_after < age
          then stopped_sentence (''The last one was stopped '' @ human_duration age @ '' ago and nothing has run since.'')
          else \<lparr>level = ''warn'', heading = ''The last backup was stopped'',
            detail = ''It was '' @ run_message l @ ''. Nothing already uploaded is lost '' @ dash @
              '' the next backup carries on from where this one reached.''\<rparr>
      | _ \<Rightarrow> \<lparr>level = ''bad'', heading = ''The last backup failed'', detail = run_message l\<rparr>)"

definition verdict_for :: "plan \<Rightarrow> run option \<Rightarrow> bool \<Rightarrow> instant \<Rightarrow> sentence" where
  "verdict_for p l running now =
     (if running
      then \<lparr>level = ''good'', heading = ''Backing up now'', detail = ''This page refreshes itself while it runs.''\<rparr>
      else if \<not> confirmed p
      then \<lparr>level = ''warn'', heading = ''Waiting for you to say what to back up'',
        detail = ''This computer is enrolled and ready. It is deliberately not backing '' @
          ''anything up until somebody using it has chosen what should be in it.''\<rparr>
      else if paused p
      then \<lparr>level = ''warn'', heading = ''Backups are paused'',
        detail = ''Nothing is being backed up. Turn them back on in Settings.''\<rparr>
      else case l of
          None \<Rightarrow> \<lparr>level = ''warn'', heading = ''No backup has run yet'',
            detail = ''The first one will start at the next scheduled time, or press '' @ ldq @ ''Back up now'' @ rdq @ ''.''\<rparr>
        | Some r \<Rightarrow> verdict_of r now)"

fun pill :: "outcome \<Rightarrow> string" where
  "pill OutcomeSuccess = ''good''"
| "pill OutcomeDegraded = ''warn''"
| "pill OutcomeIncomplete = ''warn''"
| "pill OutcomeCancelled = ''quiet''"
| "pill _ = ''bad''"

section \<open>The front page\<close>

datatype pressed = NotPressed | PressedStart | PressedWhileRunning | PressedCancel | PressedWithoutRun

text \<open>What is said of the button that led here, and how soon the page is read again.\<close>

definition notice_for :: "pressed \<Rightarrow> bool \<Rightarrow> string \<times> int" where
  "notice_for b running =
     (let again = (if running then 5 else 0) in
      case b of
        NotPressed \<Rightarrow> ([], again)
      | PressedStart \<Rightarrow>
          (if \<not> running then (''Starting. This page will follow along in a moment.'', 2) else (''Started.'', again))
      | PressedWhileRunning \<Rightarrow>
          (''A backup is already running, so this did not start another. '' @ ''It is shown above.'', again)
      | PressedCancel \<Rightarrow>
          (if running then (''Stopping. restic is finishing what it is uploading and '' @
             ''releasing its lock, so this may take a few seconds.'', 2) else (''Stopped.'', again))
      | PressedWithoutRun \<Rightarrow>
          (''There was no backup running, so nothing was stopped. '' @ ''It had probably just finished.'', again))"

definition page_card_advice :: "card \<Rightarrow> bool \<times> string" where
  "page_card_advice c =
     (if card_state c = CardNever
      then (True, ''Nobody has printed the page that lets this computer's files be '' @
        ''restored without us. It takes a minute and a printer.'')
      else if card_state c = CardSuperseded
      then (True, ''The printed page you are holding no longer opens anything '' @ dash @ '' the '' @
        ''bucket it names has been retired. Print a new one, and destroy the old page.'')
      else (False, []))"

record office =
  of_plan :: plandb
  of_runs :: rundb
  of_machine :: machine_net
  of_creds :: creds_net

record desk_facts =
  df_parse :: parser
  df_available :: bool
  df_running :: bool
  df_zone :: zone
  df_now :: instant
  df_page :: string
  df_price :: rat
  df_speed :: "rat option"
  df_metered :: "bool \<times> string"

record status_view =
  vw_configured :: bool
  vw_verdict :: sentence
  vw_notice :: string
  vw_refresh :: int
  vw_last :: "run option"
  vw_recent :: "run list"
  vw_offer :: offer
  vw_saving :: string
  vw_offered :: "offered option"
  vw_cutting_over :: bool
  vw_card :: "bool \<times> string"
  vw_next :: instant

definition not_set_up :: sentence where
  "not_set_up = \<lparr>level = ''bad'', heading = ''This computer is not backing up'',
     detail = ''It has not been set up yet. Whoever installed it needs to run '' @ ldq @ ''sion-backup enroll'' @ rdq @ ''.''\<rparr>"

definition or_else :: "'a \<Rightarrow> 'a res \<times> 's \<Rightarrow> 'a \<times> 's" where
  "or_else a x = (case x of (Inl _, s) \<Rightarrow> (a, s) | (Inr b, s) \<Rightarrow> (b, s))"

text \<open>The argument for a fresh start, from what is stored: \<open>None\<close> stands for a state that could not be read. Facts
  about another bucket than the plan's are not used.\<close>

definition rotation_facts ::
  "desk_facts \<Rightarrow> string \<Rightarrow> plandb \<Rightarrow> (measurement \<times> integrity \<times> machine_state option \<times> offer) \<times> plandb" where
  "rotation_facts w url db =
     (case or_else zero_measurement (biz_measurement plandb url (df_now w) db) of
        (m, db1) \<Rightarrow>
          (case or_else zero_integrity (biz_integrity plandb url db1) of
             (i, db2) \<Rightarrow>
               (case biz_machine_state plandb db2 of
                  (r, db3) \<Rightarrow>
                    let s = (case r of Inl _ \<Rightarrow> None | Inr s \<Rightarrow> Some s);
                        b = (case s of Some t \<Rightarrow> if describes t url then ms_bucket t else ms_bucket zero_machine_state
                          | None \<Rightarrow> ms_bucket zero_machine_state)
                    in ((m, i, s, consider_rotation (df_now w) b m i), db3))))"

datatype page_answer =
    PageRedirect string
  | PageTrouble string err
  | PageStatus status_view
  | PageNotSetUp sentence

definition status_page :: "desk_facts \<Rightarrow> pressed \<Rightarrow> office \<Rightarrow> page_answer \<times> office" where
  "status_page w b d =
     (case plandb_get (of_plan d) of
        (Inl e, db) \<Rightarrow>
          (if err_is ErrNoPlan e then PageNotSetUp not_set_up else PageTrouble ''reading the backup plan'' e,
           d\<lparr>of_plan := db\<rparr>)
      | (Inr p, db) \<Rightarrow>
          (case rundb_last_finished (of_runs d) of
             (r, runs1) \<Rightarrow>
               if \<not> is_ok r \<and> \<not> (case r of Inl e \<Rightarrow> err_is ErrNoRuns e | _ \<Rightarrow> False)
               then (PageTrouble ''reading the run history'' (case r of Inl e \<Rightarrow> e | Inr _ \<Rightarrow> ErrNoRuns),
                 d\<lparr>of_plan := db, of_runs := runs1\<rparr>)
               else let l = (case r of Inr x \<Rightarrow> Some x | Inl _ \<Rightarrow> None);
                   (recent, runs2) = or_else [] (rundb_recent 20 runs1);
                   ((m, i, s, ofr), db2) = rotation_facts w (repository p) db;
                   (notice, again) = notice_for b (df_running w)
                 in (PageStatus \<lparr>vw_configured = True, vw_verdict = verdict_for p l (df_running w) (df_now w),
                     vw_notice = notice, vw_refresh = again, vw_last = l, vw_recent = recent, vw_offer = ofr,
                     vw_saving = monthly_saving ofr (df_price w),
                     vw_offered = Option.bind s ms_offer,
                     vw_cutting_over = (case s of None \<Rightarrow> False
                       | Some t \<Rightarrow> describes t (repository p) \<and> cutting_over (ms_bucket t)),
                     vw_card = (case s of None \<Rightarrow> (False, []) | Some t \<Rightarrow> page_card_advice (ms_card t)),
                     vw_next = next_slot (df_zone w) (plan_schedule p) (node_id p) (df_now w)\<rparr>,
                   d\<lparr>of_plan := db2, of_runs := runs2\<rparr>)))"

definition health_page :: "office \<Rightarrow> bool \<times> office" where
  "health_page d = (case rundb_recent 1 (of_runs d) of (r, runs) \<Rightarrow> (is_ok r, d\<lparr>of_runs := runs\<rparr>))"

text \<open>The two buttons, from what starting and stopping answered.\<close>

definition run_now_page :: "err option \<Rightarrow> page_answer" where
  "run_now_page started =
     (case started of
        None \<Rightarrow> PageRedirect ''/?started''
      | Some e \<Rightarrow> if err_is ErrAlreadyRunning e then PageRedirect ''/?running'' else PageTrouble ''starting a backup'' e)"

definition cancel_page :: "err option \<Rightarrow> page_answer" where
  "cancel_page cancelled =
     (case cancelled of
        None \<Rightarrow> PageRedirect ''/?cancelling''
      | Some e \<Rightarrow> if err_is ErrNotRunning e then PageRedirect ''/?notrunning'' else PageTrouble ''stopping the backup'' e)"

section \<open>A fresh start\<close>

record rotation_view =
  rv_configured :: bool
  rv_enrolled :: bool
  rv_repository :: string
  rv_offer :: offer
  rv_measurement :: measurement
  rv_integrity :: integrity
  rv_saving :: string
  rv_state :: machine_state
  rv_speed :: "rat option"
  rv_estimate :: duration
  rv_metered :: "bool \<times> string"
  rv_card :: "bool \<times> string"
  rv_notice :: string
  rv_problem :: string

datatype rotation_answer = RotationTrouble string err | RotationBare bool string string | RotationShown rotation_view

definition rotation_page :: "desk_facts \<Rightarrow> string \<Rightarrow> string \<Rightarrow> office \<Rightarrow> rotation_answer \<times> office" where
  "rotation_page w notice problem d =
     (case plandb_get (of_plan d) of
        (Inl e, db) \<Rightarrow>
          (if err_is ErrNoPlan e then RotationBare (df_available w) notice problem
           else RotationTrouble ''reading the backup plan'' e, d\<lparr>of_plan := db\<rparr>)
      | (Inr p, db) \<Rightarrow>
          (case rotation_facts w (repository p) db of
             ((m, i, s, ofr), db1) \<Rightarrow>
               let t = (case s of None \<Rightarrow> zero_machine_state | Some t \<Rightarrow> t) in
               (RotationShown \<lparr>rv_configured = True, rv_enrolled = df_available w, rv_repository = repository p,
                  rv_offer = ofr, rv_measurement = m, rv_integrity = i, rv_saving = monthly_saving ofr (df_price w),
                  rv_state = t, rv_speed = df_speed w,
                  rv_estimate = (case df_speed w of None \<Rightarrow> 0 | Some v \<Rightarrow> estimate ofr v),
                  rv_metered = df_metered w, rv_card = page_card_advice (ms_card t),
                  rv_notice = notice, rv_problem = problem\<rparr>, d\<lparr>of_plan := db1\<rparr>)))"

definition refresh_state :: "desk_facts \<Rightarrow> office \<Rightarrow> office" where
  "refresh_state w d =
     (case poll_state (df_parse w) (df_available w) (df_page w) (df_now w) (of_plan d) (of_machine d) of
        (_, db, n) \<Rightarrow> d\<lparr>of_plan := db, of_machine := n\<rparr>)"

definition asked_notice :: string where
  "asked_notice = ''Asked. Whoever looks after your backups will see this, and will either set '' @
     ''up a new bucket or not. Nothing on this computer changes until they do, '' @
     ''and nothing starts uploading until you say so here.''"

definition asked_before_notice :: string where
  "asked_before_notice = ''Somebody has already been asked about this computer. If a new bucket '' @
     ''has been set up for it, it is shown below.''"

definition no_repository_problem :: string where
  "no_repository_problem = ''The server has no repository for this computer, so there is nothing to '' @
     ''replace. Whoever looks after your backups needs to fix that first.''"

definition request_rotation_page :: "desk_facts \<Rightarrow> office \<Rightarrow> rotation_answer \<times> office" where
  "request_rotation_page w d =
     (if \<not> df_available w
      then rotation_page w [] ''This computer is not enrolled, so there is nobody to ask.'' d
      else case plandb_get (of_plan d) of
          (Inl e, db) \<Rightarrow> (RotationTrouble ''reading the backup plan'' e, d\<lparr>of_plan := db\<rparr>)
        | (Inr p, db) \<Rightarrow>
            (case biz_measurement plandb (repository p) (df_now w) db of
               (Inl e, db1) \<Rightarrow> (RotationTrouble ''reading the repository measurement'' e, d\<lparr>of_plan := db1\<rparr>)
             | (Inr m, db1) \<Rightarrow>
                 (case biz_request_rotation (df_parse w) (df_available w)
                     \<lparr>md_repository_url = repository p, md_reclaimable = reclaimable m, md_fresh = size_fresh m,
                      md_measured_at = measured_at m\<rparr> (of_machine d) of
                    (Inr _, n) \<Rightarrow>
                      rotation_page w asked_notice [] (refresh_state w (d\<lparr>of_plan := db1, of_machine := n\<rparr>))
                  | (Inl e, n) \<Rightarrow>
                      let d1 = d\<lparr>of_plan := db1, of_machine := n\<rparr> in
                      if err_is ErrAlreadyAsked e then rotation_page w asked_before_notice [] (refresh_state w d1)
                      else if err_is ErrNoRepository e then rotation_page w [] no_repository_problem d1
                      else rotation_page w [] (''The request could not be sent: '' @ err_text e) d1)))"

definition accepted_notice :: string where
  "accepted_notice = ''Accepted. The next backup fills the new bucket from scratch and will take '' @
     ''much longer than usual '' @ dash @ '' leave this computer on and awake while it runs. '' @
     ''Your old backups stay readable the whole time, and nothing is deleted '' @
     ''until a person retires the old bucket.''"

definition cutover_page :: "desk_facts \<Rightarrow> form \<Rightarrow> office \<Rightarrow> rotation_answer \<times> office" where
  "cutover_page w f d =
     (if \<not> df_available w then rotation_page w [] ''This computer is not enrolled.'' d
      else if f ''repository_url'' = []
      then rotation_page w [] ''That form named no bucket, so nothing was accepted.'' d
      else case biz_cutover (df_parse w) (df_available w) (f ''repository_url'') (of_machine d) of
          (Inr _, n) \<Rightarrow> rotation_page w accepted_notice [] (refresh_state w (d\<lparr>of_machine := n\<rparr>))
        | (Inl e, n) \<Rightarrow>
            let d1 = d\<lparr>of_machine := n\<rparr> in
            if err_is ErrNothingOffered e
            then rotation_page w []
              ''There is no bucket waiting for this computer any more. Nothing has changed.'' (refresh_state w d1)
            else (case as_bad_request e of
                Some x \<Rightarrow>
                  if br_message x \<noteq> [] then rotation_page w [] (br_message x) (refresh_state w d1)
                  else rotation_page w [] (''The new bucket could not be accepted: '' @ err_text e) d1
              | None \<Rightarrow> rotation_page w [] (''The new bucket could not be accepted: '' @ err_text e) d1))"

section \<open>What the pages do\<close>

definition state_call :: "machine_body request_made" where
  "state_call = \<lparr>req_method = ''GET'', req_path = ''/machines/me'', req_body = NoBody\<rparr>"

lemma state_asks: "biz_state parse av n = (r, n') \<Longrightarrow> made n' = made n @ (if av then [state_call] else [])"
  by (auto simp: biz_state_def source_state_def api_do_def state_call_def
      split: if_splits sum.splits prod.splits option.splits)

lemma cutover_asks:
  "biz_cutover parse True url n = (r, n') \<Longrightarrow> url \<noteq> [] \<Longrightarrow> made n' = made n @
    [\<lparr>req_method = ''POST'', req_path = ''/machines/me/cutover'', req_body = UrlBody url\<rparr>]"
  by (auto simp: biz_cutover_def source_cutover_def api_do_def split: if_splits sum.splits prod.splits)

definition asking_call :: "string \<Rightarrow> measurement \<Rightarrow> machine_body request_made" where
  "asking_call url m = \<lparr>req_method = ''POST'', req_path = ''/machines/me/rotation-request'',
     req_body = RotationBody url (reclaimable m) (size_fresh m) (measured_at m)\<rparr>"

lemma request_asks:
  "biz_request_rotation parse True \<lparr>md_repository_url = url, md_reclaimable = reclaimable m, md_fresh = size_fresh m,
      md_measured_at = measured_at m\<rparr> n = (r, n') \<Longrightarrow>
    made n' = made n @ (if url = [] then [] else [asking_call url m])"
  by (auto simp: biz_request_rotation_def source_request_rotation_def api_do_def asking_call_def
      split: if_splits sum.splits prod.splits)

lemma poll_asks:
  "poll_state parse av page now db n = (said, db', n') \<Longrightarrow> made n' = made n @ (if av then [state_call] else [])"
  by (auto simp: poll_state_def dest!: state_asks split: if_splits sum.splits prod.splits)

lemma poll_keeps_plan: "poll_state parse av page now db n = (said, db', n') \<Longrightarrow> held_plan db' = held_plan db"
proof (cases av)
  case True
  assume "poll_state parse av page now db n = (said, db', n')"
  from this True show ?thesis by (rule poll_cases) simp_all
qed (simp add: poll_state_def)

lemma runs_kept:
  "rundb_last_finished db = (r, db') \<Longrightarrow> run_rows db' = run_rows db"
  "rundb_recent k db = (r', db'') \<Longrightarrow> run_rows db'' = run_rows db"
  by (auto simp: rundb_last_finished_def rundb_recent_def query_runs_def run_statement_def first_run_def Let_def
      split: prod.splits sum.splits list.splits if_splits)

lemma refresh_facts:
  "made (of_machine (refresh_state w d)) = made (of_machine d) @ (if df_available w then [state_call] else [])"
  "held_plan (of_plan (refresh_state w d)) = held_plan (of_plan d)"
  "of_runs (refresh_state w d) = of_runs d" "of_creds (refresh_state w d) = of_creds d"
  by (auto simp: refresh_state_def dest: poll_asks poll_keeps_plan split: prod.splits)

lemma measurement_same: "biz_measurement plandb url now db = (r, db') \<Longrightarrow> same_data db db'"
  by (auto simp: biz_measurement_def plandb_defs same_data_def Let_def split: if_splits sum.splits prod.splits option.splits)

lemma integrity_same: "biz_integrity plandb url db = (r, db') \<Longrightarrow> same_data db db'"
  by (auto simp: biz_integrity_def plandb_defs same_data_def Let_def split: if_splits sum.splits prod.splits option.splits)

lemma or_else_eq: "or_else a x = (b, s) \<Longrightarrow> \<exists>r. x = (r, s)"
  by (cases x) (auto simp: or_else_def split: sum.splits)

lemma rotation_facts_same: "rotation_facts w url db = (facts, db') \<Longrightarrow> same_data db db'"
  by (auto simp: rotation_facts_def Let_def split: prod.splits dest!: or_else_eq measurement_same integrity_same
      machine_state_same elim!: same_data_trans)

lemma rotation_page_facts:
  assumes "rotation_page w notice problem d = (a, d')"
  shows "same_data (of_plan d) (of_plan d')" "of_runs d' = of_runs d" "of_machine d' = of_machine d" "of_creds d' = of_creds d"
  using assms
  by (auto simp: rotation_page_def Let_def split: prod.splits sum.splits if_splits
      dest!: get_same rotation_facts_same elim!: same_data_trans)

lemma rotation_page_made [simp]:
  "of_machine (snd (rotation_page w notice problem d)) = of_machine d"
  "of_runs (snd (rotation_page w notice problem d)) = of_runs d"
  "of_creds (snd (rotation_page w notice problem d)) = of_creds d"
  "held_plan (of_plan (snd (rotation_page w notice problem d))) = held_plan (of_plan d)"
  using rotation_page_facts [of w notice problem d] same_data_held
  by (metis prod.collapse)+

lemma level_of_run: "level (verdict_of r now) = ''good'' \<longleftrightarrow>
    run_outcome r = OutcomeSuccess \<and> time_sub now (started_at r) \<le> stale_after"
  by (cases "run_outcome r") (auto simp: verdict_of_def Let_def stopped_sentence_def)

lemma level_of_verdict: "level (verdict_for p l running now) = ''good'' \<longleftrightarrow> running \<or> confirmed p \<and> \<not> paused p \<and>
    (\<exists>r. l = Some r \<and> run_outcome r = OutcomeSuccess \<and> time_sub now (started_at r) \<le> stale_after)"
  by (auto simp: verdict_for_def level_of_run split: option.splits)

text \<open>The front page says that all is well exactly when a backup is running, or when somebody has said what to
  back up, backups are not paused, and the run that ended last was a verified one that began no more than two days ago.
  Looking at the page asks the server nothing and changes nothing that is stored.\<close>

theorem front_page_says_good:
  "case status_page w b d of (a, d') \<Rightarrow>
     same_data (of_plan d) (of_plan d') \<and> run_rows (of_runs d') = run_rows (of_runs d) \<and>
     of_machine d' = of_machine d \<and> of_creds d' = of_creds d \<and>
     (case a of
        PageStatus v \<Rightarrow>
          (case vw_last v of Some r \<Rightarrow> fst (rundb_last_finished (of_runs d)) = Inr r
           | None \<Rightarrow> \<exists>e. fst (rundb_last_finished (of_runs d)) = Inl e \<and> err_is ErrNoRuns e) \<and>
          (\<exists>p. held_plan (of_plan d) = Some p \<and>
            (level (vw_verdict v) = ''good'' \<longleftrightarrow> df_running w \<or> confirmed p \<and> \<not> paused p \<and>
              (\<exists>r. vw_last v = Some r \<and> run_outcome r = OutcomeSuccess \<and>
                 time_sub (df_now w) (started_at r) \<le> stale_after)))
      | PageNotSetUp s \<Rightarrow> held_plan (of_plan d) = None
      | _ \<Rightarrow> True)"
proof -
  obtain r db where g: "plandb_get (of_plan d) = (r, db)" by fastforce
  obtain x runs1 where l: "rundb_last_finished (of_runs d) = (x, runs1)" by fastforce
  obtain y runs2 where c: "or_else [] (rundb_recent 20 runs1) = (y, runs2)" by fastforce
  then have k: "run_rows runs2 = run_rows (of_runs d)" using runs_kept l or_else_eq [OF c] by metis
  note h = get_same [OF g] plandb_get_held [OF g] runs_kept(1) [OF l]
  show ?thesis
  proof (cases r)
    case (Inl e)
    then show ?thesis using h g by (auto simp: status_page_def)
  next
    case (Inr p)
    obtain m i s ofr db2 where f: "rotation_facts w (repository p) db = ((m, i, s, ofr), db2)"
      by (metis prod.collapse)
    from same_data_trans [OF h(1) rotation_facts_same [OF f]] h k Inr g f l c show ?thesis
      by (auto simp: status_page_def Let_def level_of_verdict split: prod.splits sum.splits)
  qed
qed

lemma cutover_page_asks:
  assumes "d' = snd (cutover_page w f d)"
  shows "held_plan (of_plan d') = held_plan (of_plan d) \<and> of_runs d' = of_runs d \<and> of_creds d' = of_creds d \<and>
      (\<exists>polls \<in> {[], [state_call]}. made (of_machine d') = made (of_machine d) @
         (if df_available w \<and> f ''repository_url'' \<noteq> []
          then \<lparr>req_method = ''POST'', req_path = ''/machines/me/cutover'', req_body = UrlBody (f ''repository_url'')\<rparr> # polls
          else []))"
proof (cases "df_available w \<and> f ''repository_url'' \<noteq> []")
  case True
  obtain r n where c: "biz_cutover (df_parse w) True (f ''repository_url'') (of_machine d) = (r, n)" by fastforce
  from cutover_asks [OF c] True c show ?thesis
    by (auto simp: assms cutover_page_def refresh_facts Let_def split: sum.splits option.splits)
qed (auto simp: assms cutover_page_def)

lemma request_page_asks:
  assumes "d' = snd (request_rotation_page w d)"
  shows "held_plan (of_plan d') = held_plan (of_plan d) \<and> of_runs d' = of_runs d \<and> of_creds d' = of_creds d \<and>
      (\<exists>polls \<in> {[], [state_call]}. made (of_machine d') = made (of_machine d) \<or>
         df_available w \<and> (\<exists>p m db. same_data (of_plan d) db \<and> held_plan (of_plan d) = Some p \<and> repository p \<noteq> [] \<and>
           fst (biz_measurement plandb (repository p) (df_now w) db) = Inr m \<and>
           made (of_machine d') = made (of_machine d) @ asking_call (repository p) m # polls))"
proof (cases "df_available w")
  case True
  obtain r db where g: "plandb_get (of_plan d) = (r, db)" by fastforce
  note h = get_same [OF g] plandb_get_held [OF g]
  show ?thesis
  proof (cases r)
    case (Inl e)
    then show ?thesis using g h True by (auto simp: assms request_rotation_page_def)
  next
    case (Inr p)
    obtain x db1 where m: "biz_measurement plandb (repository p) (df_now w) db = (x, db1)" by fastforce
    note k = same_data_held [OF measurement_same [OF m]]
    show ?thesis
    proof (cases x)
      case (Inl e)
      then show ?thesis using g h m k True \<open>r = Inr p\<close> by (auto simp: assms request_rotation_page_def)
    next
      case m': (Inr m)
      obtain y n where q: "biz_request_rotation (df_parse w) True \<lparr>md_repository_url = repository p,
          md_reclaimable = reclaimable m, md_fresh = size_fresh m, md_measured_at = measured_at m\<rparr> (of_machine d) = (y, n)"
        by fastforce
      have none: "repository p = [] \<Longrightarrow> y = Inl (Sentinel ''machinebus: a rotation request must name the repository to replace'')"
        using q by (simp add: biz_request_rotation_def)
      note all = g h m k m' q True \<open>r = Inr p\<close> request_asks [OF q]
      have keeps: "held_plan (of_plan d') = held_plan (of_plan d) \<and> of_runs d' = of_runs d \<and> of_creds d' = of_creds d"
        using all by (auto simp: assms request_rotation_page_def refresh_facts Let_def split: sum.splits)
      have "\<exists>polls \<in> {[], [state_call]}. made (of_machine d') =
          made (of_machine d) @ (if repository p = [] then [] else asking_call (repository p) m # polls)"
        using all none by (cases y) (auto simp: assms request_rotation_page_def refresh_facts Let_def
            ErrAlreadyAsked_def ErrNoRepository_def)
      then obtain polls where polls: "polls \<in> {[], [state_call]}" "made (of_machine d') =
          made (of_machine d) @ (if repository p = [] then [] else asking_call (repository p) m # polls)" ..
      show ?thesis
      proof (cases "repository p = []")
        case False
        have "fst (biz_measurement plandb (repository p) (df_now w) db) = Inr m" using m m' by simp
        with all(2,4) False polls keeps True \<open>r = Inr p\<close> show ?thesis
          by (intro conjI bexI [of _ polls] disjI2 exI [of _ p] exI [of _ m] exI [of _ db]) auto
      qed (use polls keeps in auto)
    qed
  qed
qed (auto simp: assms request_rotation_page_def)

text \<open>Looking at the page of a fresh start asks the server nothing. Its buttons do: the request names the bucket of
  the plan and what was measured of it, the acceptance the bucket of the form; each is sent at most once, only by an
  enrolled machine, and at most one reading of the state follows it. The plan and the history stay as they are.\<close>

theorem fresh_start_is_asked_by_hand:
  "of_machine (snd (rotation_page w notice problem d)) = of_machine d \<and>
   (case snd (cutover_page w f d) of d' \<Rightarrow>
      held_plan (of_plan d') = held_plan (of_plan d) \<and> of_runs d' = of_runs d \<and> of_creds d' = of_creds d \<and>
      (\<exists>polls \<in> {[], [state_call]}. made (of_machine d') = made (of_machine d) @
         (if df_available w \<and> f ''repository_url'' \<noteq> []
          then \<lparr>req_method = ''POST'', req_path = ''/machines/me/cutover'', req_body = UrlBody (f ''repository_url'')\<rparr> # polls
          else []))) \<and>
   (case snd (request_rotation_page w d) of d' \<Rightarrow>
      held_plan (of_plan d') = held_plan (of_plan d) \<and> of_runs d' = of_runs d \<and> of_creds d' = of_creds d \<and>
      (\<exists>polls \<in> {[], [state_call]}. made (of_machine d') = made (of_machine d) \<or>
         df_available w \<and> (\<exists>p m db. same_data (of_plan d) db \<and> held_plan (of_plan d) = Some p \<and> repository p \<noteq> [] \<and>
           fst (biz_measurement plandb (repository p) (df_now w) db) = Inr m \<and>
           made (of_machine d') = made (of_machine d) @ asking_call (repository p) m # polls)))"
  using cutover_page_asks [of _ w f d] request_page_asks [of _ w d] by simp

end
