(* ===== verification/SpeedProbe.thy ===== *)
theory SpeedProbe
  imports Api GoTime GoFloat "HOL-Library.List_Lexorder" "HOL-Library.Char_ord"
begin

text \<open>
  How fast a machine can upload to its bucket: \<open>foundation/s3probe\<close>. The target is read out of the repository's URL
  (\<open>target.go\<close>), the requests are signed with SigV4 (\<open>sigv4.go\<close>), and a multipart upload that is never completed is
  timed (\<open>s3probe.go\<close>). SHA-256 and HMAC, the reading of a URL and of the XML answer are arguments: \<open>url_of\<close> gives the
  scheme, the host with the port, the host without, and the path. What the network answers is a list of exchanges,
  each with its clock.
\<close>

section \<open>The target\<close>

definition DefaultRegion :: string where
  "DefaultRegion = ''us-east-1''"

definition looks_like_region :: "string \<Rightarrow> bool" where
  "looks_like_region s \<longleftrightarrow> CHR ''-'' \<in> set s \<and> digit_val (last s) \<noteq> None"

fun region_after :: "string list \<Rightarrow> string" where
  "region_after (l # candidate # labels) =
     (if l = ''s3'' then (if looks_like_region candidate then candidate else DefaultRegion)
      else region_after (candidate # labels))"
| "region_after _ = DefaultRegion"

definition region_of :: "string \<Rightarrow> string" where
  "region_of host =
     (let labels = split_on (CHR ''.'') (to_lower host) in
      if length labels < 3 then DefaultRegion else region_after labels)"

record target =
  tg_endpoint :: string
  tg_region :: string
  tg_bucket :: string
  tg_key :: string

definition ProbeKey :: string where
  "ProbeKey = ''sion-backup-upload-speed-probe''"

definition trim_path :: "string \<Rightarrow> string" where
  "trim_path s = trim_left_set {CHR ''/''} (trim_right_set {CHR ''/''} s)"

definition target_for ::
  "(string \<Rightarrow> (string \<times> string \<times> string \<times> string) option) \<Rightarrow> string \<Rightarrow> target res" where
  "target_for url_of url =
     (let whole = trim_space url in
      if \<not> prefix ''s3:'' whole then Inl (Sentinel (''s3probe: '' @ quote url @ '' is not an s3 repository URL''))
      else let rest = (if contains_str ''://'' (drop 3 whole) then drop 3 whole else ''https://'' @ drop 3 whole) in
        case url_of rest of
          None \<Rightarrow> Inl (Wrap ''s3probe: reading the repository URL: '' (Sentinel ''url'') [])
        | Some (scheme, host, name, path) \<Rightarrow>
            (case split_on (CHR ''/'') (trim_path path) of
               bucket # parts \<Rightarrow>
                 if bucket = [] then Inl (Sentinel (''s3probe: '' @ quote url @ '' names no bucket''))
                 else let pre = join_with ''/'' parts in
                   Inr \<lparr>tg_endpoint = scheme @ ''://'' @ host, tg_region = region_of name, tg_bucket = bucket,
                     tg_key = (if pre = [] then ProbeKey else pre @ ''/'' @ ProbeKey)\<rparr>
             | [] \<Rightarrow> Inl (Sentinel ''s3probe'')))"

definition validate_target :: "target \<Rightarrow> err option" where
  "validate_target t =
     (if tg_endpoint t = [] then Some (Sentinel ''s3probe: no endpoint'')
      else if tg_bucket t = [] then Some (Sentinel ''s3probe: no bucket'')
      else if tg_key t = [] then Some (Sentinel ''s3probe: no key'')
      else if tg_region t = [] then Some (Sentinel ''s3probe: no region'')
      else None)"

section \<open>The request as both ends render it\<close>

definition unreserved :: "char \<Rightarrow> bool" where
  "unreserved c \<longleftrightarrow> (let n = (of_char c :: nat) in
     65 \<le> n \<and> n \<le> 90 \<or> 97 \<le> n \<and> n \<le> 122 \<or> 48 \<le> n \<and> n \<le> 57 \<or> c \<in> {CHR ''-'', CHR ''_'', CHR ''.'', CHR ''~''})"

definition upper_hex :: "nat \<Rightarrow> char" where
  "upper_hex d = (if d < 10 then digit_char d else char_of (55 + d))"

fun encode_segment :: "string \<Rightarrow> string" where
  "encode_segment [] = []"
| "encode_segment (c # cs) =
     (if unreserved c then [c]
      else let n = (of_char c :: nat) in [CHR ''%'', upper_hex (n div 16), upper_hex (n mod 16)]) @ encode_segment cs"

definition encode_path :: "string \<Rightarrow> string" where
  "encode_path path =
     (if path = [] then ''/'' else join_with ''/'' (map encode_segment (split_on (CHR ''/'') path)))"

text \<open>The values are those of a map: no key comes twice.\<close>

type_synonym query = "(string \<times> string list) list"

definition encode_query :: "query \<Rightarrow> string" where
  "encode_query q =
     join_with ''&'' (concat (map (\<lambda>(k, vs). map (\<lambda>v. encode_segment k @ ''='' @ encode_segment v) vs) (sort_key fst q)))"

definition line_break :: string where
  "line_break = [CHR 0x0A]"

definition canonical_request :: "string \<Rightarrow> string \<Rightarrow> string \<Rightarrow> string \<Rightarrow> string \<Rightarrow> string \<Rightarrow> string" where
  "canonical_request verb path query headers signed_headers payload =
     join_with line_break [verb, if path = [] then ''/'' else path, query, headers, signed_headers, payload]"

definition algorithm :: string where
  "algorithm = ''AWS4-HMAC-SHA256''"

definition service :: string where
  "service = ''s3''"

definition emptyPayload :: string where
  "emptyPayload = ''e3b0c44298fc1c149afbf4c8996fb92427ae41e4649b934ca495991b7852b855''"

definition unsignedPayload :: string where
  "unsignedPayload = ''UNSIGNED-PAYLOAD''"

definition string_to_sign :: "(string \<Rightarrow> string) \<Rightarrow> string \<Rightarrow> string \<Rightarrow> string \<Rightarrow> string" where
  "string_to_sign sha stamp scope canonical =
     join_with line_break [algorithm, stamp, scope, hex_text (sha canonical)]"

definition signing_key :: "(string \<Rightarrow> string \<Rightarrow> string) \<Rightarrow> string \<Rightarrow> string \<Rightarrow> string \<Rightarrow> string \<Rightarrow> string" where
  "signing_key hmac secret day region srv =
     (let k1 = hmac (''AWS4'' @ secret) day; k2 = hmac k1 region; k3 = hmac k2 srv in hmac k3 ''aws4_request'')"

text \<open>\<open>Format("20060102")\<close> and \<open>Format("20060102T150405Z")\<close> in UTC.\<close>

definition day_stamp :: "instant \<Rightarrow> string" where
  "day_stamp t =
     (case civil_of_day (t div second div 86400) of (y, m, d) \<Rightarrow>
        pad_zero 4 (nat y) @ pad_zero 2 (nat m) @ pad_zero 2 (nat d))"

definition time_stamp :: "instant \<Rightarrow> string" where
  "time_stamp t =
     (let q = t div second mod 86400 in
      day_stamp t @ ''T'' @ pad_zero 2 (nat (q div 3600)) @ pad_zero 2 (nat (q div 60 mod 60)) @
      pad_zero 2 (nat (q mod 60)) @ ''Z'')"

definition signed_headers :: string where
  "signed_headers = ''host;x-amz-content-sha256;x-amz-date''"

definition scope_of :: "string \<Rightarrow> instant \<Rightarrow> string" where
  "scope_of region now = day_stamp now @ ''/'' @ region @ ''/'' @ service @ ''/aws4_request''"

definition canonical_of :: "string \<Rightarrow> instant \<Rightarrow> string \<Rightarrow> string \<Rightarrow> string \<Rightarrow> string \<Rightarrow> string" where
  "canonical_of payload now verb host path query =
     canonical_request verb (encode_path path) query
       (''host:'' @ host @ line_break @ ''x-amz-content-sha256:'' @ payload @ line_break @
        ''x-amz-date:'' @ time_stamp now @ line_break)
       signed_headers payload"

definition text_signed ::
  "(string \<Rightarrow> string) \<Rightarrow> string \<Rightarrow> string \<Rightarrow> instant \<Rightarrow> string \<Rightarrow> string \<Rightarrow> string \<Rightarrow> string \<Rightarrow> string" where
  "text_signed sha region payload now verb host path query =
     string_to_sign sha (time_stamp now) (scope_of region now) (canonical_of payload now verb host path query)"

record probe_creds =
  pc_key_id :: string
  pc_secret :: string

definition sign ::
  "(string \<Rightarrow> string) \<Rightarrow> (string \<Rightarrow> string \<Rightarrow> string) \<Rightarrow> probe_creds \<Rightarrow> string \<Rightarrow> string \<Rightarrow> instant \<Rightarrow> string \<Rightarrow> string \<Rightarrow>
    string \<Rightarrow> string \<Rightarrow> string res" where
  "sign sha hmac c region payload now verb host path query =
     (if pc_key_id c = [] \<or> pc_secret c = [] then Inl (Sentinel ''s3probe: the S3 credentials are incomplete'')
      else Inr (algorithm @ '' Credential='' @ pc_key_id c @ ''/'' @ scope_of region now @
        '', SignedHeaders='' @ signed_headers @ '', Signature='' @
        hex_text (hmac (signing_key hmac (pc_secret c) (day_stamp now) region service)
          (text_signed sha region payload now verb host path query))))"

section \<open>A measurement\<close>

definition duration_seconds :: "duration \<Rightarrow> rat" where
  "duration_seconds d =
     float_add (float_of_int (trunc_div d second)) (float_div (float_of_int (trunc_mod d second)) (of_int second))"

record probe_result =
  pr_rate :: rat
  pr_sent :: int
  pr_took :: duration
  pr_at :: instant

definition result_seconds :: "probe_result \<Rightarrow> int \<Rightarrow> duration" where
  "result_seconds r n =
     (if pr_rate r \<le> 0 \<or> n \<le> 0 then 0
      else int_of_float (float_mul (float_div (float_of_int n) (pr_rate r)) (float_of_int second)))"

record probe_options =
  op_warm_up :: int
  op_target :: duration
  op_min_part :: int
  op_max_part :: int

definition with_defaults :: "probe_options \<Rightarrow> probe_options" where
  "with_defaults o1 =
     \<lparr>op_warm_up = (if op_warm_up o1 \<le> 0 then 2 * 2 ^ 20 else op_warm_up o1),
      op_target = (if op_target o1 \<le> 0 then 8 * second else op_target o1),
      op_min_part = (if op_min_part o1 \<le> 0 then 8 * 2 ^ 20 else op_min_part o1),
      op_max_part = (if op_max_part o1 \<le> 0 then 64 * 2 ^ 20 else op_max_part o1)\<rparr>"

definition clamp :: "int \<Rightarrow> int \<Rightarrow> int \<Rightarrow> int" where
  "clamp v lo hi = (if v < lo then lo else if hi < v then hi else v)"

text \<open>One exchange: the clock when the request is signed, how long it took, the clock afterwards, and the answer.\<close>

record exchange =
  ex_signed_at :: instant
  ex_took :: duration
  ex_done_at :: instant
  ex_reply :: reply

record probe_request =
  pq_verb :: string
  pq_url :: string
  pq_length :: int
  pq_stamp :: string
  pq_payload :: string
  pq_authorization :: string

record speed_net =
  sn_coming :: "exchange list"
  sn_sent :: "probe_request list"

record speed_env =
  se_sha :: "string \<Rightarrow> string"
  se_hmac :: "string \<Rightarrow> string \<Rightarrow> string"
  se_url_of :: "string \<Rightarrow> (string \<times> string \<times> string \<times> string) option"
  se_upload_id :: "string \<Rightarrow> string option"

definition probe_url :: "target \<Rightarrow> query \<Rightarrow> string" where
  "probe_url t q =
     trim_suffix ''/'' (tg_endpoint t) @ ''/'' @ tg_bucket t @ ''/'' @ tg_key t @ ''?'' @ encode_query q"

definition next_exchange :: "speed_net \<Rightarrow> exchange" where
  "next_exchange n =
     (case sn_coming n of
        [] \<Rightarrow> \<lparr>ex_signed_at = 0, ex_took = 0, ex_done_at = 0, ex_reply = NoReply (Sentinel ''EOF'')\<rparr>
      | x # _ \<Rightarrow> x)"

text \<open>The host and the path of a request, when it can be built.\<close>

definition build_request :: "speed_env \<Rightarrow> target \<Rightarrow> query \<Rightarrow> (string \<times> string) res" where
  "build_request w t q =
     (case se_url_of w (probe_url t q) of
        None \<Rightarrow> Inl (Wrap ''s3probe: building the request: '' (Sentinel ''url'') [])
      | Some (scheme, host, name, path) \<Rightarrow> Inr (host, path))"

text \<open>Signing and sending a request, and reading its answer to the end, of which a mebibyte is kept.\<close>

definition probe_do ::
  "speed_env \<Rightarrow> target \<Rightarrow> probe_creds \<Rightarrow> string \<Rightarrow> query \<Rightarrow> string \<times> string \<Rightarrow> int \<Rightarrow> string \<Rightarrow> speed_net \<Rightarrow>
    string res \<times> speed_net" where
  "probe_do w t c verb q to len payload n =
     (let x = next_exchange n in
      case sign (se_sha w) (se_hmac w) c (tg_region t) payload (ex_signed_at x) verb (fst to) (snd to) (encode_query q) of
        Inl e \<Rightarrow> (Inl e, n)
      | Inr auth \<Rightarrow>
          ((case ex_reply x of
              NoReply e \<Rightarrow> Inl e
            | Reply st line body \<Rightarrow>
                let got = take (2 ^ 20) body in
                if st < 200 \<or> 300 \<le> st
                then Inl (Sentinel (''the endpoint answered '' @ line @ '': '' @ trim_space got))
                else Inr got),
           n\<lparr>sn_coming := tl (sn_coming n), sn_sent := sn_sent n @
             [\<lparr>pq_verb = verb, pq_url = probe_url t q, pq_length = len, pq_stamp = time_stamp (ex_signed_at x),
               pq_payload = payload, pq_authorization = auth\<rparr>]\<rparr>))"

definition begin_query :: query where
  "begin_query = [(''uploads'', [[]])]"

definition part_query :: "string \<Rightarrow> int \<Rightarrow> query" where
  "part_query upload number = [(''partNumber'', [itoa number]), (''uploadId'', [upload])]"

definition abort_query :: "string \<Rightarrow> query" where
  "abort_query upload = [(''uploadId'', [upload])]"

definition probe_begin :: "speed_env \<Rightarrow> target \<Rightarrow> probe_creds \<Rightarrow> speed_net \<Rightarrow> string res \<times> speed_net" where
  "probe_begin w t c n =
     (case build_request w t begin_query of
        Inl e \<Rightarrow> (Inl e, n)
      | Inr to \<Rightarrow>
          (case probe_do w t c ''POST'' begin_query to 0 emptyPayload n of
             (Inl e, n1) \<Rightarrow> (Inl (Wrap ''s3probe: starting the upload: '' e []), n1)
           | (Inr body, n1) \<Rightarrow>
               ((case se_upload_id w body of
                   None \<Rightarrow> Inl (Wrap ''s3probe: reading the upload ID: '' (Sentinel ''xml'') [])
                 | Some i \<Rightarrow>
                     if i = [] then Inl (Sentinel ''s3probe: the endpoint began an upload but named no ID'') else Inr i),
                n1)))"

definition probe_part ::
  "speed_env \<Rightarrow> target \<Rightarrow> probe_creds \<Rightarrow> string \<Rightarrow> int \<Rightarrow> int \<Rightarrow> speed_net \<Rightarrow> probe_result res \<times> speed_net" where
  "probe_part w t c upload number len n =
     (let x = next_exchange n; took = (if ex_took x \<le> 0 then 1000000 else ex_took x) in
      case build_request w t (part_query upload number) of
        Inl e \<Rightarrow> (Inl e, n)
      | Inr to \<Rightarrow>
          (case probe_do w t c ''PUT'' (part_query upload number) to len unsignedPayload n of
             (Inl e, n1) \<Rightarrow> (Inl (Wrap ''s3probe: uploading the test data: '' e []), n1)
           | (Inr _, n1) \<Rightarrow>
               (Inr \<lparr>pr_rate = float_div (float_of_int len) (duration_seconds took), pr_sent = len, pr_took = took,
                  pr_at = ex_done_at x\<rparr>, n1)))"

text \<open>Whatever comes of it is not looked at.\<close>

definition probe_abort :: "speed_env \<Rightarrow> target \<Rightarrow> probe_creds \<Rightarrow> string \<Rightarrow> speed_net \<Rightarrow> speed_net" where
  "probe_abort w t c upload n =
     (case build_request w t (abort_query upload) of
        Inl e \<Rightarrow> n
      | Inr to \<Rightarrow> snd (probe_do w t c ''DELETE'' (abort_query upload) to 0 emptyPayload n))"

definition measure_speed ::
  "speed_env \<Rightarrow> target \<Rightarrow> probe_creds \<Rightarrow> probe_options \<Rightarrow> speed_net \<Rightarrow> probe_result res \<times> speed_net" where
  "measure_speed w t c o1 n =
     (let opts = with_defaults o1 in
      case validate_target t of
        Some e \<Rightarrow> (Inl e, n)
      | None \<Rightarrow>
          (case probe_begin w t c n of
             (Inl e, n1) \<Rightarrow> (Inl e, n1)
           | (Inr upload, n1) \<Rightarrow>
               (case probe_part w t c upload 1 (op_warm_up opts) n1 of
                  (Inl e, n2) \<Rightarrow> (Inl e, probe_abort w t c upload n2)
                | (Inr warm, n2) \<Rightarrow>
                    let size = clamp (int_of_float (float_mul (pr_rate warm) (duration_seconds (op_target opts))))
                          (op_min_part opts) (op_max_part opts)
                    in (case probe_part w t c upload 2 size n2 of
                        (Inl e, n3) \<Rightarrow> (Inr warm, probe_abort w t c upload n3)
                      | (Inr timed, n3) \<Rightarrow> (Inr timed, probe_abort w t c upload n3)))))"

section \<open>What a signature covers\<close>

definition upper_val :: "char \<Rightarrow> nat" where
  "upper_val c = (case digit_val c of Some d \<Rightarrow> d | None \<Rightarrow> of_char c - 55)"

fun decode_segment :: "string \<Rightarrow> string" where
  "decode_segment (c # a # b # cs) =
     (if c = CHR ''%'' then char_of (upper_val a * 16 + upper_val b) # decode_segment cs
      else c # decode_segment (a # b # cs))"
| "decode_segment (c # cs) = c # decode_segment cs"
| "decode_segment [] = []"

lemma upper_hex_code: "10 \<le> d \<Longrightarrow> d < 16 \<Longrightarrow> (of_char (upper_hex d) :: nat) = 55 + d"
  by (simp add: upper_hex_def)

lemma upper_val_hex: "d < 16 \<Longrightarrow> upper_val (upper_hex d) = d"
proof (cases "d < 10")
  case True
  then show ?thesis by (simp add: upper_hex_def upper_val_def)
next
  case False
  assume "d < 16"
  with False show ?thesis using upper_hex_code [of d] by (simp add: upper_val_def digit_val_def Let_def)
qed

lemma upper_hex_plain: "d < 16 \<Longrightarrow> unreserved (upper_hex d)"
proof (cases "d < 10")
  case True
  then show ?thesis by (auto simp: upper_hex_def unreserved_def digit_char_def)
next
  case False
  assume "d < 16"
  with False show ?thesis using upper_hex_code [of d] by (simp add: unreserved_def)
qed

lemma nibbles: "(of_char c :: nat) div 16 < 16" "(of_char c :: nat) mod 16 < 16"
  using nat_of_char_less_256 [of c] by linarith+

lemma percent_reserved: "\<not> unreserved (CHR ''%'')"
  by (simp add: unreserved_def)

lemma decode_plain: "c \<noteq> CHR ''%'' \<Longrightarrow> decode_segment (c # cs) = c # decode_segment cs"
  by (cases cs rule: decode_segment.cases; cases cs) auto

lemma decode_segment_encode: "decode_segment (encode_segment s) = s"
proof (induction s)
  case (Cons c cs)
  show ?case
  proof (cases "unreserved c")
    case True
    then have "c \<noteq> CHR ''%''" using percent_reserved by metis
    with True Cons show ?thesis by (simp add: decode_plain)
  next
    case False
    then show ?thesis using Cons nibbles [of c] by (simp add: Let_def upper_val_hex)
  qed
qed simp

lemma encode_inj [simp]: "encode_segment s = encode_segment t \<longleftrightarrow> s = t"
  using decode_segment_encode by metis

definition plain_char :: "char \<Rightarrow> bool" where
  "plain_char c \<longleftrightarrow> unreserved c \<or> c = CHR ''%''"

lemma encode_plain: "c \<in> set (encode_segment s) \<Longrightarrow> plain_char c"
proof (induction s)
  case (Cons x xs)
  then show ?case using upper_hex_plain nibbles [of x] by (auto simp: Let_def plain_char_def split: if_splits)
qed simp

lemma not_plain: "\<not> plain_char (CHR ''/'')" "\<not> plain_char (CHR ''&'')" "\<not> plain_char (CHR ''='')"
  "\<not> plain_char (CHR 0x0A)"
  by (simp_all add: plain_char_def unreserved_def)

lemma join_map_notin:
  "(\<And>x. x \<in> set xs \<Longrightarrow> c \<notin> set x) \<Longrightarrow> c \<notin> set sep \<Longrightarrow> c \<notin> set (join_with sep xs)"
  by (induction xs rule: induct_list012) auto

lemma join_split: "join_with [c] (split_on c s) = s"
proof (induction s)
  case (Cons x xs)
  obtain y ys where ys: "split_on c xs = y # ys" by (cases "split_on c xs") auto
  with Cons show ?case by (cases ys) auto
qed simp

lemma split_encoded: "p \<noteq> [] \<Longrightarrow> split_on (CHR ''/'') (encode_path p) = map encode_segment (split_on (CHR ''/'') p)"
  using not_plain(1) encode_plain
  by (subst encode_path_def) (simp, rule split_on_join; force)

lemma encode_inj_map: "map encode_segment xs = map encode_segment ys \<Longrightarrow> xs = ys"
  by (metis encode_inj injI inj_map_eq_map)

lemma encode_path_inj:
  assumes "encode_path p = encode_path q"
  shows "p = q \<or> {p, q} \<subseteq> {[], ''/''}"
proof -
  have root: "encode_path [] = encode_path ''/''" by (simp add: encode_path_def)
  define a where "a = (if p = [] then ''/'' else p)"
  define b where "b = (if q = [] then ''/'' else q)"
  have ne: "a \<noteq> []" "b \<noteq> []" by (simp_all add: a_def b_def)
  have "encode_path a = encode_path b" using assms root by (auto simp: a_def b_def)
  then have "split_on (CHR ''/'') a = split_on (CHR ''/'') b"
    using split_encoded [OF ne(1)] split_encoded [OF ne(2)] encode_inj_map by metis
  then have "a = b" by (metis join_split)
  then show ?thesis by (auto simp: a_def b_def split: if_splits)
qed

lemma encode_path_nonempty: "encode_path p \<noteq> []"
proof (cases "p = []")
  case False
  show ?thesis
  proof
    assume "encode_path p = []"
    then have "map encode_segment (split_on (CHR ''/'') p) = map encode_segment [[]]"
      using split_encoded [OF False] by (metis encode_segment.simps(1) list.simps(8,9) split_on.simps(1))
    then have "split_on (CHR ''/'') p = [[]]" by (rule encode_inj_map)
    then show False using join_split [of "CHR ''/''" p] False by simp
  qed
qed (simp add: encode_path_def)

lemma hex_digit_code: "d < 16 \<Longrightarrow> (of_char (hex_digit d) :: nat) = (if d < 10 then 48 + d else 87 + d)"
  by (simp add: hex_digit_def digit_char_def)

lemma hex_digit_inj:
  assumes "d < 16" "e < 16"
  shows "hex_digit d = hex_digit e \<longleftrightarrow> d = e"
proof
  assume "hex_digit d = hex_digit e"
  then have "(if d < 10 then 48 + d else 87 + d) = (if e < 10 then 48 + e else 87 + e)"
    using hex_digit_code [OF assms(1)] hex_digit_code [OF assms(2)] by metis
  then show "d = e" by (simp split: if_splits)
qed simp

lemma hex_text_Cons:
  "hex_text (c # s) = hex_digit (of_char c div 16) # hex_digit (of_char c mod 16) # hex_text s"
  by (simp add: Let_def)

lemma hex_text_inj: "hex_text s = hex_text t \<Longrightarrow> s = t"
proof (induction s arbitrary: t)
  case Nil
  then show ?case by (cases t) (simp_all add: Let_def)
next
  case (Cons c s)
  obtain e u where t: "t = e # u" using Cons.prems by (cases t) (simp_all add: Let_def)
  have parts: "hex_digit (of_char c div 16) = hex_digit (of_char e div 16)"
      "hex_digit (of_char c mod 16) = hex_digit (of_char e mod 16)" "hex_text s = hex_text u"
    using Cons.prems unfolding t hex_text_Cons by blast+
  have "(of_char c :: nat) div 16 = of_char e div 16" "(of_char c :: nat) mod 16 = of_char e mod 16"
    using parts(1,2) hex_digit_inj [OF nibbles(1) [of c] nibbles(1) [of e]]
      hex_digit_inj [OF nibbles(2) [of c] nibbles(2) [of e]] by blast+
  then have "(of_char c :: nat) = of_char e" by (metis div_mult_mod_eq)
  then have "c = e" by simp
  with Cons.IH [OF parts(3)] show ?case by (simp add: t)
qed

definition single_line :: "string \<Rightarrow> bool" where
  "single_line s \<longleftrightarrow> CHR 0x0A \<notin> set s"

lemma single_line_simps [simp]:
  "single_line []" "single_line (c # s) \<longleftrightarrow> c \<noteq> CHR 0x0A \<and> single_line s" "single_line (s @ t) \<longleftrightarrow> single_line s \<and> single_line t"
  by (auto simp: single_line_def)

lemma encoded_line: "single_line (encode_segment s)"
  using encode_plain not_plain(4) by (auto simp: single_line_def)

lemma join_line: "(\<And>x. x \<in> set xs \<Longrightarrow> single_line x) \<Longrightarrow> single_line sep \<Longrightarrow> single_line (join_with sep xs)"
  unfolding single_line_def by (rule join_map_notin)

lemma rendered_lines: "single_line (encode_path p)" "single_line (encode_query q)"
  by (auto simp: encode_path_def encode_query_def encoded_line intro!: join_line)

lemma number_line: "single_line (pad_zero k n)"
proof -
  have "digit_char d \<noteq> CHR 0x0A" if "d < 10" for d
  proof
    assume "digit_char d = CHR 0x0A"
    then have "(of_char (digit_char d) :: nat) = of_char (CHR 0x0A)" by simp
    with that show False by (simp add: digit_char_def)
  qed
  then show ?thesis using nat_text_digits [of _ n] by (fastforce simp: single_line_def pad_zero_def Let_def)
qed

lemma stamp_lines: "single_line (day_stamp t)" "single_line (time_stamp t)" "single_line (hex_text b)"
proof -
  show day: "single_line (day_stamp t)" by (auto simp: day_stamp_def number_line split: prod.split)
  then show "single_line (time_stamp t)" by (simp add: time_stamp_def number_line Let_def)
  have "hex_digit d \<noteq> CHR 0x0A" if "d < 16" for d
  proof
    assume "hex_digit d = CHR 0x0A"
    then have "(of_char (hex_digit d) :: nat) = of_char (CHR 0x0A)" by simp
    with that show False by (simp add: hex_digit_def digit_char_def split: if_splits)
  qed
  then have "single_line [hex_digit (of_char c div 16), hex_digit (of_char c mod 16)]" for c using nibbles [of c] by simp
  then show "single_line (hex_text b)" by (induction b) (simp_all add: Let_def)
qed

lemma canonical_lines: "canonical_of payload now verb host path query = join_with line_break
    [verb, encode_path path, query, ''host:'' @ host, ''x-amz-content-sha256:'' @ payload, ''x-amz-date:'' @ time_stamp now, [],
     signed_headers, payload]"
  using encode_path_nonempty [of path] by (simp add: canonical_of_def canonical_request_def line_break_def)

lemma split_lines: "xs \<noteq> [] \<Longrightarrow> list_all single_line xs \<Longrightarrow> split_on (CHR 0x0A) (join_with line_break xs) = xs"
  unfolding line_break_def by (rule split_on_join) (auto simp: list_all_iff single_line_def)

lemma lines_inj:
  assumes "join_with line_break xs = join_with line_break ys" "xs \<noteq> []" "ys \<noteq> []" "list_all single_line xs" "list_all single_line ys"
  shows "xs = ys"
proof -
  have "split_on (CHR 0x0A) (join_with line_break xs) = split_on (CHR 0x0A) (join_with line_break ys)" by (simp only: assms(1))
  then show ?thesis by (simp only: split_lines [OF assms(2,4)] split_lines [OF assms(3,5)])
qed

text \<open>A signature is of one request. When two requests sign the same text, and the hash does not take two requests to
  one value, they have the same method, path, query, host, payload and time, and were signed for the same day and
  region: no byte of one can be read as a part of another, whatever its path and its values hold.\<close>

theorem signature_covers_the_request:
  assumes "text_signed sha region payload now verb host path (encode_query q) =
      text_signed sha region' payload' now' verb' host' path' (encode_query q')"
    and "sha (canonical_of payload now verb host path (encode_query q)) =
      sha (canonical_of payload' now' verb' host' path' (encode_query q')) \<Longrightarrow>
      canonical_of payload now verb host path (encode_query q) = canonical_of payload' now' verb' host' path' (encode_query q')"
    and "list_all single_line [verb, host, payload, region, verb', host', payload', region']"
  shows "verb = verb' \<and> (path = path' \<or> {path, path'} \<subseteq> {[], ''/''}) \<and> encode_query q = encode_query q' \<and> host = host' \<and>
    payload = payload' \<and> time_stamp now = time_stamp now' \<and> scope_of region now = scope_of region' now'"
proof -
  have fixed: "single_line signed_headers" "single_line algorithm" "single_line service"
    by (simp_all add: signed_headers_def algorithm_def service_def)
  have scope: "single_line (scope_of r t)" if "single_line r" for r t
    using that fixed by (simp add: scope_of_def stamp_lines)
  have "[algorithm, time_stamp now, scope_of region now, hex_text (sha (canonical_of payload now verb host path (encode_query q)))] =
      [algorithm, time_stamp now', scope_of region' now',
       hex_text (sha (canonical_of payload' now' verb' host' path' (encode_query q')))]"
    by (rule lines_inj [OF assms(1) [unfolded text_signed_def string_to_sign_def]])
      (use assms(3) fixed scope stamp_lines in simp_all)
  then have first: "time_stamp now = time_stamp now'" "scope_of region now = scope_of region' now'"
      "hex_text (sha (canonical_of payload now verb host path (encode_query q))) =
       hex_text (sha (canonical_of payload' now' verb' host' path' (encode_query q')))"
    by (simp_all only: list.inject)
  note same = assms(2) [OF hex_text_inj [OF first(3)]]
  have "[verb, encode_path path, encode_query q, ''host:'' @ host, ''x-amz-content-sha256:'' @ payload,
        ''x-amz-date:'' @ time_stamp now, [], signed_headers, payload] =
      [verb', encode_path path', encode_query q', ''host:'' @ host', ''x-amz-content-sha256:'' @ payload',
        ''x-amz-date:'' @ time_stamp now', [], signed_headers, payload']"
    by (rule lines_inj [OF same [unfolded canonical_lines]])
      (use assms(3) fixed rendered_lines stamp_lines in simp_all)
  then have "verb = verb'" "encode_path path = encode_path path'" "encode_query q = encode_query q'" "host = host'" "payload = payload'"
    by (simp_all only: list.inject append_same_eq same_append_eq)
  then show ?thesis using first(1,2) encode_path_inj [of path path'] by metis
qed

theorem signature_covers_the_request_witness:
  "text_signed (\<lambda>x. x) ''r'' ''p'' 0 ''PUT'' ''h'' [] (encode_query []) = text_signed (\<lambda>x. x) ''r'' ''p'' 0 ''PUT'' ''h'' ''/'' (encode_query []) \<and>
    scope_of ''r'' 0 = scope_of ''r'' 0 \<and> {[], ''/''} \<subseteq> {[], ''/''}"
proof -
  have same: "text_signed (\<lambda>x. x) ''r'' ''p'' 0 ''PUT'' ''h'' [] (encode_query []) =
      text_signed (\<lambda>x. x) ''r'' ''p'' 0 ''PUT'' ''h'' ''/'' (encode_query [])"
    by (simp add: text_signed_def canonical_of_def encode_path_def)
  show ?thesis using signature_covers_the_request [OF same] same by simp
qed

section \<open>What a measurement leaves\<close>

definition asks :: "target \<Rightarrow> string \<Rightarrow> query \<Rightarrow> probe_request \<Rightarrow> bool" where
  "asks t verb q p \<longleftrightarrow> pq_verb p = verb \<and> pq_url p = probe_url t q"

definition usable_creds :: "probe_creds \<Rightarrow> bool" where
  "usable_creds c \<longleftrightarrow> pc_key_id c \<noteq> [] \<and> pc_secret c \<noteq> []"

lemma do_sends:
  assumes "probe_do w t c verb q to len payload n = (r, n')"
  shows "usable_creds c \<and> (\<exists>p. asks t verb q p \<and> pq_length p = len \<and> sn_sent n' = sn_sent n @ [p]) \<or>
    \<not> usable_creds c \<and> n' = n \<and> \<not> is_ok r"
proof -
  obtain s where s: "sign (se_sha w) (se_hmac w) c (tg_region t) payload (ex_signed_at (next_exchange n)) verb (fst to) (snd to)
      (encode_query q) = s" by blast
  then show ?thesis using assms
    by (cases s) (auto simp: probe_do_def Let_def asks_def usable_creds_def sign_def split: if_splits)
qed

lemma begin_sends:
  assumes "\<And>q. se_url_of w (probe_url t q) \<noteq> None" and "probe_begin w t c n = (r, n')"
  shows "usable_creds c \<and> (\<exists>p. asks t ''POST'' begin_query p \<and> pq_length p = 0 \<and> sn_sent n' = sn_sent n @ [p]) \<and>
      (case r of Inr upload \<Rightarrow> upload \<noteq> [] | Inl _ \<Rightarrow> True) \<or>
    \<not> usable_creds c \<and> n' = n \<and> \<not> is_ok r"
proof -
  obtain to where to: "build_request w t begin_query = Inr to"
    using assms(1) [of begin_query] by (cases "se_url_of w (probe_url t begin_query)") (auto simp: build_request_def)
  obtain x n1 where d: "probe_do w t c ''POST'' begin_query to 0 emptyPayload n = (x, n1)" by fastforce
  from do_sends [OF d] d to assms(2) show ?thesis
    by (cases x) (auto simp: probe_begin_def split: option.splits if_splits)
qed

lemma part_sends:
  assumes "\<And>q. se_url_of w (probe_url t q) \<noteq> None" and "probe_part w t c upload k len n = (r, n')" and "usable_creds c"
  shows "\<exists>p. asks t ''PUT'' (part_query upload k) p \<and> pq_length p = len \<and> sn_sent n' = sn_sent n @ [p]"
proof -
  obtain to where to: "build_request w t (part_query upload k) = Inr to"
    using assms(1) [of "part_query upload k"]
    by (cases "se_url_of w (probe_url t (part_query upload k))") (auto simp: build_request_def)
  obtain x n1 where d: "probe_do w t c ''PUT'' (part_query upload k) to len unsignedPayload n = (x, n1)" by fastforce
  from do_sends [OF d] d to assms(2,3) show ?thesis
    by (cases x) (auto simp: probe_part_def Let_def)
qed

lemma abort_sends:
  assumes "\<And>q. se_url_of w (probe_url t q) \<noteq> None" and "usable_creds c"
  shows "\<exists>p. asks t ''DELETE'' (abort_query upload) p \<and> pq_length p = 0 \<and>
    sn_sent (probe_abort w t c upload n) = sn_sent n @ [p]"
proof -
  obtain to where to: "build_request w t (abort_query upload) = Inr to"
    using assms(1) [of "abort_query upload"]
    by (cases "se_url_of w (probe_url t (abort_query upload))") (auto simp: build_request_def)
  obtain x n1 where d: "probe_do w t c ''DELETE'' (abort_query upload) to 0 emptyPayload n = (x, n1)" by fastforce
  from do_sends [OF d] d to assms(2) show ?thesis by (auto simp: probe_abort_def)
qed

lemma clamp_within: "lo \<le> hi \<Longrightarrow> lo \<le> clamp v lo hi \<and> clamp v lo hi \<le> hi"
  by (simp add: clamp_def)


text \<open>A bucket that takes everything, and one that takes the beginning only.\<close>

definition sample_speed :: speed_env where
  "sample_speed = \<lparr>se_sha = (\<lambda>x. x), se_hmac = (\<lambda>k x. k @ x), se_url_of = (\<lambda>_. Some (''https'', ''h'', ''h'', ''/b/k'')),
     se_upload_id = (\<lambda>_. Some ''u'')\<rparr>"

definition sample_target :: target where
  "sample_target = \<lparr>tg_endpoint = ''https://h'', tg_region = ''r'', tg_bucket = ''b'', tg_key = ''k''\<rparr>"

definition plain_options :: probe_options where
  "plain_options = \<lparr>op_warm_up = 0, op_target = 0, op_min_part = 0, op_max_part = 0\<rparr>"

definition answered :: "int \<Rightarrow> exchange" where
  "answered st = \<lparr>ex_signed_at = 0, ex_took = second, ex_done_at = 0, ex_reply = Reply st [] []\<rparr>"


end
