(* ===== verification/CardPage.thy ===== *)
theory CardPage
  imports StatusPage Disclosure SelfUpdate SpeedProbe
begin

text \<open>
  The pages of the local server that carry something out of the machine: the restore card
  (\<open>app/domain/statusapp/card.go\<close> over \<open>cmd/sion-backup/card.go\<close>, with the bucket's name from theory
  \<open>SpeedProbe\<close>), the buttons of the program itself (\<open>program.go\<close> over \<open>restart.go\<close>), and the record of
  who read the password (\<open>access.go\<close>). How an instant is written as a date is \<open>day\<close>, and how a URL is taken apart
  \<open>url_of\<close>: its scheme, its host with the port, its host without, and its path.
\<close>

section \<open>The restore card\<close>

record restore_card =
  cd_node :: string
  cd_owner :: string
  cd_url :: string
  cd_bucket :: string
  cd_password :: string
  cd_key_id :: string
  cd_key_secret :: string

record built_card =
  bc_card :: restore_card
  bc_destroy_old :: bool
  bc_state_err :: "err option"

definition card_not_enrolled :: err where
  "card_not_enrolled = Sentinel (''this machine is not enrolled, so there is no card to print.'' @
     [CHR 0x0A, CHR 0x0A] @ ''Run '' @ [CHR 0x22] @ ''sion-backup enroll --code <code>'' @ [CHR 0x22] @ '' first'')"

definition no_restore_key :: err where
  "no_restore_key = Sentinel (''Eumaeus did not return a read-only key pair for this machine, '' @
     ''so the card cannot be printed.'' @ [CHR 0x0A, CHR 0x0A] @
     ''This needs fixing on the server: the card must never carry the machine's own '' @
     ''key, which can write to the bucket'')"

definition build_card ::
  "(string \<Rightarrow> (string \<times> string \<times> string \<times> string) option) \<Rightarrow> desk_facts \<Rightarrow> office \<Rightarrow> built_card res \<times> office" where
  "build_card url_of w d =
     (if \<not> df_available w then (Inl card_not_enrolled, d)
      else case biz_state (df_parse w) (df_available w) (of_machine d) of
          (st, n) \<Rightarrow>
            (case for_run (df_parse w) (df_available w) (of_creds d) of
               (Inl e, c) \<Rightarrow> (Inl e, d\<lparr>of_machine := n, of_creds := c\<rparr>)
             | (Inr s, c) \<Rightarrow>
                 let d1 = d\<lparr>of_machine := n, of_creds := c\<rparr> in
                 if \<not> restore_complete (cs_restore s) then (Inl no_restore_key, d1)
                 else let known = (case st of Inr x \<Rightarrow> sv_node_id x | Inl _ \<Rightarrow> []);
                     (node, db) = (if known \<noteq> [] then (known, of_plan d1)
                       else case plandb_get (of_plan d1) of (Inr p, db) \<Rightarrow> (node_id p, db) | (Inl _, db) \<Rightarrow> ([], db))
                   in (Inr \<lparr>bc_card = \<lparr>cd_node = node,
                         cd_owner = (case st of Inr x \<Rightarrow> sv_owner_email x | Inl _ \<Rightarrow> []),
                         cd_url = cs_url s,
                         cd_bucket = (case target_for url_of (cs_url s) of Inr t \<Rightarrow> tg_bucket t | Inl _ \<Rightarrow> []),
                         cd_password = cr_password (cs_credentials s), cd_key_id = rk_key_id (cs_restore s),
                         cd_key_secret = rk_secret (cs_restore s)\<rparr>,
                       bc_destroy_old = (case st of Inr x \<Rightarrow> server_destroy_the_old (sv_card x) | Inl _ \<Rightarrow> False),
                       bc_state_err = (case st of Inl e \<Rightarrow> Some e | Inr _ \<Rightarrow> None)\<rparr>, d1\<lparr>of_plan := db\<rparr>)))"

text \<open>A machine with no fleet to tell has done all there was to do.\<close>

definition record_card_issued :: "desk_facts \<Rightarrow> string \<Rightarrow> office \<Rightarrow> err option \<times> office" where
  "record_card_issued w url d =
     (if \<not> df_available w then (None, d)
      else case biz_card_issued (df_parse w) (df_available w) url (df_now w) (of_machine d) of
          (Inl e, n) \<Rightarrow> (Some e, d\<lparr>of_machine := n\<rparr>)
        | (Inr _, n) \<Rightarrow> (None, d\<lparr>of_machine := n\<rparr>))"

definition card_printed :: "desk_facts \<Rightarrow> string \<Rightarrow> office \<Rightarrow> err option \<times> office" where
  "card_printed w url d =
     (if url = []
      then (Some (Sentinel (''this computer could not tell which repository that card was '' @
        ''for, so it recorded nothing. Show the card again and confirm from the page it is on'')), d)
      else case record_card_issued w url d of
          (None, d1) \<Rightarrow> (None, d1)
        | (Some e, d1) \<Rightarrow>
            (Some (if err_is ErrNoRepository e
               then Sentinel (''that card was printed for a bucket this computer no longer '' @
                 ''backs up to, so the server did not accept it. Print a new card, and '' @
                 ''destroy the one you are holding once the old bucket has been retired'')
               else Wrap ''the card is fine, but this computer could not tell the server about it: '' e
                 (''. Nothing is wrong with the page you printed -- press this '' @
                  ''again when the machine can reach the server'')), d1))"

text \<open>\<open>card --printed\<close>: \<open>None\<close> says that the card was recorded.\<close>

definition confirm_card_printed :: "desk_facts \<Rightarrow> office \<Rightarrow> err option \<times> office" where
  "confirm_card_printed w d =
     (case biz_state (df_parse w) (df_available w) (of_machine d) of
        (st, n) \<Rightarrow>
          let d1 = d\<lparr>of_machine := n\<rparr>;
              named = (case st of Inr x \<Rightarrow> sv_repository_url x | Inl _ \<Rightarrow> []);
              (read, d2) = (if named \<noteq> [] then (Inr named, d1)
                else case plandb_get (of_plan d1) of
                    (Inl e, db) \<Rightarrow> (Inl (Wrap ''reading this machine's plan: '' e []), d1\<lparr>of_plan := db\<rparr>)
                  | (Inr p, db) \<Rightarrow> (Inr (repository p), d1\<lparr>of_plan := db\<rparr>))
          in (case read of
              Inl e \<Rightarrow> (Some e, d2)
            | Inr url \<Rightarrow>
                if url = []
                then (Some (Sentinel ''this machine has no repository yet, so there is no card to record''), d2)
                else (case record_card_issued w url d2 of
                    (None, d3) \<Rightarrow> (None, d3)
                  | (Some e, d3) \<Rightarrow> (Some (Wrap ''telling the server that the card was printed: '' e []), d3))))"

text \<open>The command \<open>card\<close>, with the answer to its question: what it says, and the error it ends with.\<close>

datatype card_said = CardStateUnread err | CardOnPaper restore_card | CardDestroyOld | CardLeftUnrecorded
  | CardServerNotTold err | CardIsRecorded

definition card_cmd ::
  "(string \<Rightarrow> (string \<times> string \<times> string \<times> string) option) \<Rightarrow> desk_facts \<Rightarrow> bool \<Rightarrow> bool res \<Rightarrow> office \<Rightarrow>
    err option \<times> card_said list \<times> office" where
  "card_cmd url_of w printed answer d =
     (if printed
      then (case confirm_card_printed w d of
          (None, d1) \<Rightarrow> (None, [CardIsRecorded], d1)
        | (Some e, d1) \<Rightarrow> (Some e, [], d1))
      else case build_card url_of w d of
          (Inl e, d1) \<Rightarrow> (Some e, [], d1)
        | (Inr b, d1) \<Rightarrow>
            let told = (case bc_state_err b of None \<Rightarrow> [] | Some e \<Rightarrow> [CardStateUnread e]) @ [CardOnPaper (bc_card b)] @
                  (if bc_destroy_old b then [CardDestroyOld] else [])
            in (case answer of
                Inl e \<Rightarrow> (Some e, told, d1)
              | Inr ok \<Rightarrow>
                  if \<not> ok then (None, told @ [CardLeftUnrecorded], d1)
                  else (case record_card_issued w (cd_url (bc_card b)) d1 of
                      (None, d2) \<Rightarrow> (None, told, d2)
                    | (Some e, d2) \<Rightarrow> (None, told @ [CardServerNotTold e], d2))))"

record card_view =
  cv_card :: "built_card option"
  cv_owed :: bool
  cv_say :: string
  cv_problem :: string
  cv_filed :: bool

definition render_card :: "desk_facts \<Rightarrow> built_card option \<Rightarrow> string \<Rightarrow> bool \<Rightarrow> office \<Rightarrow> card_view \<times> office" where
  "render_card w pap problem filed d =
     (case biz_machine_state plandb (of_plan d) of
        (s, db) \<Rightarrow>
          let (owed, what) = (case s of Inr t \<Rightarrow> page_card_advice (ms_card t) | Inl _ \<Rightarrow> (False, [])) in
          (\<lparr>cv_card = pap, cv_owed = (owed \<and> \<not> filed), cv_say = (if filed then [] else what),
            cv_problem = (if \<not> df_available w \<and> problem = []
              then ''This computer is not enrolled, so there is no card to print.'' else problem),
            cv_filed = filed\<rparr>, d\<lparr>of_plan := db\<rparr>))"

definition show_card_page ::
  "(string \<Rightarrow> (string \<times> string \<times> string \<times> string) option) \<Rightarrow> desk_facts \<Rightarrow> office \<Rightarrow> card_view \<times> office" where
  "show_card_page url_of w d =
     (case build_card url_of w d of
        (Inl e, d1) \<Rightarrow> render_card w None (err_text e) False d1
      | (Inr b, d1) \<Rightarrow> render_card w (Some b) [] False d1)"

datatype card_answer = CardFiled | CardShown card_view

definition card_page :: "desk_facts \<Rightarrow> bool \<Rightarrow> office \<Rightarrow> card_view \<times> office" where
  "card_page w filed d = render_card w None [] filed d"

definition card_printed_page :: "desk_facts \<Rightarrow> form \<Rightarrow> office \<Rightarrow> card_answer \<times> office" where
  "card_printed_page w f d =
     (case card_printed w (f ''repository'') d of
        (Some e, d1) \<Rightarrow> (case render_card w None (err_text e) False d1 of (v, d2) \<Rightarrow> (CardShown v, d2))
      | (None, d1) \<Rightarrow> (CardFiled, refresh_state w d1))"

section \<open>The program's own buttons\<close>

definition restart_delay :: "string \<Rightarrow> duration" where
  "restart_delay goos =
     (if goos = ''windows'' then 5 * minute else if goos = ''darwin'' then 5 * second else 30 * second)"

definition errBackupRunning :: err where
  "errBackupRunning = Sentinel (''a backup is running. Restarting now would abandon it part-way and the next '' @
     ''run would start again from the beginning; this page will let you restart '' @ ''as soon as it has finished'')"

definition restart_daemon :: "string \<Rightarrow> bool \<Rightarrow> bool \<Rightarrow> duration res" where
  "restart_daemon goos is_service running =
     (if \<not> is_service
      then Inl (Sentinel (''this program is not running as a service, so nothing would start it '' @
        ''again. Stop and start it the way it was started''))
      else if running then Inl errBackupRunning
      else Inr (restart_delay goos))"

record update_outcome =
  uo_installed :: string
  uo_unavailable :: string

text \<open>What the updater answered is the release it swapped in, that there was nothing newer, or an error. Beside the outcome:
  whether a report was recorded, and whether the program is another one now.\<close>

definition check_for_update ::
  "string \<Rightarrow> bool \<Rightarrow> bool \<Rightarrow> bool \<Rightarrow> string option res \<Rightarrow> update_outcome res \<times> bool \<times> bool" where
  "check_for_update data_dir updates has_updater running answer =
     (let unavailable = (\<lambda>t. (Inr \<lparr>uo_installed = [], uo_unavailable = t\<rparr>, False, False)) in
      if \<not> updates then unavailable ''Updates are switched off for this machine in its config.toml.''
      else if \<not> has_updater then unavailable ''This build cannot update itself.''
      else if running
      then unavailable (''A backup is running. Replacing the program while it is '' @
        ''reading your files is a needless risk, so this waits until the run has finished.'')
      else case answer of
          Inl e \<Rightarrow>
            if err_is ErrNotWritable e
            then unavailable (''This copy of the program is installed somewhere it may not '' @
              ''replace itself ('' @ data_dir @ ''). Updating it is the administrator's to do.'')
            else if err_is ErrNoRelease e
            then unavailable ''There is no installable release for this platform.''
            else (Inl e, True, False)
        | Inr None \<Rightarrow> (Inr \<lparr>uo_installed = [], uo_unavailable = []\<rparr>, False, False)
        | Inr (Some v) \<Rightarrow> (Inr \<lparr>uo_installed = v, uo_unavailable = []\<rparr>, False, True))"

record program_view =
  pv_source :: string
  pv_refused :: "string list"
  pv_installed :: string
  pv_newest :: bool
  pv_unavailable :: string
  pv_restart_in :: "duration option"
  pv_problem :: string

definition can_check :: "program_view \<Rightarrow> bool" where
  "can_check v \<longleftrightarrow> pv_source v \<noteq> []"

definition program_section :: "string \<times> string list \<Rightarrow> program_view" where
  "program_section from =
     \<lparr>pv_source = fst from, pv_refused = snd from, pv_installed = [], pv_newest = False, pv_unavailable = [],
      pv_restart_in = None, pv_problem = []\<rparr>"

definition after_check ::
  "string \<times> string list \<Rightarrow> string list \<Rightarrow> update_outcome res \<Rightarrow> (string \<times> err) + program_view" where
  "after_check from refused_now r =
     (case r of
        Inl e \<Rightarrow> Inl (''checking for a newer version'', e)
      | Inr x \<Rightarrow>
          let v = program_section from in
          Inr ((if uo_unavailable x \<noteq> [] then v\<lparr>pv_unavailable := uo_unavailable x\<rparr>
            else if uo_installed x \<noteq> [] then v\<lparr>pv_installed := uo_installed x\<rparr>
            else v\<lparr>pv_newest := True\<rparr>)\<lparr>pv_refused := refused_now\<rparr>))"

definition after_restart :: "string \<times> string list \<Rightarrow> duration res \<Rightarrow> program_view" where
  "after_restart from x =
     (case x of
        Inl e \<Rightarrow> (program_section from)\<lparr>pv_problem := err_text e\<rparr>
      | Inr t \<Rightarrow> (program_section from)\<lparr>pv_restart_in := Some t\<rparr>)"

text \<open>The plan the answer is shown over: a machine without one has the usual timetable.\<close>

definition program_plan :: "plan res \<Rightarrow> (string \<times> err) + plan" where
  "program_plan r =
     (case r of
        Inr p \<Rightarrow> Inr p
      | Inl e \<Rightarrow> if err_is ErrNoPlan e then Inr (zero_plan\<lparr>plan_schedule := default_schedule\<rparr>)
          else Inl (''reading the backup plan'', e))"

definition restart_seconds :: "program_view \<Rightarrow> int" where
  "restart_seconds v =
     (case pv_restart_in v of
        None \<Rightarrow> 0
      | Some t \<Rightarrow> if t \<le> 0 then 0 else int_of_float (duration_seconds (t + 10 * second)))"

definition restart_wait :: "duration \<Rightarrow> string" where
  "restart_wait t =
     (let secs = int_of_float (duration_seconds t) in
      if secs \<le> 0 then ''in a moment''
      else if secs < 90 then ''in about '' @ itoa secs @ '' seconds''
      else if secs < 120 then ''within about two minutes''
      else ''within about '' @ itoa (trunc_div (secs + 59) 60) @ '' minutes'')"

section \<open>The record of who read the password\<close>

definition check_sentence :: "(instant \<Rightarrow> string) \<Rightarrow> dreport \<Rightarrow> sentence" where
  "check_sentence day r =
     (case dr_verdict r of
        Agrees \<Rightarrow>
          let since = (case dr_against r of None \<Rightarrow> day zero_time | Some k \<Rightarrow> day (kp_seen k)) in
          \<lparr>level = ''good'', heading = ''This record has not been altered since '' @ since,
           detail = ''Each entry is sealed with the one before it, and this computer '' @
             ''keeps its own copy of that seal every time it looks. The seal it wrote down on '' @ since @
             '' still matches, so no entry recorded before then has been changed or removed.''\<rparr>
      | FirstLook \<Rightarrow>
          \<lparr>level = ''warn'', heading = ''This is the first time this computer has looked'',
           detail = ''It has just written down the seal on this record. From now on it can tell you whether '' @
             ''what you are shown still matches '' @ dash @ '' but today it has nothing to compare against.''\<rparr>
      | Unproven \<Rightarrow>
          \<lparr>level = ''warn'', heading = ''This record goes back further than this computer can check'',
           detail = ''The entries shown do not reach back to the oldest seal this computer has written down, '' @
             ''so it cannot vouch for the entries before them. Everything shown here links up correctly.''\<rparr>
      | Shrunk \<Rightarrow>
          \<lparr>level = ''bad'', heading = ''This record is shorter than it was'',
           detail = ''This computer has seen more entries in this record than it is being shown now. Entries '' @
             ''only ever get added, so one has been removed. Tell whoever looks after your backups, today.''\<rparr>
      | Rewritten \<Rightarrow>
          \<lparr>level = ''bad'', heading = ''An entry in this record has been changed'',
           detail = ''An entry no longer matches the seal this computer wrote down for it when it looked before. '' @
             ''Either that entry or one before it has been altered. Tell whoever looks after your backups, today.''\<rparr>
      | Broken \<Rightarrow>
          \<lparr>level = ''bad'', heading = ''This record does not hold together'',
           detail = ''Each entry is supposed to be sealed with the one before it, and these are not. '' @
             ''Tell whoever looks after your backups, today.''\<rparr>)"

definition foreign_keys :: "dreport \<Rightarrow> string" where
  "foreign_keys r = join_with '', '' (filter (\<lambda>i. i \<noteq> []) (map en_detail (dr_foreign r)))"

datatype access_view =
    NothingToShow string
  | AccessShown dreport sentence instant string

definition access_page ::
  "(instant \<Rightarrow> string) \<Rightarrow> 's head_storer \<Rightarrow> dlog res option \<Rightarrow> instant \<Rightarrow> 's \<Rightarrow> access_view \<times> 's" where
  "access_page day st source now s =
     (if source = None
      then (NothingToShow (''This computer is not enrolled, so it has never been given '' @
        ''a password and there is nothing to show.''), s)
      else case read_trail st source now s of
          (Inl e, s1) \<Rightarrow>
            (NothingToShow (if err_is ErrUnsupported e
               then ''The server this computer reports to does not keep this record yet. Nothing is wrong with your backups.''
               else if err_is ErrNotEnrolled e
               then ''This computer is no longer enrolled. It cannot read its own record, and it cannot back up either '' @
                 dash @ '' the Status page says more.''
               else ''This computer could not reach the server to read the '' @
                 ''record just now. This says nothing about your backups; try again later.''), s1)
        | (Inr r, s1) \<Rightarrow>
            (AccessShown r (check_sentence day r)
               (case dr_machines r of e # _ \<Rightarrow> en_at e | [] \<Rightarrow> zero_time) (foreign_keys r), s1))"

section \<open>Who says that a card is on paper\<close>

definition recording_call :: "string \<Rightarrow> instant \<Rightarrow> machine_body request_made" where
  "recording_call url t = \<lparr>req_method = ''POST'', req_path = ''/machines/me/card-issued'', req_body = CardBody url t\<rparr>"

lemma recording_asks:
  "record_card_issued w url d = (r, d') \<Longrightarrow> of_plan d' = of_plan d \<and> of_runs d' = of_runs d \<and> of_creds d' = of_creds d \<and>
    made (of_machine d') = made (of_machine d) @
      (if df_available w \<and> url \<noteq> [] then [recording_call url (df_now w)] else [])"
  by (auto simp: record_card_issued_def biz_card_issued_def source_card_issued_def api_do_def recording_call_def
      split: if_splits sum.splits prod.splits)

lemma card_shown_asks:
  "build_card url_of w d = (r, d') \<Longrightarrow> same_data (of_plan d) (of_plan d') \<and>
    made (of_machine d') = made (of_machine d) @ (if df_available w then [state_call] else [])"
  by (auto simp: build_card_def Let_def dest!: state_asks get_same split: if_splits sum.splits prod.splits)

lemma card_is_whole:
  assumes "build_card url_of w d = (Inr b, d')"
  shows "cd_url (bc_card b) \<noteq> [] \<and> cd_password (bc_card b) \<noteq> [] \<and> df_available w \<and>
    (\<exists>s. fst (fetch_creds (df_parse w) (of_creds d)) = Inr s \<and> cd_url (bc_card b) = cs_url s \<and>
       cd_password (bc_card b) = cr_password (cs_credentials s) \<and> restore_complete (cs_restore s) \<and>
       cd_key_id (bc_card b) = rk_key_id (cs_restore s) \<and> cd_key_secret (bc_card b) = rk_secret (cs_restore s))"
  using assms
  by (auto simp: build_card_def Let_def complete_def dest!: for_run_ok split: if_splits sum.splits prod.splits)

lemma render_shows: "render_card w pap problem filed d = (v, d') \<Longrightarrow> of_machine d' = of_machine d \<and> cv_card v = pap"
  by (auto simp: render_card_def Let_def split: prod.splits)

lemma printed_asks:
  assumes "card_printed w url d = (r, d')"
  shows "made (of_machine d') = made (of_machine d) @
    (if df_available w \<and> url \<noteq> [] then [recording_call url (df_now w)] else [])" and "r = None \<Longrightarrow> url \<noteq> []"
proof -
  show "url \<noteq> []" if "r = None" using assms that by (auto simp: card_printed_def)
  obtain x d1 where c: "record_card_issued w url d = (x, d1)" by fastforce
  from recording_asks [OF c] c assms show "made (of_machine d') = made (of_machine d) @
    (if df_available w \<and> url \<noteq> [] then [recording_call url (df_now w)] else [])"
    by (auto simp: card_printed_def split: option.splits if_splits)
qed


text \<open>A machine that is not enrolled says that its card was recorded, and has told nobody.\<close>

lemma card_recorded_nowhere:
  assumes "\<not> df_available w" "plandb_get (of_plan d) = (Inr p, db)" "repository p \<noteq> []"
  shows "card_cmd url_of w True answer d = (None, [CardIsRecorded], d\<lparr>of_plan := db\<rparr>)"
  using assms by (simp add: card_cmd_def confirm_card_printed_def biz_state_def record_card_issued_def)

lemma check_sentence_level:
  "level (check_sentence day r) = (case dr_verdict r of Agrees \<Rightarrow> ''good'' | FirstLook \<Rightarrow> ''warn'' | Unproven \<Rightarrow> ''warn''
     | _ \<Rightarrow> ''bad'')"
  by (cases "dr_verdict r") (simp_all add: check_sentence_def Let_def)

text \<open>The page of a restart is read again ten seconds after the program is expected back.\<close>

lemma restart_seconds_cover:
  "restart_seconds (after_restart from (Inr (restart_delay goos))) * second = restart_delay goos + 10 * second"
proof -
  have "restart_seconds (program_section from\<lparr>pv_restart_in := Some t\<rparr>) * second = t + 10 * second"
    if "t \<in> {5 * minute, 5 * second, 30 * second}" for t
    using that by (auto simp: ) code_simp+
  then show ?thesis by (simp add: after_restart_def restart_delay_def)
qed

end
