(* ===== verification/Pages.thy ===== *)
theory Pages
  imports Loopback SetupPage CardPage
begin

text \<open>
  The pages behind their guard: which handler of \<open>app/domain/statusapp\<close> a request reaches (the routes of \<open>New\<close> in
  \<open>statusapp.go\<close>, a pattern of GET answering HEAD as well), and that every button needs the guard's word. The path of
  the style sheet is an argument.
\<close>

datatype handler = StyleSheet | HealthCheck | FrontPage | AccessRecord | CardForm | CardShow | CardPrinted | SettingsForm
  | SettingsSave | UpdateCheck | ProgramRestart | SetupForm | SetupSave | SpeedRetest | SizesRemeasure | RotationForm
  | RotationAsk | RotationAccept | RunNow | RunCancel

definition shown_at :: "string \<Rightarrow> (string \<times> handler) list" where
  "shown_at sheet = [(sheet, StyleSheet), (''/healthz'', HealthCheck), (''/'', FrontPage), (''/access'', AccessRecord),
     (''/card'', CardForm), (''/settings'', SettingsForm), (''/setup'', SetupForm), (''/rotation'', RotationForm)]"

definition posted_to :: "(string \<times> handler) list" where
  "posted_to = [(''/card'', CardShow), (''/card/printed'', CardPrinted), (''/settings'', SettingsSave),
     (''/settings/update'', UpdateCheck), (''/settings/restart'', ProgramRestart), (''/setup'', SetupSave),
     (''/setup/speed'', SpeedRetest), (''/setup/measure'', SizesRemeasure), (''/rotation/request'', RotationAsk),
     (''/rotation/cutover'', RotationAccept), (''/run'', RunNow), (''/run/cancel'', RunCancel)]"

definition route :: "string \<Rightarrow> string \<Rightarrow> string \<Rightarrow> handler option" where
  "route sheet verb path =
     (if verb = ''GET'' \<or> verb = ''HEAD'' then map_of (shown_at sheet) path
      else if verb = ''POST'' then map_of posted_to path
      else None)"

text \<open>The buttons: what shows a secret, asks the server, starts or stops something, or changes what is stored.\<close>

definition button :: "handler \<Rightarrow> bool" where
  "button h \<longleftrightarrow> h \<in> {CardShow, CardPrinted, SettingsSave, UpdateCheck, ProgramRestart, SetupSave, SpeedRetest,
     SizesRemeasure, RotationAsk, RotationAccept, RunNow, RunCancel}"

lemma shown_is_no_button: "map_of (shown_at sheet) path = Some h \<Longrightarrow> \<not> button h"
  by (auto simp: shown_at_def button_def split: if_splits)

lemma posted_is_button: "map_of posted_to path = Some h \<Longrightarrow> button h"
  by (auto simp: posted_to_def button_def split: if_splits)

text \<open>C27: a request that a browser sends from a page reaches a button exactly when it is posted to one of the twelve
  addresses that are buttons, the page was itself loaded from this computer, by a name of its own and the program's
  port, and its form has the word of this process. A page of another site that posts to the program gets nothing done,
  and neither does one whose name was pointed at this computer after it was loaded; and the program's own pages work in
  a browser that hides their origin.\<close>

theorem buttons_answer_own_pages:
  assumes "good_target target"
    and "host_of (or_scheme page @ ''://'' @ authority page) = Some (authority page)"
    and "r = browser_request verb (Some (page, hides)) same_site target form"
  shows "(\<exists>h. guard_wrap host_of g (\<lambda>r. route sheet (wr_method r) path) r = Served (Some h) \<and> button h) \<longleftrightarrow>
    page = target \<and> here page \<and> verb = ''POST'' \<and> map_of posted_to path \<noteq> None \<and>
    (gd_port g = [] \<or> or_port page = gd_port g) \<and> form TokenField = gd_token g"
proof (cases "verb = ''POST''")
  case True
  have post: "\<not> safe_method ''POST''" "''POST'' \<noteq> ''GET''" "''POST'' \<noteq> ''HEAD''" by code_simp+
  have m: "wr_method r = ''POST''" using assms(3) True by (simp add: browser_request_def)
  note own = only_own_forms_are_served [where target = target and verb = "''POST''" and host_of = host_of and
      page = page and r = r and hides = hides and same_site = same_site and form = form and g = g and
      h = "\<lambda>r. route sheet (wr_method r) path", OF assms(1) post(1) assms(2)]
  let ?k = "\<lambda>r. route sheet (wr_method r) path"
  have kr: "?k r = map_of posted_to path" by (simp add: route_def m)
  have "x = ?k r" if "guard_wrap host_of g ?k r = Served x" for x
    using that by (simp add: guard_wrap_def split: if_splits option.splits)
  then have "(\<exists>h. guard_wrap host_of g ?k r = Served (Some h) \<and> button h) \<longleftrightarrow>
      guard_wrap host_of g ?k r = Served (?k r) \<and> map_of posted_to path \<noteq> None"
    using kr posted_is_button [of path] by (cases "map_of posted_to path") (force, metis option.distinct(1))
  then show ?thesis using own [OF assms(3) [unfolded True]] True by blast
next
  case False
  have m: "wr_method r = verb" using assms(3) by (simp add: browser_request_def)
  have "\<not> button h" if "guard_wrap host_of g (\<lambda>r. route sheet (wr_method r) path) r = Served (Some h)" for h
    using that False shown_is_no_button [of sheet path h] m
    by (auto simp: guard_wrap_def route_def split: if_splits option.splits)
  then show ?thesis using False by blast
qed

theorem buttons_answer_own_pages_witness:
  "let f = (\<lambda>_. ''AQID''); r = (\<lambda>p. browser_request ''POST'' (Some (p, True)) False own_page f);
       host_of = (\<lambda>u. if u = ''http://127.0.0.1:7391'' then Some ''127.0.0.1:7391'' else Some ''evil.example:443'');
       pressed = (\<lambda>p. \<exists>h. guard_wrap host_of sample_guard (\<lambda>r. route [] (wr_method r) ''/run'') (r p) = Served (Some h) \<and> button h)
   in pressed own_page \<and> \<not> pressed other_page"
proof -
  let ?h = "\<lambda>u :: string. if u = ''http://127.0.0.1:7391'' then Some ''127.0.0.1:7391'' else Some ''evil.example:443''"
  let ?r = "\<lambda>p. browser_request ''POST'' (Some (p, True)) False own_page (\<lambda>_. ''AQID'')"
  have sample: "good_target own_page" "here own_page" "gd_token sample_guard = ''AQID''"
    "or_port own_page = gd_port sample_guard" "other_page \<noteq> own_page" "map_of posted_to ''/run'' \<noteq> None"
    "?h (or_scheme own_page @ ''://'' @ authority own_page) = Some (authority own_page)"
    "?h (or_scheme other_page @ ''://'' @ authority other_page) = Some (authority other_page)"
    by code_simp+
  note own = buttons_answer_own_pages [where target = own_page and host_of = ?h and page = own_page and r = "?r own_page"
      and verb = "''POST''" and hides = True and same_site = False and form = "\<lambda>_. ''AQID''" and g = sample_guard
      and sheet = "[]" and path = "''/run''", OF sample(1,7) refl]
  note other = buttons_answer_own_pages [where target = own_page and host_of = ?h and page = other_page and r = "?r other_page"
      and verb = "''POST''" and hides = True and same_site = False and form = "\<lambda>_. ''AQID''" and g = sample_guard
      and sheet = "[]" and path = "''/run''", OF sample(1,8) refl]
  show ?thesis using own other sample(2-6) by simp
qed

end
