(* ===== verification/Spec2Isabelle.thy ===== *)
theory Spec2Isabelle
  imports Measure Rotation PlanDb Restic BackupDb Fleet Diag UpdateSpec DisclosureDb Machine Credential DaemonSafety ResticInstall Survey Netcost Adopt Pages
begin

text \<open>
  A verification development for \<open>sion-backup\<close>, a program that backs up the machines of a small fleet with
  restic and reports to a server. Paths below are those of the repository, under \<open>src/\<close>.

  \<^bold>\<open>The program.\<close> A daemon runs on every machine. At each tick it reads the plan (what is backed up and
  when), asks whether a backup is due, and if one is, makes sure restic is installed, fetches the
  credentials of the run from the server, opens the repository, writes a file with a random value, backs up,
  restores that file and compares it, and records the outcome in a database. Afterwards it tells the server,
  measures the repository, checks a slice of it once a week, releases the old bucket when it has moved to a
  new one, and looks for a new version of itself. Beside this it polls the server for what it says of the
  machine, checks the server's log of disclosures against what it wrote down before, sends the reports of
  its own failures, and measures the folders somebody is choosing between. A page it serves on the machine
  itself shows how it stands, and is where somebody says what to back up. Two commands put a machine under
  its care: \<open>enroll\<close> claims a code of the server, \<open>adopt-enroll\<close> takes over what an older script backed up.

  \<^bold>\<open>The theories.\<close> Each opens with a text that names its files.
  \<^item> What Go gives: \<open>Prelude\<close> (machine integers, faults), \<open>GoText\<close>, \<open>GoTime\<close>, \<open>GoFloat\<close>, \<open>GoPath\<close>, \<open>Errors\<close>
    (chains of errors), \<open>Json\<close> and \<open>JsonTime\<close>, \<open>GoRegexp\<close> (the matches of the regular expressions that the
    reading of a script uses), \<open>Disk\<close> (a directory whose operations may fail).
  \<^item> The plan, \<open>business/domain/plan\<close>: \<open>Schedule\<close>, \<open>Measure\<close>, \<open>Rotation\<close>, \<open>Plan\<close>, and its store \<open>PlanDb\<close>.
  \<^item> Backups: \<open>Restic\<close> and \<open>ResticInstall\<close> (\<open>foundation/restic\<close>), \<open>Backup\<close> and \<open>BackupDb\<close>
    (\<open>business/domain/backup\<close>).
  \<^item> The server: \<open>Api\<close> (\<open>foundation/eumaeusapi\<close>), \<open>Fleet\<close>, \<open>Diag\<close>, \<open>Machine\<close>, \<open>Credential\<close>, \<open>Disclosure\<close> and
    \<open>DisclosureDb\<close> (the domains of those names), \<open>Token\<close> (\<open>foundation/token\<close>).
  \<^item> The program replacing itself, \<open>foundation/selfupdate\<close>: \<open>SelfUpdate\<close>, with its properties in
    \<open>UpdateSafety\<close> and \<open>UpdateSpec\<close>.
  \<^item> What could be backed up: \<open>Dirsize\<close> (\<open>foundation/dirsize\<close>), \<open>Survey\<close> (\<open>business/domain/survey\<close>),
    \<open>SpeedProbe\<close> (\<open>foundation/s3probe\<close>: the speed of the connection to the bucket) and \<open>Netcost\<close>
    (\<open>foundation/netcost\<close>: whether somebody pays for it).
  \<^item> How a machine comes to it: \<open>Legacy\<close> and \<open>LegacyScan\<close> (\<open>business/domain/legacy\<close>: the reading and the finding of
    an older backup script), \<open>Config\<close> (\<open>cmd/sion-backup/config.go\<close>: the configuration file and the plan it seeds),
    \<open>Enroll\<close> and \<open>Adopt\<close> (\<open>enroll.go\<close> and \<open>adopt.go\<close> beside it).
  \<^item> The local page: \<open>Loopback\<close> (\<open>app/sdk/loopback\<close>, its guard), \<open>SetupPage\<close>, \<open>StatusPage\<close> and \<open>CardPage\<close>
    (\<open>app/domain/statusapp\<close> with \<open>card.go\<close> and \<open>restart.go\<close> of \<open>cmd/sion-backup\<close>), and \<open>Pages\<close> (its routes).
  \<^item> All of it together, \<open>cmd/sion-backup/daemon.go\<close> and the files beside it: \<open>Daemon\<close>, with what its steps
    do in \<open>DaemonSteps\<close> and what holds of a whole backup in \<open>DaemonSafety\<close>.

  \<^bold>\<open>How state and operations correspond.\<close> An operation of the code is a function that takes the state it
  works on and returns its result with the new state. The state of a store is a record of its tables; that of
  a disk is a map from paths to contents; what restic and the server answer is a list of coming answers in a
  \<open>world\<close> or a network, which also logs what was run and what was asked. A statement, a write or a rename
  that can fail reads whether it does from a list of faults, so that a theorem that speaks of every list
  speaks of every failure. An error is a value of \<open>err\<close>, a result a sum. Code that is not in the repository
  (a JSON reader, SHA-256, a process, the clock of a zone) is an argument of the definitions that use it.

  \<^bold>\<open>Interfaces.\<close> \<open>plan_store\<close> (theory \<open>Plan\<close>) is what the domain of the plan relies on of its store; \<open>run_store\<close>
  (\<open>Backup\<close>), \<open>head_store\<close> (\<open>Disclosure\<close>) and \<open>drain\<close> with \<open>logged_drain\<close> (\<open>Drain\<close>) likewise. Each is interpreted
  on the model of the code that provides it: \<open>PlanDb\<close>, \<open>BackupDb\<close>, \<open>DisclosureDb\<close>, \<open>Fleet\<close> and \<open>Diag\<close>.

  \<^bold>\<open>What is shown.\<close> The plan stays valid under every sequence of operations and a backup starts exactly when
  it should; a run counts as verified only when its file came back, and every attempt leaves a row; a
  repository is created only by permission; events and reports leave in order and only once they were
  accepted; an update never leaves the machine without a program, refines a machine that knows of no files,
  and ends every trial; restic is installed whole or not at all; a server that rewrites its log is noticed and
  an honest one never accused; credentials, claims and stored answers are whole; the token is never torn; a
  size that is shown is that of what a backup would take, and measuring comes to an end; a
  measurement of the connection leaves nothing in the bucket. A script is read as
  the shell would set it, and a search that finds none looked everywhere; a code is claimed once, last, and
  only where none was spent before; an adoption writes nothing without a yes, and its first visit only reads.
  A button of the page answers only to a page this computer served; a plan is confirmed only by the button
  for it, and a restore card is recorded only when a person says that it is on paper.

  \<^bold>\<open>Bounds and fuel.\<close> Every function is total. Loops over lists are structural. The search for a slot looks
  eight days back or ahead, as the code does; the two loops over a check and its retry are written out. Where
  a fuel argument bounds a search its theory says why it is enough.

  \<^bold>\<open>Not modelled.\<close> What is concurrent is taken one step after the other; a crash of the machine between two
  steps of a swap is left out; so are the paths and the volumes of Windows, the page's templates, styles and
  headers, the printing of the commands, the commands that only gather and print (\<open>recon\<close>, \<open>doctor\<close>, \<open>run\<close>,
  \<open>diagnostics\<close>), elevation and services, and the stand-ins for the server under \<open>scripts/\<close>. The manifest lists every part with what is left out of it.
\<close>

end
